(* ===== verification/Prelude.thy ===== *)
theory Prelude
  imports Complex_Main "HOL-Library.Word" "HOL-Library.AList" "HOL-Library.Multiset"
begin

text \<open>
  What the components share: the machine types of the Go code, the decimal package as a
  parameter, Go maps, the string functions of package \<open>strings\<close> the code calls, and the
  generic lemmas on lists, association lists and 64-bit words.

  \<^item> \<open>int64\<close> (update ids) is a 64-bit word read as two's complement, so \<open>+ 1\<close> wraps as Go's does.
  \<^item> \<open>time\<close> is Go's \<open>time.Time\<close> as nanoseconds since the zero Time (1 January of year 1, UTC);
    \<open>IsZero\<close> is equality with 0. \<open>Time.Sub\<close> saturates at the range of the 64-bit \<open>Duration\<close>.
  \<^item> \<open>decimal.Decimal\<close> (package shopspring/decimal, not part of this repository) is a type
    parameter \<open>'d\<close> of class linordered_idom: its addition, subtraction, multiplication,
    negation, absolute value and comparison are exact. Division, \<open>String\<close> and
    \<open>NewFromString\<close> are the fields of a record that every definition using them takes as an
    argument; what the package documents about them is \<open>decimal_strings\<close> and \<open>decimal_div\<close>.
  \<^item> A Go map that the code iterates is an association list (one of the orders the
    runtime may choose); a map that is only looked up is a HOL map.
\<close>

named_theorems book_simps \<open>rewriting of the order book operations\<close>
named_theorems handler_simps \<open>unfolding of the symbol handler's helpers\<close>
named_theorems fill_simps \<open>unfolding of the fill arithmetic\<close>
named_theorems state_defs \<open>definitions of component invariants\<close>

section \<open>Integers, time\<close>

type_synonym int64 = "64 word"

type_synonym time = int

type_synonym duration = int

definition IsZeroTime :: "time \<Rightarrow> bool" where
  "IsZeroTime t \<longleftrightarrow> t = 0"

definition maxDuration :: duration where
  "maxDuration = 2 ^ 63 - 1"

definition minDuration :: duration where
  "minDuration = - (2 ^ 63)"

definition time_Sub :: "time \<Rightarrow> time \<Rightarrow> duration" where
  "time_Sub t u = max minDuration (min maxDuration (t - u))"

definition unixEpoch :: time where
  "unixEpoch = 62135596800 * 1000000000"

definition UnixMilli :: "int64 \<Rightarrow> time" where
  "UnixMilli ms = unixEpoch + sint ms * 1000000"

lemma time_Sub_range: "minDuration \<le> time_Sub t u \<and> time_Sub t u \<le> maxDuration"
  by (simp add: time_Sub_def minDuration_def maxDuration_def)

lemma time_Sub_exact:
  "minDuration \<le> t - u \<Longrightarrow> t - u \<le> maxDuration \<Longrightarrow> time_Sub t u = t - u"
  by (simp add: time_Sub_def)

lemma time_Sub_nonpos: "t \<le> u \<Longrightarrow> time_Sub t u \<le> 0"
  by (simp add: time_Sub_def minDuration_def maxDuration_def)

text \<open>The successor of an update id, when it does not wrap.\<close>

lemma sint_plus_one:
  fixes a :: int64
  assumes "sint a < 2 ^ 63 - 1"
  shows "sint (a + 1) = sint a + 1"
proof -
  have "- (2 ^ 63) \<le> sint a" using sint_ge [of a] by simp
  with assms have "signed_take_bit 63 (sint a + 1) = sint a + 1"
    by (intro signed_take_bit_int_eq_self) simp_all
  then show ?thesis by (simp add: sint_word_add)
qed

lemma signed_less_plus_one:
  fixes a b :: int64
  assumes "b <s a"
  shows "b + 1 \<le>s a" and "sint (b + 1) = sint b + 1"
proof -
  have "sint b < sint a" using assms by (simp add: word_sless_alt)
  moreover have "sint a < 2 ^ 63" using sint_lt [of a] by simp
  ultimately show eq: "sint (b + 1) = sint b + 1" by (intro sint_plus_one) simp
  show "b + 1 \<le>s a" using \<open>sint b < sint a\<close> by (simp add: word_sle_eq eq)
qed

section \<open>Association lists\<close>

lemma set_AList_update: "set (AList.update k v xs) \<subseteq> insert (k, v) (set xs)"
  by (induction xs) auto

lemma set_AList_delete: "set (AList.delete k xs) = {kv \<in> set xs. fst kv \<noteq> k}"
  by (auto simp: AList.delete_eq)

lemma distinct_AList_delete: "distinct (map fst xs) \<Longrightarrow> distinct (map fst (AList.delete k xs))"
  by (rule distinct_delete)

text \<open>A zero value for an absent key: Go's map lookup.\<close>

definition lookup0 :: "('k \<rightharpoonup> 'v::zero) \<Rightarrow> 'k \<Rightarrow> 'v" where
  "lookup0 m k = (case m k of None \<Rightarrow> 0 | Some v \<Rightarrow> v)"

lemma lookup0_upd [simp]: "lookup0 (m(k := Some v)) k' = (if k' = k then v else lookup0 m k')"
  by (simp add: lookup0_def)

lemma lookup0_empty [simp]: "lookup0 Map.empty k = 0"
  by (simp add: lookup0_def)

lemma map_filter_append: "List.map_filter g (xs @ ys) = List.map_filter g xs @ List.map_filter g ys"
  by (simp add: List.map_filter_def)

lemma map_filter_concat: "List.map_filter g (concat xss) = concat (map (List.map_filter g) xss)"
  by (induction xss) (simp_all add: List.map_filter_def)

section \<open>Sorting by a strict order\<close>

lemma strict_sorted_distinct:
  "sorted_wrt R xs \<Longrightarrow> (\<And>a b. R a b \<Longrightarrow> a \<noteq> b) \<Longrightarrow> distinct xs"
  by (induction xs) auto

lemma sorted_wrt_unique:
  assumes "\<And>a b. R a b \<Longrightarrow> \<not> R b a" and "sorted_wrt R xs" and "sorted_wrt R ys"
    and "set xs = set ys"
  shows "xs = ys"
  using assms(2-)
proof (induction xs arbitrary: ys)
  case Nil
  then show ?case by simp
next
  case (Cons x xs)
  then obtain y ys' where ys: "ys = y # ys'" by (cases ys) auto
  have irrefl: "\<not> R z z" for z using assms(1) by blast
  have xy: "x = y"
  proof (rule ccontr)
    assume "x \<noteq> y"
    with Cons.prems ys have "x \<in> set ys'" "y \<in> set xs" by auto
    with Cons.prems ys have "R y x" "R x y" by auto
    with assms(1) show False by blast
  qed
  have "x \<notin> set xs" "x \<notin> set ys'" using Cons.prems ys xy irrefl by auto
  with Cons.prems(3) ys xy have "set xs = set ys'" by auto
  with Cons ys xy show ?case by simp
qed

lemma sorted_wrt_take_worse:
  assumes "sorted_wrt R xs" and "a \<in> set (take n xs)" and "b \<in> set (drop n xs)"
  shows "R a b"
  using assms sorted_wrt_append [of R "take n xs" "drop n xs"] by simp

section \<open>The decimal package\<close>

record 'd decimal_pkg =
  DDiv :: "'d \<Rightarrow> 'd \<Rightarrow> 'd"
  DString :: "'d \<Rightarrow> string"
  DFromString :: "string \<Rightarrow> 'd option"

text \<open>\<open>NewFromString\<close> reads back what \<open>String\<close> writes.\<close>

definition decimal_strings :: "'d decimal_pkg \<Rightarrow> bool" where
  "decimal_strings D \<longleftrightarrow> (\<forall>d. DFromString D (DString D d) = Some d)"

text \<open>
  \<open>Div\<close> rounds to \<open>DivisionPrecision\<close> = 16 digits after the point: the result is a multiple
  \<open>k\<close> of \<open>10^-16\<close>, at most half a unit away from the quotient.
\<close>

definition decimal_div :: "'d::linordered_idom decimal_pkg \<Rightarrow> bool" where
  "decimal_div D \<longleftrightarrow> (\<forall>a b. b \<noteq> 0 \<longrightarrow>
     (\<exists>k::int. 10 ^ 16 * DDiv D a b = of_int k \<and>
               2 * \<bar>10 ^ 16 * a - of_int k * b\<bar> \<le> \<bar>b\<bar>))"

lemma DString_inj: "decimal_strings D \<Longrightarrow> DString D a = DString D b \<longleftrightarrow> a = b"
  unfolding decimal_strings_def by (metis option.inject)

lemma DFromString_DString [simp]:
  "decimal_strings D \<Longrightarrow> DFromString D (DString D d) = Some d"
  by (simp add: decimal_strings_def)

lemma decimal_divE:
  fixes D :: "'d::linordered_idom decimal_pkg"
  assumes "decimal_div D" and "b \<noteq> 0"
  obtains k :: int where "10 ^ 16 * DDiv D a b = of_int k"
    and "2 * \<bar>10 ^ 16 * a - of_int k * b\<bar> \<le> \<bar>b\<bar>"
  using assms unfolding decimal_div_def by blast

text \<open>A quotient of two values of which the first is not larger is at most 1.\<close>

lemma DDiv_abs_le_1:
  fixes D :: "'d::linordered_idom decimal_pkg"
  assumes D: "decimal_div D" and b: "b \<noteq> 0" and ab: "\<bar>a\<bar> \<le> \<bar>b\<bar>"
  shows "\<bar>DDiv D a b\<bar> \<le> 1"
proof -
  obtain k :: int where k: "10 ^ 16 * DDiv D a b = of_int k"
    and near: "2 * \<bar>10 ^ 16 * a - of_int k * b\<bar> \<le> \<bar>b\<bar>"
    using D b by (rule decimal_divE)
  have "2 * (\<bar>of_int k * b\<bar> - \<bar>10 ^ 16 * a\<bar>) \<le> \<bar>b\<bar>"
    using near by (smt (verit) abs_triangle_ineq3 mult_left_mono abs_minus_commute zero_le_numeral
        abs_ge_self order_trans)
  moreover have "\<bar>10 ^ 16 * a\<bar> \<le> 10 ^ 16 * \<bar>b\<bar>"
    using ab by (simp add: abs_mult)
  ultimately have "2 * (of_int \<bar>k\<bar> * \<bar>b\<bar>) \<le> (2 * 10 ^ 16 + 1) * \<bar>b\<bar>"
    by (simp add: abs_mult algebra_simps)
  then have "of_int (2 * \<bar>k\<bar>) * \<bar>b\<bar> \<le> of_int (2 * 10 ^ 16 + 1) * \<bar>b\<bar>"
    by simp
  then have "of_int (2 * \<bar>k\<bar>) \<le> (of_int (2 * 10 ^ 16 + 1) :: 'd)"
    using b by (meson mult_le_cancel_right_pos zero_less_abs_iff)
  then have "2 * \<bar>k\<bar> \<le> 2 * 10 ^ 16 + 1" by (simp only: of_int_le_iff)
  then have "\<bar>k\<bar> \<le> 10 ^ 16" by simp
  then have "of_int \<bar>k\<bar> \<le> (of_int (10 ^ 16) :: 'd)" by (simp only: of_int_le_iff)
  then have "\<bar>10 ^ 16 * DDiv D a b\<bar> \<le> (10 ^ 16 :: 'd)" using k by simp
  then have "10 ^ 16 * \<bar>DDiv D a b\<bar> \<le> 10 ^ 16 * (1 :: 'd)" by (simp add: abs_mult)
  then show ?thesis by (subst (asm) mult_le_cancel_left_pos) simp_all
qed

text \<open>A quotient that has 16 digits is the result of \<open>Div\<close>.\<close>

lemma DDiv_exact:
  fixes D :: "'d::linordered_idom decimal_pkg"
  assumes D: "decimal_div D" and b: "b \<noteq> 0" and q: "a = q * b" and digits: "10 ^ 16 * q = of_int m"
  shows "DDiv D a b = q"
proof -
  obtain k :: int where k: "10 ^ 16 * DDiv D a b = of_int k"
    and near: "2 * \<bar>10 ^ 16 * a - of_int k * b\<bar> \<le> \<bar>b\<bar>"
    using D b by (rule decimal_divE)
  have "10 ^ 16 * a - of_int k * b = of_int (m - k) * b"
    using digits by (simp add: q algebra_simps flip: digits)
  with near have "of_int (2 * \<bar>m - k\<bar>) * \<bar>b\<bar> \<le> 1 * \<bar>b\<bar>" by (simp add: abs_mult)
  then have "of_int (2 * \<bar>m - k\<bar>) \<le> (1 :: 'd)"
    using b by (meson mult_le_cancel_right_pos zero_less_abs_iff)
  then have "2 * \<bar>m - k\<bar> \<le> 1" by (metis of_int_1 of_int_le_iff)
  then have "k = m" by arith
  with k digits have "10 ^ 16 * DDiv D a b = 10 ^ 16 * q" by simp
  then show ?thesis by simp
qed

text \<open>\<open>Div\<close> by a positive divisor keeps signs.\<close>

lemma DDiv_nonneg:
  fixes D :: "'d::linordered_idom decimal_pkg"
  assumes D: "decimal_div D" and b: "0 < b" and a: "0 \<le> a"
  shows "0 \<le> DDiv D a b"
proof (rule ccontr)
  obtain k :: int where k: "10 ^ 16 * DDiv D a b = of_int k"
    and near: "2 * \<bar>10 ^ 16 * a - of_int k * b\<bar> \<le> \<bar>b\<bar>"
    using D b by (metis decimal_divE less_irrefl)
  assume "\<not> 0 \<le> DDiv D a b"
  then have "of_int k < (0 :: 'd)" using k by (metis mult_less_0_iff not_le zero_less_numeral zero_less_power)
  then have "k \<le> - 1" by simp
  then have "of_int k \<le> (- 1 :: 'd)" by (metis of_int_1 of_int_le_iff of_int_minus)
  then have "b \<le> - (of_int k * b)" using b by (metis mult_minus_left mult_le_cancel_right_pos minus_le_iff mult_1 minus_minus)
  moreover have "0 \<le> 10 ^ 16 * a" using a by simp
  ultimately have "b \<le> \<bar>10 ^ 16 * a - of_int k * b\<bar>" by linarith
  with near b show False by simp
qed

lemma DDiv_nonpos:
  fixes D :: "'d::linordered_idom decimal_pkg"
  assumes D: "decimal_div D" and b: "0 < b" and a: "a \<le> 0"
  shows "DDiv D a b \<le> 0"
proof (rule ccontr)
  obtain k :: int where k: "10 ^ 16 * DDiv D a b = of_int k"
    and near: "2 * \<bar>10 ^ 16 * a - of_int k * b\<bar> \<le> \<bar>b\<bar>"
    using D b by (metis decimal_divE less_irrefl)
  assume "\<not> DDiv D a b \<le> 0"
  then have "(0 :: 'd) < of_int k" using k
    by (metis not_le mult_pos_pos zero_less_numeral zero_less_power)
  then have "1 \<le> k" by simp
  then have "(1 :: 'd) \<le> of_int k" by simp
  then have "b \<le> of_int k * b" using b by (metis mult_le_cancel_right1 not_less_iff_gr_or_eq)
  moreover have "10 ^ 16 * a \<le> 0" using a by (simp add: mult_nonneg_nonpos)
  ultimately have "b \<le> \<bar>10 ^ 16 * a - of_int k * b\<bar>" by linarith
  with near b show False by simp
qed


end
