(* ===== verification/GoStrings.thy ===== *)
theory GoStrings
  imports Prelude "HOL-Library.Sublist"
begin

text \<open>
  What the code uses of Go's packages strings, strconv and fmt. A Go string is its list of
  bytes. \<open>ToUpper\<close>, \<open>ToLower\<close> and \<open>TrimSpace\<close> are modelled on ASCII: Go also maps and trims
  other Unicode letters and spaces, which trading symbols and flags do not contain.
\<close>

section \<open>Case and spaces\<close>

definition toUpperByte :: "char \<Rightarrow> char" where
  "toUpperByte c = (let n = of_char c :: nat in if 97 \<le> n \<and> n \<le> 122 then char_of (n - 32) else c)"

definition toLowerByte :: "char \<Rightarrow> char" where
  "toLowerByte c = (let n = of_char c :: nat in if 65 \<le> n \<and> n \<le> 90 then char_of (n + 32) else c)"

definition ToUpper :: "string \<Rightarrow> string" where
  "ToUpper s = map toUpperByte s"

definition ToLower :: "string \<Rightarrow> string" where
  "ToLower s = map toLowerByte s"

definition isSpaceByte :: "char \<Rightarrow> bool" where
  "isSpaceByte c \<longleftrightarrow> c \<in> {CHR '' '', CHR 0x09, CHR 0x0A, CHR 0x0B, CHR 0x0C, CHR 0x0D}"

definition TrimSpace :: "string \<Rightarrow> string" where
  "TrimSpace s = rev (dropWhile isSpaceByte (rev (dropWhile isSpaceByte s)))"

definition TrimRight :: "char \<Rightarrow> string \<Rightarrow> string" where
  "TrimRight c s = rev (dropWhile (\<lambda>x. x = c) (rev s))"

lemma toUpperByte_idem [simp]: "toUpperByte (toUpperByte c) = toUpperByte c"
  by (auto simp: toUpperByte_def Let_def of_char_of)

lemma ToUpper_idem [simp]: "ToUpper (ToUpper s) = ToUpper s"
  by (simp add: ToUpper_def)

lemma length_ToUpper [simp]: "length (ToUpper s) = length s"
  by (simp add: ToUpper_def)

lemma ToUpper_append [simp]: "ToUpper (s @ t) = ToUpper s @ ToUpper t"
  by (simp add: ToUpper_def)

lemma ToUpper_eq_Nil [simp]: "ToUpper s = [] \<longleftrightarrow> s = []"
  by (simp add: ToUpper_def)

lemma dropWhile_idem: "dropWhile P (dropWhile P xs) = dropWhile P xs"
  by (induction xs) auto

section \<open>Splitting and joining\<close>

text \<open>\<open>strings.Split\<close> at a one-byte separator: always at least one part.\<close>

fun Split :: "char \<Rightarrow> string \<Rightarrow> string list" where
  "Split sep [] = [[]]"
| "Split sep (c # cs) =
     (if c = sep then [] # Split sep cs
      else case Split sep cs of [] \<Rightarrow> [[c]] | p # ps \<Rightarrow> (c # p) # ps)"

fun Join :: "string list \<Rightarrow> string \<Rightarrow> string" where
  "Join [] sep = []"
| "Join [s] sep = s"
| "Join (s # ss) sep = s @ sep @ Join ss sep"

lemma Split_nonempty [simp]: "Split sep s \<noteq> []"
  by (cases s) (auto split: list.splits)

lemma Split_plain: "sep \<notin> set s \<Longrightarrow> Split sep s = [s]"
  by (induction s) auto

lemma Split_append: "sep \<notin> set s \<Longrightarrow> Split sep (s @ sep # t) = s # Split sep t"
  by (induction s) auto

lemma Split_Join:
  "ss \<noteq> [] \<Longrightarrow> \<forall>s \<in> set ss. sep \<notin> set s \<Longrightarrow> Split sep (Join ss [sep]) = ss"
proof (induction ss)
  case Nil
  then show ?case by simp
next
  case (Cons s ss)
  then show ?case by (cases ss) (simp_all add: Split_plain Split_append)
qed

definition Contains :: "string \<Rightarrow> string \<Rightarrow> bool" where
  "Contains s substr \<longleftrightarrow> sublist substr s"

section \<open>Decimal integers\<close>

definition digitByte :: "nat \<Rightarrow> char" where
  "digitByte d = char_of (48 + d)"

fun formatNat :: "nat \<Rightarrow> string" where
  "formatNat n = (if n < 10 then [digitByte n] else formatNat (n div 10) @ [digitByte (n mod 10)])"

declare formatNat.simps [simp del]

text \<open>\<open>fmt.Sprintf("%d", i)\<close> and \<open>strconv.FormatInt(i, 10)\<close>.\<close>

definition formatInt :: "int \<Rightarrow> string" where
  "formatInt i = (if i < 0 then CHR ''-'' # formatNat (nat (- i)) else formatNat (nat i))"

text \<open>The value of a non-empty list of digits: \<open>strconv\<close>'s scanning loop.\<close>

fun parseDigits :: "nat \<Rightarrow> string \<Rightarrow> nat option" where
  "parseDigits acc [] = Some acc"
| "parseDigits acc (c # cs) =
     (let n = of_char c :: nat in
      if 48 \<le> n \<and> n \<le> 57 then parseDigits (10 * acc + (n - 48)) cs else None)"

text \<open>
  \<open>strconv.ParseInt(s, 10, 64)\<close>: the value and whether an error is returned. A syntax error
  gives 0; a value out of range gives the nearest end of the range. An optional sign is read.
\<close>

definition ParseInt :: "string \<Rightarrow> int \<times> bool" where
  "ParseInt s =
     (let (neg, ds) = (case s of [] \<Rightarrow> (False, []) | c # cs \<Rightarrow>
            if c = CHR ''+'' then (False, cs) else if c = CHR ''-'' then (True, cs) else (False, s))
      in if ds = [] then (0, True)
         else case parseDigits 0 ds of
                None \<Rightarrow> (0, True)
              | Some n \<Rightarrow>
                  if neg then (if n > 2 ^ 63 then (- (2 ^ 63), True) else (- int n, False))
                  else if n \<ge> 2 ^ 63 then (2 ^ 63 - 1, True) else (int n, False))"

lemma of_char_digitByte: "d < 10 \<Longrightarrow> of_char (digitByte d) = 48 + d"
  by (simp add: digitByte_def)

lemma parseDigits_append:
  "parseDigits acc (s @ t) = (case parseDigits acc s of None \<Rightarrow> None | Some n \<Rightarrow> parseDigits n t)"
  by (induction s arbitrary: acc) (auto simp: Let_def)

lemma parseDigits_formatNat_acc:
  "parseDigits acc (formatNat n) = Some (acc * 10 ^ length (formatNat n) + n)"
proof (induction n arbitrary: acc rule: formatNat.induct)
  case (1 n)
  show ?case
  proof (cases "n < 10")
    case True
    then show ?thesis by (simp add: formatNat.simps [of n] of_char_digitByte Let_def)
  next
    case False
    with 1 show ?thesis
      by (subst (1 2) formatNat.simps)
        (simp add: parseDigits_append of_char_digitByte Let_def algebra_simps)
  qed
qed

lemma formatNat_nonempty [simp]: "formatNat n \<noteq> []"
  by (subst formatNat.simps) simp

lemma hd_formatNat: "48 \<le> (of_char (hd (formatNat n)) :: nat) \<and> of_char (hd (formatNat n)) \<le> (57 :: nat)"
proof (induction n rule: formatNat.induct)
  case (1 n)
  then show ?case
    by (subst (1 2) formatNat.simps) (auto simp: of_char_digitByte)
qed

text \<open>What is formatted is read back, for every value of an int64.\<close>

lemma ParseInt_formatInt:
  assumes "- (2 ^ 63) \<le> i" and "i < 2 ^ 63"
  shows "ParseInt (formatInt i) = (i, False)"
proof (cases "i < 0")
  case True
  then show ?thesis using assms parseDigits_formatNat_acc [of 0 "nat (- i)"]
    by (auto simp: ParseInt_def formatInt_def Let_def)
next
  case False
  obtain c cs where c: "formatNat (nat i) = c # cs" by (cases "formatNat (nat i)") auto
  with hd_formatNat [of "nat i"] have "c \<noteq> CHR ''+''" "c \<noteq> CHR ''-''" by auto
  with c False show ?thesis using assms parseDigits_formatNat_acc [of 0 "nat i"]
    by (auto simp: ParseInt_def formatInt_def Let_def)
qed

end
