(* ===== verification/GoTime.thy ===== *)
theory GoTime
  imports GoStrings "HOL-Library.Monad_Syntax"
begin

text \<open>
  What the wire formats use of Go's package time: formatting an instant in UTC and parsing it back,
  for the layouts RFC3339Nano and \<open>2006-01-02T15:04:05.999999999Z\<close>. Instants before year 1 are not
  formatted by the code. Parsing accepts what \<open>time.Parse\<close> accepts: a one-digit hour, a comma before
  the fraction, any number of fraction digits (those after the ninth are dropped), and an
  offset of up to 24:60.
\<close>

section \<open>The calendar\<close>

definition leap :: "nat \<Rightarrow> bool" where
  "leap y \<longleftrightarrow> y mod 4 = 0 \<and> (y mod 100 \<noteq> 0 \<or> y mod 400 = 0)"

definition yearLen :: "nat \<Rightarrow> nat" where
  "yearLen y = (if leap y then 366 else 365)"

definition monthLens :: "nat \<Rightarrow> nat list" where
  "monthLens y = [31, if leap y then 29 else 28, 31, 30, 31, 30, 31, 31, 30, 31, 30, 31]"

text \<open>The year and the day in it, of the day that lies \<open>d\<close> days after 1 January of year \<open>y\<close>.\<close>

lemma yearLen_pos [simp]: "0 < yearLen y" "yearLen y \<noteq> 0"
  by (simp_all add: yearLen_def)

function yearFrom :: "nat \<Rightarrow> nat \<Rightarrow> nat \<times> nat" where
  "yearFrom y d = (if d < yearLen y then (y, d) else yearFrom (Suc y) (d - yearLen y))"
  by auto

termination
  by (relation "measure snd") (auto simp: yearLen_def)

declare yearFrom.simps [simp del]

fun monthFrom :: "nat list \<Rightarrow> nat \<Rightarrow> nat \<Rightarrow> nat \<times> nat" where
  "monthFrom [] m d = (m, d)"
| "monthFrom (l # ls) m d = (if d < l then (m, d) else monthFrom ls (Suc m) (d - l))"

definition daysBefore :: "nat \<Rightarrow> nat" where
  "daysBefore y = sum_list (map yearLen [1..<y])"

text \<open>Days since 1 January of year 1; year 0 is the leap year before it.\<close>

definition dayNumber :: "nat \<Rightarrow> nat \<Rightarrow> nat \<Rightarrow> int" where
  "dayNumber y m day = (if y = 0 then - 366 else int (daysBefore y)) +
     int (sum_list (take (m - 1) (monthLens y))) + int day - 1"

lemma daysBefore_Suc: "1 \<le> y \<Longrightarrow> daysBefore (Suc y) = daysBefore y + yearLen y"
  by (simp add: daysBefore_def)

lemma yearFrom_spec:
  "1 \<le> y \<Longrightarrow> yearFrom y d = (y', d') \<Longrightarrow>
   daysBefore y' + d' = daysBefore y + d \<and> d' < yearLen y' \<and> y \<le> y' \<and> 365 * (y' - y) \<le> d"
proof (induction y d arbitrary: y' d' rule: yearFrom.induct)
  case (1 y d)
  show ?case
  proof (cases "d < yearLen y")
    case True
    then show ?thesis using "1.prems" by (simp add: yearFrom.simps [of y d])
  next
    case False
    then have "yearFrom (Suc y) (d - yearLen y) = (y', d')"
      using "1.prems" by (simp add: yearFrom.simps [of y d])
    from "1.IH" [OF False _ this] False "1.prems"(1) show ?thesis
      by (auto simp: daysBefore_Suc yearLen_def split: if_splits)
  qed
qed

lemma monthFrom_spec:
  "d < sum_list ls \<Longrightarrow> monthFrom ls m d = (m', d') \<Longrightarrow>
   m \<le> m' \<and> m' < m + length ls \<and> sum_list (take (m' - m) ls) + d' = d \<and> d' < ls ! (m' - m)"
proof (induction ls arbitrary: m d)
  case Nil
  then show ?case by simp
next
  case (Cons l ls)
  show ?case
  proof (cases "d < l")
    case True
    then show ?thesis using Cons.prems by simp
  next
    case False
    from False Cons.prems have "d - l < sum_list ls" "monthFrom ls (Suc m) (d - l) = (m', d')" by auto
    from Cons.IH [OF this] have ih: "Suc m \<le> m'" "m' < Suc m + length ls"
      "sum_list (take (m' - Suc m) ls) + d' = d - l" "d' < ls ! (m' - Suc m)" by auto
    then have "m' - m = Suc (m' - Suc m)" by simp
    with ih False show ?thesis by simp
  qed
qed

lemma sum_monthLens: "sum_list (monthLens y) = yearLen y"
  by (simp add: monthLens_def yearLen_def)

lemma length_monthLens [simp]: "length (monthLens y) = 12"
  by (simp add: monthLens_def)

section \<open>Formatting\<close>

fun digitsW :: "nat \<Rightarrow> nat \<Rightarrow> string" where
  "digitsW 0 n = []"
| "digitsW (Suc w) n = digitsW w (n div 10) @ [digitByte (n mod 10)]"

definition formatFrac :: "nat \<Rightarrow> string" where
  "formatFrac ns = (if ns = 0 then [] else CHR ''.'' # TrimRight (CHR ''0'') (digitsW 9 ns))"

definition formatTime :: "string \<Rightarrow> time \<Rightarrow> string" where
  "formatTime zone t =
     (let ns = nat (t mod 1000000000); secs = nat (t div 1000000000);
          sod = secs mod 86400;
          (y, yd) = yearFrom 1 (secs div 86400);
          (m, md) = monthFrom (monthLens y) 1 yd
      in (if y < 10000 then digitsW 4 y else formatNat y) @ ''-'' @ digitsW 2 m @ ''-'' @
         digitsW 2 (Suc md) @ ''T'' @ digitsW 2 (sod div 3600) @ '':'' @
         digitsW 2 (sod div 60 mod 60) @ '':'' @ digitsW 2 (sod mod 60) @ formatFrac ns @ zone)"

text \<open>\<open>t.UTC().Format(time.RFC3339Nano)\<close>; the other layout gives the same text.\<close>

definition FormatRFC3339Nano :: "time \<Rightarrow> string" where
  "FormatRFC3339Nano = formatTime ''Z''"

section \<open>Parsing\<close>

definition isDigitByte :: "char \<Rightarrow> bool" where
  "isDigitByte c \<longleftrightarrow> (48::nat) \<le> of_char c \<and> of_char c \<le> (57::nat)"

definition digitVal :: "char \<Rightarrow> nat" where
  "digitVal c = of_char c - 48"

definition expect :: "char \<Rightarrow> string \<Rightarrow> string option" where
  "expect c s = (case s of [] \<Rightarrow> None | x # xs \<Rightarrow> if x = c then Some xs else None)"

text \<open>Package time's \<open>getnum\<close>: two digits, or one when it need not be fixed.\<close>

definition getnum :: "bool \<Rightarrow> string \<Rightarrow> (nat \<times> string) option" where
  "getnum fixed s =
     (case s of
        [] \<Rightarrow> None
      | a # s1 \<Rightarrow>
          if \<not> isDigitByte a then None
          else case s1 of
            [] \<Rightarrow> if fixed then None else Some (digitVal a, [])
          | b # s2 \<Rightarrow>
              if isDigitByte b then Some (10 * digitVal a + digitVal b, s2)
              else if fixed then None else Some (digitVal a, s1))"

definition getRange :: "bool \<Rightarrow> nat \<Rightarrow> nat \<Rightarrow> string \<Rightarrow> (nat \<times> string) option" where
  "getRange fixed lo hi s = do {
     (n, s') \<leftarrow> getnum fixed s;
     if lo \<le> n \<and> n \<le> hi then Some (n, s') else None}"

definition getYear :: "string \<Rightarrow> (nat \<times> string) option" where
  "getYear s = (if length s < 4 then None else do {
     n \<leftarrow> parseDigits 0 (take 4 s);
     Some (n, drop 4 s)})"

definition getFrac :: "string \<Rightarrow> nat \<times> string" where
  "getFrac s =
     (case s of
        c # d # rest \<Rightarrow>
          if (c = CHR ''.'' \<or> c = CHR '','') \<and> isDigitByte d
          then let ds = takeWhile isDigitByte (d # rest); ds9 = take 9 ds
               in (foldl (\<lambda>n c. 10 * n + digitVal c) 0 ds9 * 10 ^ (9 - length ds9),
                   dropWhile isDigitByte (d # rest))
          else (0, s)
      | _ \<Rightarrow> (0, s))"

text \<open>The offset of the zone in seconds.\<close>

definition getZone :: "string \<Rightarrow> (int \<times> string) option" where
  "getZone s =
     (case s of
        [] \<Rightarrow> None
      | z # rest \<Rightarrow>
          if z = CHR ''Z'' then Some (0, rest)
          else if z = CHR ''+'' \<or> z = CHR ''-'' then do {
            (hr, s1) \<leftarrow> getRange True 0 24 rest;
            s2 \<leftarrow> expect (CHR '':'') s1;
            (mm, s3) \<leftarrow> getRange True 0 60 s2;
            Some ((if z = CHR ''-'' then -1 else 1) * int (hr * 3600 + mm * 60), s3)}
          else None)"

text \<open>The text up to the zone: the instant it would be in UTC, and the rest.\<close>

definition parseDateTime :: "string \<Rightarrow> (time \<times> string) option" where
  "parseDateTime s = do {
     (y, s1) \<leftarrow> getYear s;
     s2 \<leftarrow> expect (CHR ''-'') s1;
     (m, s3) \<leftarrow> getRange True 1 12 s2;
     s4 \<leftarrow> expect (CHR ''-'') s3;
     (day, s5) \<leftarrow> getnum True s4;
     s6 \<leftarrow> expect (CHR ''T'') s5;
     (hh, s7) \<leftarrow> getRange False 0 23 s6;
     s8 \<leftarrow> expect (CHR '':'') s7;
     (mi, s9) \<leftarrow> getRange True 0 59 s8;
     s10 \<leftarrow> expect (CHR '':'') s9;
     (ss, s11) \<leftarrow> getRange True 0 59 s10;
     (let (ns, s12) = getFrac s11 in
      if 1 \<le> day \<and> day \<le> monthLens y ! (m - 1)
      then Some ((dayNumber y m day * 86400 + int (hh * 3600 + mi * 60 + ss)) * 1000000000 + int ns, s12)
      else None)}"

definition ParseRFC3339Nano :: "string \<Rightarrow> time option" where
  "ParseRFC3339Nano s = do {
     (t, s1) \<leftarrow> parseDateTime s;
     (off, s2) \<leftarrow> getZone s1;
     if s2 = [] then Some (t - off * 1000000000) else None}"

text \<open>\<open>time.Parse\<close> with the layout that ends in a literal Z.\<close>

definition ParseLiteralZ :: "string \<Rightarrow> time option" where
  "ParseLiteralZ s = do {
     (t, s1) \<leftarrow> parseDateTime s;
     s2 \<leftarrow> expect (CHR ''Z'') s1;
     if s2 = [] then Some t else None}"

section \<open>What is formatted is parsed back\<close>

lemma digit_digitByte [simp]:
  "n < 10 \<Longrightarrow> isDigitByte (digitByte n)" "n < 10 \<Longrightarrow> digitVal (digitByte n) = n"
  by (simp_all add: isDigitByte_def digitVal_def of_char_digitByte)

lemma length_digitsW [simp]: "length (digitsW w n) = w"
  by (induction w arbitrary: n) simp_all

lemma digits_digitsW: "\<forall>c \<in> set (digitsW w n). isDigitByte c"
  by (induction w arbitrary: n) auto

lemma digitsW_2: "digitsW 2 n = [digitByte (n div 10 mod 10), digitByte (n mod 10)]"
  by (simp add: numeral_2_eq_2)

lemma getnum_digitsW: "n < 100 \<Longrightarrow> getnum fixed (digitsW 2 n @ s) = Some (n, s)"
  by (simp add: getnum_def digitsW_2)

lemma getRange_digitsW: "n < 100 \<Longrightarrow> lo \<le> n \<Longrightarrow> n \<le> hi \<Longrightarrow> getRange fixed lo hi (digitsW 2 n @ s) = Some (n, s)"
  by (simp add: getRange_def getnum_digitsW)

lemma parseDigits_digitsW: "parseDigits acc (digitsW w n) = Some (acc * 10 ^ w + n mod 10 ^ w)"
proof (induction w arbitrary: acc n)
  case 0
  then show ?case by simp
next
  case (Suc w)
  have "n mod (10 * 10 ^ w) = 10 * (n div 10 mod 10 ^ w) + n mod 10"
    by (simp add: mod_mult2_eq)
  with Suc show ?case
    by (simp add: parseDigits_append of_char_digitByte Let_def algebra_simps)
qed

lemma getYear_digitsW: "y < 10000 \<Longrightarrow> getYear (digitsW 4 y @ s) = Some (y, s)"
  by (simp add: getYear_def parseDigits_digitsW)

lemma expect_Cons [simp]: "expect c (c # s) = Some s"
  by (simp add: expect_def)

text \<open>The fraction: trailing zeros are trimmed on one side and scaled back on the other.\<close>

lemma digits_value: "parseDigits acc ds = Some n \<Longrightarrow> foldl (\<lambda>n c. 10 * n + digitVal c) acc ds = n"
  by (induction ds arbitrary: acc) (auto simp: Let_def digitVal_def split: if_splits)

lemma foldl_zeros: "foldl (\<lambda>n c. 10 * n + digitVal c) acc (replicate k (CHR ''0'')) = acc * 10 ^ k"
  by (induction k arbitrary: acc) (simp_all add: digitVal_def)

lemma TrimRight_split: "\<exists>k. s = TrimRight c s @ replicate k c"
proof -
  have "takeWhile (\<lambda>x. x = c) (rev s) = replicate (length (takeWhile (\<lambda>x. x = c) (rev s))) c"
    by (metis (full_types) replicate_length_same set_takeWhileD)
  then have "rev s = replicate (length (takeWhile (\<lambda>x. x = c) (rev s))) c @ dropWhile (\<lambda>x. x = c) (rev s)"
    by (metis takeWhile_dropWhile_id)
  then show ?thesis unfolding TrimRight_def by (metis rev_append rev_replicate rev_rev_ident)
qed

lemma getFrac_formatFrac:
  assumes ns: "ns < 1000000000" and z: "\<not> isDigitByte z" "z \<noteq> CHR ''.''" "z \<noteq> CHR '',''"
  shows "getFrac (formatFrac ns @ z # s) = (ns, z # s)"
proof (cases "ns = 0")
  case True
  then show ?thesis using z by (cases s) (simp_all add: getFrac_def formatFrac_def)
next
  case False
  let ?ds = "TrimRight (CHR ''0'') (digitsW 9 ns)"
  obtain k where k: "digitsW 9 ns = ?ds @ replicate k (CHR ''0'')"
    using TrimRight_split by blast
  have len: "length ?ds + k = 9" using arg_cong [OF k, of length] by simp
  have dig: "\<forall>c \<in> set ?ds. isDigitByte c"
    using digits_digitsW [of 9 ns] by (subst (asm) k) simp
  have "foldl (\<lambda>n c. 10 * n + digitVal c) 0 (digitsW 9 ns) = ns"
    using digits_value [OF parseDigits_digitsW, of 0 9 ns] ns by simp
  then have val: "foldl (\<lambda>n c. 10 * n + digitVal c) 0 ?ds * 10 ^ k = ns"
    by (subst (asm) k) (simp add: foldl_zeros)
  then have "?ds \<noteq> []" using False by auto
  then obtain d rest where d: "?ds = d # rest" by (cases ?ds) auto
  have tw: "takeWhile isDigitByte (?ds @ z # s) = ?ds" "dropWhile isDigitByte (?ds @ z # s) = z # s"
    using dig z(1) by (simp_all add: takeWhile_append2 dropWhile_append2)
  have "9 - length ?ds = k" "length ?ds \<le> 9" using len by auto
  with val tw dig show ?thesis
    by (simp add: getFrac_def formatFrac_def False d)
qed

text \<open>The instants the round trip holds for: from year 1 to a little before year 10000.\<close>

definition time_ok :: "time \<Rightarrow> bool" where
  "time_ok t \<longleftrightarrow> 0 \<le> t \<and> t < 9998 * 365 * 86400 * 1000000000"

lemma yearFrom_range:
  assumes "yearFrom 1 D = (y, yd)" and "D < 9998 * 365"
  shows "1 \<le> y" "y < 10000" "yd < yearLen y" "daysBefore y + yd = D"
  using yearFrom_spec [OF _ assms(1)] assms(2) by (auto simp: daysBefore_def)

lemma monthFrom_range:
  assumes "monthFrom (monthLens y) 1 yd = (m, md)" and "yd < yearLen y"
  shows "1 \<le> m" "m \<le> 12" "md < monthLens y ! (m - 1)"
    "sum_list (take (m - 1) (monthLens y)) + md = yd"
  using monthFrom_spec [of yd "monthLens y" 1 m md] assms by (auto simp: sum_monthLens)

lemma monthLens_le: "i < 12 \<Longrightarrow> monthLens y ! i \<le> 31"
  by (auto simp: monthLens_def less_Suc_eq numeral_eq_Suc)

lemma time_ok_parts:
  assumes "time_ok t"
  obtains D sod ns where "ns = nat (t mod 1000000000)" "ns < 1000000000"
    "sod = nat (t div 1000000000) mod 86400" "D = nat (t div 1000000000) div 86400"
    "sod < 86400" "D < 9998 * 365" "t = (int D * 86400 + int sod) * 1000000000 + int ns"
proof -
  define secs where "secs = nat (t div 1000000000)"
  have t0: "0 \<le> t" and t1: "t < 9998 * 365 * 86400 * 1000000000"
    using assms by (auto simp: time_ok_def)
  have s: "int secs = t div 1000000000" using t0 by (simp add: secs_def)
  have "t div 1000000000 < 9998 * 365 * 86400" using t1 by linarith
  then have lt: "secs < 9998 * 365 * 86400" using s by linarith
  have "secs div 86400 < 9998 * 365" using lt by (simp add: less_mult_imp_div_less)
  moreover have "int (secs div 86400) * 86400 + int (secs mod 86400) = int secs"
    by (metis div_mult_mod_eq of_nat_add of_nat_mult of_nat_numeral)
  then have "t = (int (secs div 86400) * 86400 + int (secs mod 86400)) * 1000000000
      + int (nat (t mod 1000000000))"
    using s by simp
  moreover have "nat (t mod 1000000000) < 1000000000" by linarith
  ultimately show ?thesis using that [of "nat (t mod 1000000000)" "secs mod 86400" "secs div 86400"]
    by (simp add: secs_def)
qed

lemma parseDateTime_formatTime:
  assumes ok: "time_ok t" and z: "\<not> isDigitByte z" "z \<noteq> CHR ''.''" "z \<noteq> CHR '',''"
  shows "parseDateTime (formatTime (z # s) t) = Some (t, z # s)"
proof -
  obtain D sod ns where ns: "ns = nat (t mod 1000000000)" "ns < 1000000000"
    and sod: "sod = nat (t div 1000000000) mod 86400" "sod < 86400"
    and D: "D = nat (t div 1000000000) div 86400" "D < 9998 * 365"
    and t: "t = (int D * 86400 + int sod) * 1000000000 + int ns"
    using time_ok_parts [OF ok] by metis
  obtain y yd where y: "yearFrom 1 D = (y, yd)" by fastforce
  obtain m md where m: "monthFrom (monthLens y) 1 yd = (m, md)" by fastforce
  note yr = yearFrom_range [OF y D(2)]
  note mr = monthFrom_range [OF m yr(3)]
  have md: "Suc md \<le> monthLens y ! (m - 1)" "monthLens y ! (m - 1) \<le> 31"
    using mr monthLens_le [of "m - 1" y] by auto
  have parts: "sod div 3600 < 24" "sod div 60 mod 60 < 60" "sod mod 60 < 60"
    using sod(2) by auto
  have sod_eq: "sod div 3600 * 3600 + sod div 60 mod 60 * 60 + sod mod 60 = sod"
  proof -
    have "sod div 3600 = sod div 60 div 60" by (simp flip: div_mult2_eq)
    moreover have "sod div 60 div 60 * 60 + sod div 60 mod 60 = sod div 60"
      "sod div 60 * 60 + sod mod 60 = sod"
      by (rule div_mult_mod_eq)+
    ultimately show ?thesis by linarith
  qed
  have day: "dayNumber y m (Suc md) = int D"
    using yr mr by (simp add: dayNumber_def flip: yr(4) mr(4))
  have fmt: "formatTime (z # s) t = digitsW 4 y @ CHR ''-'' # digitsW 2 m @ CHR ''-'' #
      digitsW 2 (Suc md) @ CHR ''T'' # digitsW 2 (sod div 3600) @ CHR '':'' #
      digitsW 2 (sod div 60 mod 60) @ CHR '':'' # digitsW 2 (sod mod 60) @ formatFrac ns @ z # s"
    using yr(2) y m by (simp add: formatTime_def Let_def flip: ns(1) sod(1) D(1))
  show ?thesis
    unfolding fmt parseDateTime_def using yr(2) mr(1,2) md parts
    by (simp add: getYear_digitsW getRange_digitsW getnum_digitsW
        getFrac_formatFrac [OF ns(2) z] day sod_eq t del: of_nat_add of_nat_mult)
qed

lemma parse_format_time [simp]: "time_ok t \<Longrightarrow> ParseRFC3339Nano (FormatRFC3339Nano t) = Some t"
  using parseDateTime_formatTime [of t "CHR ''Z''" "[]"]
  by (simp add: ParseRFC3339Nano_def FormatRFC3339Nano_def getZone_def isDigitByte_def)

lemma parse_literal_time [simp]: "time_ok t \<Longrightarrow> ParseLiteralZ (FormatRFC3339Nano t) = Some t"
  using parseDateTime_formatTime [of t "CHR ''Z''" "[]"]
  by (simp add: ParseLiteralZ_def FormatRFC3339Nano_def isDigitByte_def)

lemma FormatRFC3339Nano_nonempty [simp]: "FormatRFC3339Nano t \<noteq> []"
  by (simp add: FormatRFC3339Nano_def formatTime_def Let_def split: prod.splits)

end
