(* ===== verification/GoJSON.thy ===== *)
theory GoJSON
  imports GoStrings "HOL-Library.Monad_Syntax"
begin

text \<open>
  What the wire formats use of Go's package encoding/json. A string is its bytes. Encoding quotes a
  string the way \<open>json.Marshal\<close> does, HTML escapes and the replacement of invalid UTF-8 included.
  Decoding has three stages: a lexer from bytes to tokens; a parser from tokens to values, with an
  explicit stack as Go's scanner has, so that it needs no fuel, and with Go's limit of 10000 open
  arrays and objects; and the conversions to the target types in use, in \<open>Wire\<close>.
\<close>

datatype json =
    JNull
  | JBool bool
  | JNumber string
  | JString string
  | JArray "json list"
  | JObject "(string \<times> json) list"

section \<open>UTF-8\<close>

definition byteBetween :: "nat \<Rightarrow> nat \<Rightarrow> char \<Rightarrow> bool" where
  "byteBetween lo hi c \<longleftrightarrow> lo \<le> of_char c \<and> of_char c \<le> hi"

definition contByte :: "char \<Rightarrow> bool" where
  "contByte = byteBetween 128 191"

text \<open>How many bytes the rune at the front has, \<open>None\<close> when it is not valid UTF-8.\<close>

definition runeLen :: "string \<Rightarrow> nat option" where
  "runeLen s =
     (case s of
        [] \<Rightarrow> None
      | a # s1 \<Rightarrow>
          if byteBetween 0 127 a then Some 1
          else case s1 of
            [] \<Rightarrow> None
          | b # s2 \<Rightarrow>
              if byteBetween 194 223 a then (if contByte b then Some 2 else None)
              else case s2 of
                [] \<Rightarrow> None
              | c # s3 \<Rightarrow>
                  if byteBetween 224 239 a then
                    (if byteBetween (if a = CHR 0xE0 then 160 else 128)
                          (if a = CHR 0xED then 159 else 191) b \<and> contByte c then Some 3 else None)
                  else case s3 of
                    [] \<Rightarrow> None
                  | d # s4 \<Rightarrow>
                      if byteBetween 240 244 a \<and>
                         byteBetween (if a = CHR 0xF0 then 144 else 128)
                           (if a = CHR 0xF4 then 143 else 191) b \<and> contByte c \<and> contByte d
                      then Some 4 else None)"

text \<open>The UTF-8 encoding of a rune.\<close>

definition encodeRune :: "nat \<Rightarrow> string" where
  "encodeRune r =
     (if r < 128 then [char_of r]
      else if r < 2048 then [char_of (192 + r div 64), char_of (128 + r mod 64)]
      else if r < 65536 then [char_of (224 + r div 4096), char_of (128 + r div 64 mod 64),
        char_of (128 + r mod 64)]
      else [char_of (240 + r div 262144), char_of (128 + r div 4096 mod 64),
        char_of (128 + r div 64 mod 64), char_of (128 + r mod 64)])"

definition runeError :: string where
  "runeError = [CHR 0xEF, CHR 0xBF, CHR 0xBD]"

lemma runeLen_ascii: "of_char c < (128 :: nat) \<Longrightarrow> runeLen (c # s) = Some 1"
  by (simp add: runeLen_def byteBetween_def)

lemma runeLen_bounds:
  assumes "runeLen s = Some k"
  shows "0 < k" "k \<le> length s"
  using assms by (auto simp: runeLen_def split: list.splits if_splits)

section \<open>Quoting\<close>

definition hexLower :: "nat \<Rightarrow> char" where
  "hexLower d = (if d < 10 then char_of (48 + d) else char_of (87 + d))"

definition htmlSafe :: "char \<Rightarrow> bool" where
  "htmlSafe c \<longleftrightarrow> byteBetween 32 127 c \<and> c \<notin> {CHR 0x22, CHR 0x5C, CHR ''<'', CHR ''>'', CHR ''&''}"

text \<open>One byte below 128.\<close>

definition quoteByte :: "char \<Rightarrow> string" where
  "quoteByte c =
     (if htmlSafe c then [c]
      else if c = CHR 0x22 \<or> c = CHR 0x5C then [CHR 0x5C, c]
      else if c = CHR 0x08 then [CHR 0x5C, CHR ''b'']
      else if c = CHR 0x0C then [CHR 0x5C, CHR ''f'']
      else if c = CHR 0x0A then [CHR 0x5C, CHR ''n'']
      else if c = CHR 0x0D then [CHR 0x5C, CHR ''r'']
      else if c = CHR 0x09 then [CHR 0x5C, CHR ''t'']
      else [CHR 0x5C, CHR ''u'', CHR ''0'', CHR ''0'',
            hexLower (of_char c div 16), hexLower (of_char c mod 16)])"

text \<open>The line and paragraph separators U+2028 and U+2029 are escaped too.\<close>

definition quoteRune :: "string \<Rightarrow> string" where
  "quoteRune r =
     (if r = [CHR 0xE2, CHR 0x80, CHR 0xA8] then CHR 0x5C # ''u2028''
      else if r = [CHR 0xE2, CHR 0x80, CHR 0xA9] then CHR 0x5C # ''u2029''
      else r)"

function quoteBytes :: "string \<Rightarrow> string" where
  "quoteBytes [] = []"
| "quoteBytes (c # cs) =
     (if byteBetween 0 127 c then quoteByte c @ quoteBytes cs
      else case runeLen (c # cs) of
             None \<Rightarrow> (CHR 0x5C # ''ufffd'') @ quoteBytes cs
           | Some k \<Rightarrow> quoteRune (take k (c # cs)) @ quoteBytes (drop (k - 1) cs))"
  by pat_completeness auto

termination
  by (relation "measure length") auto

definition quote :: "string \<Rightarrow> string" where
  "quote s = CHR 0x22 # quoteBytes s @ [CHR 0x22]"

text \<open>\<open>json.Marshal\<close> on a value that is already in the order it is written in.\<close>

fun marshal :: "json \<Rightarrow> string"
  and marshalElems :: "json list \<Rightarrow> string"
  and marshalMembers :: "(string \<times> json) list \<Rightarrow> string" where
  "marshal JNull = ''null''"
| "marshal (JBool b) = (if b then ''true'' else ''false'')"
| "marshal (JNumber n) = n"
| "marshal (JString s) = quote s"
| "marshal (JArray vs) = CHR ''['' # marshalElems vs @ '']''"
| "marshal (JObject kvs) = CHR 0x7B # marshalMembers kvs @ [CHR 0x7D]"
| "marshalElems [] = []"
| "marshalElems (v # vs) = marshal v @ (if vs = [] then [] else CHR '','' # marshalElems vs)"
| "marshalMembers [] = []"
| "marshalMembers ((k, v) # kvs) =
     quote k @ CHR '':'' # marshal v @ (if kvs = [] then [] else CHR '','' # marshalMembers kvs)"

section \<open>Tokens\<close>

datatype jtoken =
    TLBracket | TRBracket | TLBrace | TRBrace | TComma | TColon
  | TNull | TBool bool | TNumber string | TString string

definition hexVal :: "char \<Rightarrow> nat option" where
  "hexVal c =
     (if byteBetween 48 57 c then Some (of_char c - 48)
      else if byteBetween 97 102 c then Some (of_char c - 87)
      else if byteBetween 65 70 c then Some (of_char c - 55)
      else None)"

text \<open>Four hexadecimal digits, and the rest.\<close>

definition hex4 :: "string \<Rightarrow> (nat \<times> string) option" where
  "hex4 s =
     (case s of
        a # b # c # d # rest \<Rightarrow> do {
          a \<leftarrow> hexVal a; b \<leftarrow> hexVal b; c \<leftarrow> hexVal c; d \<leftarrow> hexVal d;
          Some (4096 * a + 256 * b + 16 * c + d, rest)}
      | _ \<Rightarrow> None)"

lemma hex4_length: "hex4 s = Some (r, rest) \<Longrightarrow> length rest < length s"
  by (auto simp: hex4_def bind_eq_Some_conv split: list.splits)

text \<open>
  What follows \<open>\u\<close>: the bytes of the rune. A high surrogate with an escaped low one after it is
  one rune, any other surrogate becomes the replacement character.
\<close>

definition lexUnicode :: "string \<Rightarrow> (string \<times> string) option" where
  "lexUnicode s =
     (case hex4 s of
        None \<Rightarrow> None
      | Some (r, rest) \<Rightarrow>
          if r < 0xD800 \<or> 0xDFFF < r then Some (encodeRune r, rest)
          else if 0xDC00 \<le> r then Some (runeError, rest)
          else case rest of
            c # e # rest1 \<Rightarrow>
              if c = CHR 0x5C \<and> e = CHR ''u'' then
                (case hex4 rest1 of
                   None \<Rightarrow> Some (runeError, rest)
                 | Some (r2, rest2) \<Rightarrow>
                     if 0xDC00 \<le> r2 \<and> r2 \<le> 0xDFFF
                     then Some (encodeRune (0x10000 + (r - 0xD800) * 1024 + (r2 - 0xDC00)), rest2)
                     else Some (runeError, rest))
              else Some (runeError, rest)
          | _ \<Rightarrow> Some (runeError, rest))"

lemma lexUnicode_length: "lexUnicode s = Some (bs, rest) \<Longrightarrow> length rest < length s"
  by (auto simp: lexUnicode_def split: option.splits list.splits if_splits dest!: hex4_length)

definition escapeByte :: "char \<Rightarrow> char option" where
  "escapeByte e =
     (if e \<in> {CHR 0x22, CHR 0x5C, CHR ''/''} then Some e
      else if e = CHR ''b'' then Some (CHR 0x08)
      else if e = CHR ''f'' then Some (CHR 0x0C)
      else if e = CHR ''n'' then Some (CHR 0x0A)
      else if e = CHR ''r'' then Some (CHR 0x0D)
      else if e = CHR ''t'' then Some (CHR 0x09)
      else None)"

definition prepend :: "string \<Rightarrow> (string \<times> string) option \<Rightarrow> (string \<times> string) option" where
  "prepend bs = map_option (\<lambda>(s, rest). (bs @ s, rest))"

text \<open>The contents of a string from after its opening quote, and what follows the closing one.\<close>

function lexString :: "string \<Rightarrow> (string \<times> string) option" where
  "lexString [] = None"
| "lexString (c # cs) =
     (if c = CHR 0x22 then Some ([], cs)
      else if c = CHR 0x5C then
        (case cs of
           [] \<Rightarrow> None
         | e # es \<Rightarrow>
             (case escapeByte e of
                Some b \<Rightarrow> prepend [b] (lexString es)
              | None \<Rightarrow>
                  if e = CHR ''u'' then
                    (case lexUnicode es of
                       None \<Rightarrow> None
                     | Some (bs, rest) \<Rightarrow> prepend bs (lexString rest))
                  else None))
      else if byteBetween 0 31 c then None
      else if byteBetween 0 127 c then prepend [c] (lexString cs)
      else case runeLen (c # cs) of
             None \<Rightarrow> prepend runeError (lexString cs)
           | Some k \<Rightarrow> prepend (take k (c # cs)) (lexString (drop (k - 1) cs)))"
  by pat_completeness auto

termination
  by (relation "measure length") (auto dest: lexUnicode_length)

declare lexString.simps [simp del]

lemma lexString_length: "lexString s = Some (bs, rest) \<Longrightarrow> length rest < length s"
proof (induction "length s" arbitrary: s bs rule: less_induct)
  case less
  show ?case
  proof (cases s)
    case Nil
    then show ?thesis using less.prems by (simp add: lexString.simps)
  next
    case (Cons c cs)
    have IH: "length rest < length s" if "prepend xs (lexString t) = Some (bs, rest)" "length t < length s" for xs t
      using less.hyps [OF that(2)] that by (fastforce simp: prepend_def)
    from less.prems show ?thesis
      by (auto simp: Cons lexString.simps(2) [of c cs] split: if_splits list.splits option.splits
          dest!: IH lexUnicode_length)
  qed
qed

definition isDigitJ :: "char \<Rightarrow> bool" where
  "isDigitJ = byteBetween 48 57"

text \<open>The parts of a number: an optional sign, the integer part, fraction and exponent.\<close>

definition lexSign :: "char list \<Rightarrow> string \<Rightarrow> string \<times> string" where
  "lexSign signs s = (case s of [] \<Rightarrow> ([], []) | c # cs \<Rightarrow> if c \<in> set signs then ([c], cs) else ([], s))"

definition lexDigits :: "string \<Rightarrow> (string \<times> string) option" where
  "lexDigits s = (if takeWhile isDigitJ s = [] then None else Some (takeWhile isDigitJ s, dropWhile isDigitJ s))"

definition lexInt :: "string \<Rightarrow> (string \<times> string) option" where
  "lexInt s =
     (case s of
        [] \<Rightarrow> None
      | c # cs \<Rightarrow> if c = CHR ''0'' then Some ([c], cs) else lexDigits s)"

definition lexFrac :: "string \<Rightarrow> (string \<times> string) option" where
  "lexFrac s =
     (case s of
        [] \<Rightarrow> Some ([], [])
      | c # cs \<Rightarrow> if c = CHR ''.'' then prepend [c] (lexDigits cs) else Some ([], s))"

definition lexExp :: "string \<Rightarrow> (string \<times> string) option" where
  "lexExp s =
     (case s of
        [] \<Rightarrow> Some ([], [])
      | c # cs \<Rightarrow>
          if c = CHR ''e'' \<or> c = CHR ''E''
          then (case lexSign ''+-'' cs of (sg, ds) \<Rightarrow> prepend (c # sg) (lexDigits ds))
          else Some ([], s))"

definition lexNumber :: "string \<Rightarrow> (string \<times> string) option" where
  "lexNumber s = (case lexSign ''-'' s of (sg, s1) \<Rightarrow> do {
     (i, s2) \<leftarrow> lexInt s1;
     (f, s3) \<leftarrow> lexFrac s2;
     (e, s4) \<leftarrow> lexExp s3;
     Some (sg @ i @ f @ e, s4)})"

lemma lexDigits_length: "lexDigits s = Some (ds, rest) \<Longrightarrow> length rest < length s"
  by (cases s) (auto simp: lexDigits_def length_dropWhile_le less_Suc_eq_le split: if_splits)

lemma prepend_eq_Some [simp]:
  "prepend bs r = Some (s, rest) \<longleftrightarrow> (\<exists>t. r = Some (t, rest) \<and> s = bs @ t)"
  by (cases r) (auto simp: prepend_def)

lemma lexSign_length: "lexSign signs s = (sg, rest) \<Longrightarrow> length rest \<le> length s"
  by (auto simp: lexSign_def split: list.splits if_splits)

lemma lexInt_length: "lexInt s = Some (i, rest) \<Longrightarrow> length rest < length s"
  by (auto simp: lexInt_def split: list.splits if_splits dest!: lexDigits_length)

lemma lexFrac_length: "lexFrac s = Some (f, rest) \<Longrightarrow> length rest \<le> length s"
  by (auto simp: lexFrac_def split: list.splits if_splits dest!: lexDigits_length)

lemma lexExp_length: "lexExp s = Some (e, rest) \<Longrightarrow> length rest \<le> length s"
  by (auto simp: lexExp_def split: list.splits if_splits prod.splits
      dest!: lexDigits_length lexSign_length)

lemma lexNumber_length: "lexNumber s = Some (n, rest) \<Longrightarrow> length rest < length s"
  by (auto simp: lexNumber_def bind_eq_Some_conv split: prod.splits
      dest!: lexSign_length lexInt_length lexFrac_length lexExp_length)

definition isSpaceJ :: "char \<Rightarrow> bool" where
  "isSpaceJ c \<longleftrightarrow> c \<in> {CHR '' '', CHR 0x09, CHR 0x0A, CHR 0x0D}"

definition punct :: "char \<Rightarrow> jtoken option" where
  "punct c =
     (if c = CHR ''['' then Some TLBracket
      else if c = CHR '']'' then Some TRBracket
      else if c = CHR 0x7B then Some TLBrace
      else if c = CHR 0x7D then Some TRBrace
      else if c = CHR '','' then Some TComma
      else if c = CHR '':'' then Some TColon
      else None)"

text \<open>A literal by its first byte: what follows it and the token.\<close>

definition literal :: "char \<Rightarrow> (string \<times> jtoken) option" where
  "literal c =
     (if c = CHR ''n'' then Some (''ull'', TNull)
      else if c = CHR ''t'' then Some (''rue'', TBool True)
      else if c = CHR ''f'' then Some (''alse'', TBool False)
      else None)"

text \<open>The token at the front of a string that does not start with a space.\<close>

definition lexToken :: "char \<Rightarrow> string \<Rightarrow> (jtoken \<times> string) option" where
  "lexToken c cs =
     (case punct c of
        Some t \<Rightarrow> Some (t, cs)
      | None \<Rightarrow>
          if c = CHR 0x22 then map_option (\<lambda>(s, rest). (TString s, rest)) (lexString cs)
          else case literal c of
                 Some (l, t) \<Rightarrow> if prefix l cs then Some (t, drop (length l) cs) else None
               | None \<Rightarrow> map_option (\<lambda>(n, rest). (TNumber n, rest)) (lexNumber (c # cs)))"

lemma lexToken_length: "lexToken c cs = Some (t, rest) \<Longrightarrow> length rest < Suc (length cs)"
  by (auto simp: lexToken_def split: option.splits if_splits dest!: lexString_length lexNumber_length)

function lexJSON :: "string \<Rightarrow> jtoken list option" where
  "lexJSON [] = Some []"
| "lexJSON (c # cs) =
     (if isSpaceJ c then lexJSON cs
      else case lexToken c cs of
             None \<Rightarrow> None
           | Some (t, rest) \<Rightarrow> map_option (Cons t) (lexJSON rest))"
  by pat_completeness auto

termination
  by (relation "measure length") (auto dest: lexToken_length)

declare lexJSON.simps [simp del]

section \<open>Values\<close>

text \<open>
  An open array with the values read so far, latest first, or an open object with its members and
  the key whose value is read next.
\<close>

datatype frame = FArray "json list" | FObject "(string \<times> json) list" string

definition maxNestingDepth :: nat where
  "maxNestingDepth = 10000"

fun parseValue :: "frame list \<Rightarrow> jtoken list \<Rightarrow> json option"
  and afterValue :: "json \<Rightarrow> frame list \<Rightarrow> jtoken list \<Rightarrow> json option" where
  "parseValue fs [] = None"
| "parseValue fs (t # ts) =
     (case t of
        TNull \<Rightarrow> afterValue JNull fs ts
      | TBool b \<Rightarrow> afterValue (JBool b) fs ts
      | TNumber n \<Rightarrow> afterValue (JNumber n) fs ts
      | TString s \<Rightarrow> afterValue (JString s) fs ts
      | TLBracket \<Rightarrow>
          if length fs \<ge> maxNestingDepth then None
          else (case ts of
                  TRBracket # ts' \<Rightarrow> afterValue (JArray []) fs ts'
                | _ \<Rightarrow> parseValue (FArray [] # fs) ts)
      | TLBrace \<Rightarrow>
          if length fs \<ge> maxNestingDepth then None
          else (case ts of
                  TRBrace # ts' \<Rightarrow> afterValue (JObject []) fs ts'
                | TString k # TColon # ts' \<Rightarrow> parseValue (FObject [] k # fs) ts'
                | _ \<Rightarrow> None)
      | _ \<Rightarrow> None)"
| "afterValue v [] ts = (if ts = [] then Some v else None)"
| "afterValue v (FArray vs # fs) ts =
     (case ts of
        TComma # ts' \<Rightarrow> parseValue (FArray (v # vs) # fs) ts'
      | TRBracket # ts' \<Rightarrow> afterValue (JArray (rev (v # vs))) fs ts'
      | _ \<Rightarrow> None)"
| "afterValue v (FObject kvs k # fs) ts =
     (case ts of
        TComma # TString k' # TColon # ts' \<Rightarrow> parseValue (FObject ((k, v) # kvs) k' # fs) ts'
      | TRBrace # ts' \<Rightarrow> afterValue (JObject (rev ((k, v) # kvs))) fs ts'
      | _ \<Rightarrow> None)"

definition parseJSON :: "string \<Rightarrow> json option" where
  "parseJSON s = do { ts \<leftarrow> lexJSON s; parseValue [] ts }"

lemma parseJSON_empty [simp]:
  "parseJSON ''{}'' = Some (JObject [])" "parseJSON ''[]'' = Some (JArray [])"
  by code_simp+

section \<open>What is written is read back\<close>

subsection \<open>Strings\<close>

function validUTF8 :: "string \<Rightarrow> bool" where
  "validUTF8 [] = True"
| "validUTF8 (c # cs) =
     (case runeLen (c # cs) of None \<Rightarrow> False | Some k \<Rightarrow> validUTF8 (drop (k - 1) cs))"
  by pat_completeness auto

termination
  by (relation "measure length") auto

declare validUTF8.simps(2) [simp del] quoteBytes.simps(2) [simp del]

text \<open>Text of bytes below 128 is valid.\<close>

definition asciiText :: "string \<Rightarrow> bool" where
  "asciiText s \<longleftrightarrow> (\<forall>c \<in> set s. byteBetween 0 127 c)"

lemma byteBetween_ascii: "byteBetween 0 127 c \<longleftrightarrow> of_char c < (128 :: nat)"
  by (auto simp: byteBetween_def)

lemma asciiText_simps [simp]:
  "asciiText []" "asciiText (c # cs) \<longleftrightarrow> byteBetween 0 127 c \<and> asciiText cs"
  "asciiText (s @ t) \<longleftrightarrow> asciiText s \<and> asciiText t"
  by (auto simp: asciiText_def)

lemma asciiText_valid: "asciiText s \<Longrightarrow> validUTF8 s"
  by (induction s) (simp_all add: validUTF8.simps(2) runeLen_ascii byteBetween_ascii)

lemma runeLen_prefix:
  assumes "runeLen s = Some k"
  shows "runeLen (take k s @ t) = Some k"
proof -
  obtain a s1 where s: "s = a # s1" using assms by (cases s) (auto simp: runeLen_def)
  show ?thesis
  proof (cases "byteBetween 0 127 a")
    case True
    then show ?thesis using assms by (auto simp: runeLen_def s)
  next
    case a: False
    then obtain b s2 where s1: "s1 = b # s2" using assms by (cases s1) (auto simp: runeLen_def s)
    show ?thesis
    proof (cases "byteBetween 194 223 a")
      case True
      then show ?thesis using assms a by (auto simp: runeLen_def s s1 numeral_2_eq_2 split: if_splits)
    next
      case b: False
      then obtain c s3 where s2: "s2 = c # s3" using assms a by (cases s2) (auto simp: runeLen_def s s1)
      show ?thesis
      proof (cases "byteBetween 224 239 a")
        case True
        then show ?thesis using assms a b by (auto simp: runeLen_def s s1 s2 numeral_3_eq_3 split: if_splits)
      next
        case c: False
        then obtain d s4 where "s3 = d # s4"
          using assms a b by (cases s3) (auto simp: runeLen_def s s1 s2)
        then show ?thesis using assms a b c
          by (auto simp: runeLen_def s s1 s2 numeral_eq_Suc split: if_splits)
      qed
    qed
  qed
qed

lemma lexString_plain:
  "byteBetween 32 127 c \<Longrightarrow> c \<noteq> CHR 0x22 \<Longrightarrow> c \<noteq> CHR 0x5C \<Longrightarrow>
     lexString (c # cs) = prepend [c] (lexString cs)"
  by (simp add: lexString.simps byteBetween_def)

lemma lexString_escape:
  "escapeByte e = Some b \<Longrightarrow> lexString (CHR 0x5C # e # cs) = prepend [b] (lexString cs)"
  by (simp add: lexString.simps(2))

lemma lexString_unicode:
  "lexUnicode cs = Some (bs, rest) \<Longrightarrow>
     lexString (CHR 0x5C # CHR ''u'' # cs) = prepend bs (lexString rest)"
  by (simp add: lexString.simps(2) escapeByte_def)

lemma lexString_end: "lexString (CHR 0x22 # cs) = Some ([], cs)"
  by (simp add: lexString.simps)

lemma hexVal_hexLower: "d < 16 \<Longrightarrow> hexVal (hexLower d) = Some d"
  by (auto simp: hexVal_def hexLower_def byteBetween_def)

lemma lexUnicode_byte:
  assumes "byteBetween 0 127 c"
  shows "lexUnicode (CHR ''0'' # CHR ''0'' # hexLower (of_char c div 16) # hexLower (of_char c mod 16) # t) =
    Some ([c], t)"
proof -
  have n: "of_char c < (128 :: nat)" using assms by (simp add: byteBetween_def)
  have z: "hexVal (CHR ''0'') = Some 0" by (simp add: hexVal_def byteBetween_def)
  have "16 * (of_char c div 16) + of_char c mod 16 = (of_char c :: nat)" by simp
  then have "hex4 (CHR ''0'' # CHR ''0'' # hexLower (of_char c div 16) # hexLower (of_char c mod 16) # t) =
      Some (of_char c, t)"
    using n by (simp add: hex4_def z hexVal_hexLower)
  with n show ?thesis by (simp add: lexUnicode_def encodeRune_def)
qed

lemma lexString_quoteByte:
  assumes "byteBetween 0 127 c"
  shows "lexString (quoteByte c @ t) = prepend [c] (lexString t)"
proof (cases "htmlSafe c")
  case True
  then show ?thesis by (auto simp: quoteByte_def htmlSafe_def lexString_plain)
next
  case False
  then show ?thesis
    by (auto simp: quoteByte_def lexString_escape escapeByte_def lexString_unicode lexUnicode_byte [OF assms])
qed

lemma encodeRune_separators:
  "encodeRune 0x2028 = [CHR 0xE2, CHR 0x80, CHR 0xA8]" "encodeRune 0x2029 = [CHR 0xE2, CHR 0x80, CHR 0xA9]"
  by (simp_all add: encodeRune_def char_of_def bit_0)

lemma lexUnicode_separators:
  "lexUnicode (CHR ''2'' # CHR ''0'' # CHR ''2'' # CHR ''8'' # t) = Some ([CHR 0xE2, CHR 0x80, CHR 0xA8], t)"
  "lexUnicode (CHR ''2'' # CHR ''0'' # CHR ''2'' # CHR ''9'' # t) = Some ([CHR 0xE2, CHR 0x80, CHR 0xA9], t)"
  by (simp_all add: lexUnicode_def hex4_def hexVal_def byteBetween_def encodeRune_separators [simplified])

lemma lexString_quoteRune:
  assumes k: "runeLen (c # cs) = Some k" and c: "\<not> byteBetween 0 127 c"
  shows "lexString (quoteRune (take k (c # cs)) @ t) = prepend (take k (c # cs)) (lexString t)"
proof -
  have k1: "0 < k" "k \<le> Suc (length cs)" using runeLen_bounds [OF k] by simp_all
  define tl where "tl = take (k - 1) cs"
  have take: "take k (c # cs) = c # tl" "length tl = k - 1"
    using k1 by (auto simp: tl_def take_Cons')
  have "runeLen (c # tl @ t) = Some k" using runeLen_prefix [OF k, of t] by (simp add: take)
  moreover have "c \<noteq> CHR 0x22" "c \<noteq> CHR 0x5C" "\<not> byteBetween 0 31 c"
    using c by (auto simp: byteBetween_def)
  moreover have "take k (c # tl @ t) = c # tl" "drop (k - 1) (tl @ t) = t"
    using take(2) k1(1) by (simp_all add: take_Cons')
  ultimately have "lexString (c # tl @ t) = prepend (c # tl) (lexString t)"
    using c by (subst lexString.simps(2)) simp
  then show ?thesis
    by (simp add: take quoteRune_def lexString_unicode lexUnicode_separators)
qed

lemma lexString_quoteBytes:
  "validUTF8 s \<Longrightarrow> lexString (quoteBytes s @ CHR 0x22 # rest) = Some (s, rest)"
proof (induction s rule: quoteBytes.induct)
  case 1
  then show ?case by (simp add: lexString_end)
next
  case (2 c cs)
  show ?case
  proof (cases "byteBetween 0 127 c")
    case True
    moreover from this "2.prems" have "validUTF8 cs"
      by (simp add: validUTF8.simps(2) runeLen_ascii byteBetween_ascii)
    ultimately show ?thesis
      using "2.IH"(1) by (simp add: quoteBytes.simps(2) lexString_quoteByte)
  next
    case False
    obtain k where k: "runeLen (c # cs) = Some k" "validUTF8 (drop (k - 1) cs)"
      using "2.prems" by (auto simp: validUTF8.simps(2) split: option.splits)
    have "take k (c # cs) @ drop (k - 1) cs = c # cs"
      using runeLen_bounds(1) [OF k(1)] by (simp add: take_Cons')
    then show ?thesis
      using "2.IH"(3) [OF False k] k(1) False
      by (simp add: quoteBytes.simps(2) lexString_quoteRune [OF k(1) False])
  qed
qed

subsection \<open>Numbers\<close>

text \<open>A byte that cannot go on a number, or the end.\<close>

definition stops :: "string \<Rightarrow> bool" where
  "stops s \<longleftrightarrow> s = [] \<or> hd s \<in> {CHR '','', CHR '']'', CHR 0x7D}"

lemma stopsD: "stops (c # s) \<Longrightarrow> \<not> isDigitJ c \<and> c \<notin> {CHR ''.'', CHR ''e'', CHR ''E'', CHR ''-'', CHR ''+''}"
  by (auto simp: stops_def isDigitJ_def byteBetween_def)

lemma lexSign_more:
  "stops rest \<Longrightarrow> set signs \<subseteq> {CHR ''-'', CHR ''+''} \<Longrightarrow> lexSign signs s = (sg, r) \<Longrightarrow>
     lexSign signs (s @ rest) = (sg, r @ rest)"
  by (cases s; cases rest) (auto simp: lexSign_def split: if_splits dest: stopsD)

lemma lexDigits_more:
  assumes "stops rest" and "lexDigits s = Some (ds, r)"
  shows "lexDigits (s @ rest) = Some (ds, r @ rest)"
proof -
  have "takeWhile isDigitJ rest = []" "dropWhile isDigitJ rest = rest"
    using assms(1) by (cases rest; auto dest: stopsD)+
  then have "takeWhile isDigitJ (s @ rest) = takeWhile isDigitJ s"
    "dropWhile isDigitJ (s @ rest) = dropWhile isDigitJ s @ rest"
    by (induction s) auto
  with assms(2) show ?thesis by (simp add: lexDigits_def split: if_splits)
qed

lemma lexInt_more:
  "stops rest \<Longrightarrow> lexInt s = Some (i, r) \<Longrightarrow> lexInt (s @ rest) = Some (i, r @ rest)"
  using lexDigits_more [of rest s i r] by (auto simp: lexInt_def split: list.splits if_splits)

lemma lexFrac_more:
  "stops rest \<Longrightarrow> lexFrac s = Some (f, r) \<Longrightarrow> lexFrac (s @ rest) = Some (f, r @ rest)"
  by (cases s; cases rest) (auto simp: lexFrac_def split: if_splits dest: stopsD lexDigits_more)

lemma lexExp_more:
  assumes "stops rest" and "lexExp s = Some (e, r)"
  shows "lexExp (s @ rest) = Some (e, r @ rest)"
proof (cases s)
  case Nil
  with assms show ?thesis by (cases rest) (auto simp: lexExp_def dest: stopsD)
next
  case (Cons c cs)
  obtain sg ds where sg: "lexSign ''+-'' cs = (sg, ds)" by fastforce
  moreover from this have "lexSign ''+-'' (cs @ rest) = (sg, ds @ rest)"
    using assms(1) by (intro lexSign_more) auto
  ultimately show ?thesis
    using assms Cons lexDigits_more [OF assms(1)] by (auto simp: lexExp_def split: if_splits)
qed

lemma lexNumber_more:
  assumes "stops rest" and "lexNumber s = Some (n, r)"
  shows "lexNumber (s @ rest) = Some (n, r @ rest)"
proof -
  obtain sg s1 where sg: "lexSign ''-'' s = (sg, s1)" by fastforce
  then have "lexSign ''-'' (s @ rest) = (sg, s1 @ rest)"
    using assms(1) by (intro lexSign_more) auto
  with sg assms(2) lexInt_more [OF assms(1)] lexFrac_more [OF assms(1)] lexExp_more [OF assms(1)]
  show ?thesis by (auto simp: lexNumber_def bind_eq_Some_conv)
qed

lemma lexNumber_start:
  assumes "lexNumber (c # cs) = Some (n, r)"
  shows "isDigitJ c \<or> c = CHR ''-''"
proof (rule ccontr)
  assume c: "\<not> ?thesis"
  then have "lexSign ''-'' (c # cs) = ([], c # cs)" by (simp add: lexSign_def)
  moreover have "lexInt (c # cs) = None"
    using c by (auto simp: lexInt_def lexDigits_def isDigitJ_def byteBetween_def)
  ultimately show False using assms by (simp add: lexNumber_def)
qed

subsection \<open>Tokens\<close>

fun toks :: "json \<Rightarrow> jtoken list"
  and toksElems :: "json list \<Rightarrow> jtoken list"
  and toksMembers :: "(string \<times> json) list \<Rightarrow> jtoken list" where
  "toks JNull = [TNull]"
| "toks (JBool b) = [TBool b]"
| "toks (JNumber n) = [TNumber n]"
| "toks (JString s) = [TString s]"
| "toks (JArray vs) = TLBracket # toksElems vs @ [TRBracket]"
| "toks (JObject kvs) = TLBrace # toksMembers kvs @ [TRBrace]"
| "toksElems [] = []"
| "toksElems (v # vs) = toks v @ (if vs = [] then [] else TComma # toksElems vs)"
| "toksMembers [] = []"
| "toksMembers ((k, v) # kvs) =
     TString k # TColon # toks v @ (if kvs = [] then [] else TComma # toksMembers kvs)"

text \<open>Values whose strings are valid UTF-8 and whose numbers are JSON numbers.\<close>

fun jsonOk :: "json \<Rightarrow> bool" where
  "jsonOk (JNumber n) \<longleftrightarrow> lexNumber n = Some (n, [])"
| "jsonOk (JString s) \<longleftrightarrow> validUTF8 s"
| "jsonOk (JArray vs) \<longleftrightarrow> (\<forall>v \<in> set vs. jsonOk v)"
| "jsonOk (JObject kvs) \<longleftrightarrow> (\<forall>(k, v) \<in> set kvs. validUTF8 k \<and> jsonOk v)"
| "jsonOk _ \<longleftrightarrow> True"

lemma lex_punct: "punct c = Some t \<Longrightarrow> lexJSON (c # cs) = map_option (Cons t) (lexJSON cs)"
proof -
  assume c: "punct c = Some t"
  then have "\<not> isSpaceJ c" by (auto simp: punct_def isSpaceJ_def split: if_splits)
  with c show ?thesis by (simp add: lexJSON.simps(2) lexToken_def)
qed

lemma lex_puncts [simp]:
  "lexJSON (CHR ''['' # cs) = map_option (Cons TLBracket) (lexJSON cs)"
  "lexJSON (CHR '']'' # cs) = map_option (Cons TRBracket) (lexJSON cs)"
  "lexJSON (CHR 0x7B # cs) = map_option (Cons TLBrace) (lexJSON cs)"
  "lexJSON (CHR 0x7D # cs) = map_option (Cons TRBrace) (lexJSON cs)"
  "lexJSON (CHR '','' # cs) = map_option (Cons TComma) (lexJSON cs)"
  "lexJSON (CHR '':'' # cs) = map_option (Cons TColon) (lexJSON cs)"
  by (rule lex_punct, simp add: punct_def)+

lemma lex_quote [simp]:
  "validUTF8 s \<Longrightarrow> lexJSON (quote s @ rest) = map_option (Cons (TString s)) (lexJSON rest)"
  by (simp add: quote_def lexJSON.simps(2) lexToken_def punct_def isSpaceJ_def lexString_quoteBytes)

lemma lex_number:
  assumes "lexNumber n = Some (n, [])" and "stops rest"
  shows "lexJSON (n @ rest) = map_option (Cons (TNumber n)) (lexJSON rest)"
proof (cases n)
  case Nil
  then show ?thesis using assms(1) by (simp add: lexNumber_def lexSign_def lexInt_def)
next
  case (Cons c cs)
  have "isDigitJ c \<or> c = CHR ''-''" using lexNumber_start assms(1) Cons by blast
  then have "\<not> isSpaceJ c" "punct c = None" "literal c = None" "c \<noteq> CHR 0x22"
    by (auto simp: isSpaceJ_def punct_def literal_def isDigitJ_def byteBetween_def)
  with lexNumber_more [OF assms(2,1)] Cons show ?thesis
    by (simp add: lexJSON.simps(2) lexToken_def)
qed

lemma lex_literals:
  "lexJSON (''null'' @ rest) = map_option (Cons TNull) (lexJSON rest)"
  "lexJSON (''true'' @ rest) = map_option (Cons (TBool True)) (lexJSON rest)"
  "lexJSON (''false'' @ rest) = map_option (Cons (TBool False)) (lexJSON rest)"
  by (simp_all add: lexJSON.simps(2) lexToken_def punct_def literal_def isSpaceJ_def)

lemma stops_simps [simp]: "stops []" "stops (CHR '','' # s)" "stops (CHR '']'' # s)" "stops (CHR 0x7D # s)"
  by (simp_all add: stops_def)

definition onto :: "jtoken list \<Rightarrow> jtoken list option \<Rightarrow> jtoken list option" where
  "onto ts r = map_option (\<lambda>x. ts @ x) r"

lemma onto_simps [simp]:
  "onto [] r = r"
  "onto (t # ts) r = map_option (Cons t) (onto ts r)"
  "onto (ts @ us) r = onto ts (onto us r)"
  by (simp_all add: onto_def option.map_comp comp_def option.map_ident)

lemma lex_marshal:
  "jsonOk v \<Longrightarrow> stops rest \<Longrightarrow> lexJSON (marshal v @ rest) = onto (toks v) (lexJSON rest)"
  "\<forall>v \<in> set vs. jsonOk v \<Longrightarrow> stops rest \<Longrightarrow>
     lexJSON (marshalElems vs @ rest) = onto (toksElems vs) (lexJSON rest)"
  "\<forall>(k, v) \<in> set kvs. validUTF8 k \<and> jsonOk v \<Longrightarrow> stops rest \<Longrightarrow>
     lexJSON (marshalMembers kvs @ rest) = onto (toksMembers kvs) (lexJSON rest)"
  by (induction v and vs and kvs arbitrary: rest and rest and rest
      rule: marshal_marshalElems_marshalMembers.induct)
    (auto simp: lex_number lex_literals [simplified])

subsection \<open>Values\<close>

fun jsonDepth :: "json \<Rightarrow> nat" where
  "jsonDepth (JArray vs) = Suc (fold max (map jsonDepth vs) 0)"
| "jsonDepth (JObject kvs) = Suc (fold max (map (\<lambda>(k, v). jsonDepth v) kvs) 0)"
| "jsonDepth _ = 0"

lemma fold_max_le: "fold max ns a \<le> (b :: nat) \<longleftrightarrow> a \<le> b \<and> (\<forall>n \<in> set ns. n \<le> b)"
  by (induction ns arbitrary: a) auto

lemma depth_inner:
  "v \<in> set vs \<Longrightarrow> jsonDepth v < jsonDepth (JArray vs)"
  "(k, v) \<in> set kvs \<Longrightarrow> jsonDepth v < jsonDepth (JObject kvs)"
  using fold_max_le [of "map jsonDepth vs" 0 "fold max (map jsonDepth vs) 0"]
    fold_max_le [of "map (\<lambda>(k, v). jsonDepth v) kvs" 0 "fold max (map (\<lambda>(k, v). jsonDepth v) kvs) 0"]
  by (force simp: less_Suc_eq_le)+

lemma toks_start: "\<exists>t ts. toks v = t # ts \<and> t \<noteq> TRBracket \<and> t \<noteq> TRBrace"
  by (cases v) auto

lemma parseValue_TLBracket:
  assumes "length fs < maxNestingDepth" and "ts = [] \<or> hd ts \<noteq> TRBracket"
  shows "parseValue fs (TLBracket # ts) = parseValue (FArray [] # fs) ts"
  using assms by (cases ts) (auto split: jtoken.split)

lemma parse_toks:
  "length fs + jsonDepth v \<le> maxNestingDepth \<Longrightarrow>
     parseValue fs (toks v @ ts) = afterValue v fs ts"
  "\<forall>v \<in> set vs. length fs + jsonDepth v < maxNestingDepth \<Longrightarrow> vs \<noteq> [] \<Longrightarrow>
     parseValue (FArray us # fs) (toksElems vs @ TRBracket # ts) = afterValue (JArray (rev us @ vs)) fs ts"
  "\<forall>(k, v) \<in> set kvs. length fs + jsonDepth v < maxNestingDepth \<Longrightarrow> kvs = (k, v) # rest \<Longrightarrow>
     parseValue (FObject ms k # fs) (tl (tl (toksMembers kvs)) @ TRBrace # ts) =
       afterValue (JObject (rev ms @ kvs)) fs ts"
proof (induction v and vs and kvs arbitrary: fs ts and fs us ts and fs ms ts k v rest
    rule: toks_toksElems_toksMembers.induct)
  case (5 vs)
  have len: "length fs < maxNestingDepth" using "5.prems" by simp
  show ?case
  proof (cases vs)
    case Nil
    then show ?thesis using len by simp
  next
    case (Cons v vs')
    obtain t us where "toks v = t # us" "t \<noteq> TRBracket" using toks_start by blast
    then have "parseValue fs (toks (JArray vs) @ ts) =
        parseValue (FArray [] # fs) (toksElems vs @ TRBracket # ts)"
      using len by (simp add: Cons parseValue_TLBracket del: parseValue.simps)
    moreover have "\<forall>v \<in> set vs. length fs + jsonDepth v < maxNestingDepth"
      using "5.prems" depth_inner(1) [of _ vs] by fastforce
    ultimately show ?thesis
      using "5.IH" [of fs "[]" ts] Cons by simp
  qed
next
  case (6 kvs)
  have len: "length fs < maxNestingDepth" using "6.prems" by simp
  show ?case
  proof (cases kvs)
    case Nil
    then show ?thesis using len by simp
  next
    case (Cons kv kvs')
    obtain k v where kv: "kv = (k, v)" by fastforce
    have "\<forall>(k, v) \<in> set kvs. length fs + jsonDepth v < maxNestingDepth"
      using "6.prems" depth_inner(2) [of _ _ kvs] by fastforce
    from "6.IH" [OF this, of k v kvs' "[]" ts] show ?thesis
      using len by (simp add: Cons kv)
  qed
next
  case (8 v vs)
  then show ?case by (cases vs) auto
next
  case (10 k v kvs)
  then show ?case by (cases kvs) auto
qed auto

theorem parseJSON_marshal:
  assumes "jsonOk v" and "jsonDepth v \<le> maxNestingDepth"
  shows "parseJSON (marshal v) = Some v"
  using lex_marshal(1) [OF assms(1), of "[]"] parse_toks(1) [of "[]" v "[]"] assms(2)
  by (simp add: parseJSON_def lexJSON.simps(1) onto_def)

end
