(* ===== verification/Domain.thy ===== *)
theory Domain
  imports Prelude
begin

text \<open>
  The data the services exchange: packages \<open>engine/domain\<close>, \<open>engine/backtest/domain\<close>,
  \<open>engine/signals/domain\<close> and \<open>engine/execution/domain\<close>. Each struct is a record with the
  fields of the source (prefixed, because the structs share field names); each set of typed
  string constants is a datatype with one more constructor for any other string. The replay's
  speed factor is a float64, the type parameter \<open>'f\<close>.
\<close>

section \<open>Order book events (engine/domain, engine/signals/domain)\<close>

record 'd price_level =
  pl_Price :: 'd
  pl_Quantity :: 'd

record 'd diff_event =
  de_Symbol :: string
  de_EventTime :: time
  de_FirstUpdateID :: int64
  de_FinalUpdateID :: int64
  de_Bids :: "'d price_level list"
  de_Asks :: "'d price_level list"

record 'd snapshot_event =
  se_Symbol :: string
  se_CapturedAt :: time
  se_LastUpdateID :: int64
  se_Bids :: "'d price_level list"
  se_Asks :: "'d price_level list"

record 'd l2_event =
  l2_RunID :: string
  l2_Symbol :: string
  l2_EventTime :: time
  l2_LastUpdateID :: int64
  l2_Bids :: "'d price_level list"
  l2_Asks :: "'d price_level list"

record 'd signal_event =
  sg_RunID :: string
  sg_Symbol :: string
  sg_EventTime :: time
  sg_Name :: string
  sg_Version :: string
  sg_Value :: 'd
  sg_Params :: "(string \<times> string) list"

section \<open>Runs, orders, trades (engine/backtest/domain)\<close>

datatype speed_mode = SpeedAFAP | SpeedNX | SpeedWallClock

datatype control_event_type =
  ControlReplayStart | ControlReplayComplete | ControlDataGap | ControlCancelled

record control_event =
  ce_RunID :: string
  ce_Type :: control_event_type
  ce_Payload :: "(string \<times> string) list"

datatype run_status =
  RunStatusPending | RunStatusRunning | RunStatusCompleted | RunStatusFailed | RunStatusCancelled

record 'f run_record =
  rr_RunID :: string
  rr_Symbols :: "string list"
  rr_FromTime :: time
  rr_ToTime :: time
  rr_SpeedMode :: speed_mode
  rr_SpeedFactor :: "'f option"
  rr_StrategyConfig :: string
  rr_Status :: run_status

datatype side = SideBuy | SideSell | SideOther string

datatype order_type = OrderTypeLimit | OrderTypeMarket | OrderTypeOther string

datatype order_status =
  OrderStatusPending | OrderStatusOpen | OrderStatusPartiallyFilled
  | OrderStatusFilled | OrderStatusCancelled | OrderStatusOther string

record 'd order_event =
  oe_RunID :: string
  oe_Symbol :: string
  oe_EventTime :: time
  oe_OrderID :: string
  oe_Side :: side
  oe_Type :: order_type
  oe_Price :: 'd
  oe_Quantity :: 'd
  oe_Status :: order_status
  oe_FillPrice :: 'd
  oe_FillQty :: 'd
  oe_Fee :: 'd
  oe_SignalName :: string

record 'd trade_record =
  tr_RunID :: string
  tr_TradeID :: string
  tr_Symbol :: string
  tr_EventTime :: time
  tr_Side :: side
  tr_FillPrice :: 'd
  tr_FillQty :: 'd
  tr_Fee :: 'd
  tr_SignalName :: string

record 'd equity_point =
  ep_RunID :: string
  ep_EventTime :: time
  ep_Equity :: 'd

record 'd metrics_record =
  mr_RunID :: string
  mr_TotalReturnPct :: 'd
  mr_AnnualizedReturn :: 'd
  mr_SharpeRatio :: 'd
  mr_MaxDrawdownPct :: 'd
  mr_HitRatePct :: 'd
  mr_AvgWin :: 'd
  mr_AvgLoss :: 'd
  mr_TradeCount :: int

section \<open>Paper sessions (engine/execution/domain)\<close>

datatype session_status = SessionRunning | SessionStopped | SessionHalted

record paper_session =
  ps_SessionID :: string
  ps_Status :: session_status
  ps_Symbols :: "string list"
  ps_StrategyConfig :: string
  ps_StartedAt :: time
  ps_StoppedAt :: "time option"
  ps_Error :: string

section \<open>The wire strings of the typed constants\<close>

text \<open>Go's conversions \<open>string(side)\<close> and \<open>Side(s)\<close>, and those of the other string types.\<close>

fun string_of_side :: "side \<Rightarrow> string" where
  "string_of_side SideBuy = ''Buy''"
| "string_of_side SideSell = ''Sell''"
| "string_of_side (SideOther s) = s"

definition side_of_string :: "string \<Rightarrow> side" where
  "side_of_string s =
     (if s = ''Buy'' then SideBuy else if s = ''Sell'' then SideSell else SideOther s)"

fun string_of_order_type :: "order_type \<Rightarrow> string" where
  "string_of_order_type OrderTypeLimit = ''Limit''"
| "string_of_order_type OrderTypeMarket = ''Market''"
| "string_of_order_type (OrderTypeOther s) = s"

definition order_type_of_string :: "string \<Rightarrow> order_type" where
  "order_type_of_string s =
     (if s = ''Limit'' then OrderTypeLimit
      else if s = ''Market'' then OrderTypeMarket else OrderTypeOther s)"

fun string_of_order_status :: "order_status \<Rightarrow> string" where
  "string_of_order_status OrderStatusPending = ''Pending''"
| "string_of_order_status OrderStatusOpen = ''Open''"
| "string_of_order_status OrderStatusPartiallyFilled = ''PartiallyFilled''"
| "string_of_order_status OrderStatusFilled = ''Filled''"
| "string_of_order_status OrderStatusCancelled = ''Cancelled''"
| "string_of_order_status (OrderStatusOther s) = s"

definition order_status_of_string :: "string \<Rightarrow> order_status" where
  "order_status_of_string s =
     (if s = ''Pending'' then OrderStatusPending
      else if s = ''Open'' then OrderStatusOpen
      else if s = ''PartiallyFilled'' then OrderStatusPartiallyFilled
      else if s = ''Filled'' then OrderStatusFilled
      else if s = ''Cancelled'' then OrderStatusCancelled
      else OrderStatusOther s)"

lemma string_of_side_of_string [simp]: "string_of_side (side_of_string s) = s"
  by (simp add: side_of_string_def)

lemma side_of_string_consts [simp]:
  "side_of_string ''Buy'' = SideBuy" "side_of_string ''Sell'' = SideSell"
  by (simp_all add: side_of_string_def)

lemma string_of_order_type_of_string [simp]:
  "string_of_order_type (order_type_of_string s) = s"
  by (simp add: order_type_of_string_def)

lemma string_of_order_status_of_string [simp]:
  "string_of_order_status (order_status_of_string s) = s"
  by (simp add: order_status_of_string_def)

end
