(* ===== verification/Decimal_Instance.thy ===== *)
theory Decimal_Instance
  imports Prelude
begin

text \<open>
  One concrete decimal package, over the rationals, that satisfies what the development
  assumes of shopspring/decimal: division rounds half away from zero to 16 digits, and a
  value is written as its sign and its numerator and denominator in unary. It is used only
  to show that the hypotheses of the theorems can hold.
\<close>

definition rat_div :: "rat \<Rightarrow> rat \<Rightarrow> rat" where
  "rat_div a b =
     (let q = 10 ^ 16 * a / b in
      (if q < 0 then - of_int \<lfloor>1 / 2 - q\<rfloor> else of_int \<lfloor>q + 1 / 2\<rfloor>) / 10 ^ 16)"

definition rat_string :: "rat \<Rightarrow> string" where
  "rat_string r =
     (case quotient_of r of (n, d) \<Rightarrow>
       (if n < 0 then ''-'' else '''') @ replicate (nat \<bar>n\<bar>) (CHR ''1'') @ ''/'' @
       replicate (nat d) (CHR ''1''))"

definition rat_of_string :: "string \<Rightarrow> rat option" where
  "rat_of_string s =
     (let neg = (s \<noteq> [] \<and> hd s = CHR ''-'');
          t = (if neg then tl s else s);
          a = takeWhile (\<lambda>c. c \<noteq> CHR ''/'') t;
          b = drop (Suc (length a)) t
      in if length b = 0 then None
         else Some ((if neg then -1 else 1) * (of_nat (length a) / of_nat (length b))))"

definition rat_pkg :: "rat decimal_pkg" where
  "rat_pkg = \<lparr>DDiv = rat_div, DString = rat_string, DFromString = rat_of_string\<rparr>"

lemma rat_of_string_string: "rat_of_string (rat_string r) = Some r"
proof -
  obtain n d where q: "quotient_of r = (n, d)" by (cases "quotient_of r")
  have d: "0 < d" using q by (rule quotient_of_denom_pos)
  have r: "r = of_int n / of_int d" using q by (rule quotient_of_div)
  let ?ones = "replicate (nat \<bar>n\<bar>) (CHR ''1'')"
  let ?t = "?ones @ CHR ''/'' # replicate (nat d) (CHR ''1'')"
  have t: "takeWhile (\<lambda>c. c \<noteq> CHR ''/'') ?t = ?ones"
    by (simp add: takeWhile_append)
  have val: "(of_nat (nat \<bar>n\<bar>) :: rat) / of_nat (nat d) = of_int \<bar>n\<bar> / of_int d"
    using d by simp
  show ?thesis
  proof (cases "n < 0")
    case True
    have "rat_of_string (CHR ''-'' # ?t) = Some (- (of_nat (nat \<bar>n\<bar>) / of_nat (nat d)))"
      using d by (simp add: rat_of_string_def Let_def t)
    moreover have "rat_string r = CHR ''-'' # ?t" using True by (simp add: rat_string_def q)
    moreover have "- (of_nat (nat \<bar>n\<bar>) / of_nat (nat d)) = r" using True val r by simp
    ultimately show ?thesis by simp
  next
    case False
    have "hd ?t \<noteq> CHR ''-''" by (cases "nat \<bar>n\<bar>") simp_all
    then have "rat_of_string ?t = Some (of_nat (nat \<bar>n\<bar>) / of_nat (nat d))"
      using d by (simp add: rat_of_string_def Let_def t)
    moreover have "rat_string r = ?t" using False by (simp add: rat_string_def q)
    moreover have "of_nat (nat \<bar>n\<bar>) / of_nat (nat d) = r" using False val r by simp
    ultimately show ?thesis by simp
  qed
qed

lemma rat_pkg_strings [simp]: "decimal_strings rat_pkg"
  by (simp add: decimal_strings_def rat_pkg_def rat_of_string_string)

lemma round_half:
  "\<bar>q - of_int (if q < 0 then - \<lfloor>1 / 2 - q\<rfloor> else \<lfloor>q + 1 / 2\<rfloor>)\<bar> \<le> (1 / 2 :: rat)"
proof (cases "q < 0")
  case True
  have "of_int \<lfloor>1 / 2 - q\<rfloor> \<le> 1 / 2 - q" "1 / 2 - q < of_int \<lfloor>1 / 2 - q\<rfloor> + 1"
    by (rule of_int_floor_le, rule floor_correct [THEN conjunct2, simplified])
  with True show ?thesis by (simp only: if_True of_int_minus)
next
  case False
  have "of_int \<lfloor>q + 1 / 2\<rfloor> \<le> q + 1 / 2" "q + 1 / 2 < of_int \<lfloor>q + 1 / 2\<rfloor> + 1"
    by (rule of_int_floor_le, rule floor_correct [THEN conjunct2, simplified])
  with False show ?thesis by (simp only: if_False)
qed

lemma rat_pkg_div [simp]: "decimal_div rat_pkg"
  unfolding decimal_div_def
proof (intro allI impI)
  fix a b :: rat
  assume b: "b \<noteq> 0"
  let ?q = "10 ^ 16 * a / b"
  define k where "k = (if ?q < 0 then - \<lfloor>1 / 2 - ?q\<rfloor> else \<lfloor>?q + 1 / 2\<rfloor>)"
  have "\<bar>?q - of_int k\<bar> \<le> 1 / 2"
    unfolding k_def by (rule round_half)
  then have "2 * \<bar>?q - of_int k\<bar> \<le> 1" by simp
  then have "2 * \<bar>?q - of_int k\<bar> * \<bar>b\<bar> \<le> 1 * \<bar>b\<bar>" by (rule mult_right_mono) simp
  then have "2 * \<bar>(?q - of_int k) * b\<bar> \<le> \<bar>b\<bar>" by (simp add: abs_mult)
  moreover have "(?q - of_int k) * b = 10 ^ 16 * a - of_int k * b"
    using b by (simp add: field_simps)
  moreover have "10 ^ 16 * DDiv rat_pkg a b = of_int k"
    by (simp add: rat_pkg_def rat_div_def Let_def k_def)
  ultimately show "\<exists>k::int. 10 ^ 16 * DDiv rat_pkg a b = of_int k \<and>
      2 * \<bar>10 ^ 16 * a - of_int k * b\<bar> \<le> \<bar>b\<bar>" by metis
qed

end
