(* ===== verification/Wire.thy ===== *)
theory Wire
  imports GoTime GoJSON Domain Decimal_Instance "HOL-Library.Char_ord" "HOL-Library.List_Lexorder"
begin

text \<open>
  The wire formats of the Redis streams: what each publisher adds to a stream and what each
  consumer makes of it. The publishers are engine/publisher/l2.go, engine/backtest/publisher,
  engine/signals/publisher, the executor's \<open>publishOrder\<close> and engine/execution/order; the decoders
  are those of the signal consumer, the collector and the paper trading consumer (the
  executor's is in \<open>Executor\<close>). A stream entry is a map from field names to strings. What
  go-redis makes of an error reply is its text.
\<close>

section \<open>Stream entries\<close>

type_synonym fields = "string \<rightharpoonup> string"

text \<open>A type assertion to string whose failure gives the empty string.\<close>

definition strField :: "fields \<Rightarrow> string \<Rightarrow> string" where
  "strField m k = (case m k of None \<Rightarrow> [] | Some v \<Rightarrow> v)"

lemma strField_simps [simp]:
  "strField Map.empty k = []"
  "strField (m(k' \<mapsto> v)) k = (if k = k' then v else strField m k)"
  by (simp_all add: strField_def)

record xadd_args =
  xa_Stream :: string
  xa_MaxLen :: int
  xa_Approx :: bool
  xa_Values :: fields

definition xadd :: "string \<Rightarrow> fields \<Rightarrow> xadd_args" where
  "xadd key vals = \<lparr>xa_Stream = key, xa_MaxLen = 0, xa_Approx = False, xa_Values = vals\<rparr>"

text \<open>What a publisher returns for the reply to its XADD.\<close>

definition xaddError :: "xadd_args \<Rightarrow> string option \<Rightarrow> string option" where
  "xaddError args reply = map_option (\<lambda>err. ''xadd '' @ xa_Stream args @ '': '' @ err) reply"

section \<open>Price levels\<close>

text \<open>A decimal prints as plain text that is not empty.\<close>

definition decimal_text :: "'d decimal_pkg \<Rightarrow> bool" where
  "decimal_text D \<longleftrightarrow> (\<forall>d. DString D d \<noteq> [] \<and> asciiText (DString D d))"

lemma rat_pkg_text [simp]: "decimal_text rat_pkg"
  by (auto simp: decimal_text_def rat_pkg_def rat_string_def asciiText_def byteBetween_def
      split: prod.split)

text \<open>\<open>levelsToJSON\<close>, of which each publisher and the ingest repository have a copy.\<close>

definition pairJSON :: "string \<times> string \<Rightarrow> json" where
  "pairJSON p = JArray [JString (fst p), JString (snd p)]"

definition levelsToJSON :: "'d decimal_pkg \<Rightarrow> 'd price_level list \<Rightarrow> string" where
  "levelsToJSON D levels =
     marshal (JArray (map (\<lambda>lvl. pairJSON (DString D (pl_Price lvl), DString D (pl_Quantity lvl))) levels))"

text \<open>
  \<open>json.Unmarshal\<close> into a \<open>[][2]string\<close>. A null leaves its target as it is; elements after the
  second are skipped; a missing one is empty; any value of another type is an error.
\<close>

definition stringOf :: "json \<Rightarrow> string option" where
  "stringOf v = (case v of JString s \<Rightarrow> Some s | JNull \<Rightarrow> Some [] | _ \<Rightarrow> None)"

definition pairOf :: "json \<Rightarrow> (string \<times> string) option" where
  "pairOf v =
     (case v of
        JNull \<Rightarrow> Some ([], [])
      | JArray [] \<Rightarrow> Some ([], [])
      | JArray [a] \<Rightarrow> do { x \<leftarrow> stringOf a; Some (x, []) }
      | JArray (a # b # rest) \<Rightarrow> do { x \<leftarrow> stringOf a; y \<leftarrow> stringOf b; Some (x, y) }
      | _ \<Rightarrow> None)"

definition elementsOf :: "json \<Rightarrow> json list option" where
  "elementsOf v = (case v of JNull \<Rightarrow> Some [] | JArray vs \<Rightarrow> Some vs | _ \<Rightarrow> None)"

fun traverse :: "('a \<Rightarrow> 'b option) \<Rightarrow> 'a list \<Rightarrow> 'b list option" where
  "traverse f [] = Some []"
| "traverse f (x # xs) = do { y \<leftarrow> f x; ys \<leftarrow> traverse f xs; Some (y # ys) }"

definition unmarshalPairs :: "string \<Rightarrow> (string \<times> string) list option" where
  "unmarshalPairs raw = do { v \<leftarrow> parseJSON raw; vs \<leftarrow> elementsOf v; traverse pairOf vs }"

text \<open>The loop over the pairs, the same in all decoders of levels.\<close>

definition levelOfPair :: "'d decimal_pkg \<Rightarrow> string \<times> string \<Rightarrow> 'd price_level option" where
  "levelOfPair D p = do {
     price \<leftarrow> DFromString D (fst p);
     qty \<leftarrow> DFromString D (snd p);
     Some \<lparr>pl_Price = price, pl_Quantity = qty\<rparr>}"

definition decodePriceLevels :: "'d decimal_pkg \<Rightarrow> string \<Rightarrow> 'd price_level list option" where
  "decodePriceLevels D raw =
     (if raw = [] then Some []
      else do { pairs \<leftarrow> unmarshalPairs raw; traverse (levelOfPair D) pairs })"

lemma traverse_map: "(\<And>x. x \<in> set xs \<Longrightarrow> f (g x) = Some (h x)) \<Longrightarrow> traverse f (map g xs) = Some (map h xs)"
  by (induction xs) simp_all

lemma traverse_length: "traverse f xs = Some ys \<Longrightarrow> length ys = length xs"
  by (induction xs arbitrary: ys) (auto simp: bind_eq_Some_conv)

lemma depth_pairs: "jsonDepth (JArray (map pairJSON ps)) \<le> 2"
proof -
  have "fold max (map jsonDepth (map pairJSON ps)) 0 \<le> 1"
    by (subst fold_max_le) (auto simp: pairJSON_def)
  then show ?thesis by simp
qed

lemma parse_pairs:
  assumes "\<forall>p \<in> set ps. validUTF8 (fst p) \<and> validUTF8 (snd p)"
  shows "parseJSON (marshal (JArray (map pairJSON ps))) = Some (JArray (map pairJSON ps))"
  using assms depth_pairs [of ps]
  by (intro parseJSON_marshal) (auto simp: pairJSON_def maxNestingDepth_def)

lemma unmarshalPairs_marshal:
  assumes "\<forall>p \<in> set ps. validUTF8 (fst p) \<and> validUTF8 (snd p)"
  shows "unmarshalPairs (marshal (JArray (map pairJSON ps))) = Some ps"
proof -
  have "traverse pairOf (map pairJSON ps) = Some (map id ps)"
    by (intro traverse_map) (simp add: pairJSON_def pairOf_def stringOf_def)
  then show ?thesis unfolding unmarshalPairs_def parse_pairs [OF assms] by (simp add: elementsOf_def)
qed

lemma levelsToJSON_pairs:
  "levelsToJSON D ls = marshal (JArray (map pairJSON (map (\<lambda>l. (DString D (pl_Price l), DString D (pl_Quantity l))) ls)))"
  by (simp add: levelsToJSON_def comp_def)

lemma levelsToJSON_nonempty [simp]: "levelsToJSON D ls \<noteq> []"
  by (simp add: levelsToJSON_def)

lemma unmarshalPairs_levels:
  assumes "decimal_text D"
  shows "unmarshalPairs (levelsToJSON D ls) =
    Some (map (\<lambda>l. (DString D (pl_Price l), DString D (pl_Quantity l))) ls)"
  unfolding levelsToJSON_pairs using assms
  by (intro unmarshalPairs_marshal) (auto simp: decimal_text_def intro: asciiText_valid)

lemma levels_of_printed:
  assumes "decimal_strings D"
  shows "traverse (levelOfPair D) (map (\<lambda>l. (DString D (pl_Price l), DString D (pl_Quantity l))) ls) = Some ls"
  using assms traverse_map [of ls "levelOfPair D" _ id] by (simp add: levelOfPair_def)

lemma decodePriceLevels_levels:
  "decimal_strings D \<Longrightarrow> decimal_text D \<Longrightarrow> decodePriceLevels D (levelsToJSON D ls) = Some ls"
  by (simp add: decodePriceLevels_def unmarshalPairs_levels levels_of_printed)

section \<open>Book updates\<close>

record l2_publisher =
  lp_namespace :: string
  lp_maxLen :: int

text \<open>The fields of a book update.\<close>

definition l2Values ::
  "'d decimal_pkg \<Rightarrow> string \<Rightarrow> string \<Rightarrow> time \<Rightarrow> int64 \<Rightarrow> 'd price_level list \<Rightarrow>
   'd price_level list \<Rightarrow> fields" where
  "l2Values D runID symbol eventTime lastUpdateID bids asks =
     [''run_id'' \<mapsto> runID, ''symbol'' \<mapsto> ToUpper symbol,
      ''event_time'' \<mapsto> FormatRFC3339Nano eventTime,
      ''last_update_id'' \<mapsto> formatInt (sint lastUpdateID),
      ''bids'' \<mapsto> levelsToJSON D bids, ''asks'' \<mapsto> levelsToJSON D asks]"

text \<open>The publisher of engine/publisher, which bounds the stream when a length is set.\<close>

definition PublishL2 ::
  "'d decimal_pkg \<Rightarrow> l2_publisher \<Rightarrow> string \<Rightarrow> string \<Rightarrow> time \<Rightarrow> int64 \<Rightarrow> 'd price_level list \<Rightarrow>
   'd price_level list \<Rightarrow> xadd_args" where
  "PublishL2 D p runID symbol eventTime lastUpdateID bids asks =
     (let args = xadd (lp_namespace p @ '':l2:'' @ ToUpper symbol)
                   (l2Values D runID symbol eventTime lastUpdateID bids asks)
      in if 0 < lp_maxLen p then args\<lparr>xa_MaxLen := lp_maxLen p, xa_Approx := True\<rparr> else args)"

text \<open>The publisher of engine/backtest/publisher.\<close>

definition BacktestPublishL2 ::
  "'d decimal_pkg \<Rightarrow> string \<Rightarrow> string \<Rightarrow> string \<Rightarrow> time \<Rightarrow> int64 \<Rightarrow> 'd price_level list \<Rightarrow>
   'd price_level list \<Rightarrow> xadd_args" where
  "BacktestPublishL2 D namespace runID symbol eventTime lastUpdateID bids asks =
     xadd (namespace @ '':l2:'' @ ToUpper symbol)
       (l2Values D runID symbol eventTime lastUpdateID bids asks)"

text \<open>The signal consumer's decoder; an unreadable id counts as what ParseInt returns with it.\<close>

definition decodeL2BookUpdateEvent :: "'d decimal_pkg \<Rightarrow> fields \<Rightarrow> 'd l2_event option" where
  "decodeL2BookUpdateEvent D vals =
     (if strField vals ''symbol'' = [] \<or> strField vals ''event_time'' = [] then None
      else do {
        t \<leftarrow> ParseRFC3339Nano (strField vals ''event_time'');
        bids \<leftarrow> decodePriceLevels D (strField vals ''bids'');
        asks \<leftarrow> decodePriceLevels D (strField vals ''asks'');
        Some \<lparr>l2_RunID = strField vals ''run_id'', l2_Symbol = strField vals ''symbol'',
              l2_EventTime = t,
              l2_LastUpdateID =
                (let idStr = strField vals ''last_update_id'' in
                 if idStr = [] then 0 else word_of_int (fst (ParseInt idStr))),
              l2_Bids = bids, l2_Asks = asks\<rparr>})"

lemma strField_l2Values [simp]:
  "strField (l2Values D r s t i bs as) ''run_id'' = r"
  "strField (l2Values D r s t i bs as) ''symbol'' = ToUpper s"
  "strField (l2Values D r s t i bs as) ''event_time'' = FormatRFC3339Nano t"
  "strField (l2Values D r s t i bs as) ''last_update_id'' = formatInt (sint i)"
  "strField (l2Values D r s t i bs as) ''bids'' = levelsToJSON D bs"
  "strField (l2Values D r s t i bs as) ''asks'' = levelsToJSON D as"
  by (simp_all add: l2Values_def)

lemma formatInt_nonempty [simp]: "formatInt i \<noteq> []"
  by (simp add: formatInt_def)

lemma ParseInt_int64:
  fixes i :: int64
  shows "ParseInt (formatInt (sint i)) = (sint i, False)"
  using sint_ge [of i] sint_lt [of i] by (intro ParseInt_formatInt) simp_all

lemma decode_l2Values:
  assumes "decimal_strings D" "decimal_text D" "time_ok t" "s \<noteq> []"
  shows "decodeL2BookUpdateEvent D (l2Values D r s t i bs as) =
    Some \<lparr>l2_RunID = r, l2_Symbol = ToUpper s, l2_EventTime = t, l2_LastUpdateID = i,
          l2_Bids = bs, l2_Asks = as\<rparr>"
  using assms
  by (simp add: decodeL2BookUpdateEvent_def decodePriceLevels_levels parse_format_time ParseInt_int64 Let_def)

section \<open>Signals\<close>

text \<open>\<open>json.Marshal\<close> of a map sorts the keys. The empty list stands for an empty map.\<close>

definition stringMapJSON :: "(string \<times> string) list \<Rightarrow> string" where
  "stringMapJSON m = marshal (JObject (map (\<lambda>(k, v). (k, JString v)) (sort_key fst m)))"

text \<open>
  What \<open>json.Unmarshal\<close> leaves in a nil \<open>map[string]string\<close>, whatever error it returns: members of
  another type store the empty string.
\<close>

definition unmarshalStringMap :: "string \<Rightarrow> (string \<times> string) list" where
  "unmarshalStringMap raw =
     (case parseJSON raw of
        Some (JObject kvs) \<Rightarrow>
          foldl (\<lambda>m (k, v). AList.update k (case v of JString s \<Rightarrow> s | _ \<Rightarrow> []) m) [] kvs
      | _ \<Rightarrow> [])"

definition PublishSignalEvent :: "'d decimal_pkg \<Rightarrow> string \<Rightarrow> 'd signal_event \<Rightarrow> xadd_args" where
  "PublishSignalEvent D namespace sg = xadd (namespace @ '':signals'')
     [''run_id'' \<mapsto> sg_RunID sg, ''symbol'' \<mapsto> sg_Symbol sg,
      ''event_time'' \<mapsto> FormatRFC3339Nano (sg_EventTime sg), ''name'' \<mapsto> sg_Name sg,
      ''version'' \<mapsto> sg_Version sg, ''value'' \<mapsto> DString D (sg_Value sg),
      ''params'' \<mapsto> stringMapJSON (sg_Params sg)]"

text \<open>The paper trading consumer tries the publisher's layout first, then RFC3339.\<close>

definition decodeSignalEvent :: "'d decimal_pkg \<Rightarrow> fields \<Rightarrow> 'd signal_event option" where
  "decodeSignalEvent D vals =
     (if strField vals ''symbol'' = [] \<or> strField vals ''event_time'' = [] then None
      else do {
        t \<leftarrow> (case ParseLiteralZ (strField vals ''event_time'') of
                 Some t \<Rightarrow> Some t
               | None \<Rightarrow> ParseRFC3339Nano (strField vals ''event_time''));
        if strField vals ''value'' = [] then None else do {
        val \<leftarrow> DFromString D (strField vals ''value'');
        Some \<lparr>sg_RunID = strField vals ''run_id'', sg_Symbol = strField vals ''symbol'',
              sg_EventTime = t, sg_Name = strField vals ''name'', sg_Version = strField vals ''version'',
              sg_Value = val,
              sg_Params = (let raw = strField vals ''params'' in
                 if raw = [] then [] else unmarshalStringMap raw)\<rparr>}})"

lemma foldl_update_distinct:
  "distinct (map fst acc @ map fst kvs) \<Longrightarrow> foldl (\<lambda>m (k, v). AList.update k (g v) m) acc kvs =
     acc @ map (\<lambda>(k, v). (k, g v)) kvs"
proof (induction kvs arbitrary: acc)
  case Nil
  then show ?case by simp
next
  case (Cons kv kvs)
  obtain k v where kv: "kv = (k, v)" by fastforce
  have "k \<notin> fst ` set acc" using Cons.prems by (auto simp: kv)
  then have "AList.update k (g v) acc = acc @ [(k, g v)]"
    by (induction acc) auto
  with Cons kv show ?case by simp
qed

lemma unmarshal_stringMap:
  assumes "distinct (map fst m)" and "\<forall>(k, v) \<in> set m. validUTF8 k \<and> validUTF8 v"
  shows "unmarshalStringMap (stringMapJSON m) = sort_key fst m"
proof -
  let ?kvs = "map (\<lambda>(k, v). (k, JString v)) (sort_key fst m)"
  have "fold max (map (\<lambda>(k, v). jsonDepth v) ?kvs) 0 \<le> 0"
    by (subst fold_max_le) auto
  then have "parseJSON (stringMapJSON m) = Some (JObject ?kvs)"
    unfolding stringMapJSON_def using assms(2)
    by (intro parseJSON_marshal) (auto simp: maxNestingDepth_def)
  moreover have "distinct (map fst ?kvs)"
  proof -
    have "mset (map fst (sort_key fst m)) = mset (map fst m)" by simp
    then have "distinct (map fst (sort_key fst m))"
      using assms(1) by (metis mset_eq_imp_distinct_iff)
    moreover have "map fst ?kvs = map fst (sort_key fst m)" by (simp add: comp_def case_prod_beta)
    ultimately show ?thesis by (simp only:)
  qed
  then have "foldl (\<lambda>m (k, v). AList.update k (case v of JString s \<Rightarrow> s | _ \<Rightarrow> []) m) [] ?kvs =
      map (\<lambda>(k, v). (k, case v of JString s \<Rightarrow> s | _ \<Rightarrow> [])) ?kvs"
    using foldl_update_distinct [of "[]" ?kvs "\<lambda>v. case v of JString s \<Rightarrow> s | _ \<Rightarrow> []"]
    by (simp only: append_Nil list.map)
  ultimately show ?thesis
    by (simp add: unmarshalStringMap_def comp_def case_prod_beta)
qed

text \<open>What a signal event must be for its fields to be read back.\<close>

definition signal_ok :: "'d signal_event \<Rightarrow> bool" where
  "signal_ok sg \<longleftrightarrow> sg_Symbol sg \<noteq> [] \<and> time_ok (sg_EventTime sg) \<and> distinct (map fst (sg_Params sg)) \<and>
     (\<forall>(k, v) \<in> set (sg_Params sg). validUTF8 k \<and> validUTF8 v)"

lemma decode_signal:
  assumes "decimal_strings D" "decimal_text D" "signal_ok sg"
  shows "decodeSignalEvent D (xa_Values (PublishSignalEvent D ns sg)) =
    Some (sg\<lparr>sg_Params := sort_key fst (sg_Params sg)\<rparr>)"
proof -
  have "stringMapJSON (sg_Params sg) \<noteq> []" by (simp add: stringMapJSON_def)
  moreover have "DString D (sg_Value sg) \<noteq> []" using assms(2) by (simp add: decimal_text_def)
  ultimately show ?thesis using assms
    by (simp add: decodeSignalEvent_def PublishSignalEvent_def xadd_def signal_ok_def
        parse_literal_time unmarshal_stringMap Let_def)
qed

section \<open>Orders\<close>

definition orderValues :: "'d decimal_pkg \<Rightarrow> 'd order_event \<Rightarrow> fields" where
  "orderValues D order =
     [''run_id'' \<mapsto> oe_RunID order, ''symbol'' \<mapsto> oe_Symbol order,
      ''event_time'' \<mapsto> FormatRFC3339Nano (oe_EventTime order),
      ''order_id'' \<mapsto> oe_OrderID order, ''side'' \<mapsto> string_of_side (oe_Side order),
      ''type'' \<mapsto> string_of_order_type (oe_Type order), ''price'' \<mapsto> DString D (oe_Price order),
      ''quantity'' \<mapsto> DString D (oe_Quantity order),
      ''status'' \<mapsto> string_of_order_status (oe_Status order),
      ''fill_price'' \<mapsto> DString D (oe_FillPrice order), ''fill_qty'' \<mapsto> DString D (oe_FillQty order),
      ''fee'' \<mapsto> DString D (oe_Fee order), ''signal_name'' \<mapsto> oe_SignalName order]"

text \<open>The executor's \<open>publishOrder\<close> and the publisher of the paper trading service.\<close>

definition publishOrder :: "'d decimal_pkg \<Rightarrow> string \<Rightarrow> 'd order_event \<Rightarrow> xadd_args" where
  "publishOrder D ordersKey order = xadd ordersKey (orderValues D order)"

definition PublishOrderEvent :: "'d decimal_pkg \<Rightarrow> string \<Rightarrow> 'd order_event \<Rightarrow> xadd_args" where
  "PublishOrderEvent D namespace order = xadd (namespace @ '':orders'') (orderValues D order)"

text \<open>The collector's decoder: a missing decimal is zero.\<close>

definition decimalVal :: "'d::zero decimal_pkg \<Rightarrow> fields \<Rightarrow> string \<Rightarrow> 'd option" where
  "decimalVal D vals key = (let s = strField vals key in if s = [] then Some 0 else DFromString D s)"

definition decodeOrderEvent :: "'d::zero decimal_pkg \<Rightarrow> fields \<Rightarrow> 'd order_event option" where
  "decodeOrderEvent D vals =
     (if strField vals ''event_time'' = [] then None
      else do {
        t \<leftarrow> ParseRFC3339Nano (strField vals ''event_time'');
        price \<leftarrow> decimalVal D vals ''price'';
        quantity \<leftarrow> decimalVal D vals ''quantity'';
        fillPrice \<leftarrow> decimalVal D vals ''fill_price'';
        fillQty \<leftarrow> decimalVal D vals ''fill_qty'';
        fee \<leftarrow> decimalVal D vals ''fee'';
        Some \<lparr>oe_RunID = strField vals ''run_id'', oe_Symbol = strField vals ''symbol'',
              oe_EventTime = t, oe_OrderID = strField vals ''order_id'',
              oe_Side = side_of_string (strField vals ''side''),
              oe_Type = order_type_of_string (strField vals ''type''),
              oe_Price = price, oe_Quantity = quantity,
              oe_Status = order_status_of_string (strField vals ''status''),
              oe_FillPrice = fillPrice, oe_FillQty = fillQty, oe_Fee = fee,
              oe_SignalName = strField vals ''signal_name''\<rparr>})"

text \<open>The typed strings of an order, when none of them is a known name written as another.\<close>

definition order_ok :: "'d order_event \<Rightarrow> bool" where
  "order_ok order \<longleftrightarrow> time_ok (oe_EventTime order) \<and>
     side_of_string (string_of_side (oe_Side order)) = oe_Side order \<and>
     order_type_of_string (string_of_order_type (oe_Type order)) = oe_Type order \<and>
     order_status_of_string (string_of_order_status (oe_Status order)) = oe_Status order"

lemma decode_order:
  assumes "decimal_strings D" "decimal_text D" "order_ok order"
  shows "decodeOrderEvent D (orderValues D order) = Some order"
  using assms by (simp add: decodeOrderEvent_def orderValues_def decimalVal_def order_ok_def
      decimal_text_def Let_def)

section \<open>Control events\<close>

fun string_of_control :: "control_event_type \<Rightarrow> string" where
  "string_of_control ControlReplayStart = ''REPLAY_START''"
| "string_of_control ControlReplayComplete = ''REPLAY_COMPLETE''"
| "string_of_control ControlDataGap = ''DATA_GAP''"
| "string_of_control ControlCancelled = ''CANCELLED''"

text \<open>A payload without members is the nil map the runner passes.\<close>

definition PublishControl :: "string \<Rightarrow> control_event \<Rightarrow> xadd_args" where
  "PublishControl namespace ev = xadd (namespace @ '':control'')
     [''run_id'' \<mapsto> ce_RunID ev, ''type'' \<mapsto> string_of_control (ce_Type ev),
      ''payload'' \<mapsto> (if ce_Payload ev = [] then marshal JNull else stringMapJSON (ce_Payload ev))]"

section \<open>Malformed entries\<close>

text \<open>A time that is not there or not a time makes every decoder refuse the entry.\<close>

lemma ParseRFC3339Nano_short: "length s < 4 \<Longrightarrow> ParseRFC3339Nano s = None"
  by (simp add: ParseRFC3339Nano_def parseDateTime_def getYear_def)

lemma decode_needs_time:
  assumes "ParseRFC3339Nano (strField vals ''event_time'') = None"
  shows "decodeL2BookUpdateEvent D vals = None" "decodeOrderEvent D vals = None"
    "ParseLiteralZ (strField vals ''event_time'') = None \<Longrightarrow> decodeSignalEvent D vals = None"
  using assms by (simp_all add: decodeL2BookUpdateEvent_def decodeOrderEvent_def decodeSignalEvent_def)

end
