(* ===== verification/Tables.thy ===== *)
theory Tables
  imports Wire
begin

text \<open>
  What the three repositories share: a table is the list of its rows in insertion order; what
  Postgres does to a timestamp and to a JSON text is a parameter \<open>pg\<close>; the clauses of the
  statements are functions on lists.
\<close>

section \<open>Column types\<close>

text \<open>
  A timestamptz has microseconds, so a time is rounded on its way in (\<open>pg_time\<close>; whole microseconds
  are kept, and order is not reversed). A jsonb column gives back a text that means the same
  (\<open>pg_jsonb\<close>; all the repositories rely on is arrays of pairs of plain strings).
\<close>

record pg =
  pg_time :: "time \<Rightarrow> time"
  pg_jsonb :: "string \<Rightarrow> string"

definition micros :: "time \<Rightarrow> bool" where
  "micros t \<longleftrightarrow> t mod 1000 = 0"

definition postgres :: "pg \<Rightarrow> bool" where
  "postgres P \<longleftrightarrow> mono (pg_time P) \<and> (\<forall>t. micros (pg_time P t)) \<and> (\<forall>t. micros t \<longrightarrow> pg_time P t = t) \<and>
     (\<forall>ps. (\<forall>p \<in> set ps. asciiText (fst p) \<and> asciiText (snd p)) \<longrightarrow>
        parseJSON (pg_jsonb P (marshal (JArray (map pairJSON ps)))) = Some (JArray (map pairJSON ps)))"

definition micro_pg :: pg where
  "micro_pg = \<lparr>pg_time = (\<lambda>t. t div 1000 * 1000), pg_jsonb = (\<lambda>s. s)\<rparr>"

lemma postgres_micro_pg [simp]: "postgres micro_pg"
  unfolding postgres_def
proof (intro conjI allI impI)
  show "mono (pg_time micro_pg)" by (simp add: micro_pg_def monoI zdiv_mono1)
  show "micros (pg_time micro_pg t)" for t by (simp add: micro_pg_def micros_def)
  show "pg_time micro_pg t = t" if "micros t" for t
    using that by (simp add: micro_pg_def micros_def mod_0_imp_dvd)
  show "parseJSON (pg_jsonb micro_pg (marshal (JArray (map pairJSON ps)))) = Some (JArray (map pairJSON ps))"
    if "\<forall>p \<in> set ps. asciiText (fst p) \<and> asciiText (snd p)" for ps
    using that by (simp only: micro_pg_def pg.simps) (intro parse_pairs, blast intro: asciiText_valid)
qed

lemma postgresD:
  assumes "postgres P"
  shows "s \<le> t \<Longrightarrow> pg_time P s \<le> pg_time P t" "micros (pg_time P t)" "micros t \<Longrightarrow> pg_time P t = t"
  using assms by (auto simp: postgres_def mono_def)

lemma pg_time_le:
  assumes "postgres P" and "micros a" and "micros b"
  shows "pg_time P a \<le> pg_time P b \<longleftrightarrow> a \<le> b"
  using postgresD(3) [OF assms(1)] assms(2,3) by simp

section \<open>Reading rows\<close>

text \<open>
  The server can fail at every call of the driver. A database keeps the script of the answers
  still to come, one per call: Exec, Query, QueryRow with its Scan, and for the rows of a Query every
  \<open>rows.Next\<close> and every \<open>rows.Scan\<close>. When it is exhausted nothing fails any more.
\<close>

fun nextAnswer :: "string option list \<Rightarrow> string option list \<times> string option" where
  "nextAnswer [] = ([], None)"
| "nextAnswer (e # es) = (es, e)"

text \<open>
  The loop over the rows of a query. A failed Scan (wrapped by \<open>scan_err\<close>) or a row that cannot be decoded
  returns from the middle of it without the rows, \<open>Inl\<close>; otherwise it ends when there is no row left or
  when Next fails, with the rows decoded so far and what \<open>rows.Err()\<close> then says.
\<close>

fun scanRows ::
  "('r \<Rightarrow> 'e + 'a) \<Rightarrow> (string \<Rightarrow> 'e) \<Rightarrow> string option list \<Rightarrow> 'r list \<Rightarrow> 'a list \<Rightarrow>
   string option list \<times> ('e + 'a list \<times> string option)" where
  "scanRows decode scan_err errs [] out =
     (case nextAnswer errs of (errs1, err) \<Rightarrow> (errs1, Inr (out, err)))"
| "scanRows decode scan_err errs (r # rs) out =
     (case nextAnswer errs of
        (errs1, Some err) \<Rightarrow> (errs1, Inr (out, Some err))
      | (errs1, None) \<Rightarrow>
          (case nextAnswer errs1 of
             (errs2, Some err) \<Rightarrow> (errs2, Inl (scan_err err))
           | (errs2, None) \<Rightarrow>
               (case decode r of
                  Inl err \<Rightarrow> (errs2, Inl err)
                | Inr x \<Rightarrow> scanRows decode scan_err errs2 rs (out @ [x]))))"

lemma scanRows_ok:
  "\<forall>r \<in> set rs. \<not> isl (decode r) \<Longrightarrow>
   scanRows decode scan_err [] rs out = ([], Inr (out @ map (projr \<circ> decode) rs, None))"
  by (induction rs arbitrary: out) (auto split: sum.split)

lemma scanRows_total [simp]:
  "scanRows (\<lambda>r. Inr (f r)) scan_err [] rs out = ([], Inr (out @ map f rs, None))"
  by (subst scanRows_ok) (simp_all add: comp_def)

lemma nextAnswer_set: "nextAnswer errs = (errs1, e) \<Longrightarrow> set errs1 \<subseteq> set errs"
  "nextAnswer errs = (errs1, Some err) \<Longrightarrow> Some err \<in> set errs"
  by (cases errs; auto)+

text \<open>
  What the loop returns: all rows, decoded in order; or the first of them and an error of the
  server; or no row and an error of a Scan or of a row.
\<close>

lemma scanRows_result:
  "case snd (scanRows decode scan_err errs rs out) of
     Inl err \<Rightarrow> (\<exists>e. Some e \<in> set errs \<and> err = scan_err e) \<or> (\<exists>r \<in> set rs. decode r = Inl err)
   | Inr (xs, None) \<Rightarrow> map Inr xs = map Inr out @ map decode rs
   | Inr (xs, Some e) \<Rightarrow> Some e \<in> set errs \<and>
       (\<exists>k \<le> length rs. map Inr xs = map Inr out @ map decode (take k rs))"
proof (induction rs arbitrary: errs out)
  case Nil
  obtain errs1 e where n: "nextAnswer errs = (errs1, e)" by fastforce
  then show ?case using nextAnswer_set(2) [of errs errs1] by (auto split: option.split)
next
  case (Cons r rs)
  obtain errs1 e where n: "nextAnswer errs = (errs1, e)" by fastforce
  show ?case
  proof (cases e)
    case (Some err)
    then show ?thesis using n nextAnswer_set(2) [of errs errs1 err] by (auto intro: exI [of _ 0])
  next
    case None
    obtain errs2 e2 where n2: "nextAnswer errs1 = (errs2, e2)" by fastforce
    have sub: "set errs2 \<subseteq> set errs" using nextAnswer_set(1) n n2 by blast
    show ?thesis
    proof (cases e2)
      case (Some err)
      then have "Some err \<in> set errs" using nextAnswer_set n n2 by blast
      then show ?thesis using n n2 None Some by auto
    next
      case None2: None
      show ?thesis
      proof (cases "decode r")
        case (Inl err)
        then show ?thesis using n n2 None None2 by simp
      next
        case (Inr x)
        then have step: "scanRows decode scan_err errs (r # rs) out = scanRows decode scan_err errs2 rs (out @ [x])"
          using n n2 None None2 by simp
        have take: "\<exists>k \<le> length (r # rs). map Inr xs = map Inr out @ map decode (take k (r # rs))"
          if "k \<le> length rs" "map Inr xs = map Inr (out @ [x]) @ map decode (take k rs)" for xs k
          using that Inr by (intro exI [of _ "Suc k"]) simp
        show ?thesis
          using Cons.IH [of errs2 "out @ [x]"] sub take Inr unfolding step
          by (auto split: sum.splits prod.splits option.splits)
      qed
    qed
  qed
qed

lemma scanRows_Inr:
  assumes "scanRows Inr scan_err errs rs [] = (errs', Inr (out, None))"
  shows "out = rs"
proof -
  have "map Inr out = map Inr rs"
    using scanRows_result [where decode = Inr and scan_err = scan_err and errs = errs and rs = rs and out = "[]"] assms
    by simp
  then show ?thesis by (simp add: inj_map_eq_map)
qed

section \<open>Clauses\<close>

text \<open>INSERT with ON CONFLICT (\<open>key\<close>) DO NOTHING.\<close>

definition insertNew :: "('a \<Rightarrow> 'k) \<Rightarrow> 'a \<Rightarrow> 'a list \<Rightarrow> 'a list" where
  "insertNew key x xs = (if \<exists>y \<in> set xs. key y = key x then xs else xs @ [x])"

text \<open>
  ORDER BY \<open>key\<close> DESC LIMIT 1. Rows with equal keys come out in any order; this takes the first.
\<close>

fun newest :: "('a \<Rightarrow> time) \<Rightarrow> 'a list \<Rightarrow> 'a option" where
  "newest key [] = None"
| "newest key (x # xs) =
     (case newest key xs of
        None \<Rightarrow> Some x
      | Some y \<Rightarrow> if key x < key y then Some y else Some x)"

lemma newest_in: "newest key xs = Some x \<Longrightarrow> x \<in> set xs"
  by (induction xs arbitrary: x) (auto split: option.splits if_splits)

lemma newest_None [simp]: "newest key xs = None \<longleftrightarrow> xs = []"
  by (cases xs) (auto split: option.splits)

lemma newest_max: "newest key xs = Some x \<Longrightarrow> y \<in> set xs \<Longrightarrow> key y \<le> key x"
  by (induction xs arbitrary: x y) (fastforce split: option.splits if_splits)+

lemma newest_snoc_latest:
  "(\<And>y. y \<in> set xs \<Longrightarrow> key y < key x) \<Longrightarrow> newest key (xs @ [x]) = Some x"
  by (induction xs) (auto simp: less_imp_le)

text \<open>What a run of such inserts leaves of its rows: the first with each key.\<close>

definition firsts :: "('a \<Rightarrow> 'k) \<Rightarrow> 'a list \<Rightarrow> 'a list" where
  "firsts key xs = foldl (\<lambda>t x. insertNew key x t) [] xs"

lemma firsts_Nil [simp]: "firsts key [] = []"
  by (simp add: firsts_def)

lemma firsts_snoc [simp]: "firsts key (xs @ [x]) = insertNew key x (firsts key xs)"
  by (simp add: firsts_def)

lemma firsts_keys: "key ` set (firsts key xs) = key ` set xs"
proof (induction xs rule: rev_induct)
  case (snoc x xs)
  have "key x \<in> key ` set (firsts key xs)" if "\<exists>y \<in> set (firsts key xs). key y = key x"
    using that by (metis imageI)
  with snoc show ?case by (auto simp: insertNew_def)
qed simp

lemma firsts_distinct: "distinct (map key (firsts key xs))"
  by (induction xs rule: rev_induct) (auto simp: insertNew_def)

lemma firsts_subset: "set (firsts key xs) \<subseteq> set xs"
  by (induction xs rule: rev_induct) (auto simp: insertNew_def)

lemma firsts_all: "distinct (map key xs) \<Longrightarrow> firsts key xs = xs"
proof (induction xs rule: rev_induct)
  case (snoc x xs)
  then have "key x \<notin> key ` set xs" by auto
  then have "\<not> (\<exists>y \<in> set xs. key y = key x)" by (metis imageI)
  with snoc show ?case by (simp add: insertNew_def)
qed simp

lemma firsts_map: "firsts key (map f xs) = map f (firsts (key \<circ> f) xs)"
  by (induction xs rule: rev_induct) (auto simp: insertNew_def)

text \<open>The row kept for a key is the first one that came with it.\<close>

lemma firsts_iff:
  "x \<in> set (firsts key xs) \<longleftrightarrow> (\<exists>pre post. xs = pre @ x # post \<and> key x \<notin> key ` set pre)"
proof (induction xs rule: rev_induct)
  case Nil
  then show ?case by simp
next
  case (snoc y ys)
  have split: "(\<exists>pre post. ys @ [y] = pre @ x # post \<and> key x \<notin> key ` set pre) \<longleftrightarrow>
      (\<exists>pre post. ys = pre @ x # post \<and> key x \<notin> key ` set pre) \<or> x = y \<and> key x \<notin> key ` set ys"
    (is "?l \<longleftrightarrow> ?r")
  proof
    assume ?l
    then obtain pre post where e: "ys @ [y] = pre @ x # post" and k: "key x \<notin> key ` set pre" by blast
    show ?r
    proof (cases post rule: rev_cases)
      case Nil
      with e k show ?thesis by auto
    next
      case (snoc post' z)
      with e k show ?thesis by auto
    qed
  next
    assume ?r
    then show ?l
    proof
      assume "\<exists>pre post. ys = pre @ x # post \<and> key x \<notin> key ` set pre"
      then obtain pre post where "ys = pre @ x # post" "key x \<notin> key ` set pre" by blast
      then have "ys @ [y] = pre @ x # (post @ [y]) \<and> key x \<notin> key ` set pre" by simp
      then show ?l by blast
    next
      assume "x = y \<and> key x \<notin> key ` set ys"
      then have "ys @ [y] = ys @ x # [] \<and> key x \<notin> key ` set ys" by (elim conjE) simp
      then show ?l by blast
    qed
  qed
  have "(\<exists>z \<in> set (firsts key ys). key z = key y) \<longleftrightarrow> key y \<in> key ` set ys"
    using firsts_keys [of key ys] by (metis image_iff)
  then show ?case unfolding split snoc.IH [symmetric] by (simp add: insertNew_def) blast
qed

text \<open>One row per key, kept by an insert.\<close>

lemma insertNew_distinct: "distinct (map key xs) \<Longrightarrow> distinct (map key (insertNew key x xs))"
  by (auto simp: insertNew_def)

lemma insertNew_idem: "insertNew key x (insertNew key x xs) = insertNew key x xs"
  by (auto simp: insertNew_def)

end
