(* ===== verification/Ingest_Repository.thy ===== *)
theory Ingest_Repository
  imports Tables
begin

text \<open>
  The recorded order book, engine/repository/repository.go over the tables of
  engine/migrations/001_initial_schema.sql: the diffs the symbol handlers write, their
  checkpoints, and the two queries of the replay. \<open>id_errs\<close> is the script of the server's answers (see
  \<open>Tables\<close>); a statement that fails leaves the tables alone.
\<close>

section \<open>Tables\<close>

record diff_row =
  dw_event_time :: time
  dw_symbol :: string
  dw_first_update_id :: int64
  dw_final_update_id :: int64
  dw_bids :: string
  dw_asks :: string
  dw_received_at :: time

record snapshot_row =
  sw_snapshot_time :: time
  sw_symbol :: string
  sw_last_update_id :: int64
  sw_depth :: int
  sw_bids :: string
  sw_asks :: string

record ingest_db =
  id_diffs :: "diff_row list"
  id_snapshots :: "snapshot_row list"
  id_errs :: "string option list"

datatype repo_error =
    InsertDiff string | InsertCheckpoint string | NoCheckpoint string time | QueryCheckpoint string
  | DiffsQuery string | ScanDiff string | RowsError string | DecodeBids | DecodeAsks

definition ianswer :: "ingest_db \<Rightarrow> ingest_db \<times> string option" where
  "ianswer db = (case id_errs db of [] \<Rightarrow> (db, None) | e # es \<Rightarrow> (db\<lparr>id_errs := es\<rparr>, e))"

section \<open>Levels\<close>

text \<open>\<open>levelsToJSON\<close> is that of the publishers; its inverse, which takes an empty text for nothing.\<close>

definition jsonToLevels :: "'d decimal_pkg \<Rightarrow> string \<Rightarrow> 'd price_level list option" where
  "jsonToLevels D data =
     (if length data = 0 then Some []
      else do { pairs \<leftarrow> unmarshalPairs data; traverse (levelOfPair D) pairs })"

section \<open>Writing\<close>

definition diffKey :: "diff_row \<Rightarrow> string \<times> int64 \<times> time" where
  "diffKey r = (dw_symbol r, dw_final_update_id r, dw_event_time r)"

definition diffRow :: "'d decimal_pkg \<Rightarrow> pg \<Rightarrow> time \<Rightarrow> 'd diff_event \<Rightarrow> diff_row" where
  "diffRow D P now ev =
     \<lparr>dw_event_time = pg_time P (de_EventTime ev), dw_symbol = de_Symbol ev,
      dw_first_update_id = de_FirstUpdateID ev, dw_final_update_id = de_FinalUpdateID ev,
      dw_bids = pg_jsonb P (levelsToJSON D (de_Bids ev)),
      dw_asks = pg_jsonb P (levelsToJSON D (de_Asks ev)), dw_received_at = pg_time P now\<rparr>"

definition WriteDiff ::
  "'d decimal_pkg \<Rightarrow> pg \<Rightarrow> time \<Rightarrow> 'd diff_event \<Rightarrow> ingest_db \<Rightarrow> ingest_db \<times> repo_error option" where
  "WriteDiff D P now ev db =
     (case ianswer db of
        (db1, Some err) \<Rightarrow> (db1, Some (InsertDiff err))
      | (db1, None) \<Rightarrow>
          (db1\<lparr>id_diffs := insertNew diffKey (diffRow D P now ev) (id_diffs db1)\<rparr>, None))"

definition snapshotRow :: "'d decimal_pkg \<Rightarrow> pg \<Rightarrow> 'd snapshot_event \<Rightarrow> snapshot_row" where
  "snapshotRow D P snap =
     (let depth = int (length (se_Bids snap));
          depth = (if depth < int (length (se_Asks snap)) then int (length (se_Asks snap)) else depth)
      in \<lparr>sw_snapshot_time = pg_time P (se_CapturedAt snap), sw_symbol = se_Symbol snap,
          sw_last_update_id = se_LastUpdateID snap, sw_depth = depth,
          sw_bids = pg_jsonb P (levelsToJSON D (se_Bids snap)),
          sw_asks = pg_jsonb P (levelsToJSON D (se_Asks snap))\<rparr>)"

definition WriteCheckpoint ::
  "'d decimal_pkg \<Rightarrow> pg \<Rightarrow> 'd snapshot_event \<Rightarrow> ingest_db \<Rightarrow> ingest_db \<times> repo_error option" where
  "WriteCheckpoint D P snap db =
     (case ianswer db of
        (db1, Some err) \<Rightarrow> (db1, Some (InsertCheckpoint err))
      | (db1, None) \<Rightarrow>
          (db1\<lparr>id_snapshots := id_snapshots db1 @ [snapshotRow D P snap]\<rparr>, None))"

section \<open>Reading\<close>

definition snapshotOfRow :: "'d decimal_pkg \<Rightarrow> snapshot_row \<Rightarrow> repo_error + 'd snapshot_event" where
  "snapshotOfRow D r =
     (case jsonToLevels D (sw_bids r) of
        None \<Rightarrow> Inl DecodeBids
      | Some bids \<Rightarrow>
          (case jsonToLevels D (sw_asks r) of
             None \<Rightarrow> Inl DecodeAsks
           | Some asks \<Rightarrow> Inr \<lparr>se_Symbol = sw_symbol r, se_CapturedAt = sw_snapshot_time r,
               se_LastUpdateID = sw_last_update_id r, se_Bids = bids, se_Asks = asks\<rparr>))"

definition QueryNearestCheckpoint ::
  "'d decimal_pkg \<Rightarrow> pg \<Rightarrow> string \<Rightarrow> time \<Rightarrow> ingest_db \<Rightarrow>
   ingest_db \<times> (repo_error + 'd snapshot_event)" where
  "QueryNearestCheckpoint D P symbol at1 db =
     (case ianswer db of
        (db1, Some err) \<Rightarrow> (db1, Inl (QueryCheckpoint err))
      | (db1, None) \<Rightarrow>
          (db1, case newest sw_snapshot_time (filter (\<lambda>r. sw_symbol r = symbol \<and>
                       sw_snapshot_time r \<le> pg_time P at1) (id_snapshots db1)) of
                  None \<Rightarrow> Inl (NoCheckpoint symbol at1)
                | Some r \<Rightarrow> snapshotOfRow D r))"

definition diffOfRow :: "'d decimal_pkg \<Rightarrow> diff_row \<Rightarrow> repo_error + 'd diff_event" where
  "diffOfRow D r =
     (case jsonToLevels D (dw_bids r) of
        None \<Rightarrow> Inl DecodeBids
      | Some bids \<Rightarrow>
          (case jsonToLevels D (dw_asks r) of
             None \<Rightarrow> Inl DecodeAsks
           | Some asks \<Rightarrow> Inr \<lparr>de_Symbol = dw_symbol r, de_EventTime = dw_event_time r,
               de_FirstUpdateID = dw_first_update_id r, de_FinalUpdateID = dw_final_update_id r,
               de_Bids = bids, de_Asks = asks\<rparr>))"

text \<open>ORDER BY event_time, final_update_id: two rows that agree in both differ in the symbol.\<close>

definition orderDiffs :: "diff_row list \<Rightarrow> diff_row list" where
  "orderDiffs rs = sort_key dw_event_time (sort_key (\<lambda>r. sint (dw_final_update_id r)) rs)"

definition selectDiffs :: "pg \<Rightarrow> string \<Rightarrow> time \<Rightarrow> time \<Rightarrow> diff_row list \<Rightarrow> diff_row list" where
  "selectDiffs P symbol from1 to1 rs =
     orderDiffs (filter (\<lambda>r. dw_symbol r = symbol \<and> pg_time P from1 \<le> dw_event_time r \<and>
       dw_event_time r \<le> pg_time P to1) rs)"

text \<open>
  The pair the code returns, rows and error: when the iteration is cut off, the rows decoded so far
  come back beside the bare error of \<open>rows.Err()\<close>.
\<close>

definition QueryDiffs ::
  "'d decimal_pkg \<Rightarrow> pg \<Rightarrow> string \<Rightarrow> time \<Rightarrow> time \<Rightarrow> ingest_db \<Rightarrow>
   ingest_db \<times> 'd diff_event list \<times> repo_error option" where
  "QueryDiffs D P symbol from1 to1 db =
     (case ianswer db of
        (db1, Some err) \<Rightarrow> (db1, [], Some (DiffsQuery err))
      | (db1, None) \<Rightarrow>
          (case scanRows (diffOfRow D) ScanDiff (id_errs db1) (selectDiffs P symbol from1 to1 (id_diffs db1)) [] of
             (errs, Inl err) \<Rightarrow> (db1\<lparr>id_errs := errs\<rparr>, [], Some err)
           | (errs, Inr (out, err)) \<Rightarrow> (db1\<lparr>id_errs := errs\<rparr>, out, map_option RowsError err)))"

section \<open>The abstract store\<close>

text \<open>
  What the tables mean: the recorded diffs and checkpoints, in the order of their rows. \<open>repo_ok\<close>
  is the invariant of the tables: every row decodes, no two diffs share their unique key.
\<close>

definition diffsIn :: "'d decimal_pkg \<Rightarrow> ingest_db \<Rightarrow> 'd diff_event list" where
  "diffsIn D db = map (projr \<circ> diffOfRow D) (id_diffs db)"

definition snapsIn :: "'d decimal_pkg \<Rightarrow> ingest_db \<Rightarrow> 'd snapshot_event list" where
  "snapsIn D db = map (projr \<circ> snapshotOfRow D) (id_snapshots db)"

definition repo_ok :: "'d decimal_pkg \<Rightarrow> ingest_db \<Rightarrow> bool" where
  "repo_ok D db \<longleftrightarrow> id_errs db = [] \<and> (\<forall>r \<in> set (id_diffs db). \<not> isl (diffOfRow D r)) \<and>
     (\<forall>r \<in> set (id_snapshots db). \<not> isl (snapshotOfRow D r)) \<and> distinct (map diffKey (id_diffs db))"

definition deKey :: "'d diff_event \<Rightarrow> string \<times> int64 \<times> time" where
  "deKey d = (de_Symbol d, de_FinalUpdateID d, de_EventTime d)"

definition stampDiff :: "pg \<Rightarrow> 'd diff_event \<Rightarrow> 'd diff_event" where
  "stampDiff P d = d\<lparr>de_EventTime := pg_time P (de_EventTime d)\<rparr>"

definition stampSnap :: "pg \<Rightarrow> 'd snapshot_event \<Rightarrow> 'd snapshot_event" where
  "stampSnap P s = s\<lparr>se_CapturedAt := pg_time P (se_CapturedAt s)\<rparr>"

definition earlier :: "'d diff_event \<Rightarrow> 'd diff_event \<Rightarrow> bool" where
  "earlier a b \<longleftrightarrow> de_EventTime a < de_EventTime b \<or>
     de_EventTime a = de_EventTime b \<and> de_FinalUpdateID a <s de_FinalUpdateID b"

definition in_range :: "pg \<Rightarrow> string \<Rightarrow> time \<Rightarrow> time \<Rightarrow> 'd diff_event \<Rightarrow> bool" where
  "in_range P sy from1 to1 d \<longleftrightarrow> de_Symbol d = sy \<and> pg_time P from1 \<le> de_EventTime d \<and>
     de_EventTime d \<le> pg_time P to1"

lemma jsonToLevels_levels:
  assumes "decimal_strings D" "decimal_text D" "postgres P"
  shows "jsonToLevels D (pg_jsonb P (levelsToJSON D ls)) = Some ls"
proof -
  let ?ps = "map (\<lambda>l. (DString D (pl_Price l), DString D (pl_Quantity l))) ls"
  have "\<forall>p \<in> set ?ps. asciiText (fst p) \<and> asciiText (snd p)"
    using assms(2) by (auto simp: decimal_text_def)
  then have p: "parseJSON (pg_jsonb P (levelsToJSON D ls)) = Some (JArray (map pairJSON ?ps))"
    using assms(3) unfolding levelsToJSON_pairs postgres_def by blast
  moreover have "traverse pairOf (map pairJSON ?ps) = Some (map id ?ps)"
    by (intro traverse_map) (simp add: pairJSON_def pairOf_def stringOf_def)
  ultimately have "unmarshalPairs (pg_jsonb P (levelsToJSON D ls)) = Some ?ps"
    by (simp add: unmarshalPairs_def elementsOf_def)
  moreover have "pg_jsonb P (levelsToJSON D ls) \<noteq> []"
    using p by (auto simp: parseJSON_def lexJSON.simps)
  ultimately show ?thesis
    by (simp add: jsonToLevels_def levels_of_printed [OF assms(1)])
qed

lemma diffOfRow_diffRow:
  assumes "decimal_strings D" "decimal_text D" "postgres P"
  shows "diffOfRow D (diffRow D P now d) = Inr (stampDiff P d)"
  by (simp add: diffOfRow_def diffRow_def jsonToLevels_levels [OF assms] stampDiff_def)

lemma snapshotOfRow_snapshotRow:
  assumes "decimal_strings D" "decimal_text D" "postgres P"
  shows "snapshotOfRow D (snapshotRow D P s) = Inr (stampSnap P s)"
  by (simp add: snapshotOfRow_def snapshotRow_def Let_def jsonToLevels_levels [OF assms] stampSnap_def)

lemma deKey_diffOfRow: "\<not> isl (diffOfRow D r) \<Longrightarrow> deKey (projr (diffOfRow D r)) = diffKey r"
  by (auto simp: diffOfRow_def deKey_def diffKey_def split: option.splits)

lemma diffOfRow_sels:
  assumes "\<not> isl (diffOfRow D r)"
  shows "de_Symbol (projr (diffOfRow D r)) = dw_symbol r"
    "de_EventTime (projr (diffOfRow D r)) = dw_event_time r"
    "de_FinalUpdateID (projr (diffOfRow D r)) = dw_final_update_id r"
  using deKey_diffOfRow [OF assms] by (simp_all add: deKey_def diffKey_def)

lemma insertNew_map:
  assumes "\<forall>y \<in> set xs. k (f y) = j y" and "k (f x) = j x"
  shows "map f (insertNew j x xs) = insertNew k (f x) (map f xs)"
  using assms by (auto simp: insertNew_def)

text \<open>The writes on the abstract store.\<close>

lemma WriteDiff_store:
  assumes "decimal_strings D" "decimal_text D" "postgres P" and ok: "repo_ok D db"
  shows "snd (WriteDiff D P now d db) = None \<and> repo_ok D (fst (WriteDiff D P now d db)) \<and>
    diffsIn D (fst (WriteDiff D P now d db)) = insertNew deKey (stampDiff P d) (diffsIn D db) \<and>
    snapsIn D (fst (WriteDiff D P now d db)) = snapsIn D db"
proof -
  let ?r = "diffRow D P now d"
  have r: "diffOfRow D ?r = Inr (stampDiff P d)" by (rule diffOfRow_diffRow [OF assms(1-3)])
  have w: "WriteDiff D P now d db = (db\<lparr>id_diffs := insertNew diffKey ?r (id_diffs db)\<rparr>, None)"
    using ok by (simp add: WriteDiff_def ianswer_def repo_ok_def)
  have "map (projr \<circ> diffOfRow D) (insertNew diffKey ?r (id_diffs db)) =
      insertNew deKey ((projr \<circ> diffOfRow D) ?r) (diffsIn D db)"
    unfolding diffsIn_def using ok r
    by (intro insertNew_map) (auto simp: repo_ok_def deKey_diffOfRow simp flip: deKey_diffOfRow [of D ?r])
  moreover have "repo_ok D (db\<lparr>id_diffs := insertNew diffKey ?r (id_diffs db)\<rparr>)"
    using ok r insertNew_distinct [of diffKey "id_diffs db" ?r]
    by (auto simp: repo_ok_def insertNew_def)
  ultimately show ?thesis unfolding w by (simp add: diffsIn_def snapsIn_def r)
qed

lemma WriteCheckpoint_store:
  assumes "decimal_strings D" "decimal_text D" "postgres P" and ok: "repo_ok D db"
  shows "snd (WriteCheckpoint D P s db) = None \<and> repo_ok D (fst (WriteCheckpoint D P s db)) \<and>
    snapsIn D (fst (WriteCheckpoint D P s db)) = snapsIn D db @ [stampSnap P s] \<and>
    diffsIn D (fst (WriteCheckpoint D P s db)) = diffsIn D db"
  using ok by (auto simp: WriteCheckpoint_def ianswer_def repo_ok_def diffsIn_def snapsIn_def
      snapshotOfRow_snapshotRow [OF assms(1-3)])

text \<open>The queries on the abstract store.\<close>

lemma set_orderDiffs [simp]: "set (orderDiffs rs) = set rs"
  by (simp add: orderDiffs_def)

lemma sorted_two_keys:
  fixes f g :: "'a \<Rightarrow> int"
  assumes "\<And>k. sorted_wrt (\<lambda>a b. g a \<le> g b) (filter (\<lambda>x. f x = k) ys)" and "sorted (map f ys)"
  shows "sorted_wrt (\<lambda>a b. f a < f b \<or> f a = f b \<and> g a \<le> g b) ys"
  using assms
proof (induction ys)
  case (Cons y ys)
  have "f y < f z \<or> f y = f z \<and> g y \<le> g z" if z: "z \<in> set ys" for z
  proof (cases "f z = f y")
    case True
    then have "g y \<le> g z" using Cons.prems(1) [of "f y"] z by simp
    with True show ?thesis by simp
  next
    case False
    have "f y \<le> f z" using Cons.prems(2) z by simp
    with False show ?thesis by simp
  qed
  moreover have "sorted_wrt (\<lambda>a b. g a \<le> g b) (filter (\<lambda>x. f x = k) ys)" for k
    using Cons.prems(1) [of k] by (cases "f y = k") simp_all
  then have "sorted_wrt (\<lambda>a b. f a < f b \<or> f a = f b \<and> g a \<le> g b) ys"
    by (rule Cons.IH) (use Cons.prems(2) in simp)
  ultimately show ?case by simp
qed simp

lemma sorted_sort_key2:
  fixes f g :: "'a \<Rightarrow> int"
  shows "sorted_wrt (\<lambda>a b. f a < f b \<or> f a = f b \<and> g a \<le> g b) (sort_key f (sort_key g xs))"
proof (rule sorted_two_keys)
  fix k
  have "sorted_wrt (\<lambda>a b. g a \<le> g b) (sort_key g xs)"
    using sorted_sort_key [of g xs] by (simp add: sorted_map)
  then show "sorted_wrt (\<lambda>a b. g a \<le> g b) (filter (\<lambda>x. f x = k) (sort_key f (sort_key g xs)))"
    unfolding sort_key_stable by (rule sorted_wrt_filter)
qed (rule sorted_sort_key)

text \<open>In a list without duplicate keys, what is ordered and not equal is strictly ordered.\<close>

lemma sorted_wrt_strict:
  assumes "sorted_wrt R xs" and "distinct (map k xs)"
    and "\<And>a b. a \<in> set xs \<Longrightarrow> b \<in> set xs \<Longrightarrow> R a b \<Longrightarrow> k a \<noteq> k b \<Longrightarrow> S a b"
  shows "sorted_wrt S xs"
  unfolding sorted_wrt_iff_nth_less
proof (intro allI impI)
  fix i j assume ij: "i < j" "j < length xs"
  have "R (xs ! i) (xs ! j)" by (rule sorted_wrt_nth_less [OF assms(1) ij])
  moreover have "k (xs ! i) \<noteq> k (xs ! j)"
    using nth_eq_iff_index_eq [OF assms(2), of i j] ij by simp
  ultimately show "S (xs ! i) (xs ! j)" using ij by (intro assms(3)) simp_all
qed

lemma distinct_selectDiffs:
  assumes "distinct (map diffKey rs)"
  shows "distinct (map diffKey (selectDiffs P sy a b rs))"
proof -
  have "mset (map diffKey (orderDiffs xs)) = mset (map diffKey xs)" for xs
    by (simp add: orderDiffs_def)
  then have "distinct (map diffKey (orderDiffs xs)) \<longleftrightarrow> distinct (map diffKey xs)" for xs
    by (rule mset_eq_imp_distinct_iff)
  then show ?thesis unfolding selectDiffs_def using distinct_map_filter [OF assms] by blast
qed

lemma QueryDiffs_store:
  assumes ok: "repo_ok D db"
  shows "\<exists>ds. QueryDiffs D P sy from1 to1 db = (db, ds, None) \<and> sorted_wrt earlier ds \<and>
    set ds = {d \<in> set (diffsIn D db). in_range P sy from1 to1 d}"
proof -
  let ?rs = "selectDiffs P sy from1 to1 (id_diffs db)"
  let ?f = "projr \<circ> diffOfRow D"
  have dec: "\<forall>r \<in> set (id_diffs db). \<not> isl (diffOfRow D r)" and dist: "distinct (map diffKey (id_diffs db))"
    using ok by (simp_all add: repo_ok_def)
  have set: "set ?rs = {r \<in> set (id_diffs db). dw_symbol r = sy \<and> pg_time P from1 \<le> dw_event_time r \<and>
      dw_event_time r \<le> pg_time P to1}"
    by (auto simp: selectDiffs_def)
  have "id_errs db = []" using ok by (simp add: repo_ok_def)
  moreover have "scanRows (diffOfRow D) ScanDiff [] ?rs [] = ([], Inr (map ?f ?rs, None))"
    using dec set by (subst scanRows_ok) auto
  ultimately have q: "QueryDiffs D P sy from1 to1 db = (db, map ?f ?rs, None)"
    by (simp add: QueryDiffs_def ianswer_def)
  have "sorted_wrt (\<lambda>a b. earlier (?f a) (?f b)) ?rs"
  proof (rule sorted_wrt_strict)
    show "sorted_wrt (\<lambda>a b. dw_event_time a < dw_event_time b \<or> dw_event_time a = dw_event_time b \<and>
        sint (dw_final_update_id a) \<le> sint (dw_final_update_id b)) ?rs"
      unfolding selectDiffs_def orderDiffs_def by (rule sorted_sort_key2)
    show "distinct (map diffKey ?rs)" by (rule distinct_selectDiffs [OF dist])
    fix a b assume ab: "a \<in> set ?rs" "b \<in> set ?rs" "diffKey a \<noteq> diffKey b"
      "dw_event_time a < dw_event_time b \<or> dw_event_time a = dw_event_time b \<and>
        sint (dw_final_update_id a) \<le> sint (dw_final_update_id b)"
    then have "dw_symbol a = dw_symbol b" using set by auto
    with ab(3,4) have lt: "dw_event_time a < dw_event_time b \<or> dw_event_time a = dw_event_time b \<and>
        dw_final_update_id a <s dw_final_update_id b"
      by (auto simp: diffKey_def word_sless_alt le_less dest: word_eq_iff_signed [THEN iffD2])
    have "a \<in> set (id_diffs db)" "b \<in> set (id_diffs db)" using ab(1,2) set by auto
    with dec have "\<not> isl (diffOfRow D a)" "\<not> isl (diffOfRow D b)" by blast+
    from lt show "earlier (?f a) (?f b)"
      by (simp add: earlier_def diffOfRow_sels [OF \<open>\<not> isl (diffOfRow D a)\<close>]
          diffOfRow_sels [OF \<open>\<not> isl (diffOfRow D b)\<close>])
  qed
  then have "sorted_wrt earlier (map ?f ?rs)" by (simp add: sorted_wrt_map)
  moreover have "in_range P sy from1 to1 (?f r) \<longleftrightarrow> r \<in> set ?rs" if r: "r \<in> set (id_diffs db)" for r
  proof -
    from dec r have "\<not> isl (diffOfRow D r)" by blast
    with r show ?thesis unfolding set by (simp add: in_range_def diffOfRow_sels)
  qed
  then have "set (map ?f ?rs) = {d \<in> set (diffsIn D db). in_range P sy from1 to1 d}"
    using set by (auto simp: diffsIn_def)
  ultimately show ?thesis using q by blast
qed

lemma snapshotOfRow_sels:
  assumes "\<not> isl (snapshotOfRow D r)"
  shows "se_Symbol (projr (snapshotOfRow D r)) = sw_symbol r"
    "se_CapturedAt (projr (snapshotOfRow D r)) = sw_snapshot_time r"
  using assms by (auto simp: snapshotOfRow_def split: option.splits)

definition before_snap :: "pg \<Rightarrow> string \<Rightarrow> time \<Rightarrow> 'd snapshot_event \<Rightarrow> bool" where
  "before_snap P sy t s \<longleftrightarrow> se_Symbol s = sy \<and> se_CapturedAt s \<le> pg_time P t"

lemma QueryNearestCheckpoint_store:
  assumes ok: "repo_ok D db"
  shows "case QueryNearestCheckpoint D P sy t db of
     (db', Inl err) \<Rightarrow> db' = db \<and> err = NoCheckpoint sy t \<and> (\<forall>s \<in> set (snapsIn D db). \<not> before_snap P sy t s)
   | (db', Inr cp) \<Rightarrow> db' = db \<and> cp \<in> set (snapsIn D db) \<and> before_snap P sy t cp \<and>
       (\<forall>s \<in> set (snapsIn D db). before_snap P sy t s \<longrightarrow> se_CapturedAt s \<le> se_CapturedAt cp)"
proof -
  let ?rs = "filter (\<lambda>r. sw_symbol r = sy \<and> sw_snapshot_time r \<le> pg_time P t) (id_snapshots db)"
  have dec: "\<forall>r \<in> set (id_snapshots db). \<not> isl (snapshotOfRow D r)" and errs: "ianswer db = (db, None)"
    using ok by (simp_all add: repo_ok_def ianswer_def)
  note sels = snapshotOfRow_sels [of D]
  show ?thesis
  proof (cases "newest sw_snapshot_time ?rs")
    case None
    then have "?rs = []" by (simp only: newest_None)
    have "\<not> before_snap P sy t (projr (snapshotOfRow D q))" if q: "q \<in> set (id_snapshots db)" for q
    proof -
      from dec q have "\<not> isl (snapshotOfRow D q)" by blast
      from sels [OF this] \<open>?rs = []\<close> q show ?thesis by (simp add: before_snap_def filter_empty_conv)
    qed
    then have "\<forall>s \<in> set (snapsIn D db). \<not> before_snap P sy t s" by (auto simp: snapsIn_def)
    moreover have "QueryNearestCheckpoint D P sy t db = (db, Inl (NoCheckpoint sy t))"
      by (simp only: QueryNearestCheckpoint_def errs prod.case option.case None)
    ultimately show ?thesis by simp
  next
    case (Some r)
    have "r \<in> set ?rs" using Some by (rule newest_in)
    then have r: "r \<in> set (id_snapshots db)" "sw_symbol r = sy" "sw_snapshot_time r \<le> pg_time P t"
      by auto
    then have "\<not> isl (snapshotOfRow D r)" using dec by blast
    then obtain cp where cp: "snapshotOfRow D r = Inr cp" by (cases "snapshotOfRow D r") simp_all
    have "\<not> isl (snapshotOfRow D r)" by (simp add: cp)
    from sels [OF this] r have b: "before_snap P sy t cp" "se_CapturedAt cp = sw_snapshot_time r"
      by (simp_all add: before_snap_def cp)
    have "(projr \<circ> snapshotOfRow D) r \<in> set (snapsIn D db)"
      unfolding snapsIn_def set_map using r(1) by (rule imageI)
    then have "cp \<in> set (snapsIn D db)" by (simp add: cp)
    moreover have "se_CapturedAt s \<le> se_CapturedAt cp"
      if s: "s \<in> set (snapsIn D db)" "before_snap P sy t s" for s
    proof -
      obtain q where q: "q \<in> set (id_snapshots db)" "s = projr (snapshotOfRow D q)"
        using s(1) by (auto simp: snapsIn_def)
      from dec q(1) have "\<not> isl (snapshotOfRow D q)" by blast
      from sels [OF this] q s(2) have "q \<in> set ?rs" "se_CapturedAt s = sw_snapshot_time q"
        by (simp_all add: before_snap_def)
      then show ?thesis using newest_max [OF Some, of q] b(2) by simp
    qed
    moreover have "QueryNearestCheckpoint D P sy t db = (db, Inr cp)"
      by (simp only: QueryNearestCheckpoint_def errs prod.case option.case Some cp)
    ultimately show ?thesis using b(1) by simp
  qed
qed

section \<open>The interface between recording and replay\<close>

text \<open>
  The package's \<open>Repository\<close> interface. The symbol handlers rely on the writes, the replay engine
  on the queries; \<open>stored\<close> is the provider's invariant.
\<close>

locale recorded_book =
  fixes stored :: "'db \<Rightarrow> bool" and diffs_in :: "'db \<Rightarrow> 'd diff_event list"
    and snaps_in :: "'db \<Rightarrow> 'd snapshot_event list" and P :: pg
    and writeDiff :: "time \<Rightarrow> 'd diff_event \<Rightarrow> 'db \<Rightarrow> 'db \<times> 'e option"
    and writeCheckpoint :: "'d snapshot_event \<Rightarrow> 'db \<Rightarrow> 'db \<times> 'e option"
    and between :: "string \<Rightarrow> time \<Rightarrow> time \<Rightarrow> 'db \<Rightarrow> 'db \<times> 'd diff_event list \<times> 'e option"
    and nearest :: "string \<Rightarrow> time \<Rightarrow> 'db \<Rightarrow> 'db \<times> ('e + 'd snapshot_event)"
  assumes writeDiff: "stored db \<Longrightarrow> snd (writeDiff now d db) = None \<and> stored (fst (writeDiff now d db)) \<and>
      diffs_in (fst (writeDiff now d db)) = insertNew deKey (stampDiff P d) (diffs_in db) \<and>
      snaps_in (fst (writeDiff now d db)) = snaps_in db"
    and writeCheckpoint: "stored db \<Longrightarrow> snd (writeCheckpoint s db) = None \<and>
      stored (fst (writeCheckpoint s db)) \<and>
      snaps_in (fst (writeCheckpoint s db)) = snaps_in db @ [stampSnap P s] \<and>
      diffs_in (fst (writeCheckpoint s db)) = diffs_in db"
    and between: "stored db \<Longrightarrow> \<exists>ds. between sy a b db = (db, ds, None) \<and> sorted_wrt earlier ds \<and>
      set ds = {d \<in> set (diffs_in db). in_range P sy a b d}"
    and nearest: "stored db \<Longrightarrow> case nearest sy t db of
        (db', Inl err) \<Rightarrow> db' = db \<and> (\<forall>s \<in> set (snaps_in db). \<not> before_snap P sy t s)
      | (db', Inr cp) \<Rightarrow> db' = db \<and> cp \<in> set (snaps_in db) \<and> before_snap P sy t cp \<and>
          (\<forall>s \<in> set (snaps_in db). before_snap P sy t s \<longrightarrow> se_CapturedAt s \<le> se_CapturedAt cp)"

text \<open>What a handler writes, in order: diffs with the clock reading of the write, checkpoints.\<close>

datatype 'd record_op = RecordDiff time "'d diff_event" | RecordCheckpoint "'d snapshot_event"

fun diff_ops :: "'d record_op list \<Rightarrow> 'd diff_event list" where
  "diff_ops [] = []"
| "diff_ops (RecordDiff now d # ops) = d # diff_ops ops"
| "diff_ops (RecordCheckpoint s # ops) = diff_ops ops"

fun snap_ops :: "'d record_op list \<Rightarrow> 'd snapshot_event list" where
  "snap_ops [] = []"
| "snap_ops (RecordDiff now d # ops) = snap_ops ops"
| "snap_ops (RecordCheckpoint s # ops) = s # snap_ops ops"

lemma record_ops_append [simp]:
  "diff_ops (xs @ ys) = diff_ops xs @ diff_ops ys" "snap_ops (xs @ ys) = snap_ops xs @ snap_ops ys"
  by (induction xs rule: diff_ops.induct) simp_all

context recorded_book
begin

lemma run_writes:
  assumes "stored db"
  shows "stored (foldl (\<lambda>db op. case op of RecordDiff now d \<Rightarrow> fst (writeDiff now d db)
      | RecordCheckpoint s \<Rightarrow> fst (writeCheckpoint s db)) db ops) \<and>
    diffs_in (foldl (\<lambda>db op. case op of RecordDiff now d \<Rightarrow> fst (writeDiff now d db)
      | RecordCheckpoint s \<Rightarrow> fst (writeCheckpoint s db)) db ops) =
      foldl (\<lambda>t d. insertNew deKey d t) (diffs_in db) (map (stampDiff P) (diff_ops ops)) \<and>
    snaps_in (foldl (\<lambda>db op. case op of RecordDiff now d \<Rightarrow> fst (writeDiff now d db)
      | RecordCheckpoint s \<Rightarrow> fst (writeCheckpoint s db)) db ops) =
      snaps_in db @ map (stampSnap P) (snap_ops ops)"
  using assms
proof (induction ops arbitrary: db)
  case Nil
  then show ?case by simp
next
  case (Cons op ops)
  then show ?case
    by (cases op) (simp_all add: writeDiff writeCheckpoint)
qed

lemma between_sorted:
  assumes "stored db" and "sorted_wrt earlier xs"
    and "set xs = {d \<in> set (diffs_in db). in_range P sy a b d}"
  shows "between sy a b db = (db, xs, None)"
proof -
  obtain ds where ds: "between sy a b db = (db, ds, None)" "sorted_wrt earlier ds"
    "set ds = {d \<in> set (diffs_in db). in_range P sy a b d}" using between [OF assms(1)] by blast
  have "\<not> earlier d c" if "earlier c d" for c d :: "'d diff_event"
    using that by (auto simp: earlier_def word_sless_alt)
  then have "ds = xs" using ds(2,3) assms(2,3) by (intro sorted_wrt_unique [where R = earlier]) auto
  with ds show ?thesis by simp
qed

lemma nearest_latest:
  assumes "stored db" and "cp \<in> set (snaps_in db)" and "before_snap P sy t cp"
    and "\<And>s. s \<in> set (snaps_in db) \<Longrightarrow> before_snap P sy t s \<Longrightarrow> s \<noteq> cp \<Longrightarrow>
       se_CapturedAt s < se_CapturedAt cp"
  shows "nearest sy t db = (db, Inr cp)"
proof -
  obtain db' r where r: "nearest sy t db = (db', r)" by fastforce
  show ?thesis
  proof (cases r)
    case (Inl err)
    with nearest [OF assms(1), of sy t] r assms(2,3) show ?thesis by auto
  next
    case (Inr s)
    with nearest [OF assms(1), of sy t] r assms(2-) show ?thesis by force
  qed
qed

end

definition repo_laws :: "'d decimal_pkg \<Rightarrow> pg \<Rightarrow> bool" where
  "repo_laws D P \<longleftrightarrow> decimal_strings D \<and> decimal_text D \<and> postgres P"

interpretation rb: recorded_book "\<lambda>db. repo_laws D P \<and> repo_ok D db" "diffsIn D" "snapsIn D" P
  "WriteDiff D P" "WriteCheckpoint D P" "QueryDiffs D P" "QueryNearestCheckpoint D P" for D P
proof unfold_locales
  fix db now and d :: "'a diff_event" and s :: "'a snapshot_event" and sy a b t
  assume "repo_laws D P \<and> repo_ok D db"
  then have l: "decimal_strings D" "decimal_text D" "postgres P" "repo_laws D P" and ok: "repo_ok D db"
    by (simp_all add: repo_laws_def)
  show "snd (WriteDiff D P now d db) = None \<and>
      (repo_laws D P \<and> repo_ok D (fst (WriteDiff D P now d db))) \<and>
      diffsIn D (fst (WriteDiff D P now d db)) = insertNew deKey (stampDiff P d) (diffsIn D db) \<and>
      snapsIn D (fst (WriteDiff D P now d db)) = snapsIn D db"
    using WriteDiff_store [OF l(1-3) ok] l(4) by blast
  show "snd (WriteCheckpoint D P s db) = None \<and>
      (repo_laws D P \<and> repo_ok D (fst (WriteCheckpoint D P s db))) \<and>
      snapsIn D (fst (WriteCheckpoint D P s db)) = snapsIn D db @ [stampSnap P s] \<and>
      diffsIn D (fst (WriteCheckpoint D P s db)) = diffsIn D db"
    using WriteCheckpoint_store [OF l(1-3) ok] l(4) by blast
  show "\<exists>ds. QueryDiffs D P sy a b db = (db, ds, None) \<and> sorted_wrt earlier ds \<and>
      set ds = {d \<in> set (diffsIn D db). in_range P sy a b d}"
    by (rule QueryDiffs_store [OF ok])
  show "case QueryNearestCheckpoint D P sy t db of
        (db', Inl err) \<Rightarrow> db' = db \<and> (\<forall>s \<in> set (snapsIn D db). \<not> before_snap P sy t s)
      | (db', Inr cp) \<Rightarrow> db' = db \<and> cp \<in> set (snapsIn D db) \<and> before_snap P sy t cp \<and>
          (\<forall>s \<in> set (snapsIn D db). before_snap P sy t s \<longrightarrow> se_CapturedAt s \<le> se_CapturedAt cp)"
    using QueryNearestCheckpoint_store [OF ok, where P = P and sy = sy and t = t] by (auto split: prod.splits sum.splits)
qed

section \<open>Properties\<close>

definition emptyDB :: ingest_db where
  "emptyDB = \<lparr>id_diffs = [], id_snapshots = [], id_errs = []\<rparr>"

definition recordOps :: "'d decimal_pkg \<Rightarrow> pg \<Rightarrow> 'd record_op list \<Rightarrow> ingest_db \<Rightarrow> ingest_db" where
  "recordOps D P ops db = foldl (\<lambda>db op. case op of RecordDiff now d \<Rightarrow> fst (WriteDiff D P now d db)
      | RecordCheckpoint s \<Rightarrow> fst (WriteCheckpoint D P s db)) db ops"

lemma repo_ok_empty [simp]: "repo_ok D emptyDB" "diffsIn D emptyDB = []" "snapsIn D emptyDB = []"
  by (simp_all add: repo_ok_def emptyDB_def diffsIn_def snapsIn_def)

lemma recordOps_store:
  assumes "repo_laws D P" and "repo_ok D db"
  shows "repo_ok D (recordOps D P ops db)"
    "diffsIn D (recordOps D P ops db) =
      foldl (\<lambda>t d. insertNew deKey d t) (diffsIn D db) (map (stampDiff P) (diff_ops ops))"
    "snapsIn D (recordOps D P ops db) = snapsIn D db @ map (stampSnap P) (snap_ops ops)"
  using rb.run_writes [of D P db ops] assms unfolding recordOps_def by blast+

text \<open>
  C7 (roundtrip): whatever handlers record in empty tables is read back. A query of diffs returns,
  in the order of event time and then final id and without repetition, exactly the recorded diffs
  of the symbol in the time range, with prices and quantities as they were; of several diffs with
  the same symbol, final id and event time the first one written counts. The nearest checkpoint is
  a recorded checkpoint of the symbol that is not later than the given time, and none of those is
  later than it; an error means that there is none. Times are those of the columns.
\<close>

theorem recorded_book_is_read_back:
  assumes "decimal_strings D" and "decimal_text D" and "postgres P"
  shows "let db = recordOps D P ops emptyDB in
     (\<exists>ds. snd (QueryDiffs D P sy a b db) = (ds, None) \<and> sorted_wrt earlier ds \<and> distinct ds \<and>
        set ds = {d. in_range P sy a b d \<and> (\<exists>pre post. map (stampDiff P) (diff_ops ops) = pre @ d # post \<and>
          deKey d \<notin> deKey ` set pre)}) \<and>
     (case snd (QueryNearestCheckpoint D P sy t db) of
        Inl err \<Rightarrow> \<forall>s \<in> set (snap_ops ops). \<not> before_snap P sy t (stampSnap P s)
      | Inr cp \<Rightarrow> cp \<in> stampSnap P ` set (snap_ops ops) \<and> before_snap P sy t cp \<and>
          (\<forall>s \<in> set (snap_ops ops). before_snap P sy t (stampSnap P s) \<longrightarrow>
             se_CapturedAt (stampSnap P s) \<le> se_CapturedAt cp))"
proof -
  let ?db = "recordOps D P ops emptyDB"
  have laws: "repo_laws D P" using assms by (simp add: repo_laws_def)
  note st = recordOps_store [OF laws, of emptyDB ops]
  have ok: "repo_laws D P \<and> repo_ok D ?db" using st laws by simp
  obtain ds where ds: "QueryDiffs D P sy a b ?db = (?db, ds, None)" "sorted_wrt earlier ds"
    "set ds = {d \<in> set (diffsIn D ?db). in_range P sy a b d}"
    using rb.between [OF ok] by blast
  have "distinct ds"
    using ds(2) by (rule strict_sorted_distinct) (auto simp: earlier_def word_sless_alt)
  moreover have "diffsIn D ?db = firsts deKey (map (stampDiff P) (diff_ops ops))"
    using st by (simp add: firsts_def)
  then have "set ds = {d. in_range P sy a b d \<and> (\<exists>pre post. map (stampDiff P) (diff_ops ops) = pre @ d # post \<and>
      deKey d \<notin> deKey ` set pre)}"
    using ds(3) firsts_iff [of _ deKey "map (stampDiff P) (diff_ops ops)"] by auto
  moreover have "set (snapsIn D ?db) = stampSnap P ` set (snap_ops ops)"
    using st by simp
  then have "case snd (QueryNearestCheckpoint D P sy t ?db) of
        Inl err \<Rightarrow> \<forall>s \<in> set (snap_ops ops). \<not> before_snap P sy t (stampSnap P s)
      | Inr cp \<Rightarrow> cp \<in> stampSnap P ` set (snap_ops ops) \<and> before_snap P sy t cp \<and>
          (\<forall>s \<in> set (snap_ops ops). before_snap P sy t (stampSnap P s) \<longrightarrow>
             se_CapturedAt (stampSnap P s) \<le> se_CapturedAt cp)"
    using rb.nearest [OF ok, of sy t] by (auto split: prod.splits sum.splits)
  ultimately show ?thesis using ds(1,2) by (simp add: Let_def)
qed

definition wit_rec :: "int64 \<Rightarrow> time \<Rightarrow> rat diff_event" where
  "wit_rec i t = \<lparr>de_Symbol = ''BTCUSDT'', de_EventTime = t, de_FirstUpdateID = i, de_FinalUpdateID = i,
     de_Bids = [\<lparr>pl_Price = 100, pl_Quantity = 1 / 2\<rparr>], de_Asks = []\<rparr>"

lemma recorded_book_is_read_back_witness:
  "\<exists>ds. snd (QueryDiffs rat_pkg micro_pg ''BTCUSDT'' 0 9000
       (recordOps rat_pkg micro_pg [RecordDiff 7 (wit_rec 2 5000), RecordDiff 8 (wit_rec 1 4000),
          RecordDiff 9 (wit_rec 2 5000)] emptyDB)) = (ds, None) \<and>
     set ds = {wit_rec 1 4000, wit_rec 2 5000} \<and> length ds = 2"
proof -
  let ?ops = "[RecordDiff 7 (wit_rec 2 5000), RecordDiff 8 (wit_rec 1 4000), RecordDiff 9 (wit_rec 2 5000)]"
  obtain ds where ds: "snd (QueryDiffs rat_pkg micro_pg ''BTCUSDT'' 0 9000
      (recordOps rat_pkg micro_pg ?ops emptyDB)) = (ds, None)" "distinct ds"
    "set ds = {d. in_range micro_pg ''BTCUSDT'' 0 9000 d \<and>
      (\<exists>pre post. map (stampDiff micro_pg) (diff_ops ?ops) = pre @ d # post \<and> deKey d \<notin> deKey ` set pre)}"
    using recorded_book_is_read_back [of rat_pkg micro_pg ?ops "''BTCUSDT''" 0 9000 0]
    unfolding Let_def by (simp only: rat_pkg_strings rat_pkg_text postgres_micro_pg simp_thms) blast
  have "set ds = {wit_rec 1 4000, wit_rec 2 5000}"
    unfolding ds(3) by (auto simp: stampDiff_def micro_pg_def wit_rec_def in_range_def deKey_def
        Cons_eq_append_conv)
  moreover from this ds(2) have "length ds = 2"
    by (simp add: wit_rec_def flip: distinct_card)
  ultimately show ?thesis using ds(1) by blast
qed

text \<open>
  C25 (error): what comes back when the server fails. A statement it refuses changes no table and its
  error comes back wrapped; a query of diffs that is let through changes no table either. Without an
  error it returns every selected row, decoded, in order. With the error of an interrupted iteration,
  which is not wrapped, it returns those of the rows that came before; with any other error no row: a
  failed Scan, or a row that does not decode. And when the server does not fail, it is an error
  exactly when some selected row does not decode.
\<close>

theorem ingest_errors:
  "(case ianswer db of (db1, refused) \<Rightarrow>
      id_diffs db1 = id_diffs db \<and> id_snapshots db1 = id_snapshots db \<and>
      (\<forall>err. refused = Some err \<longrightarrow>
         WriteDiff D P now d db = (db1, Some (InsertDiff err)) \<and>
         WriteCheckpoint D P s db = (db1, Some (InsertCheckpoint err)) \<and>
         QueryNearestCheckpoint D P sy t db = (db1, Inl (QueryCheckpoint err)) \<and>
         QueryDiffs D P sy a b db = (db1, [], Some (DiffsQuery err))) \<and>
      (refused = None \<longrightarrow>
         (case QueryDiffs D P sy a b db of (db2, ds, err) \<Rightarrow>
            id_diffs db2 = id_diffs db \<and> id_snapshots db2 = id_snapshots db \<and>
            (let rows = selectDiffs P sy a b (id_diffs db) in
             (case err of
                None \<Rightarrow> map Inr ds = map (diffOfRow D) rows
              | Some (RowsError e) \<Rightarrow> Some e \<in> set (id_errs db1) \<and>
                  (\<exists>k \<le> length rows. map Inr ds = map (diffOfRow D) (take k rows))
              | Some other \<Rightarrow> ds = [] \<and>
                  ((\<exists>e. Some e \<in> set (id_errs db1) \<and> other = ScanDiff e) \<or>
                   (\<exists>r \<in> set rows. diffOfRow D r = Inl other))) \<and>
             (id_errs db1 = [] \<longrightarrow> (err = None \<longleftrightarrow> (\<forall>r \<in> set rows. \<not> isl (diffOfRow D r))))))))"
proof -
  let ?rows = "selectDiffs P sy a b (id_diffs db)"
  obtain db1 refused where ans: "ianswer db = (db1, refused)" by fastforce
  then have tables: "id_diffs db1 = id_diffs db" "id_snapshots db1 = id_snapshots db"
    by (auto simp: ianswer_def split: list.splits)
  obtain errs res where scan: "scanRows (diffOfRow D) ScanDiff (id_errs db1) ?rows [] = (errs, res)"
    by fastforce
  have "\<not> (\<exists>e. diffOfRow D r = Inl (RowsError e))" for r
    by (auto simp: diffOfRow_def split: option.splits)
  moreover have "(\<exists>xs. res = Inr (xs, None)) \<longleftrightarrow> (\<forall>r \<in> set ?rows. \<not> isl (diffOfRow D r))" if "id_errs db1 = []"
  proof
    assume "\<exists>xs. res = Inr (xs, None)"
    then obtain xs where "map Inr xs = map (diffOfRow D) ?rows"
      using scanRows_result [where decode = "diffOfRow D" and scan_err = ScanDiff and errs = "id_errs db1" and rs = ?rows and out = "[]"] scan by auto
    then have "diffOfRow D r \<in> Inr ` set xs" if "r \<in> set ?rows" for r
      using that by (metis imageI list.set_map)
    then show "\<forall>r \<in> set ?rows. \<not> isl (diffOfRow D r)" by fastforce
  next
    assume "\<forall>r \<in> set ?rows. \<not> isl (diffOfRow D r)"
    from scanRows_ok [OF this, of ScanDiff "[]"] scan that show "\<exists>xs. res = Inr (xs, None)" by auto
  qed
  ultimately show ?thesis
    using scanRows_result [where decode = "diffOfRow D" and scan_err = ScanDiff and errs = "id_errs db1" and rs = ?rows and out = "[]"]
    by (cases res)
      (auto simp: ans tables scan WriteDiff_def WriteCheckpoint_def QueryNearestCheckpoint_def QueryDiffs_def
        Let_def split: repo_error.splits option.splits)
qed

lemma ingest_errors_witness:
  "WriteDiff rat_pkg micro_pg 7 (wit_rec 2 5000) (emptyDB\<lparr>id_errs := [Some ''timeout'']\<rparr>) =
     (emptyDB, Some (InsertDiff ''timeout''))"
  using ingest_errors [of "emptyDB\<lparr>id_errs := [Some ''timeout'']\<rparr>" rat_pkg micro_pg 7 "wit_rec 2 5000"]
  by (simp add: ianswer_def emptyDB_def)

end
