(* ===== verification/Book.thy ===== *)
theory Book
  imports Domain Decimal_Instance
begin

text \<open>
  The in-memory order book, engine/book/book.go. A side of the book is a Go map from the
  price's \<open>String\<close> to the quantity, here an association list. \<open>Snapshot\<close> iterates the map, so
  its result must not depend on the list's order: \<open>sortedLevels_perm\<close>. What a side means is
  the map from prices to quantities \<open>levels_of\<close>; every operation refines an operation on it.
  The mutex makes every method atomic, so a method is one function on the record. \<open>time.Now\<close>
  is an argument of \<open>Snapshot\<close>.

  The interface OrderBook that the symbol handler calls is the record \<open>order_book\<close> of
  operations, with its contract in the locale \<open>order_book_contract\<close>; \<open>Book\<close> provides it.
\<close>

section \<open>State and operations\<close>

type_synonym 'd book_side = "(string \<times> 'd) list"

record 'd book =
  bk_symbol :: string
  bk_bids :: "'d book_side"
  bk_asks :: "'d book_side"
  bk_lastUpdateID :: int64

definition New :: "string \<Rightarrow> 'd book" where
  "New symbol = \<lparr>bk_symbol = symbol, bk_bids = [], bk_asks = [], bk_lastUpdateID = 0\<rparr>"

definition applyLevel ::
  "'d::linordered_idom decimal_pkg \<Rightarrow> 'd book_side \<Rightarrow> 'd price_level \<Rightarrow> 'd book_side" where
  "applyLevel D side lvl =
     (let key = DString D (pl_Price lvl) in
      if pl_Quantity lvl = 0 then AList.delete key side
      else AList.update key (pl_Quantity lvl) side)"

definition Apply ::
  "'d::linordered_idom decimal_pkg \<Rightarrow> 'd book \<Rightarrow> 'd diff_event \<Rightarrow> 'd book \<times> string option" where
  "Apply D b diff =
     (b\<lparr>bk_bids := foldl (applyLevel D) (bk_bids b) (de_Bids diff),
        bk_asks := foldl (applyLevel D) (bk_asks b) (de_Asks diff),
        bk_lastUpdateID := de_FinalUpdateID diff\<rparr>, None)"

text \<open>
  \<open>sort.Slice\<close> with a strict comparison of prices: any sorting permutation is the same one,
  because the prices of a map are distinct (\<open>sorted_levels_unique\<close> below).
\<close>

definition parsedLevels ::
  "'d decimal_pkg \<Rightarrow> 'd book_side \<Rightarrow> 'd price_level list" where
  "parsedLevels D side =
     List.map_filter (\<lambda>(priceStr, qty).
       map_option (\<lambda>price. \<lparr>pl_Price = price, pl_Quantity = qty\<rparr>) (DFromString D priceStr)) side"

definition truncLevels :: "int \<Rightarrow> 'a list \<Rightarrow> 'a list" where
  "truncLevels depth levels =
     (if depth > 0 \<and> int (length levels) > depth then take (nat depth) levels else levels)"

definition sortedLevels ::
  "'d::linordered_idom decimal_pkg \<Rightarrow> 'd book_side \<Rightarrow> bool \<Rightarrow> int \<Rightarrow> 'd price_level list" where
  "sortedLevels D side descending depth =
     truncLevels depth
       (sort_key (\<lambda>l. if descending then - pl_Price l else pl_Price l) (parsedLevels D side))"

definition Snapshot ::
  "'d::linordered_idom decimal_pkg \<Rightarrow> time \<Rightarrow> 'd book \<Rightarrow> int \<Rightarrow> 'd snapshot_event" where
  "Snapshot D now b depth =
     \<lparr>se_Symbol = bk_symbol b, se_CapturedAt = now, se_LastUpdateID = bk_lastUpdateID b,
      se_Bids = sortedLevels D (bk_bids b) True depth,
      se_Asks = sortedLevels D (bk_asks b) False depth\<rparr>"

definition LastUpdateID :: "'d book \<Rightarrow> int64" where
  "LastUpdateID b = bk_lastUpdateID b"

definition Reset :: "'d book \<Rightarrow> 'd book" where
  "Reset b = b\<lparr>bk_bids := [], bk_asks := [], bk_lastUpdateID := 0\<rparr>"

definition loadSide ::
  "'d::linordered_idom decimal_pkg \<Rightarrow> 'd price_level list \<Rightarrow> 'd book_side" where
  "loadSide D levels =
     foldl (\<lambda>side lvl. if pl_Quantity lvl \<noteq> 0
                       then AList.update (DString D (pl_Price lvl)) (pl_Quantity lvl) side
                       else side) [] levels"

definition LoadSnapshot ::
  "'d::linordered_idom decimal_pkg \<Rightarrow> 'd book \<Rightarrow> 'd snapshot_event \<Rightarrow> 'd book" where
  "LoadSnapshot D b snap =
     b\<lparr>bk_bids := loadSide D (se_Bids snap), bk_asks := loadSide D (se_Asks snap),
       bk_lastUpdateID := se_LastUpdateID snap\<rparr>"

section \<open>What a side means\<close>

definition levels_of :: "'d decimal_pkg \<Rightarrow> 'd book_side \<Rightarrow> ('d \<rightharpoonup> 'd)" where
  "levels_of D side = (\<lambda>p. map_of side (DString D p))"

text \<open>The abstract operation of one level: set the quantity, or drop the price at zero.\<close>

definition set_level :: "('d::zero \<rightharpoonup> 'd) \<Rightarrow> 'd price_level \<Rightarrow> ('d \<rightharpoonup> 'd)" where
  "set_level m lvl =
     m(pl_Price lvl := if pl_Quantity lvl = 0 then None else Some (pl_Quantity lvl))"

text \<open>
  Well-formed sides: what a Go map filled by the operations satisfies. Keys are distinct,
  each is some price's \<open>String\<close>, and no quantity is zero.
\<close>

definition wf_side :: "'d::zero decimal_pkg \<Rightarrow> 'd book_side \<Rightarrow> bool" where
  "wf_side D side \<longleftrightarrow> distinct (map fst side) \<and>
     (\<forall>(k, q) \<in> set side. q \<noteq> 0 \<and> (\<exists>p. k = DString D p))"

definition wf_book :: "'d::zero decimal_pkg \<Rightarrow> 'd book \<Rightarrow> bool" where
  "wf_book D b \<longleftrightarrow> wf_side D (bk_bids b) \<and> wf_side D (bk_asks b)"

lemma wf_side_Nil [simp]: "wf_side D []"
  by (simp add: wf_side_def)

lemma wf_side_distinct: "wf_side D side \<Longrightarrow> distinct (map fst side)"
  by (simp add: wf_side_def)

lemma levels_of_Nil [simp]: "levels_of D [] = Map.empty"
  by (simp add: levels_of_def fun_eq_iff)

lemma wf_side_update:
  assumes "wf_side D side" and "q \<noteq> 0"
  shows "wf_side D (AList.update (DString D p) q side)"
  using assms set_AList_update [of "DString D p" q side]
  by (fastforce simp: wf_side_def distinct_update)

lemma wf_side_delete: "wf_side D side \<Longrightarrow> wf_side D (AList.delete k side)"
  by (auto simp: wf_side_def set_AList_delete distinct_delete)

lemma wf_side_applyLevel [book_simps]: "wf_side D side \<Longrightarrow> wf_side D (applyLevel D side lvl)"
  by (simp add: applyLevel_def Let_def wf_side_update wf_side_delete)

lemma wf_side_applyLevels: "wf_side D side \<Longrightarrow> wf_side D (foldl (applyLevel D) side lvls)"
  by (induction lvls arbitrary: side) (simp_all add: wf_side_applyLevel)

lemma levels_of_applyLevel:
  assumes "decimal_strings D"
  shows "levels_of D (applyLevel D side lvl) = set_level (levels_of D side) lvl"
  by (auto simp: levels_of_def applyLevel_def Let_def set_level_def fun_eq_iff
      update_conv' delete_conv' DString_inj [OF assms])

lemma levels_of_applyLevels:
  assumes "decimal_strings D"
  shows "levels_of D (foldl (applyLevel D) side lvls) = foldl set_level (levels_of D side) lvls"
  by (induction lvls arbitrary: side) (simp_all add: levels_of_applyLevel [OF assms])

text \<open>
  Within one list of levels the last entry of a price wins, and a zero quantity deletes it.
\<close>

lemma foldl_set_level:
  "foldl set_level m lvls p =
     (case filter (\<lambda>l. pl_Price l = p) lvls of
        [] \<Rightarrow> m p
      | ls \<Rightarrow> (let q = pl_Quantity (last ls) in if q = 0 then None else Some q))"
proof (induction lvls arbitrary: m)
  case Nil
  then show ?case by simp
next
  case (Cons l lvls)
  then show ?case
    by (cases "filter (\<lambda>l. pl_Price l = p) lvls") (auto simp: set_level_def Let_def)
qed

text \<open>Applying the same levels again changes nothing.\<close>

lemma foldl_set_level_idem:
  "foldl set_level (foldl set_level m lvls) lvls = foldl set_level m lvls"
  by (rule ext) (simp add: foldl_set_level split: list.splits)

text \<open>Loading a side keeps the last non-zero quantity of each price.\<close>

definition load_level :: "('d::zero \<rightharpoonup> 'd) \<Rightarrow> 'd price_level \<Rightarrow> ('d \<rightharpoonup> 'd)" where
  "load_level m lvl = (if pl_Quantity lvl \<noteq> 0 then m(pl_Price lvl \<mapsto> pl_Quantity lvl) else m)"

lemma wf_side_loadSide: "wf_side D (loadSide D lvls)"
proof -
  have "wf_side D side \<Longrightarrow> wf_side D (foldl (\<lambda>side lvl. if pl_Quantity lvl \<noteq> 0
          then AList.update (DString D (pl_Price lvl)) (pl_Quantity lvl) side else side) side lvls)"
    for side by (induction lvls arbitrary: side) (auto simp: wf_side_update)
  then show ?thesis by (simp add: loadSide_def)
qed

lemma levels_of_loadSide:
  assumes D: "decimal_strings D"
  shows "levels_of D (loadSide D lvls) = foldl load_level Map.empty lvls"
proof -
  have "levels_of D (foldl (\<lambda>side lvl. if pl_Quantity lvl \<noteq> 0
          then AList.update (DString D (pl_Price lvl)) (pl_Quantity lvl) side else side) side lvls)
        = foldl load_level (levels_of D side) lvls" for side
  proof (induction lvls arbitrary: side)
    case Nil
    then show ?case by simp
  next
    case (Cons l lvls)
    have step: "levels_of D (if pl_Quantity l \<noteq> 0
            then AList.update (DString D (pl_Price l)) (pl_Quantity l) side else side) =
          load_level (levels_of D side) l"
      by (auto simp: levels_of_def load_level_def update_conv' fun_eq_iff DString_inj [OF D])
    show ?case by (simp only: foldl_Cons step Cons.IH)
  qed
  then show ?thesis by (simp add: loadSide_def)
qed

lemma wf_book_New [simp]: "wf_book D (New symbol)"
  by (simp add: wf_book_def New_def)

lemma wf_book_Apply: "wf_book D b \<Longrightarrow> wf_book D (fst (Apply D b diff))"
  by (simp add: wf_book_def Apply_def wf_side_applyLevels)

lemma wf_book_Reset [simp]: "wf_book D (Reset b)"
  by (simp add: wf_book_def Reset_def)

lemma wf_book_LoadSnapshot [simp]: "wf_book D (LoadSnapshot D b snap)"
  by (simp add: wf_book_def LoadSnapshot_def wf_side_loadSide)

section \<open>Snapshots\<close>

text \<open>The order of the sort's comparison: the better price first.\<close>

definition better :: "bool \<Rightarrow> 'd::ord price_level \<Rightarrow> 'd price_level \<Rightarrow> bool" where
  "better descending a b \<longleftrightarrow>
     (if descending then pl_Price b < pl_Price a else pl_Price a < pl_Price b)"

lemma better_asym: "better desc a b \<Longrightarrow> \<not> better desc (b :: 'd::linorder price_level) a"
  by (auto simp: better_def split: if_splits)

lemma not_better_distinct:
  "\<not> better desc b a \<Longrightarrow> pl_Price a \<noteq> pl_Price b \<Longrightarrow> better desc a (b :: 'd::linorder price_level)"
  by (auto simp: better_def split: if_splits)

lemma wf_side_key:
  "wf_side D side \<Longrightarrow> (k, q) \<in> set side \<Longrightarrow> \<exists>p. k = DString D p"
  by (auto simp: wf_side_def)

lemma set_parsedLevels:
  assumes D: "decimal_strings D" and wf: "wf_side D side"
  shows "set (parsedLevels D side) = {l. levels_of D side (pl_Price l) = Some (pl_Quantity l)}"
proof (intro set_eqI iffI)
  fix l :: "'a price_level"
  assume "l \<in> set (parsedLevels D side)"
  then obtain k q p where kq: "(k, q) \<in> set side" and p: "DFromString D k = Some p"
    and l: "l = \<lparr>pl_Price = p, pl_Quantity = q\<rparr>"
    by (auto simp: parsedLevels_def List.map_filter_def split: prod.splits)
  obtain p' where "k = DString D p'" using wf_side_key [OF wf kq] by blast
  with p D have "k = DString D p" by simp
  with kq wf_side_distinct [OF wf] l show "l \<in> {l. levels_of D side (pl_Price l) = Some (pl_Quantity l)}"
    by (simp add: levels_of_def)
next
  fix l :: "'a price_level"
  assume "l \<in> {l. levels_of D side (pl_Price l) = Some (pl_Quantity l)}"
  then have "(DString D (pl_Price l), pl_Quantity l) \<in> set side"
    by (auto simp: levels_of_def dest: map_of_SomeD)
  with D show "l \<in> set (parsedLevels D side)"
    by (force simp: parsedLevels_def List.map_filter_def)
qed

lemma distinct_parsedLevels:
  assumes D: "decimal_strings D" and wf: "wf_side D side"
  shows "distinct (map pl_Price (parsedLevels D side))"
  using wf
proof (induction side)
  case Nil
  then show ?case by (simp add: parsedLevels_def List.map_filter_def)
next
  case (Cons kq side)
  obtain k q where kq: "kq = (k, q)" by (cases kq)
  from Cons.prems kq have wf: "wf_side D side" and new: "k \<notin> fst ` set side"
    and "\<exists>p. k = DString D p" by (auto simp: wf_side_def)
  then obtain p where k: "k = DString D p" by blast
  have "p \<notin> set (map pl_Price (parsedLevels D side))"
  proof
    assume "p \<in> set (map pl_Price (parsedLevels D side))"
    then obtain q' where "levels_of D side p = Some q'"
      by (auto simp: set_parsedLevels [OF D wf])
    then have "k \<in> fst ` set side" using k by (force simp: levels_of_def dest: map_of_SomeD)
    with new show False by simp
  qed
  moreover have "parsedLevels D (kq # side) = \<lparr>pl_Price = p, pl_Quantity = q\<rparr> # parsedLevels D side"
    by (simp add: parsedLevels_def List.map_filter_def kq k D)
  ultimately show ?case using Cons.IH [OF wf] by simp
qed

lemma sort_key_better:
  fixes xs :: "'d::linordered_idom price_level list"
  assumes "distinct (map pl_Price xs)"
  shows "sorted_wrt (better desc) (sort_key (\<lambda>l. if desc then - pl_Price l else pl_Price l) xs)"
proof -
  let ?f = "\<lambda>l::'d price_level. if desc then - pl_Price l else pl_Price l"
  let ?ys = "sort_key ?f xs"
  have "distinct (map ?f ?ys)"
    using assms by (auto simp: distinct_map inj_on_def)
  then have "sorted_wrt (<) (map ?f ?ys)"
    using sorted_sort_key [of ?f xs] by (simp add: strict_sorted_iff)
  then have "sorted_wrt (\<lambda>a b. ?f a < ?f b) ?ys" by (simp add: sorted_wrt_map)
  then show ?thesis by (rule sorted_wrt_mono_rel [rotated]) (auto simp: better_def)
qed

lemma set_truncLevels: "set (truncLevels n xs) \<subseteq> set xs"
  by (auto simp: truncLevels_def dest: in_set_takeD)

lemma sorted_wrt_truncLevels: "sorted_wrt R xs \<Longrightarrow> sorted_wrt R (truncLevels n xs)"
  by (simp add: truncLevels_def sorted_wrt_take)

lemma length_truncLevels:
  "int (length (truncLevels n xs)) = (if n > 0 then min n (int (length xs)) else int (length xs))"
  by (auto simp: truncLevels_def)

lemma truncLevels_0 [simp]: "truncLevels 0 xs = xs"
  by (simp add: truncLevels_def)

text \<open>A sorted snapshot side is strictly better-first.\<close>

lemma sortedLevels_sorted:
  assumes "decimal_strings D" and "wf_side D side"
  shows "sorted_wrt (better desc) (sortedLevels D side desc depth)"
  unfolding sortedLevels_def
  by (intro sorted_wrt_truncLevels sort_key_better distinct_parsedLevels assms)

lemma set_sortedLevels_0:
  assumes "decimal_strings D" and "wf_side D side"
  shows "set (sortedLevels D side desc 0) = {l. levels_of D side (pl_Price l) = Some (pl_Quantity l)}"
  by (simp add: sortedLevels_def set_parsedLevels [OF assms])

text \<open>A level the depth limit cut off is worse than every level kept.\<close>

lemma sortedLevels_cut:
  assumes D: "decimal_strings D" and wf: "wf_side D side"
    and l: "levels_of D side (pl_Price l) = Some (pl_Quantity l)"
    and out: "l \<notin> set (sortedLevels D side desc depth)"
  shows "0 < depth \<and> int (length (sortedLevels D side desc depth)) = depth \<and>
         (\<forall>k \<in> set (sortedLevels D side desc depth). better desc k l)"
proof -
  let ?all = "sortedLevels D side desc 0"
  have cut: "sortedLevels D side desc depth = truncLevels depth ?all"
    by (simp add: sortedLevels_def)
  have "l \<in> set ?all" using l by (simp add: set_sortedLevels_0 [OF D wf])
  with out have d: "depth > 0" "int (length ?all) > depth"
    by (auto simp: cut truncLevels_def split: if_splits)
  then have take: "sortedLevels D side desc depth = take (nat depth) ?all"
    by (simp add: cut truncLevels_def)
  have "l \<in> set (drop (nat depth) ?all)"
    using \<open>l \<in> set ?all\<close> out take by (metis Un_iff append_take_drop_id set_append)
  then have "\<forall>k \<in> set (take (nat depth) ?all). better desc k l"
    using sorted_wrt_take_worse [OF sortedLevels_sorted [OF D wf]] by blast
  with d take show ?thesis by simp
qed

lemma mset_parsedLevels:
  "mset side' = mset side \<Longrightarrow> mset (parsedLevels D side') = mset (parsedLevels D side)"
  by (simp add: parsedLevels_def List.map_filter_def)

lemma sorted_wrt_not_better:
  fixes ys :: "'d::linorder price_level list"
  shows "sorted_wrt (\<lambda>a b. \<not> better desc b a) ys \<Longrightarrow> distinct (map pl_Price ys) \<Longrightarrow>
    sorted_wrt (better desc) ys"
  by (induction ys) (force intro: not_better_distinct)+

text \<open>Loading back a snapshot side keeps exactly the levels the snapshot shows.\<close>

lemma foldl_load_level:
  assumes "distinct (map pl_Price lvls)" and "\<forall>l \<in> set lvls. pl_Quantity l \<noteq> 0"
  shows "foldl load_level m lvls p =
    (if p \<in> pl_Price ` set lvls then map_of (map (\<lambda>l. (pl_Price l, pl_Quantity l)) lvls) p else m p)"
  using assms
  by (induction lvls arbitrary: m) (auto simp: load_level_def)

lemma sorted_better_distinct:
  "sorted_wrt (better desc) (xs :: 'd::linorder price_level list) \<Longrightarrow> distinct (map pl_Price xs)"
  by (induction xs) (auto simp: better_def split: if_splits)

lemma levels_of_reload:
  assumes D: "decimal_strings D" and wf: "wf_side D side"
  shows "levels_of D (loadSide D (sortedLevels D side desc depth)) =
    levels_of D side |` (pl_Price ` set (sortedLevels D side desc depth))"
proof
  fix p
  let ?xs = "sortedLevels D side desc depth"
  have inall: "set ?xs \<subseteq> {l. levels_of D side (pl_Price l) = Some (pl_Quantity l)}"
    using set_truncLevels [of depth] set_parsedLevels [OF D wf] by (fastforce simp: sortedLevels_def)
  have nz: "\<forall>l \<in> set ?xs. pl_Quantity l \<noteq> 0"
  proof
    fix l assume "l \<in> set ?xs"
    with inall have "(DString D (pl_Price l), pl_Quantity l) \<in> set side"
      by (auto simp: levels_of_def dest: map_of_SomeD)
    with wf show "pl_Quantity l \<noteq> 0" by (auto simp: wf_side_def)
  qed
  have dist: "distinct (map pl_Price ?xs)"
    by (rule sorted_better_distinct [OF sortedLevels_sorted [OF D wf]])
  have load: "levels_of D (loadSide D ?xs) p =
      (if p \<in> pl_Price ` set ?xs then map_of (map (\<lambda>l. (pl_Price l, pl_Quantity l)) ?xs) p else None)"
    by (simp add: levels_of_loadSide [OF D] foldl_load_level [OF dist nz])
  show "levels_of D (loadSide D ?xs) p = (levels_of D side |` (pl_Price ` set ?xs)) p"
  proof (cases "p \<in> pl_Price ` set ?xs")
    case True
    then obtain l where l: "l \<in> set ?xs" "pl_Price l = p" by blast
    have "map_of (map (\<lambda>l. (pl_Price l, pl_Quantity l)) ?xs) p = Some (pl_Quantity l)"
      using l dist by (intro map_of_is_SomeI) (auto simp: comp_def)
    moreover have "levels_of D side p = Some (pl_Quantity l)" using inall l by blast
    ultimately show ?thesis using load True by simp
  next
    case False
    with load show ?thesis by simp
  qed
qed

lemma levels_of_reload_0:
  assumes D: "decimal_strings D" and wf: "wf_side D side"
  shows "levels_of D (loadSide D (sortedLevels D side desc 0)) = levels_of D side"
proof -
  have "dom (levels_of D side) \<subseteq> pl_Price ` set (sortedLevels D side desc 0)"
    unfolding set_sortedLevels_0 [OF assms]
    by (auto simp: image_iff intro!: exI [of _ "\<lparr>pl_Price = _, pl_Quantity = _\<rparr>"])
  then have "levels_of D side |` (pl_Price ` set (sortedLevels D side desc 0)) = levels_of D side"
    by (intro ext) (metis domIff restrict_in restrict_out subsetD)
  then show ?thesis by (simp add: levels_of_reload [OF assms])
qed

lemma restrict_top_0:
  "decimal_strings D \<Longrightarrow> wf_side D side \<Longrightarrow>
   levels_of D side |` (pl_Price ` set (sortedLevels D side desc 0)) = levels_of D side"
  by (metis levels_of_reload levels_of_reload_0)

lemma LoadSnapshot_sels [simp]:
  "bk_bids (LoadSnapshot D b s) = loadSide D (se_Bids s)"
  "bk_asks (LoadSnapshot D b s) = loadSide D (se_Asks s)"
  "bk_lastUpdateID (LoadSnapshot D b s) = se_LastUpdateID s"
  by (simp_all add: LoadSnapshot_def)

section \<open>The abstract book, and the book as an interface\<close>

text \<open>
  The abstract book is two maps from a price's wire string to a quantity and the id of the
  last update. \<open>view_of\<close> forgets how a side is stored.
\<close>

record 'd abook =
  ab_bids :: "string \<rightharpoonup> 'd"
  ab_asks :: "string \<rightharpoonup> 'd"
  ab_id :: int64

definition view_of :: "'d book \<Rightarrow> 'd abook" where
  "view_of b = \<lparr>ab_bids = map_of (bk_bids b), ab_asks = map_of (bk_asks b),
                ab_id = bk_lastUpdateID b\<rparr>"

definition abs_empty :: "'d abook" where
  "abs_empty = \<lparr>ab_bids = Map.empty, ab_asks = Map.empty, ab_id = 0\<rparr>"

definition abs_level ::
  "'d::zero decimal_pkg \<Rightarrow> (string \<rightharpoonup> 'd) \<Rightarrow> 'd price_level \<Rightarrow> (string \<rightharpoonup> 'd)" where
  "abs_level D m lvl = m(DString D (pl_Price lvl) :=
     if pl_Quantity lvl = 0 then None else Some (pl_Quantity lvl))"

definition abs_apply :: "'d::zero decimal_pkg \<Rightarrow> 'd abook \<Rightarrow> 'd diff_event \<Rightarrow> 'd abook" where
  "abs_apply D a diff = \<lparr>ab_bids = foldl (abs_level D) (ab_bids a) (de_Bids diff),
     ab_asks = foldl (abs_level D) (ab_asks a) (de_Asks diff), ab_id = de_FinalUpdateID diff\<rparr>"

definition abs_load_side ::
  "'d::zero decimal_pkg \<Rightarrow> 'd price_level list \<Rightarrow> (string \<rightharpoonup> 'd)" where
  "abs_load_side D lvls =
     map_of (rev (map (\<lambda>l. (DString D (pl_Price l), pl_Quantity l))
                    (filter (\<lambda>l. pl_Quantity l \<noteq> 0) lvls)))"

definition abs_load :: "'d::zero decimal_pkg \<Rightarrow> 'd snapshot_event \<Rightarrow> 'd abook" where
  "abs_load D s = \<lparr>ab_bids = abs_load_side D (se_Bids s), ab_asks = abs_load_side D (se_Asks s),
     ab_id = se_LastUpdateID s\<rparr>"

lemma map_of_applyLevel [book_simps]:
  "map_of (applyLevel D side lvl) = abs_level D (map_of side) lvl"
  by (auto simp: applyLevel_def abs_level_def Let_def update_conv' delete_conv' fun_eq_iff)

lemma map_of_applyLevels:
  "map_of (foldl (applyLevel D) side lvls) = foldl (abs_level D) (map_of side) lvls"
  by (induction lvls arbitrary: side) (simp_all add: map_of_applyLevel)

lemma map_of_loadSide: "map_of (loadSide D lvls) = abs_load_side D lvls"
proof (induction lvls rule: rev_induct)
  case Nil
  then show ?case by (simp add: loadSide_def abs_load_side_def)
next
  case (snoc l lvls)
  then show ?case by (auto simp: loadSide_def abs_load_side_def update_conv' fun_eq_iff)
qed

lemma view_of_Apply: "view_of (fst (Apply D b diff)) = abs_apply D (view_of b) diff"
  by (simp add: view_of_def Apply_def abs_apply_def map_of_applyLevels)

lemma view_of_LoadSnapshot: "view_of (LoadSnapshot D b s) = abs_load D s"
  by (simp add: view_of_def LoadSnapshot_def abs_load_def map_of_loadSide)

lemma view_of_Reset: "view_of (Reset b) = abs_empty"
  by (simp add: view_of_def Reset_def abs_empty_def)

lemma ab_id_view_of [simp]: "ab_id (view_of b) = bk_lastUpdateID b"
  by (simp add: view_of_def)

text \<open>
  The Go interface OrderBook, with the optional method \<open>LoadSnapshot\<close> that the handler finds
  by a type assertion. \<open>Apply\<close> returns the error of the interface; the repository's own book
  never fails, other providers may.
\<close>

record ('b, 'd) order_book =
  ob_Apply :: "'b \<Rightarrow> 'd diff_event \<Rightarrow> 'b \<times> string option"
  ob_Snapshot :: "time \<Rightarrow> 'b \<Rightarrow> int \<Rightarrow> 'd snapshot_event"
  ob_LastUpdateID :: "'b \<Rightarrow> int64"
  ob_Reset :: "'b \<Rightarrow> 'b"
  ob_LoadSnapshot :: "('b \<Rightarrow> 'd snapshot_event \<Rightarrow> 'b) option"

definition book_ops :: "'d::linordered_idom decimal_pkg \<Rightarrow> ('d book, 'd) order_book" where
  "book_ops D = \<lparr>ob_Apply = Apply D, ob_Snapshot = Snapshot D, ob_LastUpdateID = LastUpdateID,
     ob_Reset = Reset, ob_LoadSnapshot = Some (LoadSnapshot D)\<rparr>"

locale order_book_contract =
  fixes D :: "'d::linordered_idom decimal_pkg"
    and OB :: "('b, 'd) order_book"
    and view :: "'b \<Rightarrow> 'd abook"
  assumes view_Apply: "snd (ob_Apply OB b d) = None \<Longrightarrow>
      view (fst (ob_Apply OB b d)) = abs_apply D (view b) d"
    and view_Reset: "view (ob_Reset OB b) = abs_empty"
    and view_Load: "ob_LoadSnapshot OB = Some load \<Longrightarrow> view (load b s) = abs_load D s"
    and last_id: "ob_LastUpdateID OB b = ab_id (view b)"
    and snapshot_id: "se_LastUpdateID (ob_Snapshot OB t b n) = ob_LastUpdateID OB b"
    and snapshot_depth: "0 < n \<Longrightarrow> int (length (se_Bids (ob_Snapshot OB t b n))) \<le> n \<and>
      int (length (se_Asks (ob_Snapshot OB t b n))) \<le> n"
begin

text \<open>Applying a run of diffs, as long as none fails, is the run on the abstract book.\<close>

lemma view_Apply_run:
  assumes "\<And>b d. d \<in> set ds \<Longrightarrow> snd (ob_Apply OB b d) = None"
  shows "view (foldl (\<lambda>b d. fst (ob_Apply OB b d)) b ds) = foldl (abs_apply D) (view b) ds"
  using assms by (induction ds arbitrary: b) (simp_all add: view_Apply)

lemma last_id_Apply:
  "snd (ob_Apply OB b d) = None \<Longrightarrow>
   ob_LastUpdateID OB (fst (ob_Apply OB b d)) = de_FinalUpdateID d"
  by (simp add: last_id view_Apply abs_apply_def)

lemma last_id_Reset: "ob_LastUpdateID OB (ob_Reset OB b) = 0"
  by (simp add: last_id view_Reset abs_empty_def)

end

interpretation bk: order_book_contract D "book_ops D" view_of
  for D :: "'d::linordered_idom decimal_pkg"
  by unfold_locales
    (auto simp: book_ops_def view_of_Apply view_of_Reset view_of_LoadSnapshot LastUpdateID_def
      Snapshot_def sortedLevels_def length_truncLevels)

section \<open>Properties\<close>

lemma foldl_nested:
  "foldl (\<lambda>m d. foldl f m (g d)) m ds = foldl f m (concat (map g ds))"
  by (induction ds arbitrary: m) simp_all

lemma Apply_run_levels:
  assumes "decimal_strings D"
  shows "levels_of D (bk_bids (foldl (\<lambda>b d. fst (Apply D b d)) b ds)) =
      foldl (\<lambda>m d. foldl set_level m (de_Bids d)) (levels_of D (bk_bids b)) ds \<and>
    levels_of D (bk_asks (foldl (\<lambda>b d. fst (Apply D b d)) b ds)) =
      foldl (\<lambda>m d. foldl set_level m (de_Asks d)) (levels_of D (bk_asks b)) ds \<and>
    bk_lastUpdateID (foldl (\<lambda>b d. fst (Apply D b d)) b ds) =
      (if ds = [] then bk_lastUpdateID b else de_FinalUpdateID (last ds))"
  by (induction ds arbitrary: b) (simp_all add: Apply_def levels_of_applyLevels [OF assms])

lemma wf_book_Apply_run:
  "wf_book D b \<Longrightarrow> wf_book D (foldl (\<lambda>b d. fst (Apply D b d)) b ds)"
  by (induction ds arbitrary: b) (simp_all add: wf_book_Apply)

text \<open>
  C39 (refinement): after a snapshot is loaded and a run of diffs applied, each side of the
  book holds, price by price, what folding the abstract update (set the quantity, delete at
  zero) over the snapshot's levels and the diffs' levels gives; the last update id is the
  last diff's final id (the snapshot's when there is no diff), and the book stays well
  formed. Nothing of the state before the snapshot survives.
\<close>

theorem book_replay_refines:
  fixes D :: "'d::linordered_idom decimal_pkg"
  assumes "decimal_strings D"
  shows "let b' = foldl (\<lambda>b d. fst (Apply D b d)) (LoadSnapshot D (Reset b) s) ds in
     levels_of D (bk_bids b') =
       foldl (\<lambda>m d. foldl set_level m (de_Bids d)) (foldl load_level Map.empty (se_Bids s)) ds \<and>
     levels_of D (bk_asks b') =
       foldl (\<lambda>m d. foldl set_level m (de_Asks d)) (foldl load_level Map.empty (se_Asks s)) ds \<and>
     LastUpdateID b' = (if ds = [] then se_LastUpdateID s else de_FinalUpdateID (last ds)) \<and>
     wf_book D b'"
  using Apply_run_levels [OF assms, of "LoadSnapshot D (Reset b) s" ds]
  by (simp add: Let_def LastUpdateID_def wf_book_Apply_run levels_of_loadSide [OF assms])

definition wit_level :: "rat \<Rightarrow> rat \<Rightarrow> rat price_level" where
  "wit_level p q = \<lparr>pl_Price = p, pl_Quantity = q\<rparr>"

definition wit_snap :: "rat snapshot_event" where
  "wit_snap = \<lparr>se_Symbol = ''BTCUSDT'', se_CapturedAt = 1, se_LastUpdateID = 10,
     se_Bids = [wit_level 100 2, wit_level 99 1], se_Asks = [wit_level 101 3]\<rparr>"

definition wit_diff :: "int64 \<Rightarrow> int64 \<Rightarrow> rat diff_event" where
  "wit_diff U u = \<lparr>de_Symbol = ''BTCUSDT'', de_EventTime = 5, de_FirstUpdateID = U,
     de_FinalUpdateID = u, de_Bids = [wit_level 100 0, wit_level 98 4], de_Asks = []\<rparr>"

lemma book_replay_refines_witness:
  "let b' = foldl (\<lambda>b d. fst (Apply rat_pkg b d))
              (LoadSnapshot rat_pkg (Reset (New ''BTCUSDT'')) wit_snap) [wit_diff 11 12] in
   levels_of rat_pkg (bk_bids b') 100 = None \<and> levels_of rat_pkg (bk_bids b') 99 = Some 1 \<and>
   levels_of rat_pkg (bk_bids b') 98 = Some 4 \<and> LastUpdateID b' = 12"
  using book_replay_refines [OF rat_pkg_strings, of "New ''BTCUSDT''" wit_snap "[wit_diff 11 12]"]
  by (simp add: Let_def wit_snap_def wit_diff_def wit_level_def set_level_def load_level_def)

text \<open>
  What \<open>Snapshot\<close> promises of one side: better prices first, only levels of the side, all of them
  or, under a positive depth, at most \<open>depth\<close>; and a level it leaves out is worse than all it
  shows, of which there are exactly \<open>depth\<close>. This determines the list.
\<close>

definition top_of_side ::
  "'d::linordered_idom decimal_pkg \<Rightarrow> 'd book_side \<Rightarrow> bool \<Rightarrow> int \<Rightarrow> 'd price_level list \<Rightarrow> bool" where
  "top_of_side D side desc depth xs \<longleftrightarrow>
     sorted_wrt (better desc) xs \<and>
     (\<forall>l \<in> set xs. levels_of D side (pl_Price l) = Some (pl_Quantity l)) \<and>
     (\<forall>l. levels_of D side (pl_Price l) = Some (pl_Quantity l) \<and> l \<notin> set xs \<longrightarrow>
        0 < depth \<and> int (length xs) = depth \<and> (\<forall>k \<in> set xs. better desc k l)) \<and>
     (let n = int (card (dom (levels_of D side))) in
      int (length xs) = (if 0 < depth then min depth n else n))"

lemma card_levels:
  assumes D: "decimal_strings D" and wf: "wf_side D side"
  shows "card (dom (levels_of D side)) = length (parsedLevels D side)"
proof -
  have "p \<in> dom (levels_of D side) \<longleftrightarrow> p \<in> set (map pl_Price (parsedLevels D side))" for p
  proof
    assume "p \<in> dom (levels_of D side)"
    then obtain q where "levels_of D side p = Some q" by auto
    then have "\<lparr>pl_Price = p, pl_Quantity = q\<rparr> \<in> set (parsedLevels D side)"
      by (simp add: set_parsedLevels [OF assms])
    then show "p \<in> set (map pl_Price (parsedLevels D side))" by force
  qed (auto simp: set_parsedLevels [OF assms])
  then have "dom (levels_of D side) = set (map pl_Price (parsedLevels D side))" by blast
  then show ?thesis
    using distinct_card [OF distinct_parsedLevels [OF assms]] by simp
qed

lemma sortedLevels_top:
  assumes D: "decimal_strings D" and wf: "wf_side D side"
  shows "top_of_side D side desc depth (sortedLevels D side desc depth)"
  unfolding top_of_side_def
proof (intro conjI ballI allI impI)
  show "sorted_wrt (better desc) (sortedLevels D side desc depth)"
    by (rule sortedLevels_sorted [OF assms])
next
  fix l assume "l \<in> set (sortedLevels D side desc depth)"
  then have "l \<in> set (parsedLevels D side)"
    using set_truncLevels by (fastforce simp: sortedLevels_def)
  then show "levels_of D side (pl_Price l) = Some (pl_Quantity l)"
    by (simp add: set_parsedLevels [OF assms])
next
  show "let n = int (card (dom (levels_of D side))) in
      int (length (sortedLevels D side desc depth)) = (if 0 < depth then min depth n else n)"
    by (simp add: card_levels [OF assms] sortedLevels_def length_truncLevels Let_def)
qed (use sortedLevels_cut [OF assms] in blast)+

text \<open>A snapshot depends on the levels of a side only, not on how its map came about.\<close>

lemma sortedLevels_cong:
  assumes D: "decimal_strings D" and wf: "wf_side D s1" "wf_side D s2"
    and same: "levels_of D s1 = levels_of D s2"
  shows "sortedLevels D s1 desc depth = sortedLevels D s2 desc depth"
proof -
  have "sortedLevels D s1 desc 0 = sortedLevels D s2 desc 0"
  proof (rule sorted_wrt_unique [where R = "better desc"])
    show "set (sortedLevels D s1 desc 0) = set (sortedLevels D s2 desc 0)"
      by (simp add: set_sortedLevels_0 [OF D] wf same)
  qed (simp_all add: sortedLevels_sorted [OF D] wf better_asym)
  then show ?thesis by (simp add: sortedLevels_def)
qed

text \<open>
  C40 (functional): a snapshot of a well-formed book is its top: bids by falling price, asks
  by rising price, only levels of the book, and as many of them as it has, or \<open>depth\<close> when that
  is positive and less; the levels left out are worse than all those shown.
\<close>

theorem snapshot_top_of_book:
  fixes D :: "'d::linordered_idom decimal_pkg"
  assumes "decimal_strings D" and "wf_book D b"
  shows "top_of_side D (bk_bids b) True depth (se_Bids (Snapshot D now b depth)) \<and>
     top_of_side D (bk_asks b) False depth (se_Asks (Snapshot D now b depth)) \<and>
     se_LastUpdateID (Snapshot D now b depth) = LastUpdateID b"
  using assms by (simp add: Snapshot_def wf_book_def sortedLevels_top LastUpdateID_def)

lemma snapshot_top_of_book_witness:
  "wf_book rat_pkg (LoadSnapshot rat_pkg (New ''BTCUSDT'') wit_snap) \<and>
   top_of_side rat_pkg (bk_bids (LoadSnapshot rat_pkg (New ''BTCUSDT'') wit_snap)) True 1
     (se_Bids (Snapshot rat_pkg 7 (LoadSnapshot rat_pkg (New ''BTCUSDT'') wit_snap) 1))"
  using snapshot_top_of_book [OF rat_pkg_strings wf_book_LoadSnapshot, where depth = 1 and now = 7]
  by simp

text \<open>
  A snapshot side does not depend on the order in which the runtime
  iterates the map, nor on what an unstable sort does: every list that is a permutation of
  the parsed levels and that the comparison does not call out of order, cut at the depth,
  is the snapshot's list.
\<close>

lemma sorted_levels_unique:
  fixes D :: "'d::linordered_idom decimal_pkg"
  assumes D: "decimal_strings D" and wf: "wf_side D side"
    and perm: "mset side' = mset side" and sort: "mset ys = mset (parsedLevels D side')"
    and sorted: "sorted_wrt (\<lambda>a b. \<not> better desc b a) ys"
  shows "truncLevels depth ys = sortedLevels D side desc depth"
proof -
  let ?zs = "sortedLevels D side desc 0"
  have ms: "mset ys = mset (parsedLevels D side)"
    using sort mset_parsedLevels [OF perm] by simp
  then have "mset (map pl_Price ys) = mset (map pl_Price (parsedLevels D side))" by simp
  then have "distinct (map pl_Price ys)"
    using distinct_parsedLevels [OF D wf] by (blast dest: mset_eq_imp_distinct_iff)
  then have "sorted_wrt (better desc) ys" using sorted by (intro sorted_wrt_not_better)
  moreover have "set ys = set ?zs"
    using mset_eq_setD [OF ms] by (simp add: sortedLevels_def)
  ultimately have "ys = ?zs"
    using sortedLevels_sorted [OF D wf] by (intro sorted_wrt_unique [OF better_asym])
  then show ?thesis by (simp add: sortedLevels_def)
qed

lemma sorted_levels_unique_witness:
  "truncLevels 0 [wit_level 100 2, wit_level 99 1] =
   sortedLevels rat_pkg (loadSide rat_pkg [wit_level 99 1, wit_level 100 2]) True 0"
proof (rule sorted_levels_unique [OF rat_pkg_strings wf_side_loadSide,
    where side' = "loadSide rat_pkg [wit_level 99 1, wit_level 100 2]"])
  show "mset [wit_level 100 2, wit_level 99 1] =
      mset (parsedLevels rat_pkg (loadSide rat_pkg [wit_level 99 1, wit_level 100 2]))"
    by (simp add: parsedLevels_def List.map_filter_def loadSide_def wit_level_def
        DString_inj [OF rat_pkg_strings] add_mset_commute)
qed (simp_all add: better_def wit_level_def)

text \<open>
  A book loaded from another book's snapshot of depth \<open>n\<close> has exactly the
  levels that snapshot shows; with no depth limit (\<open>n\<close> not positive) it has all levels of
  the first book, and in every case its last update id.
\<close>

lemma snapshot_reload:
  fixes D :: "'d::linordered_idom decimal_pkg"
  assumes "decimal_strings D" and "wf_book D b"
  shows "let s = Snapshot D now b n; b' = LoadSnapshot D b0 s in
     levels_of D (bk_bids b') = levels_of D (bk_bids b) |` (pl_Price ` set (se_Bids s)) \<and>
     levels_of D (bk_asks b') = levels_of D (bk_asks b) |` (pl_Price ` set (se_Asks s)) \<and>
     (n \<le> 0 \<longrightarrow> levels_of D (bk_bids b') = levels_of D (bk_bids b) \<and>
                levels_of D (bk_asks b') = levels_of D (bk_asks b)) \<and>
     LastUpdateID b' = LastUpdateID b"
proof -
  have "n \<le> 0 \<Longrightarrow> sortedLevels D side desc n = sortedLevels D side desc 0" for side desc
    by (simp add: sortedLevels_def truncLevels_def)
  then show ?thesis using assms
    by (simp add: Let_def Snapshot_def wf_book_def levels_of_reload restrict_top_0
        LastUpdateID_def)
qed

lemma snapshot_reload_witness:
  "let b = LoadSnapshot rat_pkg (New ''BTCUSDT'') wit_snap; s = Snapshot rat_pkg 7 b 1;
       b' = LoadSnapshot rat_pkg (New ''BTCUSDT'') s in
   levels_of rat_pkg (bk_bids b') = levels_of rat_pkg (bk_bids b) |` (pl_Price ` set (se_Bids s))"
  using snapshot_reload [OF rat_pkg_strings wf_book_LoadSnapshot, where n = 1 and now = 7]
  by (simp add: Let_def)

lemma foldl_abs_level:
  "foldl (abs_level D) m lvls k =
     (case filter (\<lambda>l. DString D (pl_Price l) = k) lvls of
        [] \<Rightarrow> m k
      | ls \<Rightarrow> (let q = pl_Quantity (last ls) in if q = 0 then None else Some q))"
proof (induction lvls arbitrary: m)
  case Nil
  then show ?case by simp
next
  case (Cons l lvls)
  then show ?case
    by (cases "filter (\<lambda>l. DString D (pl_Price l) = k) lvls") (auto simp: abs_level_def Let_def)
qed

lemma foldl_abs_level_idem:
  "foldl (abs_level D) (foldl (abs_level D) m lvls) lvls = foldl (abs_level D) m lvls"
  by (rule ext) (simp add: foldl_abs_level split: list.splits)

lemma foldl_abs_apply:
  "foldl (abs_apply D) a ds =
     \<lparr>ab_bids = foldl (abs_level D) (ab_bids a) (concat (map de_Bids ds)),
      ab_asks = foldl (abs_level D) (ab_asks a) (concat (map de_Asks ds)),
      ab_id = (if ds = [] then ab_id a else de_FinalUpdateID (last ds))\<rparr>"
  by (induction ds arbitrary: a) (simp_all add: abs_apply_def)

lemma view_of_Apply_run:
  "view_of (foldl (\<lambda>b d. fst (Apply D b d)) b ds) = foldl (abs_apply D) (view_of b) ds"
  using bk.view_Apply_run [of ds D b] by (simp add: book_ops_def Apply_def)

text \<open>
  A run of diffs that a book already contains may be applied again without
  changing it. A replay that starts from a checkpoint and repeats diffs the checkpoint
  already saw ends in the same book.
\<close>

lemma reapply_run_idempotent:
  "view_of (foldl (\<lambda>b d. fst (Apply D b d)) (foldl (\<lambda>b d. fst (Apply D b d)) b ds) ds) =
   view_of (foldl (\<lambda>b d. fst (Apply D b d)) b ds)"
  by (simp add: view_of_Apply_run foldl_abs_apply foldl_abs_level_idem)

end
