(* ===== verification/Symbol_Handler.thy ===== *)
theory Symbol_Handler
  imports Book
begin

text \<open>
  The per-symbol bootstrap state machine, engine/symbol/handler.go and state.go. The record
  \<open>handler\<close> has the struct's fields; the book is reached only through the interface record
  \<open>order_book\<close>. The mutex makes \<open>HandleDiff\<close> and the part of \<open>runSnapshotFetch\<close> after
  the fetch atomic, so each is one function on the record, and the snapshot fetch is
  one step that starts it (\<open>kickoffSnapshotLocked\<close>) and a later one that delivers its result.

  \<^item> \<open>h_bootstrapG\<close> is the WaitGroup's counter, the number of fetch goroutines in flight.
  \<^item> \<open>h_calls\<close> is not in the struct: it is the list of the calls to the publisher, the
    repository and the fetcher, oldest first. Publish and WriteDiff errors are only
    logged by the code and have no other effect; the error of WriteCheckpoint and that of the
    context, and every reading of the clock, are fields of the environment \<open>handler_env\<close>.
\<close>

section \<open>State\<close>

datatype symbol_state = Disconnected | Bootstrapping | Synced | Resyncing

fun SymbolState_String :: "symbol_state \<Rightarrow> string" where
  "SymbolState_String Disconnected = ''disconnected''"
| "SymbolState_String Bootstrapping = ''bootstrapping''"
| "SymbolState_String Synced = ''synced''"
| "SymbolState_String Resyncing = ''resyncing''"

record handler_config =
  hc_Symbol :: string
  hc_DepthLimit :: int
  hc_CheckpointInterval :: duration
  hc_CheckpointDiffThreshold :: int
  hc_MaxBufferSize :: int

datatype 'd handler_call =
    CallPublish string time int64 "'d price_level list" "'d price_level list"
  | CallWriteDiff "'d diff_event"
  | CallWriteCheckpoint "'d snapshot_event"
  | CallFetchSnapshot string int

record ('b, 'd) handler =
  h_cfg :: handler_config
  h_book :: 'b
  h_hasL2pub :: bool
  h_ctxSet :: bool
  h_bootstrapG :: nat
  h_state :: symbol_state
  h_buffer :: "'d diff_event list"
  h_snapshot :: "'d snapshot_event option"
  h_snapshotPending :: bool
  h_snapshotStale :: bool
  h_lastFinalUpdateID :: int64
  h_lastCheckpointTime :: time
  h_diffsSinceCheckpoint :: int
  h_calls :: "'d handler_call list"

text \<open>
  What one step reads from outside: the context's error, the clock at \<open>time.Since\<close>, at
  \<open>Snapshot\<close> and at \<open>time.Now\<close>, and whether WriteCheckpoint fails.
\<close>

record handler_env =
  he_ctxErr :: bool
  he_since :: time
  he_captured :: time
  he_now :: time
  he_ckptErr :: bool

section \<open>Operations\<close>

definition normalizeConfig :: "handler_config \<Rightarrow> handler_config" where
  "normalizeConfig cfg = cfg\<lparr>
     hc_DepthLimit := (if hc_DepthLimit cfg \<le> 0 then 50 else hc_DepthLimit cfg),
     hc_CheckpointInterval :=
       (if hc_CheckpointInterval cfg \<le> 0 then 1000000000 else hc_CheckpointInterval cfg),
     hc_CheckpointDiffThreshold :=
       (if hc_CheckpointDiffThreshold cfg \<le> 0 then 500 else hc_CheckpointDiffThreshold cfg),
     hc_MaxBufferSize := (if hc_MaxBufferSize cfg \<le> 0 then 1000 else hc_MaxBufferSize cfg)\<rparr>"

definition NewHandler :: "handler_config \<Rightarrow> 'b \<Rightarrow> bool \<Rightarrow> ('b, 'd) handler" where
  "NewHandler cfg ob hasL2 = \<lparr>h_cfg = normalizeConfig cfg, h_book = ob, h_hasL2pub = hasL2,
     h_ctxSet = False, h_bootstrapG = 0, h_state = Disconnected, h_buffer = [],
     h_snapshot = None, h_snapshotPending = False, h_snapshotStale = False,
     h_lastFinalUpdateID = 0, h_lastCheckpointTime = 0, h_diffsSinceCheckpoint = 0,
     h_calls = []\<rparr>"

definition Start :: "('b, 'd) handler \<Rightarrow> ('b, 'd) handler" where
  "Start h = h\<lparr>h_ctxSet := True\<rparr>"

definition call :: "'d handler_call \<Rightarrow> ('b, 'd) handler \<Rightarrow> ('b, 'd) handler" where
  "call c h = h\<lparr>h_calls := h_calls h @ [c]\<rparr>"

definition transitionLocked :: "symbol_state \<Rightarrow> ('b, 'd) handler \<Rightarrow> ('b, 'd) handler" where
  "transitionLocked to h = (if h_state h = to then h else h\<lparr>h_state := to\<rparr>)"

definition bufferLocked :: "'d diff_event \<Rightarrow> ('b, 'd) handler \<Rightarrow> ('b, 'd) handler" where
  "bufferLocked ev h = h\<lparr>h_buffer := h_buffer h @ [ev]\<rparr>"

definition kickoffSnapshotLocked :: "('b, 'd) handler \<Rightarrow> ('b, 'd) handler" where
  "kickoffSnapshotLocked h =
     (if h_snapshotPending h then h
      else call (CallFetchSnapshot (hc_Symbol (h_cfg h)) (hc_DepthLimit (h_cfg h)))
             (h\<lparr>h_snapshotPending := True, h_bootstrapG := h_bootstrapG h + 1\<rparr>))"

definition discardPreSnapshot :: "'d diff_event list \<Rightarrow> int64 \<Rightarrow> 'd diff_event list" where
  "discardPreSnapshot buf lastUpdateID = filter (\<lambda>ev. lastUpdateID <s de_FinalUpdateID ev) buf"

definition aligned :: "int64 \<Rightarrow> 'd diff_event \<Rightarrow> bool" where
  "aligned lastUpdateID ev \<longleftrightarrow>
     de_FirstUpdateID ev \<le>s lastUpdateID + 1 \<and> lastUpdateID + 1 \<le>s de_FinalUpdateID ev"

fun findAlignmentFrom :: "int \<Rightarrow> 'd diff_event list \<Rightarrow> int64 \<Rightarrow> int" where
  "findAlignmentFrom i [] lastUpdateID = -1"
| "findAlignmentFrom i (ev # evs) lastUpdateID =
     (if aligned lastUpdateID ev then i else findAlignmentFrom (i + 1) evs lastUpdateID)"

definition findAlignmentIndex :: "'d diff_event list \<Rightarrow> int64 \<Rightarrow> int" where
  "findAlignmentIndex buf lastUpdateID = findAlignmentFrom 0 buf lastUpdateID"

definition publishL2Locked ::
  "('b, 'd) order_book \<Rightarrow> handler_env \<Rightarrow> 'd diff_event \<Rightarrow> ('b, 'd) handler \<Rightarrow> ('b, 'd) handler" where
  "publishL2Locked OB env ev h =
     (if \<not> h_hasL2pub h then h
      else let snap = ob_Snapshot OB (he_captured env) (h_book h) (hc_DepthLimit (h_cfg h)) in
           call (CallPublish (hc_Symbol (h_cfg h)) (de_EventTime ev) (de_FinalUpdateID ev)
                   (se_Bids snap) (se_Asks snap)) h)"

text \<open>
  The loop of \<open>replayAlignedBufferLocked\<close> over \<open>buffer[alignIdx:]\<close>. The flag says whether the
  loop ran to its end; at a failing \<open>Apply\<close> the function returns from inside it. A sequence
  gap is only logged there.
\<close>

fun replayLoop ::
  "('b, 'd) order_book \<Rightarrow> handler_env \<Rightarrow> 'd diff_event list \<Rightarrow> ('b, 'd) handler \<Rightarrow>
   ('b, 'd) handler \<times> bool" where
  "replayLoop OB env [] h = (h, True)"
| "replayLoop OB env (ev # evs) h =
     (case ob_Apply OB (h_book h) ev of
        (b, Some err) \<Rightarrow>
          (let h1 = transitionLocked Resyncing (h\<lparr>h_book := b, h_buffer := [], h_snapshot := None\<rparr>);
               h2 = transitionLocked Bootstrapping (h1\<lparr>h_book := ob_Reset OB (h_book h1)\<rparr>)
           in (kickoffSnapshotLocked h2, False))
      | (b, None) \<Rightarrow>
          (let h1 = h\<lparr>h_book := b, h_lastFinalUpdateID := de_FinalUpdateID ev\<rparr>;
               h2 = call (CallWriteDiff ev) (publishL2Locked OB env ev h1)
           in replayLoop OB env evs h2))"

definition loadSnapshotIfAny ::
  "('b, 'd) order_book \<Rightarrow> 'b \<Rightarrow> 'd snapshot_event \<Rightarrow> 'b" where
  "loadSnapshotIfAny OB b snap =
     (case ob_LoadSnapshot OB of None \<Rightarrow> b | Some load \<Rightarrow> load b snap)"

definition replayAlignedBufferLocked ::
  "('b, 'd) order_book \<Rightarrow> handler_env \<Rightarrow> int \<Rightarrow> 'd snapshot_event \<Rightarrow> ('b, 'd) handler \<Rightarrow>
   ('b, 'd) handler" where
  "replayAlignedBufferLocked OB env alignIdx snap h =
     (let h1 = h\<lparr>h_book := loadSnapshotIfAny OB (ob_Reset OB (h_book h)) snap,
                 h_lastFinalUpdateID := se_LastUpdateID snap\<rparr>
      in case replayLoop OB env (drop (nat alignIdx) (h_buffer h)) h1 of
           (h2, False) \<Rightarrow> h2
         | (h2, True) \<Rightarrow>
             transitionLocked Synced
               (h2\<lparr>h_buffer := [], h_snapshot := None, h_lastCheckpointTime := he_now env,
                   h_diffsSinceCheckpoint := 0\<rparr>))"

definition tryAlignLocked ::
  "('b, 'd) order_book \<Rightarrow> handler_env \<Rightarrow> ('b, 'd) handler \<Rightarrow> ('b, 'd) handler" where
  "tryAlignLocked OB env h =
     (case h_snapshot h of
        None \<Rightarrow> h
      | Some snap \<Rightarrow>
          (let h1 = h\<lparr>h_buffer := discardPreSnapshot (h_buffer h) (se_LastUpdateID snap)\<rparr>;
               alignIdx = findAlignmentIndex (h_buffer h1) (se_LastUpdateID snap)
           in if alignIdx = -1
              then if int (length (h_buffer h1)) > hc_MaxBufferSize (h_cfg h1)
                   then kickoffSnapshotLocked (h1\<lparr>h_buffer := [], h_snapshot := None\<rparr>)
                   else h1
              else replayAlignedBufferLocked OB env alignIdx snap h1))"

definition shouldCheckpointLocked :: "handler_env \<Rightarrow> ('b, 'd) handler \<Rightarrow> bool" where
  "shouldCheckpointLocked env h \<longleftrightarrow>
     hc_CheckpointDiffThreshold (h_cfg h) \<le> h_diffsSinceCheckpoint h \<or>
     \<not> IsZeroTime (h_lastCheckpointTime h) \<and>
     hc_CheckpointInterval (h_cfg h) \<le> time_Sub (he_since env) (h_lastCheckpointTime h)"

definition enterResyncLocked ::
  "('b, 'd) order_book \<Rightarrow> 'd diff_event \<Rightarrow> ('b, 'd) handler \<Rightarrow> ('b, 'd) handler" where
  "enterResyncLocked OB pending h =
     (let h1 = transitionLocked Resyncing h;
          h2 = h1\<lparr>h_book := ob_Reset OB (h_book h1), h_lastFinalUpdateID := 0,
                  h_diffsSinceCheckpoint := 0, h_lastCheckpointTime := 0,
                  h_buffer := [pending], h_snapshot := None\<rparr>
      in kickoffSnapshotLocked (transitionLocked Bootstrapping h2))"

definition checkpointLocked ::
  "('b, 'd) order_book \<Rightarrow> handler_env \<Rightarrow> ('b, 'd) handler \<Rightarrow> ('b, 'd) handler" where
  "checkpointLocked OB env h =
     (let snap = ob_Snapshot OB (he_captured env) (h_book h) (hc_DepthLimit (h_cfg h));
          h1 = call (CallWriteCheckpoint snap) h
      in if he_ckptErr env then h1
         else h1\<lparr>h_lastCheckpointTime := he_now env, h_diffsSinceCheckpoint := 0\<rparr>)"

definition handleSyncedLocked ::
  "('b, 'd) order_book \<Rightarrow> handler_env \<Rightarrow> 'd diff_event \<Rightarrow> ('b, 'd) handler \<Rightarrow> ('b, 'd) handler" where
  "handleSyncedLocked OB env ev h =
     (if de_FirstUpdateID ev \<noteq> h_lastFinalUpdateID h + 1 then enterResyncLocked OB ev h
      else case ob_Apply OB (h_book h) ev of
             (b, Some err) \<Rightarrow> enterResyncLocked OB ev (h\<lparr>h_book := b\<rparr>)
           | (b, None) \<Rightarrow>
               (let h1 = h\<lparr>h_book := b, h_lastFinalUpdateID := de_FinalUpdateID ev\<rparr>;
                    h2 = call (CallWriteDiff ev) (publishL2Locked OB env ev h1);
                    h3 = h2\<lparr>h_diffsSinceCheckpoint := h_diffsSinceCheckpoint h2 + 1\<rparr>
                in if shouldCheckpointLocked env h3 then checkpointLocked OB env h3 else h3))"

definition HandleDiff ::
  "('b, 'd) order_book \<Rightarrow> handler_env \<Rightarrow> 'd diff_event \<Rightarrow> ('b, 'd) handler \<Rightarrow> ('b, 'd) handler" where
  "HandleDiff OB env ev h =
     (case h_state h of
        Disconnected \<Rightarrow>
          bufferLocked ev (kickoffSnapshotLocked (transitionLocked Bootstrapping h))
      | Bootstrapping \<Rightarrow>
          (let h1 = bufferLocked ev h in
           if h_snapshot h1 \<noteq> None then tryAlignLocked OB env h1
           else if int (length (h_buffer h1)) > hc_MaxBufferSize (h_cfg h1)
           then let h2 = h1\<lparr>h_buffer := [], h_snapshot := None\<rparr> in
                if h_snapshotPending h2 then h2\<lparr>h_snapshotStale := True\<rparr>
                else kickoffSnapshotLocked h2
           else h1)
      | Synced \<Rightarrow> handleSyncedLocked OB env ev h
      | Resyncing \<Rightarrow> bufferLocked ev h)"

definition handleSnapshotErrorLocked ::
  "handler_env \<Rightarrow> ('b, 'd) handler \<Rightarrow> ('b, 'd) handler" where
  "handleSnapshotErrorLocked env h =
     (if h_ctxSet h \<and> he_ctxErr env then h
      else if h_state h = Bootstrapping then kickoffSnapshotLocked h else h)"

text \<open>
  \<open>runSnapshotFetch\<close> after \<open>FetchSnapshot\<close> returned \<open>res\<close>; the deferred \<open>Done\<close> lowers the
  WaitGroup's counter at the end.
\<close>

definition fetchDone :: "('b, 'd) handler \<Rightarrow> ('b, 'd) handler" where
  "fetchDone h = h\<lparr>h_bootstrapG := h_bootstrapG h - 1\<rparr>"

definition runSnapshotFetch ::
  "('b, 'd) order_book \<Rightarrow> handler_env \<Rightarrow> string + 'd snapshot_event \<Rightarrow> ('b, 'd) handler \<Rightarrow>
   ('b, 'd) handler" where
  "runSnapshotFetch OB env res h =
     (let h1 = h\<lparr>h_snapshotPending := False\<rparr> in
      fetchDone
       (case res of
          Inl err \<Rightarrow> handleSnapshotErrorLocked env h1
        | Inr snap \<Rightarrow>
            if h_snapshotStale h1
            then let h2 = h1\<lparr>h_snapshotStale := False\<rparr> in
                 if h_state h2 = Bootstrapping then kickoffSnapshotLocked h2 else h2
            else tryAlignLocked OB env (h1\<lparr>h_snapshot := Some snap\<rparr>)))"

section \<open>Steps and reachable states\<close>

text \<open>
  The handler's world: \<open>Start\<close>, a diff from the dispatcher, and the end of a fetch, which can
  only happen while one is in flight.
\<close>

datatype 'd handler_event =
    EvStart
  | EvDiff handler_env "'d diff_event"
  | EvFetched handler_env "string + 'd snapshot_event"

inductive hstep ::
  "('b, 'd) order_book \<Rightarrow> ('b, 'd) handler \<Rightarrow> 'd handler_event \<Rightarrow> ('b, 'd) handler \<Rightarrow> bool"
  for OB where
  hstep_start: "hstep OB h EvStart (Start h)"
| hstep_diff: "hstep OB h (EvDiff env ev) (HandleDiff OB env ev h)"
| hstep_fetched: "0 < h_bootstrapG h \<Longrightarrow>
    hstep OB h (EvFetched env res) (runSnapshotFetch OB env res h)"

inductive_cases hstep_startE [elim!]: "hstep OB h EvStart h'"
inductive_cases hstep_diffE [elim!]: "hstep OB h (EvDiff env ev) h'"
inductive_cases hstep_fetchedE [elim!]: "hstep OB h (EvFetched env res) h'"

inductive hrun ::
  "('b, 'd) order_book \<Rightarrow> ('b, 'd) handler \<Rightarrow> 'd handler_event list \<Rightarrow> ('b, 'd) handler \<Rightarrow> bool"
  for OB where
  hrun_Nil: "hrun OB h [] h"
| hrun_snoc: "hrun OB h evs h' \<Longrightarrow> hstep OB h' e h'' \<Longrightarrow> hrun OB h (evs @ [e]) h''"

section \<open>The invariant\<close>

text \<open>
  \<open>k\<close> counts the fetch goroutines that have returned their result but not yet run
  their deferred \<open>Done\<close>: one inside \<open>runSnapshotFetch\<close>, none between steps.
\<close>

definition handler_wf :: "nat \<Rightarrow> ('b, 'd) handler \<Rightarrow> bool" where
  "handler_wf k h \<longleftrightarrow>
     h_state h \<noteq> Resyncing \<and>
     h_bootstrapG h = k + (if h_snapshotPending h then 1 else 0) \<and>
     (h_snapshot h \<noteq> None \<longrightarrow>
        h_state h = Bootstrapping \<and> \<not> h_snapshotPending h \<and> \<not> h_snapshotStale h) \<and>
     (h_snapshotPending h \<longrightarrow> h_state h = Bootstrapping) \<and>
     (h_snapshotStale h \<longrightarrow> h_state h = Bootstrapping) \<and>
     (h_state h \<noteq> Bootstrapping \<longrightarrow> h_buffer h = []) \<and>
     int (length (h_buffer h)) \<le> hc_MaxBufferSize (h_cfg h) \<and>
     0 < hc_MaxBufferSize (h_cfg h)"

lemma normalizeConfig_MaxBufferSize [simp]: "0 < hc_MaxBufferSize (normalizeConfig cfg)"
  by (simp add: normalizeConfig_def)

lemma handler_wf_New: "handler_wf 0 (NewHandler cfg b l2)"
  using normalizeConfig_MaxBufferSize [of cfg]
  by (simp add: handler_wf_def NewHandler_def less_imp_le)

lemma handler_wf_Start: "handler_wf k h \<Longrightarrow> handler_wf k (Start h)"
  by (simp add: handler_wf_def Start_def)

lemma publishL2Locked_sels [simp]:
  "h_cfg (publishL2Locked OB env ev h) = h_cfg h"
  "h_book (publishL2Locked OB env ev h) = h_book h"
  "h_hasL2pub (publishL2Locked OB env ev h) = h_hasL2pub h"
  "h_ctxSet (publishL2Locked OB env ev h) = h_ctxSet h"
  "h_bootstrapG (publishL2Locked OB env ev h) = h_bootstrapG h"
  "h_state (publishL2Locked OB env ev h) = h_state h"
  "h_buffer (publishL2Locked OB env ev h) = h_buffer h"
  "h_snapshot (publishL2Locked OB env ev h) = h_snapshot h"
  "h_snapshotPending (publishL2Locked OB env ev h) = h_snapshotPending h"
  "h_snapshotStale (publishL2Locked OB env ev h) = h_snapshotStale h"
  "h_lastFinalUpdateID (publishL2Locked OB env ev h) = h_lastFinalUpdateID h"
  "h_lastCheckpointTime (publishL2Locked OB env ev h) = h_lastCheckpointTime h"
  "h_diffsSinceCheckpoint (publishL2Locked OB env ev h) = h_diffsSinceCheckpoint h"
  by (simp_all add: publishL2Locked_def call_def Let_def)

lemma call_sels [simp]:
  "h_cfg (call c h) = h_cfg h" "h_book (call c h) = h_book h"
  "h_hasL2pub (call c h) = h_hasL2pub h" "h_ctxSet (call c h) = h_ctxSet h"
  "h_bootstrapG (call c h) = h_bootstrapG h" "h_state (call c h) = h_state h"
  "h_buffer (call c h) = h_buffer h" "h_snapshot (call c h) = h_snapshot h"
  "h_snapshotPending (call c h) = h_snapshotPending h"
  "h_snapshotStale (call c h) = h_snapshotStale h"
  "h_lastFinalUpdateID (call c h) = h_lastFinalUpdateID h"
  "h_lastCheckpointTime (call c h) = h_lastCheckpointTime h"
  "h_diffsSinceCheckpoint (call c h) = h_diffsSinceCheckpoint h"
  "h_calls (call c h) = h_calls h @ [c]"
  by (simp_all add: call_def)

lemma transitionLocked_eq [simp]: "transitionLocked to h = h\<lparr>h_state := to\<rparr>"
  by (auto simp: transitionLocked_def)

lemma kickoffSnapshotLocked_sels [simp]:
  "h_cfg (kickoffSnapshotLocked h) = h_cfg h"
  "h_book (kickoffSnapshotLocked h) = h_book h"
  "h_hasL2pub (kickoffSnapshotLocked h) = h_hasL2pub h"
  "h_ctxSet (kickoffSnapshotLocked h) = h_ctxSet h"
  "h_bootstrapG (kickoffSnapshotLocked h) =
     h_bootstrapG h + (if h_snapshotPending h then 0 else 1)"
  "h_state (kickoffSnapshotLocked h) = h_state h"
  "h_buffer (kickoffSnapshotLocked h) = h_buffer h"
  "h_snapshot (kickoffSnapshotLocked h) = h_snapshot h"
  "h_snapshotPending (kickoffSnapshotLocked h)"
  "h_snapshotStale (kickoffSnapshotLocked h) = h_snapshotStale h"
  "h_lastFinalUpdateID (kickoffSnapshotLocked h) = h_lastFinalUpdateID h"
  "h_lastCheckpointTime (kickoffSnapshotLocked h) = h_lastCheckpointTime h"
  "h_diffsSinceCheckpoint (kickoffSnapshotLocked h) = h_diffsSinceCheckpoint h"
  by (simp_all add: kickoffSnapshotLocked_def)

text \<open>What the replay loop leaves alone, for each of its two ends.\<close>

lemma replayLoop_done:
  assumes "replayLoop OB env evs h = (h', True)"
  shows "h_cfg h' = h_cfg h \<and> h_hasL2pub h' = h_hasL2pub h \<and> h_ctxSet h' = h_ctxSet h \<and>
    h_bootstrapG h' = h_bootstrapG h \<and> h_state h' = h_state h \<and> h_buffer h' = h_buffer h \<and>
    h_snapshot h' = h_snapshot h \<and> h_snapshotPending h' = h_snapshotPending h \<and>
    h_snapshotStale h' = h_snapshotStale h"
  using assms
  by (induction evs arbitrary: h)
    (fastforce simp: Let_def split: prod.splits option.splits)+

lemma replayLoop_fail:
  assumes "replayLoop OB env evs h = (h', False)"
  shows "h_cfg h' = h_cfg h \<and> h_hasL2pub h' = h_hasL2pub h \<and> h_ctxSet h' = h_ctxSet h \<and>
    h_state h' = Bootstrapping \<and> h_buffer h' = [] \<and> h_snapshot h' = None \<and>
    h_snapshotPending h' \<and> h_snapshotStale h' = h_snapshotStale h \<and>
    h_bootstrapG h' = h_bootstrapG h + (if h_snapshotPending h then 0 else 1)"
  using assms
proof (induction evs arbitrary: h)
  case Nil
  then show ?case by simp
next
  case (Cons ev evs)
  obtain b err where app: "ob_Apply OB (h_book h) ev = (b, err)" by fastforce
  show ?case
  proof (cases err)
    case None
    then show ?thesis using Cons app by (fastforce simp: Let_def)
  next
    case (Some e)
    then show ?thesis using Cons.prems app
      by (auto simp: Let_def)
  qed
qed

lemma handler_wf_kickoff:
  assumes "handler_wf k h" and "h_state h = Bootstrapping" and "h_snapshot h = None"
  shows "handler_wf k (kickoffSnapshotLocked h)"
  using assms by (auto simp: handler_wf_def)

lemma handler_wf_replay:
  assumes wf: "0 < hc_MaxBufferSize (h_cfg h)" "\<not> h_snapshotPending h" "\<not> h_snapshotStale h"
    "h_bootstrapG h = k"
  shows "handler_wf k (replayAlignedBufferLocked OB env i snap h)"
proof -
  let ?h1 = "h\<lparr>h_book := loadSnapshotIfAny OB (ob_Reset OB (h_book h)) snap,
               h_lastFinalUpdateID := se_LastUpdateID snap\<rparr>"
  obtain h2 ok where loop: "replayLoop OB env (drop (nat i) (h_buffer h)) ?h1 = (h2, ok)"
    by fastforce
  show ?thesis
  proof (cases ok)
    case True
    with loop replayLoop_done [of OB env "drop (nat i) (h_buffer h)" ?h1 h2] wf
    show ?thesis
      by (simp add: replayAlignedBufferLocked_def Let_def handler_wf_def)
  next
    case False
    with loop replayLoop_fail [of OB env "drop (nat i) (h_buffer h)" ?h1 h2] wf
    show ?thesis by (simp add: replayAlignedBufferLocked_def Let_def handler_wf_def)
  qed
qed

lemma tryAlignLocked_cases:
  assumes "h_snapshot h = Some snap"
  defines "h1 \<equiv> h\<lparr>h_buffer := discardPreSnapshot (h_buffer h) (se_LastUpdateID snap)\<rparr>"
  obtains (align) i where "findAlignmentIndex (h_buffer h1) (se_LastUpdateID snap) = i"
      "i \<noteq> -1" "tryAlignLocked OB env h = replayAlignedBufferLocked OB env i snap h1"
    | (overflow) "findAlignmentIndex (h_buffer h1) (se_LastUpdateID snap) = -1"
      "hc_MaxBufferSize (h_cfg h) < int (length (h_buffer h1))"
      "tryAlignLocked OB env h = kickoffSnapshotLocked (h1\<lparr>h_buffer := [], h_snapshot := None\<rparr>)"
    | (wait) "findAlignmentIndex (h_buffer h1) (se_LastUpdateID snap) = -1"
      "int (length (h_buffer h1)) \<le> hc_MaxBufferSize (h_cfg h)"
      "tryAlignLocked OB env h = h1"
proof (cases "findAlignmentIndex (h_buffer h1) (se_LastUpdateID snap) = -1")
  case True
  then show ?thesis
    using overflow wait assms by (cases "hc_MaxBufferSize (h_cfg h) < int (length (h_buffer h1))")
      (auto simp: tryAlignLocked_def Let_def)
next
  case False
  then show ?thesis using align assms by (simp add: tryAlignLocked_def Let_def)
qed

lemma handler_wf_tryAlign:
  assumes "0 < hc_MaxBufferSize (h_cfg h)" and "\<not> h_snapshotPending h"
    and "\<not> h_snapshotStale h" and "h_bootstrapG h = k" and "h_state h = Bootstrapping"
    and snap: "h_snapshot h = Some snap"
  shows "handler_wf k (tryAlignLocked OB env h)"
  using snap
proof (cases rule: tryAlignLocked_cases [where OB = OB and env = env])
  case (align i)
  with assms show ?thesis by (auto intro: handler_wf_replay)
next
  case overflow
  with assms show ?thesis by (simp add: handler_wf_def)
next
  case wait
  with assms show ?thesis by (simp add: handler_wf_def)
qed

lemma handler_wf_resync:
  assumes "handler_wf k h" and "h_state h = Synced"
  shows "handler_wf k (enterResyncLocked OB ev h)"
  using assms by (auto simp: enterResyncLocked_def Let_def handler_wf_def)

lemma handler_wf_book [simp]: "handler_wf k (h\<lparr>h_book := b\<rparr>) = handler_wf k h"
  unfolding handler_wf_def by simp

lemma handler_wf_checkpoint: "handler_wf k h \<Longrightarrow> handler_wf k (checkpointLocked OB env h)"
  unfolding checkpointLocked_def Let_def handler_wf_def by auto

lemma handler_wf_synced:
  assumes "handler_wf k h" and "h_state h = Synced"
  shows "handler_wf k (handleSyncedLocked OB env ev h)"
proof -
  have "handler_wf k (call (CallWriteDiff ev) (publishL2Locked OB env ev
      (h\<lparr>h_book := b, h_lastFinalUpdateID := u\<rparr>))\<lparr>h_diffsSinceCheckpoint := n\<rparr>)" for b u n
    using assms by (simp add: handler_wf_def)
  with assms show ?thesis
    by (auto simp: handleSyncedLocked_def Let_def handler_wf_resync
        split: prod.splits option.splits intro!: handler_wf_checkpoint)
qed

lemma handler_wf_HandleDiff:
  assumes wf: "handler_wf 0 h"
  shows "handler_wf 0 (HandleDiff OB env ev h)"
proof (cases "h_state h")
  case Disconnected
  with wf show ?thesis
    by (auto simp: HandleDiff_def bufferLocked_def handler_wf_def)
next
  case Bootstrapping
  show ?thesis
  proof (cases "h_snapshot h")
    case None
    with wf Bootstrapping show ?thesis
      by (auto simp: HandleDiff_def bufferLocked_def Let_def handler_wf_def)
  next
    case (Some snap)
    with wf Bootstrapping have "handler_wf 0 (tryAlignLocked OB env (bufferLocked ev h))"
      by (intro handler_wf_tryAlign) (auto simp: bufferLocked_def handler_wf_def)
    with Some Bootstrapping show ?thesis
      by (simp add: HandleDiff_def bufferLocked_def Let_def)
  qed
next
  case Synced
  with wf show ?thesis by (simp add: HandleDiff_def handler_wf_synced)
next
  case Resyncing
  with wf show ?thesis by (simp add: handler_wf_def)
qed

lemma handler_wf_fetchDone: "handler_wf 1 h \<Longrightarrow> handler_wf 0 (fetchDone h)"
  by (simp add: handler_wf_def fetchDone_def)

lemma handler_wf_fetched:
  assumes wf: "handler_wf 0 h" and inflight: "0 < h_bootstrapG h"
  shows "handler_wf 0 (runSnapshotFetch OB env res h)"
proof -
  from wf inflight have p: "h_snapshotPending h" and boot: "h_state h = Bootstrapping"
    and none: "h_snapshot h = None" and g: "h_bootstrapG h = 1"
    by (auto simp: handler_wf_def split: if_splits)
  let ?h1 = "h\<lparr>h_snapshotPending := False\<rparr>"
  have wf1: "handler_wf 1 ?h1" using wf boot none g by (simp add: handler_wf_def)
  show ?thesis
  proof (cases res)
    case (Inl err)
    with wf1 boot none show ?thesis
      by (auto simp: runSnapshotFetch_def handleSnapshotErrorLocked_def Let_def
          intro!: handler_wf_fetchDone handler_wf_kickoff)
  next
    case (Inr snap)
    show ?thesis
    proof (cases "h_snapshotStale h")
      case True
      have "handler_wf 1 (kickoffSnapshotLocked (?h1\<lparr>h_snapshotStale := False\<rparr>))"
        using wf1 boot none by (intro handler_wf_kickoff) (auto simp: handler_wf_def)
      with Inr True boot show ?thesis
        by (simp add: runSnapshotFetch_def Let_def handler_wf_fetchDone)
    next
      case False
      then have "handler_wf 1 (tryAlignLocked OB env (?h1\<lparr>h_snapshot := Some snap\<rparr>))"
        using wf1 boot g by (intro handler_wf_tryAlign) (auto simp: handler_wf_def)
      with Inr False show ?thesis
        by (simp add: runSnapshotFetch_def Let_def handler_wf_fetchDone)
    qed
  qed
qed

lemma handler_wf_step: "hstep OB h e h' \<Longrightarrow> handler_wf 0 h \<Longrightarrow> handler_wf 0 h'"
  by (induction rule: hstep.induct)
    (simp_all add: handler_wf_Start handler_wf_HandleDiff handler_wf_fetched)

lemma handler_wf_run: "hrun OB h evs h' \<Longrightarrow> handler_wf 0 h \<Longrightarrow> handler_wf 0 h'"
  by (induction rule: hrun.induct) (auto intro: handler_wf_step)

section \<open>Progress\<close>

text \<open>
  While the context is not cancelled, a bootstrapping handler is never stuck: a fetch is in
  flight or a snapshot is waiting for its aligning event.
\<close>

definition handler_live :: "('b, 'd) handler \<Rightarrow> bool" where
  "handler_live h \<longleftrightarrow>
     (h_state h = Bootstrapping \<longrightarrow> h_snapshotPending h \<or> h_snapshot h \<noteq> None)"

fun event_ctxErr :: "'d handler_event \<Rightarrow> bool" where
  "event_ctxErr EvStart = False"
| "event_ctxErr (EvDiff env ev) = he_ctxErr env"
| "event_ctxErr (EvFetched env res) = he_ctxErr env"

lemma handler_live_replay: "handler_live (replayAlignedBufferLocked OB env i snap h)"
proof -
  let ?h1 = "h\<lparr>h_book := loadSnapshotIfAny OB (ob_Reset OB (h_book h)) snap,
               h_lastFinalUpdateID := se_LastUpdateID snap\<rparr>"
  obtain h2 ok where loop: "replayLoop OB env (drop (nat i) (h_buffer h)) ?h1 = (h2, ok)"
    by fastforce
  then show ?thesis
    using replayLoop_fail [of OB env "drop (nat i) (h_buffer h)" ?h1 h2]
    by (cases ok) (simp_all add: replayAlignedBufferLocked_def Let_def handler_live_def)
qed

lemma handler_liveI [intro]:
  "h_state h \<noteq> Bootstrapping \<Longrightarrow> handler_live h"
  "h_snapshotPending h \<Longrightarrow> handler_live h"
  "h_snapshot h = Some snap \<Longrightarrow> handler_live h"
  by (simp_all add: handler_live_def)

lemma handler_live_tryAlign:
  assumes "h_snapshot h = Some snap"
  shows "handler_live (tryAlignLocked OB env h)"
  using assms
proof (cases rule: tryAlignLocked_cases [where OB = OB and env = env])
  case (align i)
  then show ?thesis by (simp add: handler_live_replay)
next
  case overflow
  then show ?thesis by auto
next
  case wait
  with assms show ?thesis by auto
qed

lemma handler_live_HandleDiff:
  assumes wf: "handler_wf 0 h" and live: "handler_live h"
  shows "handler_live (HandleDiff OB env ev h)"
proof (cases "h_state h")
  case Disconnected
  then show ?thesis by (auto simp: HandleDiff_def bufferLocked_def)
next
  case Bootstrapping
  show ?thesis
  proof (cases "h_snapshot h")
    case None
    with live Bootstrapping have "h_snapshotPending h" by (simp add: handler_live_def)
    with None Bootstrapping show ?thesis by (auto simp: HandleDiff_def bufferLocked_def Let_def)
  next
    case (Some snap)
    then have "handler_live (tryAlignLocked OB env (bufferLocked ev h))"
      by (intro handler_live_tryAlign) (simp add: bufferLocked_def)
    with Some Bootstrapping show ?thesis by (simp add: HandleDiff_def bufferLocked_def)
  qed
next
  case Synced
  then show ?thesis
    by (auto simp: HandleDiff_def handleSyncedLocked_def enterResyncLocked_def Let_def
        checkpointLocked_def split: prod.splits option.splits)
next
  case Resyncing
  with wf show ?thesis by (simp add: handler_wf_def)
qed

lemma fetchDone_sels [simp]:
  "h_state (fetchDone h) = h_state h" "h_snapshot (fetchDone h) = h_snapshot h"
  "h_snapshotPending (fetchDone h) = h_snapshotPending h" "h_buffer (fetchDone h) = h_buffer h"
  "h_book (fetchDone h) = h_book h" "h_calls (fetchDone h) = h_calls h"
  "h_lastFinalUpdateID (fetchDone h) = h_lastFinalUpdateID h" "h_cfg (fetchDone h) = h_cfg h"
  by (simp_all add: fetchDone_def)

lemma handler_live_fetchDone [simp]: "handler_live (fetchDone h) = handler_live h"
  by (simp add: handler_live_def)

lemma handler_live_fetched:
  assumes "\<not> he_ctxErr env"
  shows "handler_live (runSnapshotFetch OB env res h)"
proof (cases res)
  case (Inl err)
  with assms show ?thesis
    by (cases "h_state h") (auto simp: runSnapshotFetch_def handleSnapshotErrorLocked_def Let_def)
next
  case (Inr snap)
  then show ?thesis
    by (cases "h_state h") (auto simp: runSnapshotFetch_def Let_def intro: handler_live_tryAlign)
qed

lemma handler_live_step:
  "hstep OB h e h' \<Longrightarrow> handler_wf 0 h \<Longrightarrow> handler_live h \<Longrightarrow> \<not> event_ctxErr e \<Longrightarrow> handler_live h'"
  by (induction rule: hstep.induct)
    (simp_all add: handler_live_HandleDiff handler_live_fetched, simp add: Start_def handler_live_def)

lemma handler_live_run:
  "hrun OB h evs h' \<Longrightarrow> handler_wf 0 h \<Longrightarrow> handler_live h \<Longrightarrow>
   (\<forall>e \<in> set evs. \<not> event_ctxErr e) \<Longrightarrow> handler_live h'"
  by (induction rule: hrun.induct) (auto intro: handler_live_step handler_wf_run)

section \<open>Alignment\<close>

lemma findAlignmentFrom_spec:
  "(findAlignmentFrom i evs l = -1 \<and> 0 \<le> i \<longrightarrow> (\<forall>ev \<in> set evs. \<not> aligned l ev)) \<and>
   (0 \<le> i \<and> findAlignmentFrom i evs l \<noteq> -1 \<longrightarrow>
      (\<exists>n < length evs. findAlignmentFrom i evs l = i + int n \<and> aligned l (evs ! n) \<and>
         (\<forall>m < n. \<not> aligned l (evs ! m))))"
proof (induction evs arbitrary: i)
  case Nil
  then show ?case by simp
next
  case (Cons ev evs)
  show ?case
  proof (cases "aligned l ev")
    case True
    then show ?thesis by (auto intro!: exI [of _ 0])
  next
    case False
    note IH = Cons.IH [of "i + 1"]
    show ?thesis
    proof (intro conjI impI)
      assume "findAlignmentFrom i (ev # evs) l = -1 \<and> 0 \<le> i"
      with IH False show "\<forall>e \<in> set (ev # evs). \<not> aligned l e" by simp
    next
      assume "0 \<le> i \<and> findAlignmentFrom i (ev # evs) l \<noteq> -1"
      with IH False obtain n where n: "n < length evs"
        "findAlignmentFrom (i + 1) evs l = i + 1 + int n" "aligned l (evs ! n)"
        "\<forall>m < n. \<not> aligned l (evs ! m)" by auto
      with False show "\<exists>n < length (ev # evs). findAlignmentFrom i (ev # evs) l = i + int n \<and>
          aligned l ((ev # evs) ! n) \<and> (\<forall>m < n. \<not> aligned l ((ev # evs) ! m))"
        by (intro exI [of _ "Suc n"]) (auto simp: nth_Cons split: nat.splits)
    qed
  qed
qed

lemma findAlignmentIndex_none:
  "findAlignmentIndex evs l = -1 \<Longrightarrow> ev \<in> set evs \<Longrightarrow> \<not> aligned l ev"
  using findAlignmentFrom_spec [of 0 evs l] by (simp add: findAlignmentIndex_def)

lemma findAlignmentIndex_some:
  assumes "findAlignmentIndex evs l = i" and "i \<noteq> -1"
  shows "nat i < length evs \<and> aligned l (evs ! nat i) \<and> (\<forall>m < nat i. \<not> aligned l (evs ! m)) \<and> 0 \<le> i"
  using assms findAlignmentFrom_spec [of 0 evs l] by (auto simp: findAlignmentIndex_def)

end
