(* ===== verification/Symbol_Handler_Correct.thy ===== *)
theory Symbol_Handler_Correct
  imports Symbol_Handler
begin

text \<open>
  What a synced handler's book is: the snapshot some fetch returned, with the diffs written
  to the repository since the bootstrap applied to it. The client lemmas are proved once for
  any book that keeps the contract \<open>order_book_contract\<close>, and then used at the repository's
  own book through the interpretation \<open>bk\<close> of theory Book.
\<close>

section \<open>Logs and runs of diffs\<close>

fun diffs_written :: "'d handler_call list \<Rightarrow> 'd diff_event list" where
  "diffs_written [] = []"
| "diffs_written (CallWriteDiff d # cs) = d # diffs_written cs"
| "diffs_written (c # cs) = diffs_written cs"

lemma diffs_written_append [simp]: "diffs_written (cs @ cs') = diffs_written cs @ diffs_written cs'"
  by (induction cs rule: diffs_written.induct) simp_all

lemma diffs_written_publish [simp]:
  "diffs_written (h_calls (publishL2Locked OB env ev h)) = diffs_written (h_calls h)"
  by (simp add: publishL2Locked_def call_def Let_def)

lemma diffs_written_kickoff [simp]:
  "diffs_written (h_calls (kickoffSnapshotLocked h)) = diffs_written (h_calls h)"
  by (simp add: kickoffSnapshotLocked_def)

text \<open>\<open>chained l ds\<close>: each diff starts where the one before it (at first: \<open>l\<close>) ended.\<close>

fun chained :: "int64 \<Rightarrow> 'd diff_event list \<Rightarrow> bool" where
  "chained l [] = True"
| "chained l (d # ds) = (de_FirstUpdateID d = l + 1 \<and> chained (de_FinalUpdateID d) ds)"

definition last_id_of :: "int64 \<Rightarrow> 'd diff_event list \<Rightarrow> int64" where
  "last_id_of l ds = (if ds = [] then l else de_FinalUpdateID (last ds))"

lemma chained_append:
  "chained l (ds @ ds') \<longleftrightarrow> chained l ds \<and> chained (last_id_of l ds) ds'"
  by (induction ds arbitrary: l) (auto simp: last_id_of_def)

lemma last_id_of_simps [simp]:
  "last_id_of l [] = l" "last_id_of l (ds @ [d]) = de_FinalUpdateID d"
  "last_id_of l (d # ds) = last_id_of (de_FinalUpdateID d) ds"
  by (simp_all add: last_id_of_def)

lemma last_id_of_nonempty: "ds \<noteq> [] \<Longrightarrow> last_id_of l (ds @ ds') = last_id_of (last_id_of l ds) ds'"
  by (simp add: last_id_of_def)

text \<open>What a handler received: the snapshots of its fetches and the diffs of the stream.\<close>

definition fetched_snaps :: "'d handler_event list \<Rightarrow> 'd snapshot_event set" where
  "fetched_snaps evs = {s. \<exists>env. EvFetched env (Inr s) \<in> set evs}"

definition received_diffs :: "'d handler_event list \<Rightarrow> 'd diff_event set" where
  "received_diffs evs = {d. \<exists>env. EvDiff env d \<in> set evs}"

definition base_view ::
  "'d::zero decimal_pkg \<Rightarrow> ('b, 'd) order_book \<Rightarrow> 'd snapshot_event \<Rightarrow> 'd abook" where
  "base_view D OB snap =
     (case ob_LoadSnapshot OB of None \<Rightarrow> abs_empty | Some load \<Rightarrow> abs_load D snap)"

text \<open>
  \<open>bs\<close> is the replayed part of the buffer, \<open>ls\<close> the diffs applied since in state Synced. The
  first of \<open>bs\<close> aligns with the snapshot; \<open>ls\<close> continues \<open>bs\<close> without a gap.
\<close>

definition synced_by ::
  "'d::zero decimal_pkg \<Rightarrow> ('b, 'd) order_book \<Rightarrow> ('b \<Rightarrow> 'd abook) \<Rightarrow> ('b, 'd) handler \<Rightarrow>
   'd snapshot_event \<Rightarrow> 'd diff_event list \<Rightarrow> 'd diff_event list \<Rightarrow> bool" where
  "synced_by D OB view h snap bs ls \<longleftrightarrow>
     view (h_book h) = foldl (abs_apply D) (base_view D OB snap) (bs @ ls) \<and>
     bs \<noteq> [] \<and> aligned (se_LastUpdateID snap) (hd bs) \<and>
     (\<forall>d \<in> set bs. se_LastUpdateID snap <s de_FinalUpdateID d) \<and>
     chained (last_id_of 0 bs) ls \<and>
     h_lastFinalUpdateID h = last_id_of (last_id_of 0 bs) ls \<and>
     (\<exists>pre. diffs_written (h_calls h) = pre @ bs @ ls)"

text \<open>The invariant over what the handler received.\<close>

definition traced ::
  "'d::zero decimal_pkg \<Rightarrow> ('b, 'd) order_book \<Rightarrow> ('b \<Rightarrow> 'd abook) \<Rightarrow> 'd handler_event list \<Rightarrow>
   ('b, 'd) handler \<Rightarrow> bool" where
  "traced D OB view evs h \<longleftrightarrow> handler_wf 0 h \<and>
     (\<forall>s. h_snapshot h = Some s \<longrightarrow> s \<in> fetched_snaps evs) \<and>
     set (h_buffer h) \<subseteq> received_diffs evs \<and>
     (h_state h = Synced \<longrightarrow> (\<exists>snap bs ls. synced_by D OB view h snap bs ls \<and>
        snap \<in> fetched_snaps evs \<and> set (bs @ ls) \<subseteq> received_diffs evs))"

section \<open>Where snapshots and buffered diffs come from\<close>

lemma replayLoop_snapshot_buffer:
  assumes "replayLoop OB env evs h = (h', ok)"
  shows "h_snapshot h' \<in> {None, h_snapshot h} \<and> set (h_buffer h') \<subseteq> set (h_buffer h)"
  using assms replayLoop_done [of OB env evs h h'] replayLoop_fail [of OB env evs h h']
  by (cases ok) auto

lemma replay_snapshot_buffer:
  "h_snapshot (replayAlignedBufferLocked OB env i snap h) = None \<and>
   h_buffer (replayAlignedBufferLocked OB env i snap h) = []"
proof -
  let ?h1 = "h\<lparr>h_book := loadSnapshotIfAny OB (ob_Reset OB (h_book h)) snap,
               h_lastFinalUpdateID := se_LastUpdateID snap\<rparr>"
  obtain h2 ok where loop: "replayLoop OB env (drop (nat i) (h_buffer h)) ?h1 = (h2, ok)"
    by fastforce
  then show ?thesis
    using replayLoop_fail [of OB env "drop (nat i) (h_buffer h)" ?h1 h2]
    by (cases ok) (simp_all add: replayAlignedBufferLocked_def Let_def)
qed

lemma tryAlign_snapshot_buffer:
  "h_snapshot (tryAlignLocked OB env h) \<in> {None, h_snapshot h} \<and>
   set (h_buffer (tryAlignLocked OB env h)) \<subseteq> set (h_buffer h)"
proof (cases "h_snapshot h")
  case None
  then show ?thesis by (simp add: tryAlignLocked_def)
next
  case (Some snap)
  then show ?thesis
  proof (cases rule: tryAlignLocked_cases [where OB = OB and env = env])
    case (align i)
    then show ?thesis by (simp add: replay_snapshot_buffer)
  next
    case overflow
    then show ?thesis by simp
  next
    case wait
    then show ?thesis using Some by (auto simp: discardPreSnapshot_def)
  qed
qed

lemma HandleDiff_snapshot_buffer:
  "h_snapshot (HandleDiff OB env ev h) \<in> {None, h_snapshot h} \<and>
   set (h_buffer (HandleDiff OB env ev h)) \<subseteq> insert ev (set (h_buffer h))"
proof (cases "h_state h")
  case Bootstrapping
  then show ?thesis
    using tryAlign_snapshot_buffer [of OB env "bufferLocked ev h"]
    by (auto simp: HandleDiff_def bufferLocked_def Let_def)
qed (auto simp: HandleDiff_def bufferLocked_def handleSyncedLocked_def enterResyncLocked_def
      checkpointLocked_def Let_def split: prod.splits option.splits)

lemma runSnapshotFetch_snapshot_buffer:
  "h_snapshot (runSnapshotFetch OB env res h) \<in> {None, h_snapshot h} \<union> Some ` {s. res = Inr s} \<and>
   set (h_buffer (runSnapshotFetch OB env res h)) \<subseteq> set (h_buffer h)"
proof (cases res)
  case (Inl err)
  then show ?thesis by (simp add: runSnapshotFetch_def handleSnapshotErrorLocked_def Let_def)
next
  case (Inr snap)
  then show ?thesis
    using tryAlign_snapshot_buffer [of OB env "h\<lparr>h_snapshotPending := False, h_snapshot := Some snap\<rparr>"]
    by (auto simp: runSnapshotFetch_def Let_def)
qed

section \<open>The book of a synced handler\<close>

context order_book_contract
begin

lemma replayLoop_view:
  assumes "replayLoop OB env evs h = (h', True)"
  shows "view (h_book h') = foldl (abs_apply D) (view (h_book h)) evs \<and>
    h_lastFinalUpdateID h' = last_id_of (h_lastFinalUpdateID h) evs \<and>
    diffs_written (h_calls h') = diffs_written (h_calls h) @ evs"
  using assms
proof (induction evs arbitrary: h)
  case Nil
  then show ?case by simp
next
  case (Cons ev evs)
  obtain b err where app: "ob_Apply OB (h_book h) ev = (b, err)" by fastforce
  with Cons.prems have "err = None" by (cases err) (auto simp: Let_def)
  with app have v: "view b = abs_apply D (view (h_book h)) ev"
    using view_Apply [of "h_book h" ev] by simp
  let ?h2 = "call (CallWriteDiff ev) (publishL2Locked OB env ev
     (h\<lparr>h_book := b, h_lastFinalUpdateID := de_FinalUpdateID ev\<rparr>))"
  have "replayLoop OB env evs ?h2 = (h', True)"
    using Cons.prems app \<open>err = None\<close> by (simp add: Let_def)
  from Cons.IH [OF this] v show ?case by simp
qed

lemma view_loadSnapshotIfAny:
  "view (loadSnapshotIfAny OB (ob_Reset OB b) snap) = base_view D OB snap"
  by (simp add: loadSnapshotIfAny_def base_view_def view_Reset view_Load split: option.split)

lemma replay_synced_by:
  assumes i: "findAlignmentIndex (h_buffer h) (se_LastUpdateID snap) = i" "i \<noteq> -1"
    and kept: "\<forall>d \<in> set (h_buffer h). se_LastUpdateID snap <s de_FinalUpdateID d"
    and res: "h' = replayAlignedBufferLocked OB env i snap h" and sync: "h_state h' = Synced"
  shows "synced_by D OB view h' snap (drop (nat i) (h_buffer h)) []"
proof -
  let ?bs = "drop (nat i) (h_buffer h)"
  let ?h1 = "h\<lparr>h_book := loadSnapshotIfAny OB (ob_Reset OB (h_book h)) snap,
               h_lastFinalUpdateID := se_LastUpdateID snap\<rparr>"
  obtain h2 ok where loop: "replayLoop OB env ?bs ?h1 = (h2, ok)" by fastforce
  have ok: "ok"
  proof (rule ccontr)
    assume "\<not> ok"
    with loop have "h' = h2" "h_state h2 = Bootstrapping"
      using replayLoop_fail [of OB env ?bs ?h1 h2]
      by (auto simp: res replayAlignedBufferLocked_def Let_def)
    with sync show False by simp
  qed
  with loop res have h': "h_book h' = h_book h2" "h_calls h' = h_calls h2"
      "h_lastFinalUpdateID h' = h_lastFinalUpdateID h2"
    by (auto simp: replayAlignedBufferLocked_def Let_def)
  from loop ok have "replayLoop OB env ?bs ?h1 = (h2, True)" by simp
  note v = replayLoop_view [OF this]
  have idx: "nat i < length (h_buffer h)" "aligned (se_LastUpdateID snap) (h_buffer h ! nat i)"
    using findAlignmentIndex_some [OF i] by auto
  have "?bs \<noteq> []" using idx by simp
  moreover have "hd ?bs = h_buffer h ! nat i" using idx by (simp add: hd_drop_conv_nth)
  moreover have "\<forall>d \<in> set ?bs. se_LastUpdateID snap <s de_FinalUpdateID d"
    using kept by (meson in_set_dropD)
  moreover have "last_id_of (se_LastUpdateID snap) ?bs = last_id_of 0 ?bs"
    using \<open>?bs \<noteq> []\<close> by (simp add: last_id_of_def)
  ultimately show ?thesis
    using v idx by (auto simp: synced_by_def h' view_loadSnapshotIfAny)
qed

lemma tryAlign_synced_by:
  assumes snap: "h_snapshot h = Some snap" and boot: "h_state h \<noteq> Synced"
    and res: "h' = tryAlignLocked OB env h" and sync: "h_state h' = Synced"
  shows "\<exists>bs. synced_by D OB view h' snap bs [] \<and> set bs \<subseteq> set (h_buffer h)"
  using snap
proof (cases rule: tryAlignLocked_cases [where OB = OB and env = env])
  case (align i)
  let ?h1 = "h\<lparr>h_buffer := discardPreSnapshot (h_buffer h) (se_LastUpdateID snap)\<rparr>"
  have "synced_by D OB view h' snap (drop (nat i) (h_buffer ?h1)) []"
    using align res sync by (intro replay_synced_by) (auto simp: discardPreSnapshot_def)
  moreover have "set (drop (nat i) (h_buffer ?h1)) \<subseteq> set (h_buffer h)"
    by (auto simp: discardPreSnapshot_def dest: in_set_dropD)
  ultimately show ?thesis by blast
qed (use boot sync res in auto)

lemma synced_by_cong:
  assumes "synced_by D OB view h snap bs ls" and "h_book h' = h_book h"
    and "h_lastFinalUpdateID h' = h_lastFinalUpdateID h"
    and "diffs_written (h_calls h') = diffs_written (h_calls h)"
  shows "synced_by D OB view h' snap bs ls"
  using assms by (simp add: synced_by_def)

lemma handleSynced_synced_by:
  assumes sb: "synced_by D OB view h snap bs ls"
    and res: "h' = handleSyncedLocked OB env ev h" and sync: "h_state h' = Synced"
  shows "synced_by D OB view h' snap bs (ls @ [ev])"
proof -
  have resync: "h_state (enterResyncLocked OB ev h0) = Bootstrapping" for h0
    by (simp add: enterResyncLocked_def Let_def)
  have next_id: "de_FirstUpdateID ev = h_lastFinalUpdateID h + 1"
    using res sync resync by (auto simp: handleSyncedLocked_def split: if_splits)
  obtain b err where app0: "ob_Apply OB (h_book h) ev = (b, err)" by fastforce
  have app: "ob_Apply OB (h_book h) ev = (b, None)"
    using res sync resync next_id app0 by (cases err) (auto simp: handleSyncedLocked_def)
  let ?h3 = "(call (CallWriteDiff ev) (publishL2Locked OB env ev
       (h\<lparr>h_book := b, h_lastFinalUpdateID := de_FinalUpdateID ev\<rparr>)))"
  have eqs: "h_book h' = b" "h_lastFinalUpdateID h' = de_FinalUpdateID ev"
    "diffs_written (h_calls h') = diffs_written (h_calls h) @ [ev]"
    using res next_id app by (simp_all add: handleSyncedLocked_def Let_def checkpointLocked_def)
  have "view b = abs_apply D (view (h_book h)) ev" using view_Apply [of "h_book h" ev] app by simp
  with sb eqs next_id show ?thesis
    by (auto simp: synced_by_def chained_append)
qed

lemma HandleDiff_synced_by:
  assumes wf: "handler_wf 0 h" and pre: "h_state h = Synced \<Longrightarrow> synced_by D OB view h snap0 bs0 ls0"
    and sync: "h_state (HandleDiff OB env ev h) = Synced"
  shows "(h_state h = Synced \<and> synced_by D OB view (HandleDiff OB env ev h) snap0 bs0 (ls0 @ [ev])) \<or>
    (\<exists>snap bs. h_snapshot h = Some snap \<and> set bs \<subseteq> insert ev (set (h_buffer h)) \<and>
       synced_by D OB view (HandleDiff OB env ev h) snap bs [])"
proof (cases "h_state h")
  case Synced
  then show ?thesis using handleSynced_synced_by [OF pre] sync by (simp add: HandleDiff_def)
next
  case Bootstrapping
  then obtain snap where snap: "h_snapshot h = Some snap"
    using sync by (cases "h_snapshot h") (auto simp: HandleDiff_def bufferLocked_def Let_def split: if_splits)
  have eq: "HandleDiff OB env ev h = tryAlignLocked OB env (bufferLocked ev h)"
    using Bootstrapping snap by (simp add: HandleDiff_def bufferLocked_def)
  have "\<exists>bs. synced_by D OB view (HandleDiff OB env ev h) snap bs [] \<and>
      set bs \<subseteq> set (h_buffer (bufferLocked ev h))"
    using snap Bootstrapping sync
    by (intro tryAlign_synced_by [OF _ _ eq]) (auto simp: bufferLocked_def)
  then show ?thesis using snap by (auto simp: bufferLocked_def)
qed (use sync wf in \<open>auto simp: HandleDiff_def bufferLocked_def handler_wf_def\<close>)

lemma runSnapshotFetch_synced_by:
  assumes wf: "handler_wf 0 h" and inflight: "0 < h_bootstrapG h"
    and sync: "h_state (runSnapshotFetch OB env res h) = Synced"
  shows "\<exists>snap bs. res = Inr snap \<and> set bs \<subseteq> set (h_buffer h) \<and>
    synced_by D OB view (runSnapshotFetch OB env res h) snap bs []"
proof -
  from wf inflight have boot: "h_state h = Bootstrapping"
    by (auto simp: handler_wf_def split: if_splits)
  with sync obtain snap where snap: "res = Inr snap"
    by (cases res)
      (auto simp: runSnapshotFetch_def handleSnapshotErrorLocked_def Let_def split: if_splits)
  let ?h1 = "h\<lparr>h_snapshotPending := False, h_snapshot := Some snap\<rparr>"
  have eq: "runSnapshotFetch OB env res h = fetchDone (tryAlignLocked OB env ?h1)"
    using sync snap boot by (auto simp: runSnapshotFetch_def Let_def)
  obtain bs where "synced_by D OB view (tryAlignLocked OB env ?h1) snap bs []"
    "set bs \<subseteq> set (h_buffer h)"
    using tryAlign_synced_by [of ?h1 snap _ env, OF _ _ refl] boot sync eq by auto
  then show ?thesis using snap eq by (auto simp: synced_by_def)
qed

lemma traced_step:
  assumes tr: "traced D OB view evs h" and step: "hstep OB h e h'"
  shows "traced D OB view (evs @ [e]) h'"
proof -
  have wf: "handler_wf 0 h" using tr by (simp add: traced_def)
  have mono: "fetched_snaps evs \<subseteq> fetched_snaps (evs @ [e])"
    "received_diffs evs \<subseteq> received_diffs (evs @ [e])"
    by (auto simp: fetched_snaps_def received_diffs_def)
  have wf': "handler_wf 0 h'" using step wf by (rule handler_wf_step)
  show ?thesis using step
  proof (cases rule: hstep.cases)
    case hstep_start
    moreover have "fetched_snaps (evs @ [EvStart]) = fetched_snaps evs"
      "received_diffs (evs @ [EvStart]) = received_diffs evs"
      by (auto simp: fetched_snaps_def received_diffs_def)
    ultimately show ?thesis using tr wf'
      by (simp add: traced_def Start_def synced_by_def)
  next
    case (hstep_diff env ev)
    have new: "ev \<in> received_diffs (evs @ [e])" using hstep_diff by (auto simp: received_diffs_def)
    obtain snap0 bs0 ls0 where pre: "h_state h = Synced \<longrightarrow> synced_by D OB view h snap0 bs0 ls0 \<and>
        snap0 \<in> fetched_snaps evs \<and> set (bs0 @ ls0) \<subseteq> received_diffs evs"
      using tr by (auto simp: traced_def)
    have "h_state h' = Synced \<longrightarrow> (\<exists>snap bs ls. synced_by D OB view h' snap bs ls \<and>
        snap \<in> fetched_snaps (evs @ [e]) \<and> set (bs @ ls) \<subseteq> received_diffs (evs @ [e]))"
    proof
      assume "h_state h' = Synced"
      with HandleDiff_synced_by [OF wf, of snap0 bs0 ls0 env ev] pre hstep_diff
      consider "h_state h = Synced" "synced_by D OB view h' snap0 bs0 (ls0 @ [ev])"
        | snap bs where "h_snapshot h = Some snap" "set bs \<subseteq> insert ev (set (h_buffer h))"
            "synced_by D OB view h' snap bs []" by auto
      then show "\<exists>snap bs ls. synced_by D OB view h' snap bs ls \<and>
        snap \<in> fetched_snaps (evs @ [e]) \<and> set (bs @ ls) \<subseteq> received_diffs (evs @ [e])"
      proof cases
        case 1
        with pre mono new have "snap0 \<in> fetched_snaps (evs @ [e])"
          "set (bs0 @ (ls0 @ [ev])) \<subseteq> received_diffs (evs @ [e])" by auto
        with 1 show ?thesis by blast
      next
        case (2 snap bs)
        with tr mono new have "snap \<in> fetched_snaps (evs @ [e])"
          "set (bs @ []) \<subseteq> received_diffs (evs @ [e])" by (auto simp: traced_def)
        with 2 show ?thesis by blast
      qed
    qed
    moreover have "\<forall>s. h_snapshot h' = Some s \<longrightarrow> s \<in> fetched_snaps (evs @ [e])"
      using HandleDiff_snapshot_buffer [of OB env ev h] hstep_diff tr mono
      by (auto simp: traced_def)
    moreover have "set (h_buffer h') \<subseteq> received_diffs (evs @ [e])"
      using HandleDiff_snapshot_buffer [of OB env ev h] hstep_diff tr mono new
      by (auto simp: traced_def)
    ultimately show ?thesis using wf' by (simp add: traced_def)
  next
    case (hstep_fetched env res)
    have "h_state h' = Synced \<longrightarrow> (\<exists>snap bs ls. synced_by D OB view h' snap bs ls \<and>
        snap \<in> fetched_snaps (evs @ [e]) \<and> set (bs @ ls) \<subseteq> received_diffs (evs @ [e]))"
    proof
      assume "h_state h' = Synced"
      with runSnapshotFetch_synced_by [OF wf, of env res] hstep_fetched
      obtain snap bs where r: "res = Inr snap" "set bs \<subseteq> set (h_buffer h)"
        "synced_by D OB view h' snap bs []" by auto
      have "snap \<in> fetched_snaps (evs @ [e])" using r hstep_fetched by (auto simp: fetched_snaps_def)
      moreover have "set (bs @ []) \<subseteq> received_diffs (evs @ [e])"
        using r tr mono by (auto simp: traced_def)
      ultimately show "\<exists>snap bs ls. synced_by D OB view h' snap bs ls \<and>
        snap \<in> fetched_snaps (evs @ [e]) \<and> set (bs @ ls) \<subseteq> received_diffs (evs @ [e])"
        using r by blast
    qed
    moreover have "\<forall>s. h_snapshot h' = Some s \<longrightarrow> s \<in> fetched_snaps (evs @ [e])"
      using runSnapshotFetch_snapshot_buffer [of OB env res h] hstep_fetched tr mono
      by (auto simp: traced_def fetched_snaps_def)
    moreover have "set (h_buffer h') \<subseteq> received_diffs (evs @ [e])"
      using runSnapshotFetch_snapshot_buffer [of OB env res h] hstep_fetched tr mono
      by (auto simp: traced_def)
    ultimately show ?thesis using wf' by (simp add: traced_def)
  qed
qed

lemma traced_run:
  "hrun OB h0 evs h \<Longrightarrow> h0 = NewHandler cfg b l2 \<Longrightarrow> traced D OB view evs h"
proof (induction rule: hrun.induct)
  case (hrun_Nil h)
  then show ?case by (simp add: traced_def handler_wf_New) (simp add: NewHandler_def)
qed (auto intro: traced_step)

end

section \<open>Running the handler\<close>

text \<open>The step relation as a function, to run the handler on concrete events.\<close>

fun hstep_exec ::
  "('b, 'd) order_book \<Rightarrow> ('b, 'd) handler \<Rightarrow> 'd handler_event \<Rightarrow> ('b, 'd) handler option" where
  "hstep_exec OB h EvStart = Some (Start h)"
| "hstep_exec OB h (EvDiff env ev) = Some (HandleDiff OB env ev h)"
| "hstep_exec OB h (EvFetched env res) =
     (if 0 < h_bootstrapG h then Some (runSnapshotFetch OB env res h) else None)"

fun hexec ::
  "('b, 'd) order_book \<Rightarrow> ('b, 'd) handler \<Rightarrow> 'd handler_event list \<Rightarrow> ('b, 'd) handler option" where
  "hexec OB h [] = Some h"
| "hexec OB h (e # es) = (case hstep_exec OB h e of None \<Rightarrow> None | Some h' \<Rightarrow> hexec OB h' es)"

lemma hstep_exec_iff: "hstep_exec OB h e = Some h' \<longleftrightarrow> hstep OB h e h'"
  by (cases e) (auto intro: hstep.intros)

lemma hrun_Cons: "hrun OB h1 es h2 \<Longrightarrow> hstep OB h e h1 \<Longrightarrow> hrun OB h (e # es) h2"
proof (induction rule: hrun.induct)
  case (hrun_Nil h)
  then show ?case using hrun_snoc [of OB _ "[]"] hrun.hrun_Nil by fastforce
next
  case (hrun_snoc h evs h' e h'')
  then show ?case using hrun.hrun_snoc [of OB _ "_ # evs"] by fastforce
qed

lemma hexec_hrun: "hexec OB h es = Some h' \<Longrightarrow> hrun OB h es h'"
proof (induction es arbitrary: h)
  case Nil
  then show ?case by (simp add: hrun.hrun_Nil)
next
  case (Cons e es)
  then obtain h1 where "hstep OB h e h1" "hexec OB h1 es = Some h'"
    by (auto simp: hstep_exec_iff split: option.splits)
  with Cons.IH show ?case by (blast intro: hrun_Cons)
qed

section \<open>Properties\<close>

text \<open>A handler as \<open>NewHandler\<close> builds it over the repository's book, and a run to Synced.\<close>

definition new_handler :: "handler_config \<Rightarrow> string \<Rightarrow> bool \<Rightarrow> ('d book, 'd) handler" where
  "new_handler cfg symbol l2 = NewHandler cfg (New symbol) l2"

definition wit_cfg :: handler_config where
  "wit_cfg = \<lparr>hc_Symbol = ''BTCUSDT'', hc_DepthLimit = 2, hc_CheckpointInterval = 0,
     hc_CheckpointDiffThreshold = 2, hc_MaxBufferSize = 3\<rparr>"

definition wit_env :: handler_env where
  "wit_env = \<lparr>he_ctxErr = False, he_since = 20, he_captured = 21, he_now = 22, he_ckptErr = False\<rparr>"

definition wit_run :: "rat handler_event list" where
  "wit_run = [EvStart, EvDiff wit_env (wit_diff 8 9), EvDiff wit_env (wit_diff 10 12),
     EvFetched wit_env (Inr wit_snap), EvDiff wit_env (wit_diff 13 13)]"

definition wit_synced :: "(rat book, rat) handler" where
  "wit_synced = the (hexec (book_ops rat_pkg) (new_handler wit_cfg ''BTCUSDT'' True) wit_run)"

lemmas handler_eval = new_handler_def NewHandler_def normalizeConfig_def wit_cfg_def wit_env_def
  Start_def HandleDiff_def transitionLocked_def kickoffSnapshotLocked_def bufferLocked_def call_def
  runSnapshotFetch_def tryAlignLocked_def discardPreSnapshot_def findAlignmentIndex_def aligned_def
  replayAlignedBufferLocked_def fetchDone_def publishL2Locked_def handleSyncedLocked_def
  loadSnapshotIfAny_def enterResyncLocked_def handleSnapshotErrorLocked_def shouldCheckpointLocked_def
  checkpointLocked_def book_ops_def Apply_def Let_def

lemma wit_run_hexec:
  "hexec (book_ops rat_pkg) (new_handler wit_cfg ''BTCUSDT'' True) wit_run = Some wit_synced"
  "h_state wit_synced = Synced" "h_lastFinalUpdateID wit_synced = 13"
proof -
  let ?run = "hexec (book_ops rat_pkg) (new_handler wit_cfg ''BTCUSDT'' True) wit_run"
  have "\<exists>h. ?run = Some h \<and> h_state h = Synced \<and> h_lastFinalUpdateID h = 13"
    by (simp add: wit_run_def wit_diff_def wit_snap_def handler_eval)
  then have run: "?run = Some (the ?run) \<and> h_state (the ?run) = Synced \<and>
      h_lastFinalUpdateID (the ?run) = 13" by force
  from run show "?run = Some wit_synced" by (simp add: wit_synced_def)
  from run show "h_state wit_synced = Synced" "h_lastFinalUpdateID wit_synced = 13"
    by (simp_all add: wit_synced_def)
qed

lemma wit_run_hrun:
  "hrun (book_ops rat_pkg) (new_handler wit_cfg ''BTCUSDT'' True) wit_run wit_synced"
  using wit_run_hexec(1) by (rule hexec_hrun)

text \<open>
  C8 (invariant): in every state a handler reaches it is never left in state Resyncing; a
  fetch is in flight exactly when one is marked pending, and never two; a pending fetch, a
  waiting snapshot or a stale mark only exist in Bootstrapping, and never a snapshot with a
  pending fetch; the buffer is empty outside Bootstrapping and never exceeds
  MaxBufferSize. While the context lives, a bootstrapping handler is never stuck: a fetch is
  in flight or a snapshot waits for its event.
\<close>

theorem handler_reachable_invariant:
  assumes "hrun (book_ops D) (new_handler cfg symbol l2) evs h"
  shows "h_state h \<noteq> Resyncing \<and>
     h_bootstrapG h = (if h_snapshotPending h then 1 else 0) \<and>
     (h_snapshotPending h \<or> h_snapshot h \<noteq> None \<or> h_snapshotStale h \<longrightarrow> h_state h = Bootstrapping) \<and>
     \<not> (h_snapshotPending h \<and> h_snapshot h \<noteq> None) \<and>
     (h_state h \<noteq> Bootstrapping \<longrightarrow> h_buffer h = []) \<and>
     int (length (h_buffer h)) \<le> hc_MaxBufferSize (h_cfg h) \<and>
     ((\<forall>e \<in> set evs. \<not> event_ctxErr e) \<and> h_state h = Bootstrapping \<longrightarrow>
        h_snapshotPending h \<or> h_snapshot h \<noteq> None)"
proof -
  have wf: "handler_wf 0 h"
    using handler_wf_run [OF assms] by (simp add: new_handler_def handler_wf_New)
  moreover have "handler_live (new_handler cfg symbol l2)"
    by (simp add: new_handler_def NewHandler_def handler_live_def)
  then have "(\<forall>e \<in> set evs. \<not> event_ctxErr e) \<Longrightarrow> handler_live h"
    using handler_live_run [OF assms] by (simp add: new_handler_def handler_wf_New)
  ultimately show ?thesis unfolding handler_wf_def handler_live_def by auto
qed

lemma handler_reachable_invariant_witness:
  "h_bootstrapG wit_synced = (if h_snapshotPending wit_synced then 1 else 0) \<and>
   int (length (h_buffer wit_synced)) \<le> hc_MaxBufferSize (h_cfg wit_synced)"
  using handler_reachable_invariant [OF wit_run_hrun] by blast

text \<open>
  C1 (refinement): the book of a synced handler is the abstract book of the snapshot some
  fetch returned, with two sequences of received diffs applied to it: first \<open>bs\<close>, those replayed from
  the buffer, the first of which straddles the snapshot's id plus one, all of them newer than the
  snapshot; then \<open>ls\<close>, those received since, each of which starts right after the one before, the first
  right after the last of \<open>bs\<close>. Only \<open>ls\<close> is free of gaps: the replay of the buffer logs a gap between two
  of its diffs and goes on (\<open>bootstrap_replay_accepts_gap\<close>). The two together are the end of what was
  written to the repository, and the last id is that of the last of them.
\<close>

theorem synced_book_refines:
  assumes "hrun (book_ops D) (new_handler cfg symbol l2) evs h" and "h_state h = Synced"
  shows "\<exists>snap bs ls. snap \<in> fetched_snaps evs \<and> set (bs @ ls) \<subseteq> received_diffs evs \<and>
     view_of (h_book h) = foldl (abs_apply D) (abs_load D snap) (bs @ ls) \<and>
     bs \<noteq> [] \<and> de_FirstUpdateID (hd bs) \<le>s se_LastUpdateID snap + 1 \<and>
     se_LastUpdateID snap + 1 \<le>s de_FinalUpdateID (hd bs) \<and>
     (\<forall>d \<in> set bs. se_LastUpdateID snap <s de_FinalUpdateID d) \<and>
     chained (de_FinalUpdateID (last bs)) ls \<and>
     h_lastFinalUpdateID h = de_FinalUpdateID (last (bs @ ls)) \<and>
     (\<exists>pre. diffs_written (h_calls h) = pre @ bs @ ls)"
proof -
  have "traced D (book_ops D) view_of evs h"
    using assms(1) by (auto simp: new_handler_def intro: bk.traced_run)
  then obtain snap bs ls where
    "synced_by D (book_ops D) view_of h snap bs ls" "snap \<in> fetched_snaps evs"
    "set (bs @ ls) \<subseteq> received_diffs evs"
    using assms(2) unfolding traced_def by blast
  moreover then have "h_lastFinalUpdateID h = de_FinalUpdateID (last (bs @ ls))"
    by (auto simp: synced_by_def last_id_of_def)
  ultimately show ?thesis
    by (intro exI [of _ snap] exI [of _ bs] exI [of _ ls])
      (auto simp: synced_by_def base_view_def book_ops_def aligned_def last_id_of_def)
qed

lemma synced_book_refines_witness:
  "\<exists>snap bs ls. snap \<in> fetched_snaps wit_run \<and> bs \<noteq> [] \<and> chained (de_FinalUpdateID (last bs)) ls \<and>
     view_of (h_book wit_synced) = foldl (abs_apply rat_pkg) (abs_load rat_pkg snap) (bs @ ls)"
  using synced_book_refines [OF wit_run_hrun wit_run_hexec(2)] by blast

text \<open>
  C10 (safety): a diff that does not start right after the last applied id is never applied
  to a synced book. The handler drops to Bootstrapping with an empty book and only that diff
  in the buffer, forgets its checkpoint bookkeeping, and its only call is one snapshot fetch:
  nothing is published and nothing is written.
\<close>

theorem gap_forces_resync:
  assumes run: "hrun (book_ops D) (new_handler cfg symbol l2) evs h" and sync: "h_state h = Synced"
    and gap: "de_FirstUpdateID ev \<noteq> h_lastFinalUpdateID h + 1"
  shows "HandleDiff (book_ops D) env ev h =
     h\<lparr>h_state := Bootstrapping, h_book := Reset (h_book h), h_buffer := [ev],
       h_snapshot := None, h_snapshotPending := True, h_bootstrapG := 1,
       h_lastFinalUpdateID := 0, h_diffsSinceCheckpoint := 0, h_lastCheckpointTime := 0,
       h_calls := h_calls h @
         [CallFetchSnapshot (hc_Symbol (h_cfg h)) (hc_DepthLimit (h_cfg h))]\<rparr>"
proof -
  have "handler_wf 0 h"
    using handler_wf_run [OF run] by (simp add: new_handler_def handler_wf_New)
  with sync have "\<not> h_snapshotPending h" "h_bootstrapG h = 0" by (auto simp: handler_wf_def)
  with sync gap show ?thesis
    by (simp add: HandleDiff_def handleSyncedLocked_def enterResyncLocked_def transitionLocked_def
        kickoffSnapshotLocked_def call_def book_ops_def Let_def)
qed

lemma gap_forces_resync_witness:
  "h_state (HandleDiff (book_ops rat_pkg) wit_env (wit_diff 20 21) wit_synced) = Bootstrapping \<and>
   h_buffer (HandleDiff (book_ops rat_pkg) wit_env (wit_diff 20 21) wit_synced) = [wit_diff 20 21]"
  using gap_forces_resync [OF wit_run_hrun wit_run_hexec(2), of "wit_diff 20 21" wit_env]
    wit_run_hexec(3) by (simp add: wit_diff_def)

text \<open>
  A diff that continues a synced book is applied, and the handler makes, in
  this order: one publication of the new top of the book under the diff's final id (when it has
  a publisher), one write of the diff, and a checkpoint of the new book exactly when the count of
  diffs since the last one reaches the threshold or the interval has passed. A
  checkpoint that fails leaves the counter running; one that succeeds clears it.
\<close>

lemma synced_diff_effects:
  fixes D :: "'d::linordered_idom decimal_pkg"
  assumes sync: "h_state h = Synced" and cont: "de_FirstUpdateID ev = h_lastFinalUpdateID h + 1"
  shows "let h' = HandleDiff (book_ops D) env ev h; b' = fst (Apply D (h_book h) ev);
         snap = Snapshot D (he_captured env) b' (hc_DepthLimit (h_cfg h));
         due = (hc_CheckpointDiffThreshold (h_cfg h) \<le> h_diffsSinceCheckpoint h + 1 \<or>
           h_lastCheckpointTime h \<noteq> 0 \<and>
           hc_CheckpointInterval (h_cfg h) \<le> time_Sub (he_since env) (h_lastCheckpointTime h)) in
     h_state h' = Synced \<and> h_book h' = b' \<and> h_lastFinalUpdateID h' = de_FinalUpdateID ev \<and>
     h_calls h' = h_calls h @
       (if h_hasL2pub h then [CallPublish (hc_Symbol (h_cfg h)) (de_EventTime ev)
          (de_FinalUpdateID ev) (se_Bids snap) (se_Asks snap)] else []) @
       [CallWriteDiff ev] @ (if due then [CallWriteCheckpoint snap] else []) \<and>
     (if due \<and> \<not> he_ckptErr env
      then h_diffsSinceCheckpoint h' = 0 \<and> h_lastCheckpointTime h' = he_now env
      else h_diffsSinceCheckpoint h' = h_diffsSinceCheckpoint h + 1 \<and>
           h_lastCheckpointTime h' = h_lastCheckpointTime h)"
  using assms
  by (simp add: HandleDiff_def handleSyncedLocked_def book_ops_def Apply_def Let_def
      publishL2Locked_def call_def shouldCheckpointLocked_def checkpointLocked_def IsZeroTime_def)

lemma synced_diff_effects_witness:
  "h_lastFinalUpdateID (HandleDiff (book_ops rat_pkg) wit_env (wit_diff 14 15) wit_synced) = 15"
  using synced_diff_effects [OF wit_run_hexec(2), of "wit_diff 14 15" rat_pkg wit_env]
    wit_run_hexec(3) by (simp add: wit_diff_def Let_def)

section \<open>Two behaviours on concrete runs\<close>

text \<open>
  A sequence gap inside the buffer does not stop the replay: the handler goes to Synced with the
  diffs 10..12 and 20..21 applied to one book.
\<close>

lemma bootstrap_replay_accepts_gap:
  "\<exists>h. hrun (book_ops rat_pkg) (new_handler wit_cfg ''BTCUSDT'' True)
      [EvStart, EvDiff wit_env (wit_diff 10 12), EvDiff wit_env (wit_diff 20 21),
       EvFetched wit_env (Inr wit_snap)] h \<and>
    h_state h = Synced \<and> diffs_written (h_calls h) = [wit_diff 10 12, wit_diff 20 21]"
proof -
  let ?run = "hexec (book_ops rat_pkg) (new_handler wit_cfg ''BTCUSDT'' True)
    [EvStart, EvDiff wit_env (wit_diff 10 12), EvDiff wit_env (wit_diff 20 21),
     EvFetched wit_env (Inr wit_snap)]"
  have "\<exists>h. ?run = Some h \<and> h_state h = Synced \<and>
    diffs_written (h_calls h) = [wit_diff 10 12, wit_diff 20 21]"
    by (simp add: wit_diff_def wit_snap_def handler_eval)
  then show ?thesis by (blast dest: hexec_hrun)
qed

text \<open>
  The stale mark of an overflow outlives a failed fetch: the snapshot of the fetch that was
  started after the overflow is thrown away too, although it aligns with the buffered diff.
\<close>

lemma stale_mark_outlives_failed_fetch:
  "\<exists>h. hrun (book_ops rat_pkg) (new_handler (wit_cfg\<lparr>hc_MaxBufferSize := 1\<rparr>) ''BTCUSDT'' True)
      [EvDiff wit_env (wit_diff 1 2), EvDiff wit_env (wit_diff 3 4), EvFetched wit_env (Inl ''timeout''),
       EvDiff wit_env (wit_diff 9 12), EvFetched wit_env (Inr wit_snap)] h \<and>
    h_state h = Bootstrapping \<and> h_snapshot h = None \<and> h_snapshotPending h \<and>
    (\<exists>d \<in> set (h_buffer h). aligned (se_LastUpdateID wit_snap) d)"
proof -
  let ?run = "hexec (book_ops rat_pkg) (new_handler (wit_cfg\<lparr>hc_MaxBufferSize := 1\<rparr>) ''BTCUSDT'' True)
    [EvDiff wit_env (wit_diff 1 2), EvDiff wit_env (wit_diff 3 4), EvFetched wit_env (Inl ''timeout''),
     EvDiff wit_env (wit_diff 9 12), EvFetched wit_env (Inr wit_snap)]"
  have "\<exists>h. ?run = Some h \<and> h_state h = Bootstrapping \<and>
    h_snapshot h = None \<and> h_snapshotPending h \<and>
    (\<exists>d \<in> set (h_buffer h). aligned (se_LastUpdateID wit_snap) d)"
    by (simp add: wit_diff_def wit_snap_def handler_eval)
  then show ?thesis by (blast dest: hexec_hrun)
qed

end
