(* ===== verification/Replay.thy ===== *)
theory Replay
  imports Book
begin

text \<open>
  The replay of recorded diffs: the speed controller (engine/backtest/replay/speed.go) and the
  engine of one symbol (engine/backtest/replay/engine.go).

  The queries of the ingest repository are functions of the times the engine passes
  (\<open>nearest\<close>, \<open>diffsBetween\<close>). Per diff, \<open>replay_env\<close> says whether the sleep is interrupted, the
  publication fails or the context is done after it, and what the clock reads at \<open>Snapshot\<close>.
  \<open>rp_calls\<close> lists the calls the engine makes, oldest first. Errors of the DATA_GAP event and of
  the gap record are only logged.
\<close>

section \<open>Pacing\<close>

text \<open>
  \<open>Wait\<close>: the duration it sleeps, \<open>None\<close> when it returns at once. \<open>nxSleep\<close> is the float64
  quotient of the NX mode, \<open>time.Duration(float64(delta) / factor)\<close>.
\<close>

definition sleepFor ::
  "speed_mode \<Rightarrow> (duration \<Rightarrow> duration) \<Rightarrow> time \<Rightarrow> time \<Rightarrow> duration option" where
  "sleepFor mode nxSleep prevEventTime currEventTime =
     (if mode = SpeedAFAP \<or> IsZeroTime prevEventTime then None
      else let delta = time_Sub currEventTime prevEventTime in
           if delta \<le> 0 then None
           else Some (if mode = SpeedNX then nxSleep delta else delta))"

text \<open>
  What the engine relies on: the first event of a sequence and an event that is not later than
  the one before are not delayed.
\<close>

locale pacer =
  fixes sleep :: "time \<Rightarrow> time \<Rightarrow> duration option"
  assumes first_at_once: "sleep 0 t = None"
    and backwards_at_once: "t \<le> p \<Longrightarrow> sleep p t = None"
begin

fun pauses :: "time \<Rightarrow> time list \<Rightarrow> duration list" where
  "pauses p [] = []"
| "pauses p (t # ts) = (case sleep p t of None \<Rightarrow> pauses t ts | Some d \<Rightarrow> d # pauses t ts)"

lemma pauses_constant: "\<forall>t \<in> set ts. t = p \<Longrightarrow> pauses p ts = []"
  by (induction ts) (simp_all add: backwards_at_once)

lemma pauses_first: "pauses 0 (t # ts) = pauses t ts"
  by (simp add: first_at_once)

lemma pauses_falling: "sorted_wrt (\<ge>) (p # ts) \<Longrightarrow> pauses p ts = []"
  by (induction ts arbitrary: p) (simp_all add: backwards_at_once)

end

interpretation sp: pacer "sleepFor mode nxSleep" for mode nxSleep
  by unfold_locales (simp_all add: sleepFor_def IsZeroTime_def Let_def time_Sub_nonpos)

section \<open>The engine\<close>

record replay_cfg =
  rp_RunID :: string
  rp_Symbol :: string
  rp_From :: time
  rp_To :: time
  rp_Depth :: int

record replay_env =
  rn_waitErr :: bool
  rn_pubErr :: bool
  rn_ctxErr :: bool
  rn_captured :: time

datatype 'd replay_call =
    CallSleep duration
  | CallPublishL2 "'d l2_event"
  | CallDataGap string string time time
  | CallWriteGap string string time time

record 'd replay_state =
  rp_book :: "'d book"
  rp_calls :: "'d replay_call list"

datatype replay_error =
    SeekFailed string | DiffsFailed string | WaitFailed | PublishFailed | ContextDone

definition NewEngine :: "replay_cfg \<Rightarrow> 'd replay_state" where
  "NewEngine cfg = \<lparr>rp_book = New (rp_Symbol cfg), rp_calls = []\<rparr>"

definition rcall :: "'d replay_call \<Rightarrow> 'd replay_state \<Rightarrow> 'd replay_state" where
  "rcall c st = st\<lparr>rp_calls := rp_calls st @ [c]\<rparr>"

definition seedBook ::
  "'d::linordered_idom decimal_pkg \<Rightarrow> 'd snapshot_event \<Rightarrow> 'd replay_state \<Rightarrow> 'd replay_state" where
  "seedBook D snap st = st\<lparr>rp_book := LoadSnapshot D (Reset (rp_book st)) snap\<rparr>"

definition handleGap ::
  "'d::linordered_idom decimal_pkg \<Rightarrow> replay_cfg \<Rightarrow> (time \<Rightarrow> string + 'd snapshot_event) \<Rightarrow> time \<Rightarrow>
   time \<Rightarrow> 'd replay_state \<Rightarrow> 'd replay_state \<times> bool" where
  "handleGap D cfg nearest gapFrom gapTo st =
     (let st1 = rcall (CallWriteGap (rp_RunID cfg) (rp_Symbol cfg) gapFrom gapTo)
                 (rcall (CallDataGap (rp_RunID cfg) (rp_Symbol cfg) gapFrom gapTo) st)
      in case nearest gapTo of
           Inl seekErr \<Rightarrow> (st1, False)
         | Inr newCheckpoint \<Rightarrow> (seedBook D newCheckpoint st1, True))"

text \<open>
  \<open>maybeHandleGap\<close> with the diff before this one (\<open>None\<close> at index 0). The result is the state,
  whether there is a gap, and the new \<open>prevEventTime\<close>.
\<close>

definition maybeHandleGap ::
  "'d::linordered_idom decimal_pkg \<Rightarrow> replay_cfg \<Rightarrow> (time \<Rightarrow> string + 'd snapshot_event) \<Rightarrow>
   'd diff_event option \<Rightarrow> 'd diff_event \<Rightarrow> time \<Rightarrow> 'd replay_state \<Rightarrow>
   'd replay_state \<times> bool \<times> time" where
  "maybeHandleGap D cfg nearest before diff prevEventTime st =
     (case before of
        None \<Rightarrow> (st, False, prevEventTime)
      | Some prev \<Rightarrow>
          if de_FirstUpdateID diff = de_FinalUpdateID prev + 1 then (st, False, prevEventTime)
          else (case handleGap D cfg nearest (de_EventTime prev) (de_EventTime diff) st of
                  (st1, reseeded) \<Rightarrow> (st1, True, if reseeded then 0 else prevEventTime)))"

definition applyAndPublish ::
  "'d::linordered_idom decimal_pkg \<Rightarrow> replay_cfg \<Rightarrow> (time \<Rightarrow> time \<Rightarrow> duration option) \<Rightarrow> replay_env \<Rightarrow>
   'd diff_event \<Rightarrow> time \<Rightarrow> 'd replay_state \<Rightarrow> 'd replay_state \<times> time \<times> bool \<times> replay_error option" where
  "applyAndPublish D cfg sleep env diff prevEventTime st =
     (case Apply D (rp_book st) diff of
        (b, Some applyErr) \<Rightarrow> (st\<lparr>rp_book := b\<rparr>, prevEventTime, False, None)
      | (b, None) \<Rightarrow>
          (let st1 = st\<lparr>rp_book := b\<rparr>;
               slept = sleep prevEventTime (de_EventTime diff);
               st2 = (case slept of None \<Rightarrow> st1 | Some d \<Rightarrow> rcall (CallSleep d) st1)
           in if slept \<noteq> None \<and> rn_waitErr env then (st2, prevEventTime, False, Some WaitFailed)
              else let snap = Snapshot D (rn_captured env) (rp_book st2) (rp_Depth cfg);
                       ev = \<lparr>l2_RunID = rp_RunID cfg, l2_Symbol = rp_Symbol cfg,
                             l2_EventTime = de_EventTime diff,
                             l2_LastUpdateID = se_LastUpdateID snap,
                             l2_Bids = se_Bids snap, l2_Asks = se_Asks snap\<rparr>;
                       st3 = rcall (CallPublishL2 ev) st2
                   in if rn_pubErr env
                      then (st3, de_EventTime diff, False, Some PublishFailed)
                      else (st3, de_EventTime diff, True, None)))"

text \<open>The loop of \<open>replay\<close>; the results are the counts of published events and of gaps.\<close>

fun replayDiffs ::
  "'d::linordered_idom decimal_pkg \<Rightarrow> replay_cfg \<Rightarrow> (time \<Rightarrow> string + 'd snapshot_event) \<Rightarrow>
   (time \<Rightarrow> time \<Rightarrow> duration option) \<Rightarrow> 'd diff_event option \<Rightarrow> ('d diff_event \<times> replay_env) list \<Rightarrow>
   time \<Rightarrow> int \<Rightarrow> int \<Rightarrow> 'd replay_state \<Rightarrow> 'd replay_state \<times> int \<times> int \<times> replay_error option" where
  "replayDiffs D cfg nearest sleep before [] prevEventTime pubs gaps st = (st, pubs, gaps, None)"
| "replayDiffs D cfg nearest sleep before ((diff, env) # rest) prevEventTime pubs gaps st =
     (case maybeHandleGap D cfg nearest before diff prevEventTime st of
        (st1, gapFound, prev1) \<Rightarrow>
          (let gaps' = (if gapFound then gaps + 1 else gaps) in
           case applyAndPublish D cfg sleep env diff prev1 st1 of
             (st2, prev2, ok, Some err) \<Rightarrow> (st2, pubs, gaps', Some err)
           | (st2, prev2, ok, None) \<Rightarrow>
               (let pubs' = (if ok then pubs + 1 else pubs) in
                if rn_ctxErr env then (st2, pubs', gaps', Some ContextDone)
                else replayDiffs D cfg nearest sleep (Some diff) rest prev2 pubs' gaps' st2)))"

definition replay ::
  "'d::linordered_idom decimal_pkg \<Rightarrow> replay_cfg \<Rightarrow> (time \<Rightarrow> string + 'd snapshot_event) \<Rightarrow>
   (time \<Rightarrow> time \<Rightarrow> string + 'd diff_event list) \<Rightarrow> (time \<Rightarrow> time \<Rightarrow> duration option) \<Rightarrow>
   (nat \<Rightarrow> replay_env) \<Rightarrow> 'd replay_state \<Rightarrow> 'd replay_state \<times> int \<times> int \<times> replay_error option" where
  "replay D cfg nearest diffsBetween sleep envs st =
     (case nearest (rp_From cfg) of
        Inl err \<Rightarrow> (st, 0, 0, Some (SeekFailed err))
      | Inr checkpoint \<Rightarrow>
          (let st1 = seedBook D checkpoint st in
           case diffsBetween (se_CapturedAt checkpoint) (rp_To cfg) of
             Inl err \<Rightarrow> (st1, 0, 0, Some (DiffsFailed err))
           | Inr ds \<Rightarrow>
               replayDiffs D cfg nearest sleep None
                 (zip ds (map envs [0..<length ds])) 0 0 0 st1))"

definition RunEngine ::
  "'d::linordered_idom decimal_pkg \<Rightarrow> replay_cfg \<Rightarrow> (time \<Rightarrow> string + 'd snapshot_event) \<Rightarrow>
   (time \<Rightarrow> time \<Rightarrow> string + 'd diff_event list) \<Rightarrow> (time \<Rightarrow> time \<Rightarrow> duration option) \<Rightarrow>
   (nat \<Rightarrow> replay_env) \<Rightarrow> 'd replay_state \<times> replay_error option" where
  "RunEngine D cfg nearest diffsBetween sleep envs =
     (case replay D cfg nearest diffsBetween sleep envs (NewEngine cfg) of
        (st, pubs, gaps, err) \<Rightarrow> (st, err))"

section \<open>Runs without errors\<close>

definition quiet :: "replay_env \<Rightarrow> bool" where
  "quiet env \<longleftrightarrow> \<not> rn_waitErr env \<and> \<not> rn_pubErr env \<and> \<not> rn_ctxErr env"

fun l2_published :: "'d replay_call list \<Rightarrow> 'd l2_event list" where
  "l2_published [] = []"
| "l2_published (CallPublishL2 e # cs) = e # l2_published cs"
| "l2_published (c # cs) = l2_published cs"

fun gap_calls :: "'d replay_call list \<Rightarrow> (bool \<times> time \<times> time) list" where
  "gap_calls [] = []"
| "gap_calls (CallDataGap r s a b # cs) = (True, a, b) # gap_calls cs"
| "gap_calls (CallWriteGap r s a b # cs) = (False, a, b) # gap_calls cs"
| "gap_calls (c # cs) = gap_calls cs"

fun sleeps :: "'d replay_call list \<Rightarrow> duration list" where
  "sleeps [] = []"
| "sleeps (CallSleep d # cs) = d # sleeps cs"
| "sleeps (c # cs) = sleeps cs"

lemma l2_published_append [simp]: "l2_published (cs @ cs') = l2_published cs @ l2_published cs'"
  by (induction cs rule: l2_published.induct) simp_all

lemma gap_calls_append [simp]: "gap_calls (cs @ cs') = gap_calls cs @ gap_calls cs'"
  by (induction cs rule: gap_calls.induct) simp_all

lemma sleeps_append [simp]: "sleeps (cs @ cs') = sleeps cs @ sleeps cs'"
  by (induction cs rule: sleeps.induct) simp_all

text \<open>The book after a quiet step, and what the step does.\<close>

definition l2_of ::
  "'d::linordered_idom decimal_pkg \<Rightarrow> replay_cfg \<Rightarrow> time \<Rightarrow> 'd book \<Rightarrow> 'd diff_event \<Rightarrow> 'd l2_event" where
  "l2_of D cfg now b diff =
     \<lparr>l2_RunID = rp_RunID cfg, l2_Symbol = rp_Symbol cfg, l2_EventTime = de_EventTime diff,
      l2_LastUpdateID = de_FinalUpdateID diff, l2_Bids = se_Bids (Snapshot D now b (rp_Depth cfg)),
      l2_Asks = se_Asks (Snapshot D now b (rp_Depth cfg))\<rparr>"

lemma apply_quiet:
  assumes "quiet env"
  shows "\<exists>st'. applyAndPublish D cfg sleep env diff prev st = (st', de_EventTime diff, True, None) \<and>
    rp_book st' = fst (Apply D (rp_book st) diff) \<and>
    rp_calls st' = rp_calls st @ (case sleep prev (de_EventTime diff) of None \<Rightarrow> [] | Some d \<Rightarrow> [CallSleep d]) @
      [CallPublishL2 (l2_of D cfg (rn_captured env) (fst (Apply D (rp_book st) diff)) diff)]"
  using assms
  by (simp add: applyAndPublish_def quiet_def Apply_def Let_def rcall_def l2_of_def Snapshot_def
      split: option.split)

text \<open>Adjacent diffs that are not contiguous: the event times around each gap.\<close>

fun gaps_of :: "'d diff_event option \<Rightarrow> 'd diff_event list \<Rightarrow> (time \<times> time) list" where
  "gaps_of before [] = []"
| "gaps_of None (d # ds) = gaps_of (Some d) ds"
| "gaps_of (Some p) (d # ds) =
     (if de_FirstUpdateID d = de_FinalUpdateID p + 1 then gaps_of (Some d) ds
      else (de_EventTime p, de_EventTime d) # gaps_of (Some d) ds)"

definition gap_marks :: "time \<times> time \<Rightarrow> (bool \<times> time \<times> time) list" where
  "gap_marks g = [(True, g), (False, g)]"

lemma maybeHandleGap_calls:
  "\<exists>st' g p. maybeHandleGap D cfg nearest before diff prev st = (st', g, p) \<and>
     (g \<longleftrightarrow> gaps_of before [diff] \<noteq> []) \<and> (\<not> g \<longrightarrow> st' = st \<and> p = prev) \<and>
     l2_published (rp_calls st') = l2_published (rp_calls st) \<and>
     sleeps (rp_calls st') = sleeps (rp_calls st) \<and>
     gap_calls (rp_calls st') = gap_calls (rp_calls st) @
       concat (map gap_marks (gaps_of before [diff]))"
  by (cases before)
    (auto simp: maybeHandleGap_def handleGap_def rcall_def seedBook_def Let_def gap_marks_def
      split: sum.split)

lemma gaps_of_Cons: "gaps_of before (d # ds) = gaps_of before [d] @ gaps_of (Some d) ds"
  by (cases before) simp_all

lemma replayDiffs_quiet:
  assumes "\<forall>x \<in> set xs. quiet (snd x)"
  shows "\<exists>st'. replayDiffs D cfg nearest sleep before xs prev pubs gaps st =
      (st', pubs + int (length xs), gaps + int (length (gaps_of before (map fst xs))), None) \<and>
    map l2_EventTime (l2_published (rp_calls st')) =
      map l2_EventTime (l2_published (rp_calls st)) @ map (de_EventTime \<circ> fst) xs \<and>
    map l2_LastUpdateID (l2_published (rp_calls st')) =
      map l2_LastUpdateID (l2_published (rp_calls st)) @ map (de_FinalUpdateID \<circ> fst) xs \<and>
    gap_calls (rp_calls st') = gap_calls (rp_calls st) @
      concat (map gap_marks (gaps_of before (map fst xs)))"
  using assms
proof (induction xs arbitrary: before prev pubs gaps st)
  case Nil
  then show ?case by simp
next
  case (Cons x xs)
  obtain diff env where x: "x = (diff, env)" by fastforce
  with Cons.prems have q: "quiet env" and ctx: "\<not> rn_ctxErr env" by (simp_all add: quiet_def)
  obtain st1 g p where gap: "maybeHandleGap D cfg nearest before diff prev st = (st1, g, p)"
    and g: "g \<longleftrightarrow> gaps_of before [diff] \<noteq> []"
    and l2: "l2_published (rp_calls st1) = l2_published (rp_calls st)"
    and gc: "gap_calls (rp_calls st1) = gap_calls (rp_calls st) @
       concat (map gap_marks (gaps_of before [diff]))"
    using maybeHandleGap_calls [of D cfg nearest before diff prev st] by blast
  obtain st2 where app: "applyAndPublish D cfg sleep env diff p st1 = (st2, de_EventTime diff, True, None)"
    and calls: "rp_calls st2 = rp_calls st1 @
      (case sleep p (de_EventTime diff) of None \<Rightarrow> [] | Some d \<Rightarrow> [CallSleep d]) @
      [CallPublishL2 (l2_of D cfg (rn_captured env) (fst (Apply D (rp_book st1) diff)) diff)]"
    using apply_quiet [OF q, of D cfg sleep diff p st1] by blast
  have ev: "l2_published (rp_calls st2) = l2_published (rp_calls st) @
      [l2_of D cfg (rn_captured env) (fst (Apply D (rp_book st1) diff)) diff]"
    "gap_calls (rp_calls st2) = gap_calls (rp_calls st1)"
    using calls l2 by (auto split: option.split)
  have one: "length (gaps_of before [diff]) = (if g then 1 else 0)"
    using g by (cases before) auto
  from Cons.IH [of "Some diff" "de_EventTime diff" "pubs + 1" "if g then gaps + 1 else gaps" st2]
    Cons.prems obtain st' where
    rest: "replayDiffs D cfg nearest sleep (Some diff) xs (de_EventTime diff) (pubs + 1)
       (if g then gaps + 1 else gaps) st2 = (st', pubs + 1 + int (length xs),
       (if g then gaps + 1 else gaps) + int (length (gaps_of (Some diff) (map fst xs))), None)"
    and ih: "map l2_EventTime (l2_published (rp_calls st')) =
      map l2_EventTime (l2_published (rp_calls st2)) @ map (de_EventTime \<circ> fst) xs"
    "map l2_LastUpdateID (l2_published (rp_calls st')) =
      map l2_LastUpdateID (l2_published (rp_calls st2)) @ map (de_FinalUpdateID \<circ> fst) xs"
    "gap_calls (rp_calls st') = gap_calls (rp_calls st2) @
      concat (map gap_marks (gaps_of (Some diff) (map fst xs)))"
    by auto
  have run: "replayDiffs D cfg nearest sleep before (x # xs) prev pubs gaps st =
      (st', pubs + int (length (x # xs)),
       gaps + int (length (gaps_of before (map fst (x # xs)))), None)"
    using gap app ctx rest one gaps_of_Cons [of before diff "map fst xs"] by (auto simp: x Let_def)
  show ?case
    using run ih ev gc gaps_of_Cons [of before diff "map fst xs"] by (simp add: x l2_of_def)
qed


section \<open>Properties\<close>

text \<open>A run in which the checkpoint and the diffs are found, as one recursion over the diffs.\<close>

lemma RunEngine_found:
  assumes "nearest (rp_From cfg) = Inr cp" and "diffsBetween (se_CapturedAt cp) (rp_To cfg) = Inr ds"
  shows "replay D cfg nearest diffsBetween sleep envs (NewEngine cfg) =
     replayDiffs D cfg nearest sleep None (zip ds (map envs [0..<length ds])) 0 0 0
       (seedBook D cp (NewEngine cfg))"
  using assms by (simp add: replay_def)

lemma seedBook_new [simp]:
  "rp_calls (seedBook D cp (NewEngine cfg)) = []"
  "rp_book (seedBook D cp (NewEngine cfg)) = LoadSnapshot D (Reset (New (rp_Symbol cfg))) cp"
  by (simp_all add: seedBook_def NewEngine_def)

lemma map_comp_fst_zip: "length xs = length ys \<Longrightarrow> map (f \<circ> fst) (zip xs ys) = map f xs"
  by (induction xs ys rule: list_induct2) simp_all

lemma quiet_zip:
  "\<forall>i < length ds. quiet (envs i) \<Longrightarrow> \<forall>x \<in> set (zip ds (map envs [0..<length ds])). quiet (snd x)"
  by (auto simp: set_zip)

text \<open>
  C28 (functional): a run that no error interrupts publishes one L2 event per diff, in the order
  of the diffs, with the diff's own event time (never the clock's) and its final update id;
  the gap count is the number of adjacent diffs whose ids are not contiguous, and each such
  pair gets exactly one DATA_GAP event and one gap record, with the event times around it, in
  order.
\<close>

theorem replay_quiet_run:
  assumes "nearest (rp_From cfg) = Inr cp" and "diffsBetween (se_CapturedAt cp) (rp_To cfg) = Inr ds"
    and "\<forall>i < length ds. quiet (envs i)"
  shows "\<exists>st. replay D cfg nearest diffsBetween sleep envs (NewEngine cfg) =
      (st, int (length ds), int (length (gaps_of None ds)), None) \<and>
    map l2_EventTime (l2_published (rp_calls st)) = map de_EventTime ds \<and>
    map l2_LastUpdateID (l2_published (rp_calls st)) = map de_FinalUpdateID ds \<and>
    gap_calls (rp_calls st) = concat (map gap_marks (gaps_of None ds))"
  using replayDiffs_quiet [OF quiet_zip [OF assms(3)], of D cfg nearest sleep None 0 0 0
      "seedBook D cp (NewEngine cfg)"]
  by (simp add: RunEngine_found [of nearest cfg cp diffsBetween ds, OF assms(1,2)] map_comp_fst_zip
      min_absorb1)

definition wit_cfg :: replay_cfg where
  "wit_cfg = \<lparr>rp_RunID = ''r1'', rp_Symbol = ''BTCUSDT'', rp_From = 1, rp_To = 9, rp_Depth = 5\<rparr>"

definition wit_env :: replay_env where
  "wit_env = \<lparr>rn_waitErr = False, rn_pubErr = False, rn_ctxErr = False, rn_captured = 7\<rparr>"

lemma quiet_wit_env [simp]: "quiet wit_env"
  by (simp add: quiet_def wit_env_def)

lemma replay_quiet_run_witness:
  "\<exists>st. replay rat_pkg wit_cfg (\<lambda>t. Inr wit_snap) (\<lambda>a b. Inr [wit_diff 11 12, wit_diff 15 16])
      (sleepFor SpeedAFAP (\<lambda>d. d)) (\<lambda>i. wit_env) (NewEngine wit_cfg) = (st, 2, 1, None) \<and>
    map l2_LastUpdateID (l2_published (rp_calls st)) = [12, 16] \<and>
    gap_calls (rp_calls st) = [(True, 5, 5), (False, 5, 5)]"
  using replay_quiet_run [of "\<lambda>t. Inr wit_snap" wit_cfg wit_snap
      "\<lambda>a b. Inr [wit_diff 11 12, wit_diff 15 16]" "[wit_diff 11 12, wit_diff 15 16]"
      "\<lambda>i. wit_env" rat_pkg "sleepFor SpeedAFAP (\<lambda>d. d)"]
  by (auto simp: wit_diff_def gap_marks_def)

text \<open>The book while no gap occurs: the diffs so far on top of the book the run started from.\<close>

lemma maybeHandleGap_contiguous:
  "gaps_of before [diff] = [] \<Longrightarrow>
   maybeHandleGap D cfg nearest before diff prev st = (st, False, prev)"
  by (cases before) (simp_all add: maybeHandleGap_def split: if_splits)

lemma replayDiffs_contiguous:
  assumes "\<forall>x \<in> set xs. quiet (snd x)" and "gaps_of before (map fst xs) = []"
  shows "\<exists>st'. replayDiffs D cfg nearest sleep before xs prev pubs gaps st =
      (st', pubs + int (length xs), gaps, None) \<and>
    rp_book st' = foldl (\<lambda>b d. fst (Apply D b d)) (rp_book st) (map fst xs) \<and>
    l2_published (rp_calls st') = l2_published (rp_calls st) @
      map (\<lambda>i. l2_of D cfg (rn_captured (snd (xs ! i)))
        (foldl (\<lambda>b d. fst (Apply D b d)) (rp_book st) (take (Suc i) (map fst xs))) (fst (xs ! i)))
        [0..<length xs] \<and>
    sleeps (rp_calls st') = sleeps (rp_calls st) @
      concat (map (\<lambda>(p, t). case sleep p t of None \<Rightarrow> [] | Some d \<Rightarrow> [d])
        (zip (prev # map (de_EventTime \<circ> fst) xs) (map (de_EventTime \<circ> fst) xs)))"
  using assms
proof (induction xs arbitrary: before prev pubs st)
  case Nil
  then show ?case by simp
next
  case (Cons x xs)
  obtain diff env where x: "x = (diff, env)" by fastforce
  with Cons.prems have q: "quiet env" and ctx: "\<not> rn_ctxErr env"
    and none: "gaps_of before [diff] = []" and later: "gaps_of (Some diff) (map fst xs) = []"
    using gaps_of_Cons [of before diff "map fst xs"] by (simp_all add: quiet_def)
  let ?b = "fst (Apply D (rp_book st) diff)"
  let ?l2 = "l2_of D cfg (rn_captured env) ?b diff"
  obtain st2 where
    app: "applyAndPublish D cfg sleep env diff prev st = (st2, de_EventTime diff, True, None)"
    and book: "rp_book st2 = ?b" and calls: "rp_calls st2 = rp_calls st @
      (case sleep prev (de_EventTime diff) of None \<Rightarrow> [] | Some d \<Rightarrow> [CallSleep d]) @
      [CallPublishL2 ?l2]"
    using apply_quiet [OF q, of D cfg sleep diff prev st] by blast
  have ev: "l2_published (rp_calls st2) = l2_published (rp_calls st) @ [?l2]"
    "sleeps (rp_calls st2) = sleeps (rp_calls st) @
       (case sleep prev (de_EventTime diff) of None \<Rightarrow> [] | Some d \<Rightarrow> [d])"
    by (auto simp: calls split: option.split)
  have step: "replayDiffs D cfg nearest sleep before (x # xs) prev pubs gaps st =
      replayDiffs D cfg nearest sleep (Some diff) xs (de_EventTime diff) (pubs + 1) gaps st2"
    using maybeHandleGap_contiguous [OF none] app ctx by (simp add: x)
  have idx: "map f [0..<length (x # xs)] = f 0 # map (\<lambda>i. f (Suc i)) [0..<length xs]"
    for f :: "nat \<Rightarrow> 'a l2_event"
    by (simp add: upt_conv_Cons map_Suc_upt [symmetric] del: upt_Suc)
  have "\<forall>x \<in> set xs. quiet (snd x)" using Cons.prems(1) by simp
  from Cons.IH [OF this later, of "de_EventTime diff" "pubs + 1" st2] show ?case
    unfolding step idx by (auto simp: ev book x)
qed


text \<open>
  C27 (refinement): in a run that finds its checkpoint and its diffs, is not cancelled, whose calls
  all succeed and whose recorded diffs have no sequence gap, every diff is published once, and the i-th
  published event is the top of the book that the checkpoint and the first i+1 diffs give: each
  side shows exactly the best levels, in order and cut at the depth, of the side whose levels are
  the abstract update folded over the checkpoint's levels and those diffs' levels. (After a gap the
  engine reloads a checkpoint that may be older than the diffs applied: \<open>reseed_forgets_applied_diffs\<close>.)
\<close>

theorem replay_refines_book:
  fixes D :: "'d::linordered_idom decimal_pkg"
  assumes D: "decimal_strings D"
    and found: "nearest (rp_From cfg) = Inr cp" "diffsBetween (se_CapturedAt cp) (rp_To cfg) = Inr ds"
    and quiet: "\<forall>i < length ds. quiet (envs i)" and gapless: "gaps_of None ds = []"
    and i: "i < length ds"
  shows "let ev = l2_published (rp_calls (fst
       (replay D cfg nearest diffsBetween sleep envs (NewEngine cfg)))) ! i in
     length (l2_published (rp_calls (fst (replay D cfg nearest diffsBetween sleep envs (NewEngine cfg))))) =
       length ds \<and>
     l2_EventTime ev = de_EventTime (ds ! i) \<and> l2_LastUpdateID ev = de_FinalUpdateID (ds ! i) \<and>
     (\<exists>bids asks. top_of_side D bids True (rp_Depth cfg) (l2_Bids ev) \<and>
        top_of_side D asks False (rp_Depth cfg) (l2_Asks ev) \<and>
        levels_of D bids = foldl (\<lambda>m d. foldl set_level m (de_Bids d))
          (foldl load_level Map.empty (se_Bids cp)) (take (Suc i) ds) \<and>
        levels_of D asks = foldl (\<lambda>m d. foldl set_level m (de_Asks d))
          (foldl load_level Map.empty (se_Asks cp)) (take (Suc i) ds))"
proof -
  let ?xs = "zip ds (map envs [0..<length ds])"
  let ?st = "fst (replay D cfg nearest diffsBetween sleep envs (NewEngine cfg))"
  let ?b = "foldl (\<lambda>b d. fst (Apply D b d)) (LoadSnapshot D (Reset (New (rp_Symbol cfg))) cp)
    (take (Suc i) ds)"
  have fst_xs: "map fst ?xs = ds" by simp
  have pub: "l2_published (rp_calls ?st) = map (\<lambda>i. l2_of D cfg (rn_captured (snd (?xs ! i)))
      (foldl (\<lambda>b d. fst (Apply D b d)) (LoadSnapshot D (Reset (New (rp_Symbol cfg))) cp)
         (take (Suc i) ds)) (fst (?xs ! i))) [0..<length ds]"
    using replayDiffs_contiguous [OF quiet_zip [OF quiet], of None D cfg nearest sleep 0 0 0
        "seedBook D cp (NewEngine cfg)"] gapless
    by (auto simp: RunEngine_found [of nearest cfg cp diffsBetween ds, OF found])
  then have len: "length (l2_published (rp_calls ?st)) = length ds" by simp
  from pub have ev: "l2_published (rp_calls ?st) ! i = l2_of D cfg (rn_captured (envs i)) ?b (ds ! i)"
    using i by simp
  have wf: "wf_book D ?b"
    by (intro wf_book_Apply_run wf_book_LoadSnapshot)
  then have "wf_side D (bk_bids ?b)" "wf_side D (bk_asks ?b)" by (simp_all add: wf_book_def)
  then have "top_of_side D (bk_bids ?b) True (rp_Depth cfg) (l2_Bids (l2_published (rp_calls ?st) ! i))"
    "top_of_side D (bk_asks ?b) False (rp_Depth cfg) (l2_Asks (l2_published (rp_calls ?st) ! i))"
    by (simp_all add: ev l2_of_def Snapshot_def sortedLevels_top [OF D])
  moreover have "levels_of D (bk_bids ?b) = foldl (\<lambda>m d. foldl set_level m (de_Bids d))
      (foldl load_level Map.empty (se_Bids cp)) (take (Suc i) ds)"
    "levels_of D (bk_asks ?b) = foldl (\<lambda>m d. foldl set_level m (de_Asks d))
      (foldl load_level Map.empty (se_Asks cp)) (take (Suc i) ds)"
    using Apply_run_levels [OF D, of "LoadSnapshot D (Reset (New (rp_Symbol cfg))) cp" "take (Suc i) ds"]
    by (simp_all add: levels_of_loadSide [OF D])
  moreover have "l2_EventTime (l2_published (rp_calls ?st) ! i) = de_EventTime (ds ! i) \<and>
      l2_LastUpdateID (l2_published (rp_calls ?st) ! i) = de_FinalUpdateID (ds ! i)"
    by (simp add: ev l2_of_def)
  ultimately show ?thesis using len by (auto simp: Let_def)
qed

lemma replay_refines_book_witness:
  "l2_LastUpdateID (l2_published (rp_calls (fst (replay rat_pkg wit_cfg (\<lambda>t. Inr wit_snap)
     (\<lambda>a b. Inr [wit_diff 11 12, wit_diff 13 16]) (sleepFor SpeedWallClock (\<lambda>d. d))
     (\<lambda>i. wit_env) (NewEngine wit_cfg)))) ! 1) = 16"
  using replay_refines_book [of rat_pkg "\<lambda>t. Inr wit_snap" wit_cfg wit_snap
      "\<lambda>a b. Inr [wit_diff 11 12, wit_diff 13 16]" "[wit_diff 11 12, wit_diff 13 16]"
      "\<lambda>i. wit_env" 1 "sleepFor SpeedWallClock (\<lambda>d. d)"]
  by (simp add: Let_def wit_diff_def)

section \<open>Waiting\<close>

text \<open>The sleeps of the real-time mode over non-decreasing event times telescope.\<close>

lemma wall_clock_sleeps:
  assumes "sorted (p # ts)" and "0 < p" and "last (p # ts) - p \<le> maxDuration"
  shows "sum_list (concat (map (\<lambda>(p, t). case sleepFor SpeedWallClock nx p t of None \<Rightarrow> [] | Some d \<Rightarrow> [d])
     (zip (p # ts) ts))) = last (p # ts) - p"
  using assms
proof (induction ts arbitrary: p)
  case Nil
  then show ?case by simp
next
  case (Cons t ts)
  have le: "p \<le> t" "t \<le> last (t # ts)"
    using Cons.prems(1) last_in_set [of ts] by auto
  moreover have "time_Sub t p = t - p"
    using le Cons.prems(3) by (intro time_Sub_exact) (auto simp: minDuration_def)
  ultimately have "sum_list (case sleepFor SpeedWallClock nx p t of None \<Rightarrow> [] | Some d \<Rightarrow> [d]) = t - p"
    using Cons.prems(2) by (simp add: sleepFor_def IsZeroTime_def Let_def)
  with Cons.IH [of t] Cons.prems le show ?case by simp
qed

lemma afap_sleeps:
  "concat (map (\<lambda>(p, t). case sleepFor SpeedAFAP nx p t of None \<Rightarrow> [] | Some d \<Rightarrow> [d]) pts) = []"
  by (simp add: sleepFor_def case_prod_unfold)

text \<open>
  A run without gaps never sleeps in AFAP mode; in WALL_CLOCK mode, when the
  recorded event times do not decrease, its sleeps add up to the time between the first and the
  last event.
\<close>

lemma replay_duration:
  assumes found: "nearest (rp_From cfg) = Inr cp" "diffsBetween (se_CapturedAt cp) (rp_To cfg) = Inr ds"
    and quiet: "\<forall>i < length ds. quiet (envs i)" and gapless: "gaps_of None ds = []"
    and times: "sorted (map de_EventTime ds)" "ds \<noteq> []" "0 < de_EventTime (hd ds)"
      "de_EventTime (last ds) - de_EventTime (hd ds) \<le> maxDuration"
  shows "sleeps (rp_calls (fst (replay D cfg nearest diffsBetween (sleepFor SpeedAFAP nx) envs
       (NewEngine cfg)))) = [] \<and>
     sum_list (sleeps (rp_calls (fst (replay D cfg nearest diffsBetween (sleepFor SpeedWallClock nx)
       envs (NewEngine cfg))))) = de_EventTime (last ds) - de_EventTime (hd ds)"
proof -
  let ?ts = "map de_EventTime ds"
  have run: "sleeps (rp_calls (fst (replay D cfg nearest diffsBetween sleep envs (NewEngine cfg)))) =
      concat (map (\<lambda>(p, t). case sleep p t of None \<Rightarrow> [] | Some d \<Rightarrow> [d]) (zip (0 # ?ts) ?ts))"
    for sleep
    using replayDiffs_contiguous [OF quiet_zip [OF quiet], of None D cfg nearest sleep 0 0 0
        "seedBook D cp (NewEngine cfg)"] gapless
    by (auto simp: RunEngine_found [of nearest cfg cp diffsBetween ds, OF found] map_comp_fst_zip)
  obtain t ts where ts: "?ts = t # ts" and t: "t = de_EventTime (hd ds)"
    and last: "last (t # ts) = de_EventTime (last ds)"
    using times(2) by (cases ds) (auto simp: last_map)
  have "sleepFor SpeedWallClock nx 0 t = None"
    by (rule sp.first_at_once)
  then have "sum_list (concat (map (\<lambda>(p, t). case sleepFor SpeedWallClock nx p t of
      None \<Rightarrow> [] | Some d \<Rightarrow> [d]) (zip (0 # ?ts) ?ts))) = last (t # ts) - t"
    using wall_clock_sleeps [of t ts nx] times(1,3,4) last t by (simp add: ts)
  then show ?thesis unfolding run afap_sleeps using last t by simp
qed

lemma replay_duration_witness:
  "sum_list (sleeps (rp_calls (fst (replay rat_pkg wit_cfg (\<lambda>t. Inr wit_snap)
     (\<lambda>a b. Inr [wit_diff 11 12, (wit_diff 13 16)\<lparr>de_EventTime := 8\<rparr>])
     (sleepFor SpeedWallClock (\<lambda>d. d)) (\<lambda>i. wit_env) (NewEngine wit_cfg))))) = 3"
  using replay_duration [of "\<lambda>t. Inr wit_snap" wit_cfg wit_snap
      "\<lambda>a b. Inr [wit_diff 11 12, (wit_diff 13 16)\<lparr>de_EventTime := 8\<rparr>]"
      "[wit_diff 11 12, (wit_diff 13 16)\<lparr>de_EventTime := 8\<rparr>]" "\<lambda>i. wit_env" rat_pkg "\<lambda>d. d"]
  by (simp add: wit_diff_def maxDuration_def)

section \<open>Where the replay leaves the recorded book\<close>

text \<open>
  The first diff is never compared with the checkpoint: whatever its ids, no gap is counted and
  no DATA_GAP is published.
\<close>

lemma first_diff_unchecked:
  "maybeHandleGap D cfg nearest None diff prev st = (st, False, prev)"
  by (simp add: maybeHandleGap_def)

text \<open>
  When the newest checkpoint before a gap is the one the run started from, the reseeded book has
  lost every diff applied in between: it is the checkpoint again.
\<close>

lemma reseed_forgets_applied_diffs:
  assumes "nearest (de_EventTime diff) = Inr cp" and "de_FirstUpdateID diff \<noteq> de_FinalUpdateID before + 1"
  shows "rp_book (fst (maybeHandleGap D cfg nearest (Some before) diff prev st)) =
     LoadSnapshot D (Reset (rp_book st)) cp"
  using assms by (simp add: maybeHandleGap_def handleGap_def rcall_def seedBook_def Let_def)

end
