(* ===== verification/Recorded_Replay.thy ===== *)
theory Recorded_Replay
  imports Ingest_Repository Symbol_Handler_Correct Replay
begin

text \<open>
  Recording and replay together: a synced symbol handler writes its diffs and checkpoints to the
  repository and publishes its book; later a replay engine reads them back and publishes again.
  The theory compares the two streams.
\<close>

section \<open>The book of a handler is well formed\<close>

text \<open>What the book operations keep holds of the book of a handler.\<close>

definition book_kept :: "('b, 'd) order_book \<Rightarrow> ('b \<Rightarrow> bool) \<Rightarrow> bool" where
  "book_kept OB Q \<longleftrightarrow> (\<forall>b d. Q b \<longrightarrow> Q (fst (ob_Apply OB b d))) \<and> (\<forall>b. Q b \<longrightarrow> Q (ob_Reset OB b)) \<and>
     (\<forall>load b s. ob_LoadSnapshot OB = Some load \<longrightarrow> Q b \<longrightarrow> Q (load b s))"

lemma book_keptD:
  assumes "book_kept OB Q"
  shows "Q b \<Longrightarrow> Q (fst (ob_Apply OB b d))" "Q b \<Longrightarrow> Q (ob_Reset OB b)"
    "Q b \<Longrightarrow> Q (loadSnapshotIfAny OB (ob_Reset OB b) s)"
  using assms by (auto simp: book_kept_def loadSnapshotIfAny_def split: option.split)

lemma replayLoop_book:
  assumes kept: "book_kept OB Q" and "Q (h_book h)"
  shows "Q (h_book (fst (replayLoop OB env evs h)))"
  using assms(2)
proof (induction evs arbitrary: h)
  case (Cons ev evs)
  obtain b err where app: "ob_Apply OB (h_book h) ev = (b, err)" by fastforce
  with book_keptD(1) [OF kept Cons.prems, of ev] have "Q b" by simp
  then show ?case using Cons.IH app book_keptD(2) [OF kept] by (cases err) (simp_all add: Let_def)
qed simp

lemma tryAlign_book:
  assumes kept: "book_kept OB Q" and q: "Q (h_book h)"
  shows "Q (h_book (tryAlignLocked OB env h))"
proof (cases "h_snapshot h")
  case None
  then show ?thesis using q by (simp add: tryAlignLocked_def)
next
  case (Some snap)
  then show ?thesis
  proof (cases rule: tryAlignLocked_cases [where OB = OB and env = env])
    case (align i)
    let ?h1 = "h\<lparr>h_buffer := discardPreSnapshot (h_buffer h) (se_LastUpdateID snap)\<rparr>"
    let ?h2 = "?h1\<lparr>h_book := loadSnapshotIfAny OB (ob_Reset OB (h_book ?h1)) snap,
                 h_lastFinalUpdateID := se_LastUpdateID snap\<rparr>"
    obtain h3 ok where r: "replayLoop OB env (drop (nat i) (h_buffer ?h1)) ?h2 = (h3, ok)" by fastforce
    have "Q (h_book ?h2)" using book_keptD(3) [OF kept q] by simp
    from replayLoop_book [OF kept this, of env "drop (nat i) (h_buffer ?h1)"] have "Q (h_book h3)"
      unfolding r by simp
    then show ?thesis unfolding align(3) replayAlignedBufferLocked_def Let_def r
      by (simp split: bool.split)
  qed (use q in simp_all)
qed

lemma HandleDiff_book:
  assumes kept: "book_kept OB Q" and q: "Q (h_book h)"
  shows "Q (h_book (HandleDiff OB env ev h))"
proof -
  have "Q (h_book (tryAlignLocked OB env (bufferLocked ev h)))"
    by (rule tryAlign_book [OF kept]) (simp add: bufferLocked_def q)
  moreover have "Q (h_book (handleSyncedLocked OB env ev h))"
    using book_keptD(1) [OF kept q, of ev] book_keptD(2) [OF kept q]
      book_keptD(2) [OF kept book_keptD(1) [OF kept q, of ev]] q
    by (auto simp: handleSyncedLocked_def enterResyncLocked_def checkpointLocked_def Let_def
        split: prod.splits option.splits)
  ultimately show ?thesis using q
    by (cases "h_state h") (auto simp: HandleDiff_def bufferLocked_def Let_def)
qed

lemma runSnapshotFetch_book:
  assumes kept: "book_kept OB Q" and q: "Q (h_book h)"
  shows "Q (h_book (runSnapshotFetch OB env res h))"
proof (cases res)
  case (Inr snap)
  have "Q (h_book (tryAlignLocked OB env (h\<lparr>h_snapshotPending := False, h_snapshot := Some snap\<rparr>)))"
    by (rule tryAlign_book [OF kept]) (simp add: q)
  with Inr q show ?thesis by (simp add: runSnapshotFetch_def Let_def)
qed (simp add: runSnapshotFetch_def handleSnapshotErrorLocked_def Let_def q)

lemma hrun_book:
  assumes "hrun OB h evs h'" and kept: "book_kept OB Q" and "Q (h_book h)"
  shows "Q (h_book h')"
  using assms(1,3)
proof (induction rule: hrun.induct)
  case (hrun_snoc h evs h' e h'')
  from hrun_snoc(2) hrun_snoc(3) [OF hrun_snoc(4)] show ?case
    by (cases rule: hstep.cases)
      (auto simp: Start_def intro: HandleDiff_book [OF kept] runSnapshotFetch_book [OF kept])
qed

lemma hrun_wf_book:
  assumes "hrun (book_ops D) (new_handler cfg sy l2) evs h"
  shows "wf_book D (h_book h) \<and> bk_symbol (h_book h) = sy"
proof -
  have "bk_symbol (fst (Apply D b d)) = bk_symbol b" "bk_symbol (Reset b) = bk_symbol b"
    "bk_symbol (LoadSnapshot D b s) = bk_symbol b" for b :: "'a book" and d s
    by (simp_all add: Apply_def Reset_def LoadSnapshot_def)
  then have "book_kept (book_ops D) (\<lambda>b. wf_book D b \<and> bk_symbol b = sy)"
    by (auto simp: book_kept_def book_ops_def wf_book_Apply)
  then show ?thesis
    by (rule hrun_book [OF assms, where Q = "\<lambda>b. wf_book D b \<and> bk_symbol b = sy"])
      (simp add: new_handler_def NewHandler_def New_def wf_book_def)
qed

section \<open>Two streams of tops\<close>

text \<open>The tops of the books that a run of diffs goes through.\<close>

fun tops ::
  "'d::linordered_idom decimal_pkg \<Rightarrow> int \<Rightarrow> 'd book \<Rightarrow> 'd diff_event list \<Rightarrow>
   (time \<times> int64 \<times> 'd price_level list \<times> 'd price_level list) list" where
  "tops D depth b [] = []"
| "tops D depth b (d # ds) =
     (let b' = fst (Apply D b d) in
      (de_EventTime d, de_FinalUpdateID d, sortedLevels D (bk_bids b') True depth,
       sortedLevels D (bk_asks b') False depth) # tops D depth b' ds)"

lemma tops_times: "map fst (tops D depth b ds) = map de_EventTime ds"
  by (induction ds arbitrary: b) (simp_all add: Let_def)

lemma top_time: "p \<in> set (tops D depth b ds) \<Longrightarrow> \<exists>d \<in> set ds. fst p = de_EventTime d"
  by (metis imageE image_eqI list.set_map tops_times)

lemma tops_cong:
  assumes D: "decimal_strings D" and "wf_book D b" and "wf_book D c"
    and "levels_of D (bk_bids b) = levels_of D (bk_bids c)" "levels_of D (bk_asks b) = levels_of D (bk_asks c)"
  shows "tops D depth b ds = tops D depth c ds"
  using assms(2-)
proof (induction ds arbitrary: b c)
  case (Cons d ds)
  let ?b = "fst (Apply D b d)" and ?c = "fst (Apply D c d)"
  have wf: "wf_book D ?b" "wf_book D ?c" using Cons.prems(1,2) by (simp_all add: wf_book_Apply)
  have lv: "levels_of D (bk_bids ?b) = levels_of D (bk_bids ?c)"
    "levels_of D (bk_asks ?b) = levels_of D (bk_asks ?c)"
    using Cons.prems(3,4) by (simp_all add: Apply_def levels_of_applyLevels [OF D])
  then have "sortedLevels D (bk_bids ?b) True depth = sortedLevels D (bk_bids ?c) True depth"
    "sortedLevels D (bk_asks ?b) False depth = sortedLevels D (bk_asks ?c) False depth"
    using wf by (auto intro: sortedLevels_cong [OF D] simp: wf_book_def)
  with Cons.IH [OF wf lv] show ?case by (simp add: Let_def)
qed simp

text \<open>What a handler publishes, and what a replay publishes.\<close>

fun live_published ::
  "'d handler_call list \<Rightarrow> (time \<times> int64 \<times> 'd price_level list \<times> 'd price_level list) list" where
  "live_published [] = []"
| "live_published (CallPublish sy t i bs as # cs) = (t, i, bs, as) # live_published cs"
| "live_published (c # cs) = live_published cs"

definition replay_published ::
  "'d replay_call list \<Rightarrow> (time \<times> int64 \<times> 'd price_level list \<times> 'd price_level list) list" where
  "replay_published cs =
     map (\<lambda>e. (l2_EventTime e, l2_LastUpdateID e, l2_Bids e, l2_Asks e)) (l2_published cs)"

text \<open>What a handler records; \<open>clock\<close> gives the receipt times.\<close>

fun handler_writes :: "('d diff_event \<Rightarrow> time) \<Rightarrow> 'd handler_call list \<Rightarrow> 'd record_op list" where
  "handler_writes clock [] = []"
| "handler_writes clock (CallWriteDiff d # cs) = RecordDiff (clock d) d # handler_writes clock cs"
| "handler_writes clock (CallWriteCheckpoint s # cs) = RecordCheckpoint s # handler_writes clock cs"
| "handler_writes clock (c # cs) = handler_writes clock cs"

lemma live_published_append [simp]:
  "live_published (cs @ cs') = live_published cs @ live_published cs'"
  "handler_writes clock (cs @ cs') = handler_writes clock cs @ handler_writes clock cs'"
  by (induction cs rule: live_published.induct) simp_all

definition liveRun ::
  "'d::linordered_idom decimal_pkg \<Rightarrow> (handler_env \<times> 'd diff_event) list \<Rightarrow> ('d book, 'd) handler \<Rightarrow>
   ('d book, 'd) handler" where
  "liveRun D xs h = foldl (\<lambda>h (env, ev). HandleDiff (book_ops D) env ev h) h xs"

text \<open>A synced handler over contiguous diffs.\<close>

lemma synced_step:
  assumes "h_state h = Synced" and "h_hasL2pub h" and "de_FirstUpdateID ev = h_lastFinalUpdateID h + 1"
  obtains ck where "h_state (HandleDiff (book_ops D) env ev h) = Synced"
    "h_hasL2pub (HandleDiff (book_ops D) env ev h)" "h_cfg (HandleDiff (book_ops D) env ev h) = h_cfg h"
    "h_book (HandleDiff (book_ops D) env ev h) = fst (Apply D (h_book h) ev)"
    "h_lastFinalUpdateID (HandleDiff (book_ops D) env ev h) = de_FinalUpdateID ev"
    "h_calls (HandleDiff (book_ops D) env ev h) = h_calls h @
       [CallPublish (hc_Symbol (h_cfg h)) (de_EventTime ev) (de_FinalUpdateID ev)
          (sortedLevels D (bk_bids (fst (Apply D (h_book h) ev))) True (hc_DepthLimit (h_cfg h)))
          (sortedLevels D (bk_asks (fst (Apply D (h_book h) ev))) False (hc_DepthLimit (h_cfg h))),
        CallWriteDiff ev] @ ck"
    "ck \<in> {[], [CallWriteCheckpoint (Snapshot D (he_captured env) (fst (Apply D (h_book h) ev))
       (hc_DepthLimit (h_cfg h)))]}"
proof -
  have "\<exists>ck. h_state (HandleDiff (book_ops D) env ev h) = Synced \<and>
    h_hasL2pub (HandleDiff (book_ops D) env ev h) \<and> h_cfg (HandleDiff (book_ops D) env ev h) = h_cfg h \<and>
    h_book (HandleDiff (book_ops D) env ev h) = fst (Apply D (h_book h) ev) \<and>
    h_lastFinalUpdateID (HandleDiff (book_ops D) env ev h) = de_FinalUpdateID ev \<and>
    h_calls (HandleDiff (book_ops D) env ev h) = h_calls h @
       [CallPublish (hc_Symbol (h_cfg h)) (de_EventTime ev) (de_FinalUpdateID ev)
          (sortedLevels D (bk_bids (fst (Apply D (h_book h) ev))) True (hc_DepthLimit (h_cfg h)))
          (sortedLevels D (bk_asks (fst (Apply D (h_book h) ev))) False (hc_DepthLimit (h_cfg h))),
        CallWriteDiff ev] @ ck \<and>
    ck \<in> {[], [CallWriteCheckpoint (Snapshot D (he_captured env) (fst (Apply D (h_book h) ev))
       (hc_DepthLimit (h_cfg h)))]}"
    using assms
    by (simp add: HandleDiff_def handleSyncedLocked_def book_ops_def Apply_def Let_def
        publishL2Locked_def call_def checkpointLocked_def Snapshot_def)
  then show ?thesis using that by blast
qed

lemma liveRun_calls:
  assumes "h_state h = Synced" and "h_hasL2pub h" and "chained (h_lastFinalUpdateID h) (map snd xs)"
  shows "\<exists>cs. h_calls (liveRun D xs h) = h_calls h @ cs \<and>
    live_published cs = tops D (hc_DepthLimit (h_cfg h)) (h_book h) (map snd xs) \<and>
    diff_ops (handler_writes clock cs) = map snd xs \<and>
    (\<forall>s \<in> set (snap_ops (handler_writes clock cs)). \<exists>x \<in> set xs. se_CapturedAt s = he_captured (fst x))"
  using assms
proof (induction xs arbitrary: h)
  case Nil
  then show ?case by (simp add: liveRun_def)
next
  case (Cons x xs)
  obtain env ev where x: "x = (env, ev)" by fastforce
  let ?h = "HandleDiff (book_ops D) env ev h"
  from Cons.prems x have "de_FirstUpdateID ev = h_lastFinalUpdateID h + 1"
    "chained (de_FinalUpdateID ev) (map snd xs)" by simp_all
  from Cons.prems(1,2) this(1) obtain ck where st: "h_state ?h = Synced" "h_hasL2pub ?h" "h_cfg ?h = h_cfg h"
    "h_book ?h = fst (Apply D (h_book h) ev)" "h_lastFinalUpdateID ?h = de_FinalUpdateID ev"
    "h_calls ?h = h_calls h @
       [CallPublish (hc_Symbol (h_cfg h)) (de_EventTime ev) (de_FinalUpdateID ev)
          (sortedLevels D (bk_bids (fst (Apply D (h_book h) ev))) True (hc_DepthLimit (h_cfg h)))
          (sortedLevels D (bk_asks (fst (Apply D (h_book h) ev))) False (hc_DepthLimit (h_cfg h))),
        CallWriteDiff ev] @ ck"
    and ck: "ck \<in> {[], [CallWriteCheckpoint (Snapshot D (he_captured env) (fst (Apply D (h_book h) ev))
       (hc_DepthLimit (h_cfg h)))]}"
    by (rule synced_step)
  from Cons.IH [of ?h] st(1,2,5) \<open>chained (de_FinalUpdateID ev) (map snd xs)\<close>
  obtain cs where cs: "h_calls (liveRun D xs ?h) = h_calls ?h @ cs"
    "live_published cs = tops D (hc_DepthLimit (h_cfg h)) (fst (Apply D (h_book h) ev)) (map snd xs)"
    "diff_ops (handler_writes clock cs) = map snd xs"
    "\<forall>s \<in> set (snap_ops (handler_writes clock cs)). \<exists>x \<in> set xs. se_CapturedAt s = he_captured (fst x)"
    by (auto simp: st(3,4))
  have run: "liveRun D (x # xs) h = liveRun D xs ?h" by (simp add: liveRun_def x)
  show ?case unfolding run cs(1) st(6)
    using ck cs(2-) by (auto simp: x Let_def Snapshot_def)
qed

text \<open>A replay over contiguous diffs.\<close>

lemma tops_nth:
  "map (\<lambda>i. (de_EventTime (ds ! i), de_FinalUpdateID (ds ! i),
      sortedLevels D (bk_bids (foldl (\<lambda>b d. fst (Apply D b d)) b (take (Suc i) ds))) True depth,
      sortedLevels D (bk_asks (foldl (\<lambda>b d. fst (Apply D b d)) b (take (Suc i) ds))) False depth))
     [0..<length ds] = tops D depth b ds"
proof (induction ds arbitrary: b)
  case (Cons d ds)
  have idx: "map f [0..<length (d # ds)] = f 0 # map (\<lambda>i. f (Suc i)) [0..<length ds]"
    for f :: "nat \<Rightarrow> time \<times> int64 \<times> 'a price_level list \<times> 'a price_level list"
    by (simp add: upt_conv_Cons map_Suc_upt [symmetric] del: upt_Suc)
  show ?case unfolding idx using Cons.IH [of "fst (Apply D b d)"] by (simp add: Let_def)
qed simp

lemma gaps_of_chained_Some: "chained (de_FinalUpdateID p) ds \<Longrightarrow> gaps_of (Some p) ds = []"
  by (induction ds arbitrary: p) simp_all

lemma gaps_of_chained: "chained l ds \<Longrightarrow> gaps_of None ds = []"
  by (cases ds) (simp_all add: gaps_of_chained_Some)

lemma replay_tops:
  assumes "nearest (rp_From cfg) = Inr cp" and "diffsBetween (se_CapturedAt cp) (rp_To cfg) = Inr ds"
    and "\<forall>i < length ds. quiet (envs i)" and "gaps_of None ds = []"
  shows "\<exists>st. replay D cfg nearest diffsBetween sleep envs (NewEngine cfg) = (st, int (length ds), 0, None) \<and>
    replay_published (rp_calls st) =
      tops D (rp_Depth cfg) (LoadSnapshot D (Reset (New (rp_Symbol cfg))) cp) ds \<and>
    (\<forall>e \<in> set (l2_published (rp_calls st)). l2_RunID e = rp_RunID cfg \<and> l2_Symbol e = rp_Symbol cfg)"
proof -
  let ?xs = "zip ds (map envs [0..<length ds])"
  obtain st where st: "replay D cfg nearest diffsBetween sleep envs (NewEngine cfg) = (st, int (length ds), 0, None)"
    "l2_published (rp_calls st) = map (\<lambda>i. l2_of D cfg (rn_captured (snd (?xs ! i)))
        (foldl (\<lambda>b d. fst (Apply D b d)) (LoadSnapshot D (Reset (New (rp_Symbol cfg))) cp)
          (take (Suc i) (map fst ?xs))) (fst (?xs ! i))) [0..<length ?xs]"
    using replayDiffs_contiguous [OF quiet_zip [OF assms(3)], of None D cfg nearest sleep 0 0 0
        "seedBook D cp (NewEngine cfg)"] assms(4)
    by (auto simp: RunEngine_found [of nearest cfg cp diffsBetween ds, OF assms(1,2)])
  have "replay_published (rp_calls st) =
      tops D (rp_Depth cfg) (LoadSnapshot D (Reset (New (rp_Symbol cfg))) cp) ds"
    unfolding replay_published_def st(2) tops_nth [symmetric]
    by (simp add: l2_of_def Snapshot_def comp_def)
  moreover have "\<forall>e \<in> set (l2_published (rp_calls st)). l2_RunID e = rp_RunID cfg \<and> l2_Symbol e = rp_Symbol cfg"
    unfolding st(2) by (simp add: l2_of_def)
  ultimately show ?thesis using st(1) by blast
qed

section \<open>The recorded session\<close>

text \<open>A checkpoint that the depth limit did not cut holds the whole book.\<close>

lemma sortedLevels_whole:
  assumes "int (length side) \<le> depth"
  shows "sortedLevels D side desc depth = sortedLevels D side desc 0"
proof -
  have "length (List.map_filter f xs) \<le> length xs" for f :: "string \<times> 'a \<Rightarrow> 'a price_level option" and xs
    by (induction xs) (auto simp: List.map_filter_simps split: option.split)
  then have "length (parsedLevels D side) \<le> length side"
    unfolding parsedLevels_def .
  with assms show ?thesis by (simp add: sortedLevels_def truncLevels_def)
qed

lemma checkpoint_whole:
  assumes D: "decimal_strings D" and wf: "wf_book D b"
    and small: "int (length (bk_bids b)) \<le> depth" "int (length (bk_asks b)) \<le> depth"
  shows "levels_of D (loadSide D (se_Bids (Snapshot D now b depth))) = levels_of D (bk_bids b)"
    "levels_of D (loadSide D (se_Asks (Snapshot D now b depth))) = levels_of D (bk_asks b)"
  using wf by (simp_all add: Snapshot_def sortedLevels_whole [OF small(1)] sortedLevels_whole [OF small(2)]
      levels_of_reload_0 [OF D] wf_book_def)

text \<open>What the query of diffs returns when the run recorded last is all there is in the range.\<close>

lemma recorded_run:
  assumes laws: "repo_laws D P" and ok: "repo_ok D db"
    and ops: "diff_ops ops = ds" and ord: "sorted_wrt earlier ds"
    and mine: "\<forall>d \<in> set ds. micros (de_EventTime d) \<and> in_range P sy a b d"
    and others: "\<forall>d \<in> set (diffsIn D db). \<not> in_range P sy a b d"
  shows "snd (QueryDiffs D P sy a b (recordOps D P ops db)) = (ds, None)"
proof -
  let ?db = "recordOps D P ops db"
  have id: "map (stampDiff P) ds = ds"
    using mine laws by (intro map_idI) (simp add: stampDiff_def repo_laws_def postgresD)
  have keys: "deKey d = deKey d' \<Longrightarrow> d' \<in> set (diffsIn D db) \<Longrightarrow> d \<notin> set ds" for d d'
    using mine others by (auto simp: in_range_def deKey_def)
  have dist: "distinct (map deKey ds)"
    using ord by (induction ds) (auto simp: earlier_def deKey_def word_sless_alt)
  have "foldl (\<lambda>t d. insertNew deKey d t) (diffsIn D db) xs = diffsIn D db @ xs"
    if "set xs \<subseteq> set ds" "distinct (map deKey xs)" for xs
    using that
  proof (induction xs rule: rev_induct)
    case (snoc x xs)
    then have "\<not> (\<exists>y \<in> set (diffsIn D db @ xs). deKey y = deKey x)"
      using keys [of x] by (auto simp: image_iff) (metis image_eqI)
    with snoc show ?case by (simp add: insertNew_def)
  qed simp
  with dist have "diffsIn D ?db = diffsIn D db @ ds"
    using recordOps_store(2) [OF laws ok, of ops] by (simp add: ops id)
  moreover have "repo_laws D P \<and> repo_ok D ?db" using recordOps_store(1) [OF laws ok] laws by simp
  ultimately have "QueryDiffs D P sy a b ?db = (?db, ds, None)"
    using ord mine others by (intro rb.between_sorted) auto
  then show ?thesis by simp
qed

text \<open>
  The queries of a replay engine over the repository; \<open>errText\<close> is how its errors print. The engine
  gives up on an error, also when rows came with it.
\<close>

definition nearestOf ::
  "'d decimal_pkg \<Rightarrow> pg \<Rightarrow> (repo_error \<Rightarrow> string) \<Rightarrow> string \<Rightarrow> ingest_db \<Rightarrow> time \<Rightarrow> string + 'd snapshot_event" where
  "nearestOf D P errText sy db t = map_sum errText id (snd (QueryNearestCheckpoint D P sy t db))"

definition betweenOf ::
  "'d decimal_pkg \<Rightarrow> pg \<Rightarrow> (repo_error \<Rightarrow> string) \<Rightarrow> string \<Rightarrow> ingest_db \<Rightarrow> time \<Rightarrow> time \<Rightarrow>
   string + 'd diff_event list" where
  "betweenOf D P errText sy db a b =
     (case snd (QueryDiffs D P sy a b db) of (ds, None) \<Rightarrow> Inr ds | (ds, Some err) \<Rightarrow> Inl (errText err))"

text \<open>
  When a recorded session can be replayed: \<open>snap\<close>, taken at \<open>cap\<close>, is in the tables and is the newest
  checkpoint up to the start of the replay; it holds the whole book; the diffs that followed
  have event times between \<open>cap\<close> and the end of the replay, all older ones before \<open>cap\<close>.
\<close>

definition replayable ::
  "'d::linordered_idom decimal_pkg \<Rightarrow> pg \<Rightarrow> string \<Rightarrow> ('d book, 'd) handler \<Rightarrow> time \<Rightarrow> time \<Rightarrow> time \<Rightarrow>
   (handler_env \<times> 'd diff_event) list \<Rightarrow> ingest_db \<Rightarrow> bool" where
  "replayable D P sy h cap from1 to1 xs db \<longleftrightarrow>
     repo_ok D db \<and>
     stampSnap P (Snapshot D cap (h_book h) (hc_DepthLimit (h_cfg h))) \<in> set (snapsIn D db) \<and>
     pg_time P cap \<le> pg_time P from1 \<and>
     (\<forall>s \<in> set (snapsIn D db). before_snap P sy from1 s \<longrightarrow>
        s = stampSnap P (Snapshot D cap (h_book h) (hc_DepthLimit (h_cfg h))) \<or>
        se_CapturedAt s < pg_time P cap) \<and>
     (\<forall>x \<in> set xs. pg_time P from1 < pg_time P (he_captured (fst x))) \<and>
     int (length (bk_bids (h_book h))) \<le> hc_DepthLimit (h_cfg h) \<and>
     int (length (bk_asks (h_book h))) \<le> hc_DepthLimit (h_cfg h) \<and>
     (\<forall>d \<in> set (diffsIn D db). de_Symbol d = sy \<longrightarrow> de_EventTime d < pg_time P cap) \<and>
     (\<forall>d \<in> set (map snd xs). de_Symbol d = sy \<and> micros (de_EventTime d) \<and>
        pg_time P cap \<le> de_EventTime d \<and> de_EventTime d \<le> pg_time P to1) \<and>
     sorted_wrt earlier (map snd xs) \<and> chained (h_lastFinalUpdateID h) (map snd xs)"

lemma replayableD:
  assumes "replayable D P sy h cap from1 to1 xs db"
  shows "repo_ok D db"
    "stampSnap P (Snapshot D cap (h_book h) (hc_DepthLimit (h_cfg h))) \<in> set (snapsIn D db)"
    "pg_time P cap \<le> pg_time P from1"
    "\<forall>s \<in> set (snapsIn D db). before_snap P sy from1 s \<longrightarrow>
        s = stampSnap P (Snapshot D cap (h_book h) (hc_DepthLimit (h_cfg h))) \<or> se_CapturedAt s < pg_time P cap"
    "\<forall>x \<in> set xs. pg_time P from1 < pg_time P (he_captured (fst x))"
    "int (length (bk_bids (h_book h))) \<le> hc_DepthLimit (h_cfg h)"
    "int (length (bk_asks (h_book h))) \<le> hc_DepthLimit (h_cfg h)"
    "\<forall>d \<in> set (diffsIn D db). de_Symbol d = sy \<longrightarrow> de_EventTime d < pg_time P cap"
    "\<forall>d \<in> set (map snd xs). de_Symbol d = sy \<and> micros (de_EventTime d) \<and>
        pg_time P cap \<le> de_EventTime d \<and> de_EventTime d \<le> pg_time P to1"
    "sorted_wrt earlier (map snd xs)" "chained (h_lastFinalUpdateID h) (map snd xs)"
  using assms unfolding replayable_def by blast+

text \<open>The two queries of the replay over the tables that the run leaves.\<close>

lemma replay_queries:
  assumes laws: "repo_laws D P" and sy: "bk_symbol (h_book h) = sy"
    and ok: "replayable D P sy h cap from1 to1 xs db" and ds: "diff_ops ops = map snd xs"
    and snaps: "\<forall>s \<in> set (snap_ops ops). \<exists>x \<in> set xs. se_CapturedAt s = he_captured (fst x)"
    and snap: "snap = stampSnap P (Snapshot D cap (h_book h) (hc_DepthLimit (h_cfg h)))"
  shows "nearestOf D P errText sy (recordOps D P ops db) from1 = Inr snap \<and>
    betweenOf D P errText sy (recordOps D P ops db) (se_CapturedAt snap) to1 = Inr (map snd xs)"
proof
  note ok' = replayableD [OF ok, folded snap]
  let ?db = "recordOps D P ops db"
  have st: "repo_laws D P \<and> repo_ok D ?db" "snapsIn D ?db = snapsIn D db @ map (stampSnap P) (snap_ops ops)"
    using recordOps_store(1,3) [OF laws ok'(1), of ops] laws by simp_all
  have cp: "se_Symbol snap = sy" "se_CapturedAt snap = pg_time P cap"
    by (simp_all add: snap stampSnap_def Snapshot_def sy)
  have "QueryNearestCheckpoint D P sy from1 ?db = (?db, Inr snap)"
  proof (rule rb.nearest_latest [OF st(1)])
    show "snap \<in> set (snapsIn D ?db)" using ok'(2) st(2) by simp
    show "before_snap P sy from1 snap" using cp ok'(3) by (simp add: before_snap_def)
    fix s assume s: "s \<in> set (snapsIn D ?db)" "before_snap P sy from1 s" "s \<noteq> snap"
    have "s \<notin> set (map (stampSnap P) (snap_ops ops))"
      using s(2) snaps ok'(5) by (fastforce simp: before_snap_def stampSnap_def)
    with s ok'(4) st(2) cp(2) show "se_CapturedAt s < se_CapturedAt snap" by auto
  qed
  then show "nearestOf D P errText sy ?db from1 = Inr snap" by (simp add: nearestOf_def)
  have "postgres P" using laws by (simp add: repo_laws_def)
  then have m: "pg_time P (pg_time P cap) = pg_time P cap"
    by (intro postgresD(3) [OF _ postgresD(2)])
  have "snd (QueryDiffs D P sy (pg_time P cap) to1 ?db) = (map snd xs, None)"
    by (rule recorded_run [OF laws ok'(1) ds ok'(10)]) (use ok'(8,9) m in \<open>auto simp: in_range_def\<close>)
  then show "betweenOf D P errText sy ?db (se_CapturedAt snap) to1 = Inr (map snd xs)"
    by (simp add: betweenOf_def cp)
qed

lemma length_tops [simp]: "length (tops D depth b ds) = length ds"
  by (induction ds arbitrary: b) (simp_all add: Let_def)

text \<open>
  C2 (equivalence): a replay of a recorded session publishes what the live handler published, when
  the recording allows it. A synced handler with an L2 publisher processes contiguous diffs after a
  checkpoint, and what it writes goes to the repository, every write succeeding; a replay engine over these
  tables, not interrupted, publishes exactly one event per diff, and the events have the same times,
  ids, bids and asks, in the same order, as those the handler published. What the recording has to
  satisfy is \<open>replayable\<close>: the checkpoint is not truncated by the depth limit (else
  \<open>truncated_checkpoint_loses_levels\<close>) and is the newest at the start of the replay, before
  which no later one was taken; the diffs come in the order of event time and then final id, their
  event times (of the exchange, in whole microseconds) are not before the local capture time of
  the checkpoint (else \<open>late_diff_is_lost\<close>) nor after the end of the replay; and no older diff of
  the symbol has an event time from the capture time on.
\<close>

theorem replay_reproduces_live:
  fixes D :: "'d::linordered_idom decimal_pkg"
  assumes laws: "decimal_strings D" "decimal_text D" "postgres P"
    and run: "hrun (book_ops D) (new_handler hcfg sy l2) evs h"
    and sync: "h_state h = Synced" "h_hasL2pub h"
    and ok: "replayable D P sy h cap from1 to1 xs db"
    and quiet: "\<forall>i < length xs. quiet (envs i)"
  shows "let calls = drop (length (h_calls h)) (h_calls (liveRun D xs h));
       db' = recordOps D P (handler_writes clock calls) db;
       cfg = \<lparr>rp_RunID = runID, rp_Symbol = sy, rp_From = from1, rp_To = to1,
              rp_Depth = hc_DepthLimit (h_cfg h)\<rparr>
     in \<exists>st. replay D cfg (nearestOf D P errText sy db') (betweenOf D P errText sy db') sleep envs
           (NewEngine cfg) = (st, int (length xs), 0, None) \<and>
         replay_published (rp_calls st) = live_published calls \<and>
         length (live_published calls) = length xs"
proof -
  let ?depth = "hc_DepthLimit (h_cfg h)" and ?ds = "map snd xs"
  let ?snap = "stampSnap P (Snapshot D cap (h_book h) ?depth)"
  have rl: "repo_laws D P" using laws by (simp add: repo_laws_def)
  have wf: "wf_book D (h_book h)" and sy: "bk_symbol (h_book h) = sy" using hrun_wf_book [OF run] by simp_all
  note ok' = replayableD [OF ok]
  obtain cs where cs: "h_calls (liveRun D xs h) = h_calls h @ cs"
    "live_published cs = tops D ?depth (h_book h) ?ds" "diff_ops (handler_writes clock cs) = ?ds"
    "\<forall>s \<in> set (snap_ops (handler_writes clock cs)). \<exists>x \<in> set xs. se_CapturedAt s = he_captured (fst x)"
    using liveRun_calls [OF sync ok'(11), of D clock] by blast
  let ?db = "recordOps D P (handler_writes clock cs) db"
  let ?cfg = "\<lparr>rp_RunID = runID, rp_Symbol = sy, rp_From = from1, rp_To = to1, rp_Depth = ?depth\<rparr>"
  have "tops D ?depth (LoadSnapshot D (Reset (New sy)) ?snap) ?ds = tops D ?depth (h_book h) ?ds"
    using checkpoint_whole [OF laws(1) wf ok'(6,7), of cap]
    by (intro tops_cong [OF laws(1)]) (simp_all add: wf stampSnap_def)
  with replay_tops [of "nearestOf D P errText sy ?db" ?cfg ?snap "betweenOf D P errText sy ?db" ?ds envs D sleep]
    replay_queries [OF rl sy ok cs(3,4) refl, of errText] quiet gaps_of_chained [OF ok'(11)]
  have "\<exists>st. replay D ?cfg (nearestOf D P errText sy ?db) (betweenOf D P errText sy ?db) sleep envs
      (NewEngine ?cfg) = (st, int (length xs), 0, None) \<and>
      replay_published (rp_calls st) = tops D ?depth (h_book h) ?ds"
    by auto
  then show ?thesis by (simp add: cs(1,2) Let_def)
qed

definition wit_next :: "rat diff_event" where
  "wit_next = (wit_diff 14 15)\<lparr>de_EventTime := 3000\<rparr>"

definition wit_xs :: "(handler_env \<times> rat diff_event) list" where
  "wit_xs = [(Symbol_Handler_Correct.wit_env\<lparr>he_captured := 5000\<rparr>, wit_next)]"

definition wit_db :: ingest_db where
  "wit_db = recordOps rat_pkg micro_pg
     [RecordCheckpoint (Snapshot rat_pkg 1000 (h_book wit_synced) (hc_DepthLimit (h_cfg wit_synced)))] emptyDB"

lemma wit_synced_small:
  "int (length (bk_bids (h_book wit_synced))) \<le> hc_DepthLimit (h_cfg wit_synced)"
  "int (length (bk_asks (h_book wit_synced))) \<le> hc_DepthLimit (h_cfg wit_synced)" "h_hasL2pub wit_synced"
proof -
  have "\<exists>h. hexec (book_ops rat_pkg) (new_handler Symbol_Handler_Correct.wit_cfg ''BTCUSDT'' True) wit_run = Some h \<and>
      int (length (bk_bids (h_book h))) \<le> hc_DepthLimit (h_cfg h) \<and>
      int (length (bk_asks (h_book h))) \<le> hc_DepthLimit (h_cfg h) \<and> h_hasL2pub h"
    by (simp add: wit_run_def wit_diff_def wit_snap_def handler_eval)
      (simp add: applyLevel_def loadSide_def wit_level_def DString_inj [OF rat_pkg_strings])
  then show "int (length (bk_bids (h_book wit_synced))) \<le> hc_DepthLimit (h_cfg wit_synced)"
    "int (length (bk_asks (h_book wit_synced))) \<le> hc_DepthLimit (h_cfg wit_synced)" "h_hasL2pub wit_synced"
    using wit_run_hexec(1) by simp_all
qed

lemma wit_replayable:
  "replayable rat_pkg micro_pg ''BTCUSDT'' wit_synced 1000 2000 9000 wit_xs wit_db"
proof -
  have laws: "repo_laws rat_pkg micro_pg" by (simp add: repo_laws_def)
  note st = recordOps_store [OF laws, of emptyDB]
  show ?thesis unfolding replayable_def
    using st wit_synced_small wit_run_hexec(3)
    by (simp add: wit_db_def stampSnap_def wit_xs_def wit_next_def wit_diff_def micro_pg_def micros_def)
qed

lemma replay_reproduces_live_witness:
  "\<exists>st. replay rat_pkg \<lparr>rp_RunID = ''r1'', rp_Symbol = ''BTCUSDT'', rp_From = 2000, rp_To = 9000,
        rp_Depth = hc_DepthLimit (h_cfg wit_synced)\<rparr>
     (nearestOf rat_pkg micro_pg (\<lambda>e. ''db'') ''BTCUSDT'' (recordOps rat_pkg micro_pg (handler_writes (\<lambda>d. 0)
        (drop (length (h_calls wit_synced)) (h_calls (liveRun rat_pkg wit_xs wit_synced)))) wit_db))
     (betweenOf rat_pkg micro_pg (\<lambda>e. ''db'') ''BTCUSDT'' (recordOps rat_pkg micro_pg (handler_writes (\<lambda>d. 0)
        (drop (length (h_calls wit_synced)) (h_calls (liveRun rat_pkg wit_xs wit_synced)))) wit_db))
     (sleepFor SpeedAFAP (\<lambda>d. d)) (\<lambda>i. Replay.wit_env) (NewEngine \<lparr>rp_RunID = ''r1'', rp_Symbol = ''BTCUSDT'',
        rp_From = 2000, rp_To = 9000, rp_Depth = hc_DepthLimit (h_cfg wit_synced)\<rparr>) = (st, 1, 0, None) \<and>
     length (replay_published (rp_calls st)) = 1"
  using replay_reproduces_live [OF rat_pkg_strings rat_pkg_text postgres_micro_pg wit_run_hrun
      wit_run_hexec(2) wit_synced_small(3) wit_replayable, where envs = "\<lambda>i. Replay.wit_env" and
      clock = "\<lambda>d. 0" and errText = "\<lambda>e. ''db''" and runID = "''r1''" and
      sleep = "sleepFor SpeedAFAP (\<lambda>d. d)"]
  by (simp add: Let_def wit_xs_def) metis

section \<open>Where the replay leaves the live book\<close>

text \<open>
  A checkpoint holds the best levels only. With depth 1, a book with bids at 100 and 99 and a
  diff that deletes 100: the live handler then publishes 99, a replay from the checkpoint nothing.
\<close>

lemma truncated_checkpoint_loses_levels:
  "let D = rat_pkg; b = LoadSnapshot D (New ''BTCUSDT'') wit_snap;
       cp = Snapshot D 0 b 1; d = (wit_diff 11 11)\<lparr>de_Bids := [wit_level 100 0]\<rparr>;
       live = fst (Apply D b d); replayed = fst (Apply D (LoadSnapshot D (New ''BTCUSDT'') cp) d)
   in sortedLevels D (bk_bids live) True 1 = [wit_level 99 1] \<and>
      sortedLevels D (bk_bids replayed) True 1 = []"
proof -
  have ds: "DFromString rat_pkg (DString rat_pkg a) = Some a" for a
    using rat_pkg_strings by (simp add: decimal_strings_def)
  show ?thesis
    by (simp add: Let_def Snapshot_def Apply_def LoadSnapshot_def New_def wit_snap_def wit_diff_def
        applyLevel_def loadSide_def wit_level_def sortedLevels_def parsedLevels_def truncLevels_def
        List.map_filter_simps ds DString_inj [OF rat_pkg_strings])
qed

text \<open>
  Checkpoints carry the clock of the ingest host, diffs the time of the exchange. A diff that follows
  the checkpoint but whose event time is before the checkpoint's is not selected, and the diff after
  it, then the first one, is applied without a gap being noticed (\<open>first_diff_unchecked\<close>).
\<close>

lemma late_diff_is_lost:
  assumes laws: "decimal_strings D" "decimal_text D" "postgres P"
    and late: "micros (de_EventTime d)" "de_EventTime d < pg_time P (se_CapturedAt s)"
  shows "snd (QueryDiffs D P sy (pg_time P (se_CapturedAt s)) to1
      (recordOps D P [RecordCheckpoint s, RecordDiff now d] emptyDB)) = ([], None)"
proof -
  have rl: "repo_laws D P" using laws by (simp add: repo_laws_def)
  let ?db = "recordOps D P [RecordCheckpoint s, RecordDiff now d] emptyDB"
  note st = recordOps_store [OF rl, of emptyDB "[RecordCheckpoint s, RecordDiff now d]"]
  have m: "pg_time P (pg_time P t) = pg_time P t" for t
    by (rule postgresD(3) [OF laws(3) postgresD(2) [OF laws(3)]])
  have "repo_laws D P \<and> repo_ok D ?db" using st(1) rl by simp
  from rb.between [OF this] obtain ds where
    q: "QueryDiffs D P sy (pg_time P (se_CapturedAt s)) to1 ?db = (?db, ds, None)" and
    ds: "set ds = {d \<in> set (diffsIn D ?db). in_range P sy (pg_time P (se_CapturedAt s)) to1 d}"
    by blast
  have "diffsIn D ?db = [stampDiff P d]" using st(2) by (simp add: insertNew_def)
  moreover have "\<not> in_range P sy (pg_time P (se_CapturedAt s)) to1 (stampDiff P d)"
    using late postgresD(3) [OF laws(3) late(1)] by (simp add: in_range_def stampDiff_def m)
  ultimately have "set ds = {}" unfolding ds by simp
  then show ?thesis using q by simp
qed

end
