(* ===== verification/Backtest_Repository.thy ===== *)
theory Backtest_Repository
  imports Tables
begin

text \<open>
  The results of backtests, engine/backtest/repository/repository.go over the tables of
  engine/backtest/migrations/002_backtest_schema.sql, with the keys and references the schema
  declares. \<open>bd_errs\<close> is the script of the server's own failures (lost connections, and the casts of
  texts that are not UUIDs or JSON), one entry per call of the driver (see \<open>Tables\<close>). A
  statement that fails leaves the tables alone.
\<close>

section \<open>Tables\<close>

record 'f run_row =
  bw_run_id :: string
  bw_symbols :: "string list"
  bw_from_time :: time
  bw_to_time :: time
  bw_speed_mode :: speed_mode
  bw_speed_factor :: "'f option"
  bw_strategy_config :: string
  bw_status :: run_status
  bw_started_at :: "time option"
  bw_completed_at :: "time option"
  bw_error :: "string option"

record 'd trade_row =
  tw_run_id :: string
  tw_trade_id :: string
  tw_symbol :: string
  tw_event_time :: time
  tw_side :: string
  tw_fill_price :: 'd
  tw_fill_qty :: 'd
  tw_fee :: 'd
  tw_signal_name :: "string option"

record gap_row =
  gw_run_id :: string
  gw_symbol :: string
  gw_gap_from :: time
  gw_gap_to :: time

record ('d, 'f) backtest_db =
  bd_runs :: "'f run_row list"
  bd_trades :: "'d trade_row list"
  bd_equity :: "'d equity_point list"
  bd_gaps :: "gap_row list"
  bd_metrics :: "('d metrics_record \<times> time) list"
  bd_errs :: "string option list"

text \<open>Why a statement fails, and what the methods make of it.\<close>

datatype pg_error = Refused string | UniqueViolation | ForeignKeyViolation

datatype bt_error =
    InsertRun string pg_error | UpdateStatus string run_status pg_error
  | InsertGap string string pg_error | InsertTrade string string pg_error
  | InsertEquity string time pg_error | UpsertMetrics string pg_error
  | QueryTradesErr string pg_error | ScanTradeErr string | IterateTradesErr string string
  | QueryEquityErr string pg_error | ScanEquityErr string | IterateEquityErr string string

definition banswer :: "('d, 'f) backtest_db \<Rightarrow> ('d, 'f) backtest_db \<times> pg_error option" where
  "banswer db = (case bd_errs db of [] \<Rightarrow> (db, None) | e # es \<Rightarrow> (db\<lparr>bd_errs := es\<rparr>, map_option Refused e))"

text \<open>A statement with the check of its constraints: the tables change only when both let it.\<close>

definition exec ::
  "(('d, 'f) backtest_db \<Rightarrow> pg_error option) \<Rightarrow> (('d, 'f) backtest_db \<Rightarrow> ('d, 'f) backtest_db) \<Rightarrow>
   (pg_error \<Rightarrow> bt_error) \<Rightarrow> ('d, 'f) backtest_db \<Rightarrow> ('d, 'f) backtest_db \<times> bt_error option" where
  "exec violated change wrap db =
     (case banswer db of
        (db1, Some err) \<Rightarrow> (db1, Some (wrap err))
      | (db1, None) \<Rightarrow>
          (case violated db1 of
             Some err \<Rightarrow> (db1, Some (wrap err))
           | None \<Rightarrow> (change db1, None)))"

definition hasRun :: "string \<Rightarrow> ('d, 'f) backtest_db \<Rightarrow> bool" where
  "hasRun runID db \<longleftrightarrow> (\<exists>r \<in> set (bd_runs db). bw_run_id r = runID)"

definition refersTo :: "string \<Rightarrow> ('d, 'f) backtest_db \<Rightarrow> pg_error option" where
  "refersTo runID db = (if hasRun runID db then None else Some ForeignKeyViolation)"

section \<open>Runs\<close>

definition runRow :: "pg \<Rightarrow> 'f run_record \<Rightarrow> 'f run_row" where
  "runRow P rec =
     \<lparr>bw_run_id = rr_RunID rec, bw_symbols = rr_Symbols rec, bw_from_time = pg_time P (rr_FromTime rec),
      bw_to_time = pg_time P (rr_ToTime rec), bw_speed_mode = rr_SpeedMode rec,
      bw_speed_factor = rr_SpeedFactor rec, bw_strategy_config = pg_jsonb P (rr_StrategyConfig rec),
      bw_status = rr_Status rec, bw_started_at = None, bw_completed_at = None, bw_error = None\<rparr>"

definition CreateRun ::
  "pg \<Rightarrow> 'f run_record \<Rightarrow> ('d, 'f) backtest_db \<Rightarrow> ('d, 'f) backtest_db \<times> bt_error option" where
  "CreateRun P rec = exec (\<lambda>db. if hasRun (rr_RunID rec) db then Some UniqueViolation else None)
     (\<lambda>db. db\<lparr>bd_runs := bd_runs db @ [runRow P rec]\<rparr>) (InsertRun (rr_RunID rec))"

definition coalesce :: "'a option \<Rightarrow> 'a option \<Rightarrow> 'a option" where
  "coalesce a b = (case a of None \<Rightarrow> b | Some x \<Rightarrow> Some x)"

definition UpdateRunStatus ::
  "pg \<Rightarrow> string \<Rightarrow> run_status \<Rightarrow> time option \<Rightarrow> time option \<Rightarrow> string \<Rightarrow> ('d, 'f) backtest_db \<Rightarrow>
   ('d, 'f) backtest_db \<times> bt_error option" where
  "UpdateRunStatus P runID status startedAt completedAt errMsg =
     (let errPtr = (if errMsg \<noteq> [] then Some errMsg else None) in
      exec (\<lambda>db. None)
        (\<lambda>db. db\<lparr>bd_runs := map (\<lambda>r. if bw_run_id r = runID
           then r\<lparr>bw_status := status,
                  bw_started_at := coalesce (map_option (pg_time P) startedAt) (bw_started_at r),
                  bw_completed_at := coalesce (map_option (pg_time P) completedAt) (bw_completed_at r),
                  bw_error := coalesce errPtr (bw_error r)\<rparr>
           else r) (bd_runs db)\<rparr>)
        (UpdateStatus runID status))"

section \<open>Rows of a run\<close>

definition WriteDataGap ::
  "pg \<Rightarrow> string \<Rightarrow> string \<Rightarrow> time \<Rightarrow> time \<Rightarrow> ('d, 'f) backtest_db \<Rightarrow>
   ('d, 'f) backtest_db \<times> bt_error option" where
  "WriteDataGap P runID symbol gapFrom gapTo = exec (refersTo runID)
     (\<lambda>db. db\<lparr>bd_gaps := bd_gaps db @ [\<lparr>gw_run_id = runID, gw_symbol = symbol,
        gw_gap_from = pg_time P gapFrom, gw_gap_to = pg_time P gapTo\<rparr>]\<rparr>)
     (InsertGap runID symbol)"

definition tradeKey :: "'d trade_row \<Rightarrow> string \<times> string" where
  "tradeKey r = (tw_run_id r, tw_trade_id r)"

definition nullif_empty :: "string \<Rightarrow> string option" where
  "nullif_empty s = (if s = [] then None else Some s)"

definition tradeRow :: "pg \<Rightarrow> 'd trade_record \<Rightarrow> 'd trade_row" where
  "tradeRow P t =
     \<lparr>tw_run_id = tr_RunID t, tw_trade_id = tr_TradeID t, tw_symbol = tr_Symbol t,
      tw_event_time = pg_time P (tr_EventTime t), tw_side = string_of_side (tr_Side t),
      tw_fill_price = tr_FillPrice t, tw_fill_qty = tr_FillQty t, tw_fee = tr_Fee t,
      tw_signal_name = nullif_empty (tr_SignalName t)\<rparr>"

definition WriteTrade ::
  "pg \<Rightarrow> 'd trade_record \<Rightarrow> ('d, 'f) backtest_db \<Rightarrow> ('d, 'f) backtest_db \<times> bt_error option" where
  "WriteTrade P t = exec (\<lambda>db. if \<exists>r \<in> set (bd_trades db). tradeKey r = tradeKey (tradeRow P t) then None
       else refersTo (tr_RunID t) db)
     (\<lambda>db. db\<lparr>bd_trades := insertNew tradeKey (tradeRow P t) (bd_trades db)\<rparr>)
     (InsertTrade (tr_RunID t) (tr_TradeID t))"

definition stampPoint :: "pg \<Rightarrow> 'd equity_point \<Rightarrow> 'd equity_point" where
  "stampPoint P p = p\<lparr>ep_EventTime := pg_time P (ep_EventTime p)\<rparr>"

definition WriteEquityPoint ::
  "pg \<Rightarrow> 'd equity_point \<Rightarrow> ('d, 'f) backtest_db \<Rightarrow> ('d, 'f) backtest_db \<times> bt_error option" where
  "WriteEquityPoint P p = exec (refersTo (ep_RunID p))
     (\<lambda>db. db\<lparr>bd_equity := bd_equity db @ [stampPoint P p]\<rparr>) (InsertEquity (ep_RunID p) (ep_EventTime p))"

text \<open>The upsert: the row of the run is replaced, \<open>now\<close> becomes its computed_at.\<close>

definition WriteMetrics ::
  "pg \<Rightarrow> time \<Rightarrow> 'd metrics_record \<Rightarrow> ('d, 'f) backtest_db \<Rightarrow> ('d, 'f) backtest_db \<times> bt_error option" where
  "WriteMetrics P now m = exec (refersTo (mr_RunID m))
     (\<lambda>db. db\<lparr>bd_metrics :=
        (if \<exists>(r, t) \<in> set (bd_metrics db). mr_RunID r = mr_RunID m
         then map (\<lambda>(r, t). if mr_RunID r = mr_RunID m then (m, pg_time P now) else (r, t)) (bd_metrics db)
         else bd_metrics db @ [(m, pg_time P now)])\<rparr>)
     (UpsertMetrics (mr_RunID m))"

section \<open>Queries\<close>

text \<open>
  ORDER BY event_time leaves rows with equal times in an order of the server's choice: \<open>ordered\<close>
  is the list it returns, of which the database promises this much.
\<close>

definition orders_by :: "('a \<Rightarrow> time) \<Rightarrow> ('a list \<Rightarrow> 'a list) \<Rightarrow> bool" where
  "orders_by key ordered \<longleftrightarrow> (\<forall>rs. mset (ordered rs) = mset rs \<and> sorted (map key (ordered rs)))"

definition tradeOfRow :: "'d trade_row \<Rightarrow> 'd trade_record" where
  "tradeOfRow r =
     \<lparr>tr_RunID = tw_run_id r, tr_TradeID = tw_trade_id r, tr_Symbol = tw_symbol r,
      tr_EventTime = tw_event_time r, tr_Side = side_of_string (tw_side r),
      tr_FillPrice = tw_fill_price r, tr_FillQty = tw_fill_qty r, tr_Fee = tw_fee r,
      tr_SignalName = (case tw_signal_name r of None \<Rightarrow> [] | Some s \<Rightarrow> s)\<rparr>"

definition QueryTrades ::
  "('d trade_row list \<Rightarrow> 'd trade_row list) \<Rightarrow> string \<Rightarrow> ('d, 'f) backtest_db \<Rightarrow>
   ('d, 'f) backtest_db \<times> (bt_error + 'd trade_record list)" where
  "QueryTrades ordered runID db =
     (case banswer db of
        (db1, Some err) \<Rightarrow> (db1, Inl (QueryTradesErr runID err))
      | (db1, None) \<Rightarrow>
          (case scanRows (Inr \<circ> tradeOfRow) ScanTradeErr (bd_errs db1)
                  (ordered (filter (\<lambda>r. tw_run_id r = runID) (bd_trades db1))) [] of
             (errs, Inl err) \<Rightarrow> (db1\<lparr>bd_errs := errs\<rparr>, Inl err)
           | (errs, Inr (out, Some err)) \<Rightarrow> (db1\<lparr>bd_errs := errs\<rparr>, Inl (IterateTradesErr runID err))
           | (errs, Inr (out, None)) \<Rightarrow> (db1\<lparr>bd_errs := errs\<rparr>, Inr out)))"

definition QueryEquityPoints ::
  "('d equity_point list \<Rightarrow> 'd equity_point list) \<Rightarrow> string \<Rightarrow> ('d, 'f) backtest_db \<Rightarrow>
   ('d, 'f) backtest_db \<times> (bt_error + 'd equity_point list)" where
  "QueryEquityPoints ordered runID db =
     (case banswer db of
        (db1, Some err) \<Rightarrow> (db1, Inl (QueryEquityErr runID err))
      | (db1, None) \<Rightarrow>
          (case scanRows Inr ScanEquityErr (bd_errs db1)
                  (ordered (filter (\<lambda>p. ep_RunID p = runID) (bd_equity db1))) [] of
             (errs, Inl err) \<Rightarrow> (db1\<lparr>bd_errs := errs\<rparr>, Inl err)
           | (errs, Inr (out, Some err)) \<Rightarrow> (db1\<lparr>bd_errs := errs\<rparr>, Inl (IterateEquityErr runID err))
           | (errs, Inr (out, None)) \<Rightarrow> (db1\<lparr>bd_errs := errs\<rparr>, Inr out)))"

lemma queries_ok:
  "bd_errs db = [] \<Longrightarrow> QueryTrades ordered runID db =
     (db, Inr (map tradeOfRow (ordered (filter (\<lambda>r. tw_run_id r = runID) (bd_trades db)))))"
  "bd_errs db = [] \<Longrightarrow> QueryEquityPoints orderedE runID db =
     (db, Inr (orderedE (filter (\<lambda>p. ep_RunID p = runID) (bd_equity db))))"
  using scanRows_total [of id] scanRows_total [of tradeOfRow]
  by (simp_all add: QueryTrades_def QueryEquityPoints_def banswer_def comp_def)

section \<open>The schema\<close>

text \<open>The primary keys and the references of the tables.\<close>

definition schema_ok :: "('d, 'f) backtest_db \<Rightarrow> bool" where
  "schema_ok db \<longleftrightarrow> distinct (map bw_run_id (bd_runs db)) \<and> distinct (map tradeKey (bd_trades db)) \<and>
     distinct (map (mr_RunID \<circ> fst) (bd_metrics db)) \<and>
     (\<forall>r \<in> set (bd_trades db). hasRun (tw_run_id r) db) \<and>
     (\<forall>p \<in> set (bd_equity db). hasRun (ep_RunID p) db) \<and>
     (\<forall>g \<in> set (bd_gaps db). hasRun (gw_run_id g) db) \<and>
     (\<forall>m \<in> set (bd_metrics db). hasRun (mr_RunID (fst m)) db)"

text \<open>What the methods do when nothing fails, and that they keep everything else.\<close>

lemma banswer_tables:
  "banswer db = (db1, e) \<Longrightarrow> bd_runs db1 = bd_runs db \<and> bd_trades db1 = bd_trades db \<and>
     bd_equity db1 = bd_equity db \<and> bd_gaps db1 = bd_gaps db \<and> bd_metrics db1 = bd_metrics db"
  by (auto simp: banswer_def split: list.splits)

lemma banswer_none [simp]: "bd_errs db = [] \<Longrightarrow> banswer db = (db, None)"
  by (simp add: banswer_def)

lemma exec_ok [simp]:
  "bd_errs db = [] \<Longrightarrow> violated db = None \<Longrightarrow> exec violated change wrap db = (change db, None)"
  by (simp add: exec_def)

text \<open>An invariant of the tables is kept by a statement when its change keeps it.\<close>

lemma exec_keeps:
  assumes "Q db" and "\<And>db1. bd_runs db1 = bd_runs db \<and> bd_trades db1 = bd_trades db \<and>
      bd_equity db1 = bd_equity db \<and> bd_gaps db1 = bd_gaps db \<and> bd_metrics db1 = bd_metrics db \<Longrightarrow> Q db1"
    and "\<And>db1. Q db1 \<Longrightarrow> violated db1 = None \<Longrightarrow> Q (change db1)"
  shows "Q (fst (exec violated change wrap db))"
proof -
  obtain db1 e where a: "banswer db = (db1, e)" by fastforce
  have "Q db1" using assms(2) banswer_tables [OF a] by blast
  then show ?thesis using assms(3) by (simp add: exec_def a split: option.split)
qed

lemma schema_ok_tables:
  "schema_ok db \<Longrightarrow> bd_runs db1 = bd_runs db \<and> bd_trades db1 = bd_trades db \<and>
     bd_equity db1 = bd_equity db \<and> bd_gaps db1 = bd_gaps db \<and> bd_metrics db1 = bd_metrics db \<Longrightarrow>
   schema_ok db1"
  by (simp add: schema_ok_def hasRun_def)

lemma schema_exec:
  assumes "schema_ok db" and "\<And>db1. schema_ok db1 \<Longrightarrow> violated db1 = None \<Longrightarrow> schema_ok (change db1)"
  shows "schema_ok (fst (exec violated change wrap db))"
  using assms(1) schema_ok_tables [OF assms(1)] assms(2) by (rule exec_keeps)

lemma hasRun_sels [simp]:
  "hasRun i (db\<lparr>bd_trades := ts\<rparr>) = hasRun i db" "hasRun i (db\<lparr>bd_equity := es\<rparr>) = hasRun i db"
  "hasRun i (db\<lparr>bd_gaps := gs\<rparr>) = hasRun i db" "hasRun i (db\<lparr>bd_metrics := ms\<rparr>) = hasRun i db"
  by (simp_all add: hasRun_def)

lemma hasRun_ids: "hasRun i db \<longleftrightarrow> i \<in> set (map bw_run_id (bd_runs db))"
  by (auto simp: hasRun_def)

lemma schema_ok_runs:
  assumes "schema_ok db" and "map bw_run_id rs = map bw_run_id (bd_runs db)"
  shows "schema_ok (db\<lparr>bd_runs := rs\<rparr>)"
proof -
  have "hasRun i (db\<lparr>bd_runs := rs\<rparr>) = hasRun i db" for i
  proof -
    have "bd_runs (db\<lparr>bd_runs := rs\<rparr>) = rs" by simp
    then show ?thesis unfolding hasRun_ids by (simp only: assms(2))
  qed
  with assms show ?thesis by (simp add: schema_ok_def)
qed

lemma refersTo_None [simp]: "refersTo i db = None \<longleftrightarrow> hasRun i db"
  by (simp add: refersTo_def)

section \<open>What is stored is read back\<close>

text \<open>The writes of a run's results, in the order they are made.\<close>

datatype 'd result_op =
    StoreTrade "'d trade_record" | StorePoint "'d equity_point" | StoreGap string string time time
  | StoreMetrics time "'d metrics_record"

definition storeOp ::
  "pg \<Rightarrow> 'd result_op \<Rightarrow> ('d, 'f) backtest_db \<Rightarrow> ('d, 'f) backtest_db \<times> bt_error option" where
  "storeOp P op1 db =
     (case op1 of
        StoreTrade t \<Rightarrow> WriteTrade P t db
      | StorePoint p \<Rightarrow> WriteEquityPoint P p db
      | StoreGap runID symbol gapFrom gapTo \<Rightarrow> WriteDataGap P runID symbol gapFrom gapTo db
      | StoreMetrics now m \<Rightarrow> WriteMetrics P now m db)"

fun storeOps ::
  "pg \<Rightarrow> 'd result_op list \<Rightarrow> ('d, 'f) backtest_db \<Rightarrow> ('d, 'f) backtest_db \<times> bt_error option list" where
  "storeOps P [] db = (db, [])"
| "storeOps P (op1 # ops) db =
     (case storeOp P op1 db of (db1, e) \<Rightarrow> (case storeOps P ops db1 of (db2, es) \<Rightarrow> (db2, e # es)))"

fun op_run :: "'d result_op \<Rightarrow> string" where
  "op_run (StoreTrade t) = tr_RunID t"
| "op_run (StorePoint p) = ep_RunID p"
| "op_run (StoreGap runID symbol a b) = runID"
| "op_run (StoreMetrics now m) = mr_RunID m"

text \<open>What the operations say of one run.\<close>

definition trades_stored :: "string \<Rightarrow> 'd result_op list \<Rightarrow> 'd trade_record list" where
  "trades_stored i ops = List.map_filter (\<lambda>op1. case op1 of
     StoreTrade t \<Rightarrow> if tr_RunID t = i then Some t else None | _ \<Rightarrow> None) ops"

definition points_stored :: "string \<Rightarrow> 'd result_op list \<Rightarrow> 'd equity_point list" where
  "points_stored i ops = List.map_filter (\<lambda>op1. case op1 of
     StorePoint p \<Rightarrow> if ep_RunID p = i then Some p else None | _ \<Rightarrow> None) ops"

definition gaps_stored :: "string \<Rightarrow> 'd result_op list \<Rightarrow> (string \<times> time \<times> time) list" where
  "gaps_stored i ops = List.map_filter (\<lambda>op1. case op1 of
     StoreGap r sy a b \<Rightarrow> if r = i then Some (sy, a, b) else None | _ \<Rightarrow> None) ops"

definition metrics_stored :: "string \<Rightarrow> 'd result_op list \<Rightarrow> ('d metrics_record \<times> time) list" where
  "metrics_stored i ops = List.map_filter (\<lambda>op1. case op1 of
     StoreMetrics now m \<Rightarrow> if mr_RunID m = i then Some (m, now) else None | _ \<Rightarrow> None) ops"

lemmas stored_defs = trades_stored_def points_stored_def gaps_stored_def metrics_stored_def

lemma map_filter_snoc: "List.map_filter f (xs @ [x]) = List.map_filter f xs @ (case f x of None \<Rightarrow> [] | Some y \<Rightarrow> [y])"
  by (induction xs) (simp_all add: List.map_filter_simps split: option.split)

lemma storeOps_snoc:
  "storeOps P (ops @ [op1]) db = (case storeOps P ops db of (db1, es) \<Rightarrow>
     (case storeOp P op1 db1 of (db2, e) \<Rightarrow> (db2, es @ [e])))"
  by (induction ops arbitrary: db) (auto split: prod.split)

definition stampTrade :: "pg \<Rightarrow> 'd trade_record \<Rightarrow> 'd trade_record" where
  "stampTrade P t = t\<lparr>tr_EventTime := pg_time P (tr_EventTime t)\<rparr>"

lemma tradeOfRow_tradeRow:
  assumes "side_of_string (string_of_side (tr_Side t)) = tr_Side t"
  shows "tradeOfRow (tradeRow P t) = stampTrade P t"
  using assms by (simp add: tradeOfRow_def tradeRow_def stampTrade_def nullif_empty_def)

text \<open>The rows of one run in the tables.\<close>

definition run_tables ::
  "string \<Rightarrow> ('d, 'f) backtest_db \<Rightarrow>
   'd trade_row list \<times> 'd equity_point list \<times> gap_row list \<times> ('d metrics_record \<times> time) list" where
  "run_tables i db =
     (filter (\<lambda>r. tw_run_id r = i) (bd_trades db), filter (\<lambda>p. ep_RunID p = i) (bd_equity db),
      filter (\<lambda>g. gw_run_id g = i) (bd_gaps db), filter (\<lambda>m. mr_RunID (fst m) = i) (bd_metrics db))"

definition stored_tables ::
  "pg \<Rightarrow> string \<Rightarrow> 'd result_op list \<Rightarrow>
   'd trade_row list \<times> 'd equity_point list \<times> gap_row list \<times> ('d metrics_record \<times> time) list" where
  "stored_tables P i ops =
     (map (tradeRow P) (firsts tr_TradeID (trades_stored i ops)), map (stampPoint P) (points_stored i ops),
      map (\<lambda>(sy, a, b). \<lparr>gw_run_id = i, gw_symbol = sy, gw_gap_from = pg_time P a, gw_gap_to = pg_time P b\<rparr>)
        (gaps_stored i ops),
      (let ms = metrics_stored i ops in if ms = [] then [] else [(fst (last ms), pg_time P (snd (last ms)))]))"

lemma filter_insert_trade:
  "filter (\<lambda>r. tw_run_id r = i) (insertNew tradeKey (tradeRow P t) rows) =
     (if tr_RunID t = i then insertNew tw_trade_id (tradeRow P t) (filter (\<lambda>r. tw_run_id r = i) rows)
      else filter (\<lambda>r. tw_run_id r = i) rows)"
  by (auto simp: insertNew_def tradeKey_def tradeRow_def)

lemma insertNew_rows:
  "insertNew tw_trade_id (tradeRow P t) (map (tradeRow P) ts) = map (tradeRow P) (insertNew tr_TradeID t ts)"
  by (auto simp: insertNew_def tradeRow_def)

lemma filter_upsert:
  "filter (\<lambda>m. mr_RunID (fst m) = i)
     (map (\<lambda>(r, t). if mr_RunID r = mr_RunID m then (m, now) else (r, t)) rows) =
   (if mr_RunID m = i then map (\<lambda>x. (m, now)) (filter (\<lambda>m. mr_RunID (fst m) = i) rows)
    else filter (\<lambda>m. mr_RunID (fst m) = i) rows)"
  by (induction rows) (auto split: prod.splits)

lemma has_metrics:
  "(\<exists>(r, t) \<in> set rows. mr_RunID r = i) \<longleftrightarrow> filter (\<lambda>m. mr_RunID (fst m) = i) rows \<noteq> []"
  by (auto simp: filter_empty_conv) (metis fst_conv)

text \<open>One write, when nothing fails and the run exists.\<close>

lemma storeOp_runs:
  assumes "bd_errs db = []" and "hasRun (op_run op1) db"
  shows "snd (storeOp P op1 db) = None \<and> bd_errs (fst (storeOp P op1 db)) = [] \<and>
    (\<forall>i. hasRun i (fst (storeOp P op1 db)) = hasRun i db)"
  using assms by (cases op1)
    (simp_all add: storeOp_def WriteTrade_def WriteEquityPoint_def WriteDataGap_def WriteMetrics_def)

lemma storeOp_rows:
  assumes "bd_errs db = []" and "hasRun (op_run op1) db" and tabs: "run_tables i db = stored_tables P i ops"
  shows "run_tables i (fst (storeOp P op1 db)) = stored_tables P i (ops @ [op1])"
proof (cases op1)
  case (StoreTrade t)
  then show ?thesis using assms
    by (simp add: storeOp_def WriteTrade_def run_tables_def stored_tables_def stored_defs map_filter_snoc
        filter_insert_trade insertNew_rows)
next
  case (StorePoint p)
  then show ?thesis using assms
    by (simp add: storeOp_def WriteEquityPoint_def run_tables_def stored_tables_def stored_defs map_filter_snoc
        stampPoint_def)
next
  case (StoreGap r sy a b)
  then show ?thesis using assms
    by (simp add: storeOp_def WriteDataGap_def run_tables_def stored_tables_def stored_defs map_filter_snoc)
next
  case (StoreMetrics now m)
  have rows: "filter (\<lambda>m. mr_RunID (fst m) = i) (bd_metrics db) =
      (let ms = metrics_stored i ops in if ms = [] then [] else [(fst (last ms), pg_time P (snd (last ms)))])"
    using tabs by (simp add: run_tables_def stored_tables_def)
  have "filter (\<lambda>m. mr_RunID (fst m) = i) (bd_metrics (fst (storeOp P op1 db))) =
      (if mr_RunID m = i then [(m, pg_time P now)]
       else filter (\<lambda>m. mr_RunID (fst m) = i) (bd_metrics db))"
    using assms(1,2) StoreMetrics rows
    by (auto simp: storeOp_def WriteMetrics_def has_metrics filter_upsert Let_def split: if_splits)
  moreover have "bd_trades (fst (storeOp P op1 db)) = bd_trades db" "bd_equity (fst (storeOp P op1 db)) = bd_equity db"
    "bd_gaps (fst (storeOp P op1 db)) = bd_gaps db"
    using assms(1,2) StoreMetrics by (simp_all add: storeOp_def WriteMetrics_def)
  ultimately show ?thesis using tabs rows StoreMetrics
    by (simp add: run_tables_def stored_tables_def stored_defs map_filter_snoc Let_def)
qed

lemma storeOps_rows:
  assumes "bd_errs db = []" and "\<forall>op1 \<in> set ops. hasRun (op_run op1) db" and "run_tables i db = ([], [], [], [])"
  shows "set (snd (storeOps P ops db)) \<subseteq> {None} \<and> bd_errs (fst (storeOps P ops db)) = [] \<and>
    (\<forall>i. hasRun i (fst (storeOps P ops db)) = hasRun i db) \<and>
    run_tables i (fst (storeOps P ops db)) = stored_tables P i ops"
  using assms
proof (induction ops rule: rev_induct)
  case Nil
  then show ?case by (simp add: stored_tables_def stored_defs List.map_filter_simps)
next
  case (snoc op1 ops)
  obtain db1 es where st: "storeOps P ops db = (db1, es)" by fastforce
  have ih: "set es \<subseteq> {None}" "bd_errs db1 = []" "\<forall>i. hasRun i db1 = hasRun i db"
    "run_tables i db1 = stored_tables P i ops"
    using snoc st by simp_all
  then have run: "hasRun (op_run op1) db1" using snoc.prems(2) by simp
  from storeOp_runs [OF ih(2) run, of P] storeOp_rows [OF ih(2) run ih(4)] ih(1,3)
  show ?case by (auto simp: storeOps_snoc st split: prod.split)
qed

text \<open>
  C24 (roundtrip): the results of a run are read back as they were written. Whatever trades, equity
  points, gaps and metrics are written for existing runs, in any order and with any repetitions, no write
  fails. Then the query of a run that had none returns its trades, each once: of several with the same id
  the first one, so that a redelivered trade changes nothing; and its equity points, all of them, a
  redelivered one twice; both with what was written in every column (times rounded to those of the column) and by
  event time; the table of gaps has the run's gaps and the table of metrics one row for it, the last written,
  computed at its clock reading. Other runs' rows are not returned, and the queries change nothing.
\<close>

theorem results_are_read_back:
  fixes db :: "('d, 'f) backtest_db"
  assumes "bd_errs db = []" and "\<forall>op1 \<in> set ops. hasRun (op_run op1) db" and "run_tables i db = ([], [], [], [])"
    and "\<forall>t \<in> set (trades_stored i ops). side_of_string (string_of_side (tr_Side t)) = tr_Side t"
    and "orders_by tw_event_time orderedT" and "orders_by ep_EventTime orderedE"
    and "storeOps P ops db = (db', errs)"
  shows "set errs \<subseteq> {None} \<and>
    (\<exists>ts ps. QueryTrades orderedT i db' = (db', Inr ts) \<and> QueryEquityPoints orderedE i db' = (db', Inr ps) \<and>
       mset ts = mset (map (stampTrade P) (firsts tr_TradeID (trades_stored i ops))) \<and>
       sorted (map tr_EventTime ts) \<and>
       mset ps = mset (map (stampPoint P) (points_stored i ops)) \<and> sorted (map ep_EventTime ps)) \<and>
    filter (\<lambda>g. gw_run_id g = i) (bd_gaps db') = map (\<lambda>(sy, a, b). \<lparr>gw_run_id = i, gw_symbol = sy,
       gw_gap_from = pg_time P a, gw_gap_to = pg_time P b\<rparr>) (gaps_stored i ops) \<and>
    filter (\<lambda>m. mr_RunID (fst m) = i) (bd_metrics db') =
      (let ms = metrics_stored i ops in if ms = [] then [] else [(fst (last ms), pg_time P (snd (last ms)))])"
proof -
  have st: "set errs \<subseteq> {None}" "bd_errs db' = []" "run_tables i db' = stored_tables P i ops"
    using storeOps_rows [OF assms(1-3), of P] assms(7) by simp_all
  let ?rows = "filter (\<lambda>r. tw_run_id r = i) (bd_trades db')" and ?ps = "filter (\<lambda>p. ep_RunID p = i) (bd_equity db')"
  let ?ts = "map tradeOfRow (orderedT ?rows)"
  have rows: "?rows = map (tradeRow P) (firsts tr_TradeID (trades_stored i ops))" "?ps = map (stampPoint P) (points_stored i ops)"
    using st(3) by (simp_all add: run_tables_def stored_tables_def)
  have "map tradeOfRow ?rows = map (stampTrade P) (firsts tr_TradeID (trades_stored i ops))"
    using assms(4) firsts_subset [of tr_TradeID "trades_stored i ops"]
    unfolding rows(1) by (auto simp: tradeOfRow_tradeRow)
  moreover have "mset (orderedT ?rows) = mset ?rows" using assms(5) by (simp add: orders_by_def)
  ultimately have ts: "mset ?ts = mset (map (stampTrade P) (firsts tr_TradeID (trades_stored i ops)))"
    by (metis mset_map)
  have times: "map tr_EventTime ?ts = map tw_event_time (orderedT ?rows)" by (simp add: tradeOfRow_def)
  have sorted: "sorted (map tr_EventTime ?ts)" unfolding times using assms(5) by (simp add: orders_by_def)
  have ps: "mset (orderedE ?ps) = mset (map (stampPoint P) (points_stored i ops))" "sorted (map ep_EventTime (orderedE ?ps))"
    using assms(6) by (simp_all add: orders_by_def rows(2))
  from queries_ok [OF st(2)] ts sorted ps have "\<exists>ts ps. QueryTrades orderedT i db' = (db', Inr ts) \<and>
      QueryEquityPoints orderedE i db' = (db', Inr ps) \<and>
      mset ts = mset (map (stampTrade P) (firsts tr_TradeID (trades_stored i ops))) \<and> sorted (map tr_EventTime ts) \<and>
      mset ps = mset (map (stampPoint P) (points_stored i ops)) \<and> sorted (map ep_EventTime ps)"
    by (intro exI [of _ ?ts] exI [of _ "orderedE ?ps"]) simp
  with st(1,3) show ?thesis by (simp add: run_tables_def stored_tables_def)
qed

definition wit_bdb :: "(rat, rat) backtest_db" where
  "wit_bdb = \<lparr>bd_runs = [runRow micro_pg \<lparr>rr_RunID = ''r1'', rr_Symbols = [''BTCUSDT''], rr_FromTime = 0,
     rr_ToTime = 1000, rr_SpeedMode = SpeedAFAP, rr_SpeedFactor = None, rr_StrategyConfig = ''{}'',
     rr_Status = RunStatusPending\<rparr>], bd_trades = [], bd_equity = [], bd_gaps = [], bd_metrics = [], bd_errs = []\<rparr>"

lemma schema_wit_bdb [simp]: "schema_ok wit_bdb" "bd_errs wit_bdb = []" "hasRun ''r1'' wit_bdb"
  by (simp_all add: schema_ok_def wit_bdb_def hasRun_def runRow_def)

lemma orders_by_sort_key [simp]: "orders_by key (sort_key key)"
  by (simp add: orders_by_def)

definition wit_stored_trade :: "string \<Rightarrow> time \<Rightarrow> rat trade_record" where
  "wit_stored_trade i t = \<lparr>tr_RunID = ''r1'', tr_TradeID = i, tr_Symbol = ''BTCUSDT'', tr_EventTime = t,
     tr_Side = SideBuy, tr_FillPrice = 100, tr_FillQty = 1, tr_Fee = 0, tr_SignalName = ''s''\<rparr>"

lemma results_are_read_back_witness:
  "let db' = fst (storeOps micro_pg [StoreTrade (wit_stored_trade ''b'' 2000), StoreTrade (wit_stored_trade ''a'' 1000),
        StoreTrade (wit_stored_trade ''b'' 3000)] wit_bdb) in
   \<exists>ts. QueryTrades (sort_key tw_event_time) ''r1'' db' = (db', Inr ts) \<and>
     mset ts = {#wit_stored_trade ''a'' 1000, wit_stored_trade ''b'' 2000#}"
proof -
  let ?ops = "[StoreTrade (wit_stored_trade ''b'' 2000), StoreTrade (wit_stored_trade ''a'' 1000), StoreTrade (wit_stored_trade ''b'' 3000)]"
  obtain db' errs where st: "storeOps micro_pg ?ops wit_bdb = (db', errs)" by fastforce
  have tr: "trades_stored ''r1'' ?ops = [wit_stored_trade ''b'' 2000, wit_stored_trade ''a'' 1000, wit_stored_trade ''b'' 3000]"
    by (simp add: trades_stored_def List.map_filter_simps wit_stored_trade_def)
  have none: "run_tables ''r1'' wit_bdb = ([], [], [], [])"
    by (simp add: run_tables_def wit_bdb_def)
  have side: "\<forall>t \<in> set (trades_stored ''r1'' ?ops). side_of_string (string_of_side (tr_Side t)) = tr_Side t"
    unfolding tr by (simp add: wit_stored_trade_def)
  have runs: "\<forall>op1 \<in> set ?ops. hasRun (op_run op1) wit_bdb" by (simp add: wit_stored_trade_def)
  have "map (stampTrade micro_pg) (firsts tr_TradeID (trades_stored ''r1'' ?ops)) =
      [wit_stored_trade ''b'' 2000, wit_stored_trade ''a'' 1000]"
    unfolding tr by (simp add: firsts_def insertNew_def wit_stored_trade_def stampTrade_def micro_pg_def)
  with results_are_read_back [OF schema_wit_bdb(2) runs none side orders_by_sort_key orders_by_sort_key st]
  show ?thesis unfolding st Let_def fst_conv by (simp add: add_mset_commute) blast
qed

end
