(* ===== verification/Signals.thy ===== *)
theory Signals
  imports Wire
begin

text \<open>
  The signal service: the three signals (engine/signals/compute/signals.go) and the consumer that
  reads book updates, publishes the signals of each and acknowledges it
  (engine/signals/consumer/consumer.go).
\<close>

section \<open>The signals\<close>

text \<open>\<open>sumQty\<close>: the loop over the levels from index \<open>i\<close>, with its break at the depth.\<close>

fun sumQtyFrom :: "int \<Rightarrow> 'd::linordered_idom \<Rightarrow> 'd price_level list \<Rightarrow> int \<Rightarrow> 'd" where
  "sumQtyFrom i tot [] depth = tot"
| "sumQtyFrom i tot (lvl # lvls) depth =
     (if 0 < depth \<and> depth \<le> i then tot
      else sumQtyFrom (i + 1) (tot + pl_Quantity lvl) lvls depth)"

definition sumQty :: "'d::linordered_idom price_level list \<Rightarrow> int \<Rightarrow> 'd" where
  "sumQty levels depth = sumQtyFrom 0 0 levels depth"

definition bookImbalance ::
  "'d::linordered_idom decimal_pkg \<Rightarrow> 'd l2_event \<Rightarrow> int \<Rightarrow> 'd signal_event" where
  "bookImbalance D event depth =
     (let bidQty = sumQty (l2_Bids event) depth;
          askQty = sumQty (l2_Asks event) depth;
          tot = bidQty + askQty
      in \<lparr>sg_RunID = l2_RunID event, sg_Symbol = l2_Symbol event, sg_EventTime = l2_EventTime event,
          sg_Name = ''book_imbalance'', sg_Version = ''1'',
          sg_Value = (if tot \<noteq> 0 then DDiv D (bidQty - askQty) tot else 0),
          sg_Params = [(''depth'', formatInt depth)]\<rparr>)"

definition spreadBps ::
  "'d::linordered_idom decimal_pkg \<Rightarrow> 'd l2_event \<Rightarrow> 'd signal_event" where
  "spreadBps D event =
     \<lparr>sg_RunID = l2_RunID event, sg_Symbol = l2_Symbol event, sg_EventTime = l2_EventTime event,
      sg_Name = ''spread_bps'', sg_Version = ''1'',
      sg_Value =
        (case (l2_Bids event, l2_Asks event) of
           (bid # bids, ask # asks) \<Rightarrow>
             (let bestBid = pl_Price bid; bestAsk = pl_Price ask;
                  mid = DDiv D (bestBid + bestAsk) 2
              in if mid \<noteq> 0 then DDiv D (bestAsk - bestBid) mid * 10000 else 0)
         | _ \<Rightarrow> 0),
      sg_Params = []\<rparr>"

definition midPrice ::
  "'d::linordered_idom decimal_pkg \<Rightarrow> 'd l2_event \<Rightarrow> 'd signal_event" where
  "midPrice D event =
     \<lparr>sg_RunID = l2_RunID event, sg_Symbol = l2_Symbol event, sg_EventTime = l2_EventTime event,
      sg_Name = ''mid_price'', sg_Version = ''1'',
      sg_Value =
        (case (l2_Bids event, l2_Asks event) of
           (bid # bids, ask # asks) \<Rightarrow> DDiv D (pl_Price bid + pl_Price ask) 2
         | _ \<Rightarrow> 0),
      sg_Params = []\<rparr>"

definition AllSignals ::
  "'d::linordered_idom decimal_pkg \<Rightarrow> 'd l2_event \<Rightarrow> int \<Rightarrow> 'd signal_event list" where
  "AllSignals D event depth = [bookImbalance D event depth, spreadBps D event, midPrice D event]"

text \<open>
  What every signal promises its consumers: its identity and that run, symbol and event time
  are those of the event that triggered it.
\<close>

locale signal =
  fixes f :: "'d l2_event \<Rightarrow> 'd signal_event" and name :: string
  assumes provenance: "sg_RunID (f e) = l2_RunID e \<and> sg_Symbol (f e) = l2_Symbol e \<and>
      sg_EventTime (f e) = l2_EventTime e"
    and names: "sg_Name (f e) = name \<and> sg_Version (f e) = ''1''"
begin

lemma same_event: "l2_EventTime e \<le> l2_EventTime e' \<Longrightarrow> sg_EventTime (f e) \<le> sg_EventTime (f e')"
  by (simp add: provenance)

lemma stamp: "(sg_RunID (f e), sg_Symbol (f e), sg_EventTime (f e), sg_Name (f e)) =
    (l2_RunID e, l2_Symbol e, l2_EventTime e, name)"
  by (simp add: provenance names)

end

interpretation sig_imbalance: signal "\<lambda>e. bookImbalance D e depth" "''book_imbalance''"
  for D :: "'d::linordered_idom decimal_pkg" and depth
  by unfold_locales (simp_all add: bookImbalance_def Let_def)

interpretation sig_spread: signal "spreadBps D" "''spread_bps''"
  for D :: "'d::linordered_idom decimal_pkg"
  by unfold_locales (simp_all add: spreadBps_def)

interpretation sig_mid: signal "midPrice D" "''mid_price''"
  for D :: "'d::linordered_idom decimal_pkg"
  by unfold_locales (simp_all add: midPrice_def)

section \<open>The consumer\<close>

definition groupName :: string where
  "groupName = ''erebor-signals''"

definition inputKey :: "string \<Rightarrow> string \<Rightarrow> string" where
  "inputKey namespace symbol = namespace @ '':l2:'' @ ToUpper symbol"

text \<open>
  The calls the consumer makes, oldest first. Errors of publishing and acknowledging are only
  logged.
\<close>

datatype 'd signal_call =
    PublishSignal "'d signal_event"
  | XAck string string string

definition handleSignalMessage ::
  "'d::linordered_idom decimal_pkg \<Rightarrow> int \<Rightarrow> string \<Rightarrow> string \<times> fields \<Rightarrow>
   'd signal_call list" where
  "handleSignalMessage D depth streamKey msg =
     (case decodeL2BookUpdateEvent D (snd msg) of
        None \<Rightarrow> [XAck streamKey groupName (fst msg)]
      | Some event \<Rightarrow>
          map PublishSignal (AllSignals D event depth) @ [XAck streamKey groupName (fst msg)])"

text \<open>
  The results of XREADGROUP: a block timeout, an error (with whether the context is done), or
  the new messages per stream. Only an error with a done context ends the loop.
\<close>

datatype 'm read_group =
    GroupTimeout
  | GroupError bool
  | GroupEntries "(string \<times> (string \<times> 'm) list) list"

fun signalReadLoop ::
  "'d::linordered_idom decimal_pkg \<Rightarrow> int \<Rightarrow> fields read_group list \<Rightarrow>
   'd signal_call list" where
  "signalReadLoop D depth [] = []"
| "signalReadLoop D depth (GroupTimeout # rs) = signalReadLoop D depth rs"
| "signalReadLoop D depth (GroupError ctxDone # rs) =
     (if ctxDone then [] else signalReadLoop D depth rs)"
| "signalReadLoop D depth (GroupEntries entries # rs) =
     concat (map (\<lambda>(streamKey, msgs).
       concat (map (handleSignalMessage D depth streamKey) msgs)) entries) @
     signalReadLoop D depth rs"

text \<open>\<open>Start\<close>: one group per symbol; any error but BUSYGROUP stops before the loop starts.\<close>

fun startGroups :: "string \<Rightarrow> (string \<Rightarrow> string option) \<Rightarrow> string list \<Rightarrow> string list \<times> string option" where
  "startGroups ns create [] = ([], None)"
| "startGroups ns create (s # ss) =
     (let key = inputKey ns s in
      case create key of
        Some err \<Rightarrow>
          if Contains err ''BUSYGROUP''
          then (case startGroups ns create ss of (ks, e) \<Rightarrow> (key # ks, e))
          else ([key], Some (''create consumer group for '' @ key @ '': '' @ err))
      | None \<Rightarrow> (case startGroups ns create ss of (ks, e) \<Rightarrow> (key # ks, e)))"

section \<open>Facts\<close>

lemma sumQtyFrom_take:
  "sumQtyFrom i tot lvls depth = tot +
     (\<Sum>l \<leftarrow> (if 0 < depth then take (nat (depth - i)) lvls else lvls). pl_Quantity l)"
proof (induction lvls arbitrary: i tot)
  case Nil
  then show ?case by simp
next
  case (Cons l lvls)
  have "take (nat (depth - i)) (l # lvls) = l # take (nat (depth - (i + 1))) lvls" if "i < depth"
  proof -
    have "nat (depth - i) = Suc (nat (depth - (i + 1)))" using that by simp
    then show ?thesis by simp
  qed
  then show ?case using Cons by (auto simp: algebra_simps)
qed

lemma sumQty_take:
  "sumQty lvls depth =
     (\<Sum>l \<leftarrow> (if 0 < depth then take (nat depth) lvls else lvls). pl_Quantity l)"
  by (simp add: sumQty_def sumQtyFrom_take)

lemma sum_list_nonneg':
  fixes g :: "'a \<Rightarrow> 'd::linordered_idom"
  shows "\<forall>x \<in> set xs. 0 \<le> g x \<Longrightarrow> 0 \<le> (\<Sum>x \<leftarrow> xs. g x)"
  by (induction xs) auto

lemma sumQty_nonneg:
  fixes lvls :: "'d::linordered_idom price_level list"
  assumes "\<forall>l \<in> set lvls. 0 \<le> pl_Quantity l"
  shows "0 \<le> sumQty lvls depth"
  using assms by (auto simp: sumQty_take intro!: sum_list_nonneg' dest: in_set_takeD)

lemma DDiv_two:
  fixes D :: "'d::linordered_idom decimal_pkg"
  assumes "decimal_div D"
  shows "10 ^ 16 * \<bar>2 * DDiv D a 2 - a\<bar> \<le> 1"
proof -
  obtain k :: int where k: "10 ^ 16 * DDiv D a 2 = of_int k"
    and near: "2 * \<bar>10 ^ 16 * a - of_int k * 2\<bar> \<le> \<bar>2 :: 'd\<bar>"
    using decimal_divE [OF assms, of 2 a] by auto
  have "10 ^ 16 * (2 * DDiv D a 2 - a) = - (10 ^ 16 * a - of_int k * 2)"
    using k by (simp add: algebra_simps flip: k)
  then have "10 ^ 16 * \<bar>2 * DDiv D a 2 - a\<bar> = \<bar>10 ^ 16 * a - of_int k * 2\<bar>"
    by (metis abs_minus_cancel abs_mult abs_numeral power_abs)
  with near show ?thesis by simp
qed

section \<open>Properties\<close>

text \<open>
  The book imbalance of a book with non-negative quantities is always between -1
  and 1, division rounding included, it is 0 for an empty book, and it only depends on the
  best \<open>depth\<close> levels of each side.
\<close>

lemma imbalance_bounds:
  fixes D :: "'d::linordered_idom decimal_pkg"
  assumes D: "decimal_div D" and q: "\<forall>l \<in> set (l2_Bids e @ l2_Asks e). 0 \<le> pl_Quantity l"
  shows "\<bar>sg_Value (bookImbalance D e depth)\<bar> \<le> 1 \<and>
    (l2_Bids e = [] \<and> l2_Asks e = [] \<longrightarrow> sg_Value (bookImbalance D e depth) = 0) \<and>
    (0 < depth \<longrightarrow> sg_Value (bookImbalance D e depth) =
       sg_Value (bookImbalance D (e\<lparr>l2_Bids := take (nat depth) (l2_Bids e),
         l2_Asks := take (nat depth) (l2_Asks e)\<rparr>) depth))"
proof -
  let ?b = "sumQty (l2_Bids e) depth" and ?a = "sumQty (l2_Asks e) depth"
  have "0 \<le> ?b" "0 \<le> ?a" using q by (auto intro: sumQty_nonneg)
  then have "\<bar>?b - ?a\<bar> \<le> \<bar>?b + ?a\<bar>" by linarith
  then have "\<bar>sg_Value (bookImbalance D e depth)\<bar> \<le> 1"
    using DDiv_abs_le_1 [OF D] by (auto simp: bookImbalance_def Let_def)
  then show ?thesis by (simp add: bookImbalance_def Let_def sumQty_take)
qed

definition wit_l2 :: "rat l2_event" where
  "wit_l2 = \<lparr>l2_RunID = [], l2_Symbol = ''BTCUSDT'', l2_EventTime = 5, l2_LastUpdateID = 10,
     l2_Bids = [\<lparr>pl_Price = 100, pl_Quantity = 2\<rparr>], l2_Asks = [\<lparr>pl_Price = 102, pl_Quantity = 1\<rparr>]\<rparr>"

lemma imbalance_bounds_witness: "\<bar>sg_Value (bookImbalance rat_pkg wit_l2 10)\<bar> \<le> 1"
  using imbalance_bounds [OF rat_pkg_div, of wit_l2 10] by (simp add: wit_l2_def)

text \<open>
  With both sides quoted the mid price is within half a unit of the 16th digit of
  the exact mean, the spread of an uncrossed book with a positive mid is not negative, and that
  of a locked book is 0; with one side empty both signals are 0.
\<close>

lemma mid_and_spread:
  fixes D :: "'d::linordered_idom decimal_pkg"
  assumes D: "decimal_div D"
  shows "(\<forall>b bs a as. l2_Bids e = b # bs \<and> l2_Asks e = a # as \<longrightarrow>
      10 ^ 16 * \<bar>2 * sg_Value (midPrice D e) - (pl_Price b + pl_Price a)\<bar> \<le> 1 \<and>
      (pl_Price b \<le> pl_Price a \<and> 0 < sg_Value (midPrice D e) \<longrightarrow> 0 \<le> sg_Value (spreadBps D e)) \<and>
      (pl_Price b = pl_Price a \<longrightarrow> sg_Value (spreadBps D e) = 0)) \<and>
    (l2_Bids e = [] \<or> l2_Asks e = [] \<longrightarrow>
      sg_Value (midPrice D e) = 0 \<and> sg_Value (spreadBps D e) = 0)"
proof -
  have zero: "DDiv D 0 m = 0" if "m \<noteq> 0" for m
    by (rule DDiv_exact [OF D that, where m = 0]) simp_all
  show ?thesis
    using DDiv_two [OF D] DDiv_nonneg [OF D] zero
    by (auto simp: midPrice_def spreadBps_def Let_def split: list.split)
qed

lemma mid_and_spread_witness:
  "10 ^ 16 * \<bar>2 * sg_Value (midPrice rat_pkg wit_l2) - 202\<bar> \<le> 1"
  using mid_and_spread [OF rat_pkg_div, of wit_l2] by (simp add: wit_l2_def)

text \<open>The messages delivered, the acknowledgements and the published signals, in order.\<close>

fun delivered :: "'m read_group list \<Rightarrow> (string \<times> string \<times> 'm) list" where
  "delivered [] = []"
| "delivered (GroupEntries entries # rs) =
     concat (map (\<lambda>(k, ms). map (\<lambda>(i, m). (k, i, m)) ms) entries) @ delivered rs"
| "delivered (r # rs) = delivered rs"

fun acks :: "'d signal_call list \<Rightarrow> (string \<times> string) list" where
  "acks [] = []"
| "acks (XAck k g i # cs) = (k, i) # acks cs"
| "acks (c # cs) = acks cs"

fun published :: "'d signal_call list \<Rightarrow> 'd signal_event list" where
  "published [] = []"
| "published (PublishSignal s # cs) = s # published cs"
| "published (c # cs) = published cs"

lemma acks_append [simp]: "acks (cs @ cs') = acks cs @ acks cs'"
  by (induction cs rule: acks.induct) simp_all

lemma published_append [simp]: "published (cs @ cs') = published cs @ published cs'"
  by (induction cs rule: published.induct) simp_all

lemma concat_entries:
  "concat (map (\<lambda>(k, ms). concat (map (g k) ms)) es) =
   concat (map (\<lambda>(k, i, m). g k (i, m)) (concat (map (\<lambda>(k, ms). map (\<lambda>(i, m). (k, i, m)) ms) es)))"
  by (induction es) (auto simp: comp_def case_prod_beta)

lemma signalReadLoop_delivered:
  "GroupError True \<notin> set rs \<Longrightarrow> signalReadLoop D depth rs =
     concat (map (\<lambda>(k, i, m). handleSignalMessage D depth k (i, m)) (delivered rs))"
  by (induction D depth rs rule: signalReadLoop.induct)
    (auto simp: concat_entries)

text \<open>
  Every message the group delivers is acknowledged exactly once and in the
  order of delivery, whether it decodes or not, and the signals published are, in
  this order, the three signals of each message that decodes, each stamped with the run, symbol
  and time of its event.
\<close>

lemma every_message_acked:
  assumes "GroupError True \<notin> set rs"
  shows "acks (signalReadLoop D depth rs) = map (\<lambda>(k, i, m). (k, i)) (delivered rs) \<and>
    map (\<lambda>s. (sg_RunID s, sg_Symbol s, sg_EventTime s, sg_Name s))
        (published (signalReadLoop D depth rs)) =
      concat (map (\<lambda>(k, i, m). case decodeL2BookUpdateEvent D m of None \<Rightarrow> []
        | Some e \<Rightarrow> map (\<lambda>n. (l2_RunID e, l2_Symbol e, l2_EventTime e, n))
           [''book_imbalance'', ''spread_bps'', ''mid_price'']) (delivered rs))"
proof -
  let ?all = "\<lambda>ms. concat (map (\<lambda>(k, i, m). handleSignalMessage D depth k (i, m)) ms)"
  have "acks (?all ms) = map (\<lambda>(k, i, m). (k, i)) ms" for ms
    by (induction ms) (auto simp: handleSignalMessage_def AllSignals_def split: option.split)
  moreover have "map (\<lambda>s. (sg_RunID s, sg_Symbol s, sg_EventTime s, sg_Name s))
      (published (?all ms)) = concat (map (\<lambda>(k, i, m). case decodeL2BookUpdateEvent D m of None \<Rightarrow> []
        | Some e \<Rightarrow> map (\<lambda>n. (l2_RunID e, l2_Symbol e, l2_EventTime e, n))
           [''book_imbalance'', ''spread_bps'', ''mid_price'']) ms)" for ms
    by (induction ms) (auto simp: handleSignalMessage_def AllSignals_def sig_imbalance.stamp
        sig_spread.stamp sig_mid.stamp split: option.split)
  ultimately show ?thesis by (simp only: signalReadLoop_delivered [OF assms])
qed

lemma every_message_acked_witness:
  "acks (signalReadLoop rat_pkg 5 [GroupTimeout, GroupError False, GroupEntries
      [(''l2'', [(''1'', l2Values rat_pkg [] ''btcusdt'' 5 10 [] []), (''2'', Map.empty)])]]) =
     [(''l2'', ''1''), (''l2'', ''2'')]"
  using every_message_acked [of "[GroupTimeout, GroupError False, GroupEntries
      [(''l2'', [(''1'', l2Values rat_pkg [] ''btcusdt'' 5 10 [] []), (''2'', Map.empty)])]]" rat_pkg 5]
  by simp

end
