(* ===== verification/Risk.thy ===== *)
theory Risk
  imports Decimal_Instance Domain
begin

text \<open>
  The pre-trade risk checker, engine/risk/checker.go, with its halt stores (haltstore.go)
  and its event publisher (publisher.go).

  The checker's record has the struct's fields. The halt store is an interface record over a state
  \<open>'s\<close> of the outside world, which the checker's operations thread through as \<open>ck_world\<close>;
  the Redis client behind \<open>RedisHaltStore\<close> is a parameter. \<open>ck_events\<close> is the list of
  events handed to the publisher, oldest first: publishing and persisting are fire-and-forget,
  their errors are only logged.
\<close>

section \<open>Halt stores\<close>

record 's halt_store =
  hs_SetHalted :: "string \<Rightarrow> 's \<Rightarrow> 's \<times> string option"
  hs_IsHalted :: "string \<Rightarrow> 's \<Rightarrow> string + bool"

text \<open>The two calls made of the Redis client: HSET, and HGET whose \<open>redis.Nil\<close> is \<open>None\<close>.\<close>

record 's redis_client =
  rd_HSet :: "string \<Rightarrow> string \<Rightarrow> string \<Rightarrow> 's \<Rightarrow> 's \<times> string option"
  rd_HGet :: "string \<Rightarrow> string \<Rightarrow> 's \<Rightarrow> string + string option"

text \<open>
  What Redis documents: after an HSET that answered without error an HGET that answers without
  error returns the value set for that field, and the old value for every other field.
\<close>

definition redis_hash :: "'s redis_client \<Rightarrow> bool" where
  "redis_hash rc \<longleftrightarrow> (\<forall>key field val s s'. rd_HSet rc key field val s = (s', None) \<longrightarrow>
     (\<forall>f v. rd_HGet rc key f s' = Inr v \<longrightarrow>
        (if f = field then v = Some val else (\<forall>w. rd_HGet rc key f s = Inr w \<longrightarrow> v = w))))"

definition haltHashKey :: string where
  "haltHashKey = ''erebor:live:halt''"

definition RedisHaltStore :: "'s redis_client \<Rightarrow> 's halt_store" where
  "RedisHaltStore rc = \<lparr>
     hs_SetHalted = (\<lambda>sessionID s.
       case rd_HSet rc haltHashKey sessionID ''1'' s of
         (s', Some err) \<Rightarrow> (s', Some (''persist halt for session '' @ sessionID @ '': '' @ err))
       | (s', None) \<Rightarrow> (s', None)),
     hs_IsHalted = (\<lambda>sessionID s.
       case rd_HGet rc haltHashKey sessionID s of
         Inl err \<Rightarrow> Inl (''check halt for session '' @ sessionID @ '': '' @ err)
       | Inr None \<Rightarrow> Inr False
       | Inr (Some val) \<Rightarrow> Inr (val = ''1''))\<rparr>"

definition NoopHaltStore :: "'s halt_store" where
  "NoopHaltStore = \<lparr>hs_SetHalted = (\<lambda>sessionID s. (s, None)),
     hs_IsHalted = (\<lambda>sessionID s. Inr False)\<rparr>"

section \<open>The checker\<close>

datatype event_type = EventPositionLimit | EventDrawdownHalt | EventRunLossHalt

fun event_type_string :: "event_type \<Rightarrow> string" where
  "event_type_string EventPositionLimit = ''POSITION_LIMIT''"
| "event_type_string EventDrawdownHalt = ''DRAWDOWN_HALT''"
| "event_type_string EventRunLossHalt = ''RUN_LOSS_HALT''"

record 'd risk_event =
  re_RunID :: string
  re_Symbol :: string
  re_EventTime :: time
  re_Type :: event_type
  re_Detail :: string
  re_Equity :: 'd

record 'd risk_config =
  rc_InitialCapital :: 'd
  rc_MaxPositionQty :: "string \<rightharpoonup> 'd"
  rc_MaxDrawdownPct :: 'd
  rc_RunLossLimitPct :: 'd

record ('s, 'd) checker =
  ck_cfg :: "'d risk_config"
  ck_haltStore :: "'s halt_store option"
  ck_namespace :: string
  ck_runID :: string
  ck_positions :: "string \<rightharpoonup> 'd"
  ck_equity :: 'd
  ck_peakEquity :: 'd
  ck_halted :: bool
  ck_haltReason :: string
  ck_haltChecked :: bool
  ck_world :: 's
  ck_events :: "(string \<times> 'd risk_event) list"

definition NewChecker ::
  "'d::zero risk_config \<Rightarrow> 's halt_store option \<Rightarrow> string \<Rightarrow> string \<Rightarrow> 's \<Rightarrow> ('s, 'd) checker" where
  "NewChecker cfg store namespace runID w =
     (let equity = (if rc_InitialCapital cfg = 0 then 0 else rc_InitialCapital cfg) in
      \<lparr>ck_cfg = cfg, ck_haltStore = store, ck_namespace = namespace, ck_runID = runID,
       ck_positions = Map.empty, ck_equity = equity, ck_peakEquity = equity,
       ck_halted = False, ck_haltReason = [], ck_haltChecked = False,
       ck_world = w, ck_events = []\<rparr>)"

text \<open>\<open>New\<close>, the constructor without log context: no namespace, run id or halt store.\<close>

definition NewPlain :: "'d::zero risk_config \<Rightarrow> 's \<Rightarrow> ('s, 'd) checker" where
  "NewPlain cfg w =
     (let equity = (if rc_InitialCapital cfg = 0 then 0 else rc_InitialCapital cfg) in
      \<lparr>ck_cfg = cfg, ck_haltStore = None, ck_namespace = [], ck_runID = [],
       ck_positions = Map.empty, ck_equity = equity, ck_peakEquity = equity,
       ck_halted = False, ck_haltReason = [], ck_haltChecked = False,
       ck_world = w, ck_events = []\<rparr>)"

lemma NewPlain_checker: "NewPlain cfg w = NewChecker cfg None [] [] w"
  by (simp add: NewPlain_def NewChecker_def)

definition Halted :: "('s, 'd) checker \<Rightarrow> bool" where
  "Halted c = ck_halted c"

definition probePersistedHalt :: "('s, 'd) checker \<Rightarrow> ('s, 'd) checker" where
  "probePersistedHalt c =
     (case ck_haltStore c of
        None \<Rightarrow> c
      | Some store \<Rightarrow>
          if ck_halted c \<or> ck_haltChecked c then c
          else let c1 = c\<lparr>ck_haltChecked := True\<rparr> in
               case hs_IsHalted store (ck_runID c1) (ck_world c1) of
                 Inl err \<Rightarrow> c1
               | Inr persisted \<Rightarrow>
                   if persisted
                   then c1\<lparr>ck_halted := True, ck_haltReason := ''persisted halt detected''\<rparr>
                   else c1)"

definition persistHalt :: "('s, 'd) checker \<Rightarrow> ('s, 'd) checker" where
  "persistHalt c =
     (case ck_haltStore c of
        None \<Rightarrow> c
      | Some store \<Rightarrow> c\<lparr>ck_world := fst (hs_SetHalted store (ck_runID c) (ck_world c))\<rparr>)"

definition publishEvent :: "'d risk_event \<Rightarrow> ('s, 'd) checker \<Rightarrow> ('s, 'd) checker" where
  "publishEvent evt c = c\<lparr>ck_events := ck_events c @ [(ck_namespace c, evt)]\<rparr>"

text \<open>The multiplication sign of the detail text, as its two UTF-8 bytes.\<close>

definition timesSign :: string where
  "timesSign = [CHR 0xC3, CHR 0x97]"

definition drawdownThreshold :: "'d::linordered_idom decimal_pkg \<Rightarrow> ('s, 'd) checker \<Rightarrow> 'd" where
  "drawdownThreshold D c =
     ck_peakEquity c * (1 - DDiv D (rc_MaxDrawdownPct (ck_cfg c)) 100)"

definition runLossThreshold :: "'d::linordered_idom decimal_pkg \<Rightarrow> ('s, 'd) checker \<Rightarrow> 'd" where
  "runLossThreshold D c =
     rc_InitialCapital (ck_cfg c) * (1 - DDiv D (rc_RunLossLimitPct (ck_cfg c)) 100)"

definition thresholdDetail :: "'d decimal_pkg \<Rightarrow> string \<Rightarrow> 'd \<Rightarrow> 'd \<Rightarrow> 'd \<Rightarrow> 'd \<Rightarrow> string" where
  "thresholdDetail D base equity basis pct threshold =
     ''equity '' @ DString D equity @ '' < '' @ base @ '' '' @ DString D basis @ '' '' @
     timesSign @ '' (1 - '' @ DString D pct @ ''/100) = '' @ DString D threshold"

text \<open>The common body of rules 2 and 3: the halt, its persistence, its event, the error.\<close>

definition haltWith ::
  "event_type \<Rightarrow> string \<Rightarrow> time \<Rightarrow> ('s, 'd) checker \<Rightarrow> ('s, 'd) checker \<times> string option" where
  "haltWith ty detail eventTime c =
     (let c1 = persistHalt (c\<lparr>ck_halted := True, ck_haltReason := event_type_string ty\<rparr>);
          c2 = publishEvent \<lparr>re_RunID = ck_runID c1, re_Symbol = [], re_EventTime = eventTime,
                 re_Type = ty, re_Detail = detail, re_Equity = ck_equity c1\<rparr> c1
      in (c2, Some (event_type_string ty @ '': '' @ detail)))"

definition proposedDelta :: "side \<Rightarrow> 'd::uminus \<Rightarrow> 'd" where
  "proposedDelta sd qty = (if sd = SideBuy then qty else - qty)"

definition checkPosition ::
  "'d::linordered_idom decimal_pkg \<Rightarrow> string \<Rightarrow> side \<Rightarrow> 'd \<Rightarrow> time \<Rightarrow> ('s, 'd) checker \<Rightarrow>
   ('s, 'd) checker \<times> string option" where
  "checkPosition D symbol sd qty eventTime c =
     (case rc_MaxPositionQty (ck_cfg c) symbol of
        None \<Rightarrow> (c, None)
      | Some maxQty \<Rightarrow>
          (let currentPos = lookup0 (ck_positions c) symbol;
               delta = proposedDelta sd qty;
               newQty = currentPos + delta
           in if maxQty < \<bar>newQty\<bar>
              then let detail = ''abs('' @ DString D currentPos @ '' + '' @ DString D delta @
                         '' = '' @ DString D newQty @ '') > max '' @ DString D maxQty
                   in (publishEvent \<lparr>re_RunID = ck_runID c, re_Symbol = symbol,
                          re_EventTime = eventTime, re_Type = EventPositionLimit,
                          re_Detail = detail, re_Equity = ck_equity c\<rparr> c,
                       Some (''POSITION_LIMIT: '' @ detail))
              else (c, None)))"

definition CanTrade ::
  "'d::linordered_idom decimal_pkg \<Rightarrow> string \<Rightarrow> side \<Rightarrow> 'd \<Rightarrow> time \<Rightarrow> ('s, 'd) checker \<Rightarrow>
   ('s, 'd) checker \<times> string option" where
  "CanTrade D symbol sd qty eventTime c0 =
     (let c = probePersistedHalt c0; cfg = ck_cfg c in
      if ck_halted c then (c, Some (ck_haltReason c @ '': checker is halted''))
      else if 0 < rc_MaxDrawdownPct cfg \<and> ck_equity c < drawdownThreshold D c
      then haltWith EventDrawdownHalt
             (thresholdDetail D ''peak'' (ck_equity c) (ck_peakEquity c) (rc_MaxDrawdownPct cfg)
               (drawdownThreshold D c)) eventTime c
      else if 0 < rc_RunLossLimitPct cfg \<and> ck_equity c < runLossThreshold D c
      then haltWith EventRunLossHalt
             (thresholdDetail D ''initial'' (ck_equity c) (rc_InitialCapital cfg)
               (rc_RunLossLimitPct cfg) (runLossThreshold D c)) eventTime c
      else checkPosition D symbol sd qty eventTime c)"

definition RecordFill ::
  "string \<Rightarrow> side \<Rightarrow> 'd::linordered_idom \<Rightarrow> 'd \<Rightarrow> 'd \<Rightarrow> ('s, 'd) checker \<Rightarrow> ('s, 'd) checker" where
  "RecordFill symbol sd qty fillPrice fee c =
     (let prevPos = lookup0 (ck_positions c) symbol;
          tradeValue = qty * fillPrice;
          c1 = (if sd = SideBuy
                then c\<lparr>ck_positions := (ck_positions c)(symbol \<mapsto> prevPos + qty),
                       ck_equity := ck_equity c - tradeValue - fee\<rparr>
                else c\<lparr>ck_positions := (ck_positions c)(symbol \<mapsto> prevPos - qty),
                       ck_equity := ck_equity c + tradeValue - fee\<rparr>)
      in if ck_peakEquity c1 < ck_equity c1 then c1\<lparr>ck_peakEquity := ck_equity c1\<rparr> else c1)"

section \<open>What the parts leave alone\<close>

lemma probe_sels [simp]:
  "ck_cfg (probePersistedHalt c) = ck_cfg c" "ck_haltStore (probePersistedHalt c) = ck_haltStore c"
  "ck_runID (probePersistedHalt c) = ck_runID c" "ck_world (probePersistedHalt c) = ck_world c"
  "ck_positions (probePersistedHalt c) = ck_positions c"
  "ck_equity (probePersistedHalt c) = ck_equity c"
  "ck_peakEquity (probePersistedHalt c) = ck_peakEquity c"
  "ck_events (probePersistedHalt c) = ck_events c"
  by (simp_all add: probePersistedHalt_def Let_def split: option.splits sum.splits)

lemma probe_halted [simp]: "ck_halted c \<Longrightarrow> probePersistedHalt c = c"
  by (simp add: probePersistedHalt_def split: option.splits)

lemma probe_keeps_halt: "ck_halted c \<Longrightarrow> ck_halted (probePersistedHalt c)" by simp

lemma persistHalt_sels [simp]:
  "ck_cfg (persistHalt c) = ck_cfg c" "ck_runID (persistHalt c) = ck_runID c"
  "ck_haltStore (persistHalt c) = ck_haltStore c"
  "ck_positions (persistHalt c) = ck_positions c" "ck_equity (persistHalt c) = ck_equity c"
  "ck_peakEquity (persistHalt c) = ck_peakEquity c" "ck_halted (persistHalt c) = ck_halted c"
  "ck_haltReason (persistHalt c) = ck_haltReason c"
  "ck_haltChecked (persistHalt c) = ck_haltChecked c" "ck_events (persistHalt c) = ck_events c"
  by (simp_all add: persistHalt_def split: option.splits)

lemma publishEvent_sels [simp]:
  "ck_cfg (publishEvent e c) = ck_cfg c" "ck_positions (publishEvent e c) = ck_positions c"
  "ck_equity (publishEvent e c) = ck_equity c" "ck_peakEquity (publishEvent e c) = ck_peakEquity c"
  "ck_halted (publishEvent e c) = ck_halted c" "ck_world (publishEvent e c) = ck_world c"
  "ck_haltStore (publishEvent e c) = ck_haltStore c" "ck_runID (publishEvent e c) = ck_runID c"
  "ck_haltReason (publishEvent e c) = ck_haltReason c"
  by (simp_all add: publishEvent_def)

lemma haltWith_result [simp]:
  "snd (haltWith ty detail t c) = Some (event_type_string ty @ '': '' @ detail)"
  "ck_halted (fst (haltWith ty detail t c))"
  by (simp_all add: haltWith_def Let_def)

lemma haltWith_sels [simp]:
  "ck_cfg (fst (haltWith ty detail t c)) = ck_cfg c"
  "ck_positions (fst (haltWith ty detail t c)) = ck_positions c"
  "ck_equity (fst (haltWith ty detail t c)) = ck_equity c"
  "ck_peakEquity (fst (haltWith ty detail t c)) = ck_peakEquity c"
  by (simp_all add: haltWith_def Let_def)

lemma checkPosition_sels [simp]:
  "ck_cfg (fst (checkPosition D sy sd q t c)) = ck_cfg c"
  "ck_positions (fst (checkPosition D sy sd q t c)) = ck_positions c"
  "ck_equity (fst (checkPosition D sy sd q t c)) = ck_equity c"
  "ck_peakEquity (fst (checkPosition D sy sd q t c)) = ck_peakEquity c"
  "ck_halted (fst (checkPosition D sy sd q t c)) = ck_halted c"
  by (simp_all add: checkPosition_def Let_def split: option.splits)

lemma CanTrade_sels [simp]:
  "ck_cfg (fst (CanTrade D sy sd q t c)) = ck_cfg c"
  "ck_positions (fst (CanTrade D sy sd q t c)) = ck_positions c"
  "ck_equity (fst (CanTrade D sy sd q t c)) = ck_equity c"
  "ck_peakEquity (fst (CanTrade D sy sd q t c)) = ck_peakEquity c"
  by (simp_all add: CanTrade_def Let_def)

lemma CanTrade_halted:
  "ck_halted c \<Longrightarrow> CanTrade D sy sd q t c = (c, Some (ck_haltReason c @ '': checker is halted''))"
  by (simp add: CanTrade_def Let_def)

lemma RecordFill_halted [simp]: "ck_halted (RecordFill sy sd q p f c) = ck_halted c"
  "ck_haltReason (RecordFill sy sd q p f c) = ck_haltReason c"
  "ck_cfg (RecordFill sy sd q p f c) = ck_cfg c"
  by (simp_all add: RecordFill_def Let_def)

lemma RecordFill_positions [simp]:
  "ck_positions (RecordFill sy sd q p f c) =
     (ck_positions c)(sy \<mapsto> lookup0 (ck_positions c) sy + proposedDelta sd q)"
  by (simp add: RecordFill_def Let_def proposedDelta_def)

lemma RecordFill_equity [simp]:
  "ck_equity (RecordFill sy sd q p f c) = ck_equity c - proposedDelta sd q * p - f"
  by (simp add: RecordFill_def Let_def proposedDelta_def)

lemma RecordFill_peak [simp]:
  "ck_peakEquity (RecordFill sy sd q p f c) =
     max (ck_peakEquity c) (ck_equity c - proposedDelta sd q * p - f)"
  by (simp add: RecordFill_def Let_def proposedDelta_def max_def)

section \<open>Sequences of operations\<close>

datatype 'd risk_op =
    OpCanTrade string side 'd time
  | OpRecordFill string side 'd 'd 'd

fun risk_op_step ::
  "'d::linordered_idom decimal_pkg \<Rightarrow> 'd risk_op \<Rightarrow> ('s, 'd) checker \<Rightarrow>
   ('s, 'd) checker \<times> string option" where
  "risk_op_step D (OpCanTrade sy sd q t) c = CanTrade D sy sd q t c"
| "risk_op_step D (OpRecordFill sy sd q p f) c = (RecordFill sy sd q p f c, None)"

fun risk_ops ::
  "'d::linordered_idom decimal_pkg \<Rightarrow> 'd risk_op list \<Rightarrow> ('s, 'd) checker \<Rightarrow>
   ('s, 'd) checker \<times> string option list" where
  "risk_ops D [] c = (c, [])"
| "risk_ops D (op1 # ops) c =
     (case risk_op_step D op1 c of
        (c1, r) \<Rightarrow> (case risk_ops D ops c1 of (c2, rs) \<Rightarrow> (c2, r # rs)))"

text \<open>The protocol of the callers: a fill is recorded exactly when the check passed.\<close>

record 'd order_req =
  rq_symbol :: string
  rq_side :: side
  rq_qty :: 'd
  rq_time :: time
  rq_price :: 'd
  rq_fee :: 'd

text \<open>The fill an order books.\<close>

definition fill_of :: "'d order_event \<Rightarrow> 'd order_req" where
  "fill_of ev = \<lparr>rq_symbol = oe_Symbol ev, rq_side = oe_Side ev, rq_qty = oe_FillQty ev,
     rq_time = oe_EventTime ev, rq_price = oe_FillPrice ev, rq_fee = oe_Fee ev\<rparr>"

definition place ::
  "'d::linordered_idom decimal_pkg \<Rightarrow> 'd order_req \<Rightarrow> ('s, 'd) checker \<Rightarrow> ('s, 'd) checker" where
  "place D r c =
     (case CanTrade D (rq_symbol r) (rq_side r) (rq_qty r) (rq_time r) c of
        (c1, None) \<Rightarrow> RecordFill (rq_symbol r) (rq_side r) (rq_qty r) (rq_price r) (rq_fee r) c1
      | (c1, Some err) \<Rightarrow> c1)"

lemma place_cfg [simp]: "ck_cfg (place D r c) = ck_cfg c"
proof -
  have "ck_cfg (fst (CanTrade D (rq_symbol r) (rq_side r) (rq_qty r) (rq_time r) c)) = ck_cfg c"
    by simp
  then show ?thesis by (auto simp: place_def simp del: CanTrade_sels split: prod.split option.split)
qed

lemma CanTrade_None:
  "snd (CanTrade D sy sd q t c) = None \<longleftrightarrow>
     \<not> ck_halted (probePersistedHalt c) \<and>
     (0 < rc_MaxDrawdownPct (ck_cfg c) \<longrightarrow> drawdownThreshold D c \<le> ck_equity c) \<and>
     (0 < rc_RunLossLimitPct (ck_cfg c) \<longrightarrow> runLossThreshold D c \<le> ck_equity c) \<and>
     (\<forall>m. rc_MaxPositionQty (ck_cfg c) sy = Some m \<longrightarrow>
        \<bar>lookup0 (ck_positions c) sy + proposedDelta sd q\<bar> \<le> m)"
  by (auto simp: CanTrade_def Let_def checkPosition_def drawdownThreshold_def runLossThreshold_def
      not_less split: option.splits)

definition within_limits :: "('s, 'd::linordered_idom) checker \<Rightarrow> bool" where
  "within_limits c \<longleftrightarrow> (\<forall>sy m. rc_MaxPositionQty (ck_cfg c) sy = Some m \<and> 0 \<le> m \<longrightarrow>
     \<bar>lookup0 (ck_positions c) sy\<bar> \<le> m)"

lemma place_within_limits:
  assumes "within_limits c"
  shows "within_limits (place D r c)"
proof (cases "snd (CanTrade D (rq_symbol r) (rq_side r) (rq_qty r) (rq_time r) c)")
  case None
  let ?c1 = "fst (CanTrade D (rq_symbol r) (rq_side r) (rq_qty r) (rq_time r) c)"
  have p: "place D r c =
      RecordFill (rq_symbol r) (rq_side r) (rq_qty r) (rq_price r) (rq_fee r) ?c1"
    using None by (simp add: place_def case_prod_beta)
  from None have "\<forall>m. rc_MaxPositionQty (ck_cfg c) (rq_symbol r) = Some m \<longrightarrow>
      \<bar>lookup0 (ck_positions c) (rq_symbol r) + proposedDelta (rq_side r) (rq_qty r)\<bar> \<le> m"
    unfolding CanTrade_None by blast
  then show ?thesis using assms by (simp add: within_limits_def p)
next
  case (Some err)
  then have "place D r c = fst (CanTrade D (rq_symbol r) (rq_side r) (rq_qty r) (rq_time r) c)"
    by (simp add: place_def case_prod_beta)
  then show ?thesis using assms by (simp add: within_limits_def)
qed

lemma fold_place_within_limits: "within_limits c \<Longrightarrow> within_limits (fold (place D) reqs c)"
  by (induction reqs arbitrary: c) (simp_all add: place_within_limits)

lemma fold_place_cfg: "ck_cfg (fold (place D) reqs c) = ck_cfg c"
  by (induction reqs arbitrary: c) simp_all

lemma risk_ops_halted:
  assumes "ck_halted c"
  shows "ck_halted (fst (risk_ops D ops c)) \<and>
    (\<forall>(op1, r) \<in> set (zip ops (snd (risk_ops D ops c))).
       (\<exists>sy sd q t. op1 = OpCanTrade sy sd q t) \<longrightarrow>
         r = Some (ck_haltReason c @ '': checker is halted''))"
  using assms
proof (induction ops arbitrary: c)
  case Nil
  then show ?case by simp
next
  case (Cons op1 ops)
  obtain c1 r where st: "risk_op_step D op1 c = (c1, r)" by fastforce
  have c1: "ck_halted c1" "ck_haltReason c1 = ck_haltReason c"
    using st Cons.prems by (cases op1; force simp: CanTrade_halted)+
  have r: "(\<exists>sy sd q t. op1 = OpCanTrade sy sd q t) \<longrightarrow>
      r = Some (ck_haltReason c @ '': checker is halted'')"
    using st Cons.prems by (auto simp: CanTrade_halted)
  from Cons.IH [OF c1(1)] c1 r st show ?case by (auto split: prod.splits)
qed

text \<open>Recording fills one after another, and the equity after each of them.\<close>

definition record_req :: "'d::linordered_idom order_req \<Rightarrow> ('s, 'd) checker \<Rightarrow> ('s, 'd) checker" where
  "record_req r c = RecordFill (rq_symbol r) (rq_side r) (rq_qty r) (rq_price r) (rq_fee r) c"

definition signed_qty :: "'d::linordered_idom order_req \<Rightarrow> 'd" where
  "signed_qty r = (if rq_side r = SideBuy then rq_qty r else - rq_qty r)"

fun equity_path :: "'d::linordered_idom \<Rightarrow> 'd order_req list \<Rightarrow> 'd list" where
  "equity_path e [] = [e]"
| "equity_path e (r # rs) = e # equity_path (e - (signed_qty r * rq_price r + rq_fee r)) rs"

lemma equity_path_nonempty [simp]: "equity_path e rs \<noteq> []"
  by (cases rs) simp_all

lemma fold_record_req:
  assumes "ck_equity c \<le> ck_peakEquity c"
  shows "lookup0 (ck_positions (fold record_req fills c)) sy = lookup0 (ck_positions c) sy +
       (\<Sum>r \<leftarrow> filter (\<lambda>r. rq_symbol r = sy) fills. signed_qty r) \<and>
     ck_equity (fold record_req fills c) =
       ck_equity c - (\<Sum>r \<leftarrow> fills. signed_qty r * rq_price r + rq_fee r) \<and>
     ck_peakEquity (fold record_req fills c) =
       max (ck_peakEquity c) (Max (set (equity_path (ck_equity c) fills)))"
  using assms
proof (induction fills arbitrary: c)
  case Nil
  then show ?case by (simp add: max_def)
next
  case (Cons r fills)
  let ?c1 = "record_req r c"
  have sg: "proposedDelta (rq_side r) (rq_qty r) = signed_qty r"
    by (simp add: proposedDelta_def signed_qty_def)
  have eq: "ck_equity ?c1 = ck_equity c - (signed_qty r * rq_price r + rq_fee r)"
    by (simp add: record_req_def sg)
  have pk: "ck_peakEquity ?c1 = max (ck_peakEquity c) (ck_equity ?c1)"
    by (simp add: record_req_def sg)
  have "ck_equity ?c1 \<le> Max (set (equity_path (ck_equity ?c1) fills))"
    by (intro Max_ge) (cases fills; simp)+
  moreover have "lookup0 (ck_positions ?c1) sy =
      lookup0 (ck_positions c) sy + (if rq_symbol r = sy then signed_qty r else 0)"
    by (simp add: record_req_def sg)
  moreover have "ck_equity ?c1 \<le> ck_peakEquity ?c1" by (simp add: pk)
  ultimately show ?case
    using Cons.IH [of ?c1] Cons.prems by (simp add: eq pk max_def algebra_simps)
qed

section \<open>Properties\<close>

text \<open>
  C11 (functional): what CanTrade accepts, exactly: the checker is not halted (not even by a
  halt it finds in the store), equity has not fallen below the drawdown threshold of the peak
  nor below the run-loss threshold of the initial capital (each rule only when its
  percentage is positive), and the position the order would lead to is within the symbol's limit.
\<close>

theorem can_trade_iff:
  "snd (CanTrade D sy sd q t c) = None \<longleftrightarrow>
     \<not> Halted (probePersistedHalt c) \<and>
     (0 < rc_MaxDrawdownPct (ck_cfg c) \<longrightarrow>
        ck_peakEquity c * (1 - DDiv D (rc_MaxDrawdownPct (ck_cfg c)) 100) \<le> ck_equity c) \<and>
     (0 < rc_RunLossLimitPct (ck_cfg c) \<longrightarrow>
        rc_InitialCapital (ck_cfg c) * (1 - DDiv D (rc_RunLossLimitPct (ck_cfg c)) 100)
          \<le> ck_equity c) \<and>
     (\<forall>m. rc_MaxPositionQty (ck_cfg c) sy = Some m \<longrightarrow>
        \<bar>lookup0 (ck_positions c) sy + (if sd = SideBuy then q else - q)\<bar> \<le> m)"
  by (simp add: CanTrade_None Halted_def drawdownThreshold_def runLossThreshold_def
      proposedDelta_def)

definition wit_risk_cfg :: "rat risk_config" where
  "wit_risk_cfg = \<lparr>rc_InitialCapital = 1000, rc_MaxPositionQty = [''BTCUSDT'' \<mapsto> 5],
     rc_MaxDrawdownPct = 0, rc_RunLossLimitPct = 0\<rparr>"

definition wit_checker :: "(unit, rat) checker" where
  "wit_checker = NewChecker wit_risk_cfg (Some NoopHaltStore) ''live'' ''S1'' ()"

lemma can_trade_iff_witness:
  "snd (CanTrade rat_pkg ''BTCUSDT'' SideBuy 5 1 wit_checker) = None \<and>
   snd (CanTrade rat_pkg ''BTCUSDT'' SideSell 6 1 wit_checker) \<noteq> None"
  by (simp add: can_trade_iff wit_checker_def wit_risk_cfg_def NewChecker_def Let_def Halted_def
      probePersistedHalt_def NoopHaltStore_def)

text \<open>
  C12 (safety): a halt is permanent. Once the checker is halted, no sequence of
  checks and fills clears it, and every check in it is refused with the reason of the halt.
\<close>

theorem halt_is_permanent:
  assumes "Halted c"
  shows "Halted (fst (risk_ops D ops c)) \<and>
    (\<forall>i < length ops. \<forall>sy sd q t. ops ! i = OpCanTrade sy sd q t \<longrightarrow>
       snd (risk_ops D ops c) ! i = Some (ck_haltReason c @ '': checker is halted''))"
proof -
  have len: "length (snd (risk_ops D ops c)) = length ops" for c
    by (induction ops arbitrary: c) (auto split: prod.splits, metis snd_conv)
  have "Halted (fst (risk_ops D ops c))"
    using risk_ops_halted assms by (auto simp: Halted_def)
  moreover have "snd (risk_ops D ops c) ! i = Some (ck_haltReason c @ '': checker is halted'')"
    if "i < length ops" "ops ! i = OpCanTrade sy sd q t" for i sy sd q t
  proof -
    have "(ops ! i, snd (risk_ops D ops c) ! i) \<in> set (zip ops (snd (risk_ops D ops c)))"
      using that len [of c] by (auto simp: set_zip intro!: exI [of _ i])
    with that assms risk_ops_halted [of c D ops] show ?thesis by (auto simp: Halted_def)
  qed
  ultimately show ?thesis by blast
qed

lemma halt_is_permanent_witness:
  "Halted (fst (risk_ops rat_pkg [OpRecordFill ''BTCUSDT'' SideSell 1 100 0,
     OpCanTrade ''BTCUSDT'' SideBuy 1 2] (wit_checker\<lparr>ck_halted := True\<rparr>)))"
  using halt_is_permanent [of "wit_checker\<lparr>ck_halted := True\<rparr>" rat_pkg
      "[OpRecordFill ''BTCUSDT'' SideSell 1 100 0, OpCanTrade ''BTCUSDT'' SideBuy 1 2]"]
  by (simp add: Halted_def)

text \<open>
  C19 (invariant): when every fill is recorded exactly after its check passed, the position of
  every symbol with a (non-negative) limit stays within the limit, whatever the orders are.
\<close>

theorem positions_within_limits:
  assumes "rc_MaxPositionQty cfg sy = Some m" and "0 \<le> m"
  shows "\<bar>lookup0 (ck_positions (fold (place D) reqs (NewChecker cfg store ns rid w))) sy\<bar> \<le> m"
proof -
  have "within_limits (NewChecker cfg store ns rid w)"
    by (simp add: within_limits_def NewChecker_def Let_def)
  moreover have "ck_cfg (NewChecker cfg store ns rid w) = cfg"
    by (simp add: NewChecker_def Let_def)
  ultimately have "within_limits (fold (place D) reqs (NewChecker cfg store ns rid w))"
    "ck_cfg (fold (place D) reqs (NewChecker cfg store ns rid w)) = cfg"
    by (simp_all only: fold_place_cfg fold_place_within_limits)
  then show ?thesis using assms unfolding within_limits_def by metis
qed

definition wit_req :: "rat order_req" where
  "wit_req = \<lparr>rq_symbol = ''BTCUSDT'', rq_side = SideBuy, rq_qty = 4, rq_time = 1,
     rq_price = 10, rq_fee = 1\<rparr>"

lemma positions_within_limits_witness:
  "\<bar>lookup0 (ck_positions (fold (place rat_pkg) [wit_req, wit_req]
     (NewChecker wit_risk_cfg None ''live'' ''S1'' ()))) ''BTCUSDT''\<bar> \<le> (5 :: rat)"
  by (rule positions_within_limits) (simp_all add: wit_risk_cfg_def)

text \<open>
  After any list of recorded fills the position of a symbol is the sum of
  its signed quantities, equity is the initial capital minus the signed notional and the
  fees of all fills, and the peak is the largest equity on the way.
\<close>

lemma fills_account:
  "let c = fold record_req fills (NewChecker cfg store ns rid w) in
   lookup0 (ck_positions c) sy = (\<Sum>r \<leftarrow> filter (\<lambda>r. rq_symbol r = sy) fills. signed_qty r) \<and>
   ck_equity c = rc_InitialCapital cfg - (\<Sum>r \<leftarrow> fills. signed_qty r * rq_price r + rq_fee r) \<and>
   ck_peakEquity c = Max (set (equity_path (rc_InitialCapital cfg) fills))"
proof -
  let ?c0 = "NewChecker cfg store ns rid w"
  have "ck_equity ?c0 = rc_InitialCapital cfg" "ck_peakEquity ?c0 = rc_InitialCapital cfg"
    "ck_positions ?c0 = Map.empty"
    by (simp_all add: NewChecker_def Let_def)
  moreover have "rc_InitialCapital cfg \<le> Max (set (equity_path (rc_InitialCapital cfg) fills))"
    by (intro Max_ge) (cases fills; simp)+
  ultimately show ?thesis using fold_record_req [of ?c0 fills sy] by (simp add: Let_def)
qed

text \<open>
  C20 (safety): a halt survives a restart. When a check halts the checker and the store
  acknowledges the write, the first check of a new checker with the same run id and a working
  read is refused as halted, whatever its configuration and its other inputs are.
\<close>

theorem halt_survives_restart:
  assumes redis: "redis_hash rc" and store: "ck_haltStore c = Some (RedisHaltStore rc)"
    and live: "\<not> Halted (probePersistedHalt c)"
    and halts: "CanTrade D sy sd q t c = (c', Some err)" "Halted c'"
    and ack: "snd (hs_SetHalted (RedisHaltStore rc) (ck_runID c) (ck_world c)) = None"
    and reads: "rd_HGet rc haltHashKey (ck_runID c) (ck_world c') = Inr v"
    and new: "c2 = NewChecker cfg (Some (RedisHaltStore rc)) ns (ck_runID c) (ck_world c')"
  shows "\<exists>c3. CanTrade D2 sy2 sd2 q2 t2 c2 =
      (c3, Some ''persisted halt detected: checker is halted'') \<and> Halted c3"
proof -
  have "ck_world c' = fst (hs_SetHalted (RedisHaltStore rc) (ck_runID c) (ck_world c))"
    using live halts store
    by (auto simp: CanTrade_def Let_def Halted_def haltWith_def persistHalt_def checkPosition_def
        split: if_splits option.splits)
  then have "rd_HSet rc haltHashKey (ck_runID c) ''1'' (ck_world c) = (ck_world c', None)"
    using ack by (auto simp: RedisHaltStore_def split: prod.splits option.splits)
  with redis reads have "v = Some ''1''" unfolding redis_hash_def by fastforce
  with reads new show ?thesis
    by (simp add: CanTrade_def Let_def NewChecker_def probePersistedHalt_def RedisHaltStore_def
        Halted_def)
qed

text \<open>A Redis whose hash is a map, to run the checker with.\<close>

definition map_redis :: "(string \<times> string \<rightharpoonup> string) redis_client" where
  "map_redis = \<lparr>rd_HSet = (\<lambda>key field val s. (s((key, field) \<mapsto> val), None)),
     rd_HGet = (\<lambda>key field s. Inr (s (key, field)))\<rparr>"

lemma map_redis_hash: "redis_hash map_redis"
  by (auto simp: redis_hash_def map_redis_def)

text \<open>
  RecordFill books the whole notional of a buy as a loss of equity, not the realised profit: a
  single buy of a tenth of the capital, with no fee and at an unchanged price, trips a
  drawdown limit of 5 percent at the next check.
\<close>

definition wit_invested :: "(string \<times> string \<rightharpoonup> string, rat) checker" where
  "wit_invested = RecordFill ''BTCUSDT'' SideBuy 1 100 0
     (NewChecker (wit_risk_cfg\<lparr>rc_MaxDrawdownPct := 5\<rparr>) (Some (RedisHaltStore map_redis))
        ''live'' ''S1'' Map.empty)"

lemma wit_invested_sels:
  "ck_equity wit_invested = 900" "ck_peakEquity wit_invested = 1000"
  "\<not> ck_halted (probePersistedHalt wit_invested)" "ck_runID wit_invested = ''S1''"
  "ck_haltStore wit_invested = Some (RedisHaltStore map_redis)"
  "rc_MaxDrawdownPct (ck_cfg wit_invested) = 5"
  by (simp_all add: wit_invested_def NewChecker_def wit_risk_cfg_def Let_def RecordFill_def
      probePersistedHalt_def RedisHaltStore_def map_redis_def)

lemma open_position_trips_drawdown:
  "\<exists>c' err. CanTrade rat_pkg ''BTCUSDT'' SideBuy 1 7 wit_invested = (c', Some err) \<and> Halted c'"
proof -
  have "DDiv rat_pkg 5 100 = 1 / 20"
    by (rule DDiv_exact [OF rat_pkg_div, where m = "5 * 10 ^ 14"]) simp_all
  then show ?thesis
    by (simp add: CanTrade_def Let_def Halted_def drawdownThreshold_def haltWith_def
        wit_invested_sels)
qed

lemma halt_survives_restart_witness:
  "\<exists>w c3. CanTrade rat_pkg ''ETHUSDT'' SideSell 2 9
      (NewChecker wit_risk_cfg (Some (RedisHaltStore map_redis)) ''live'' ''S1'' w) =
      (c3, Some ''persisted halt detected: checker is halted'') \<and> Halted c3"
proof -
  obtain c' err where h: "CanTrade rat_pkg ''BTCUSDT'' SideBuy 1 7 wit_invested = (c', Some err)"
    "Halted c'" using open_position_trips_drawdown by blast
  from halt_survives_restart [OF map_redis_hash _ _ h, of _
      "NewChecker wit_risk_cfg (Some (RedisHaltStore map_redis)) ''live'' ''S1'' (ck_world c')"
      wit_risk_cfg "''live''" rat_pkg "''ETHUSDT''" SideSell 2 9]
  show ?thesis
    by (intro exI [of _ "ck_world c'"])
      (simp add: RedisHaltStore_def map_redis_def wit_invested_sels Halted_def)
qed

end
