(* ===== verification/Fillmath.thy ===== *)
theory Fillmath
  imports Decimal_Instance
begin

text \<open>
  The fill price and fee of the pessimistic market fill, engine/fillmath/fill.go. \<open>Div\<close> is the
  decimal package's rounding division; the exactness lemmas say what its rounding can do here:
  nothing, whenever the quotient has at most 16 digits after the point.
\<close>

definition ten4 :: "'d::linordered_idom" where
  "ten4 = 10000"

definition ComputeFillPrice :: "'d::linordered_idom decimal_pkg \<Rightarrow> bool \<Rightarrow> 'd \<Rightarrow> int \<Rightarrow> 'd" where
  "ComputeFillPrice D isBuy bestPrice slippageBps =
     (let slip = DDiv D (of_int slippageBps) ten4 in
      if isBuy then bestPrice + bestPrice * slip else bestPrice - bestPrice * slip)"

definition ComputeFee :: "'d::linordered_idom decimal_pkg \<Rightarrow> 'd \<Rightarrow> 'd \<Rightarrow> int \<Rightarrow> 'd" where
  "ComputeFee D qty fillPrice feeBps = DDiv D (qty * fillPrice * of_int feeBps) ten4"

section \<open>The slippage is exact\<close>

lemma slip_exact:
  fixes D :: "'d::linordered_idom decimal_pkg"
  assumes "decimal_div D"
  shows "10000 * DDiv D (of_int bps) ten4 = of_int bps"
proof -
  let ?a = "of_int bps :: 'd"
  obtain k :: int where k: "10 ^ 16 * DDiv D ?a ten4 = of_int k"
    and near: "2 * \<bar>10 ^ 16 * ?a - of_int k * ten4\<bar> \<le> \<bar>ten4 :: 'd\<bar>"
    using decimal_divE [OF assms, of ten4 ?a] by (auto simp: ten4_def)
  have "10 ^ 16 * ?a - of_int k * ten4 = of_int (10000 * (10 ^ 12 * bps - k))"
    by (simp add: ten4_def algebra_simps)
  with near have "2 * \<bar>of_int (10000 * (10 ^ 12 * bps - k))\<bar> \<le> (10000 :: 'd)"
    by (simp add: ten4_def)
  then have "of_int (2 * \<bar>10000 * (10 ^ 12 * bps - k)\<bar>) \<le> (of_int 10000 :: 'd)" by simp
  then have "2 * \<bar>10000 * (10 ^ 12 * bps - k)\<bar> \<le> 10000" by (simp only: of_int_le_iff)
  then have "k = 10 ^ 12 * bps" by (simp add: abs_mult)
  with k have "10 ^ 12 * (10000 * DDiv D ?a ten4) = 10 ^ 12 * ?a" by simp
  then show ?thesis by simp
qed

lemma ten4_pos [simp]: "0 < (ten4 :: 'd::linordered_idom)" "(ten4 :: 'd) \<noteq> 0"
  by (simp_all add: ten4_def)

section \<open>Properties\<close>

text \<open>
  The fill price is exactly the quoted price moved by the slippage: 10000
  times it is the price times 10000 plus (buy) or minus (sell) the basis points, for
  every integer number of basis points, although the code divides first.
\<close>

lemma fill_price_exact:
  fixes D :: "'d::linordered_idom decimal_pkg"
  assumes "decimal_div D"
  shows "10000 * ComputeFillPrice D isBuy p bps =
     p * (10000 + (if isBuy then of_int bps else - of_int bps))"
proof -
  have "p * (10000 * DDiv D (of_int bps) ten4) = p * of_int bps"
    by (simp only: slip_exact [OF assms])
  then show ?thesis by (simp add: ComputeFillPrice_def Let_def distrib_left right_diff_distrib
        mult.left_commute)
qed

lemma fill_price_exact_witness:
  "10000 * ComputeFillPrice rat_pkg True 100 25 = (1002500 :: rat)"
  using fill_price_exact [OF rat_pkg_div, of True 100 25] by simp

text \<open>
  C38 (bounds): the simulation is pessimistic. With non-negative prices, basis points and
  quantities a buy never fills below the ask, a sell never above the bid, and the fee is
  never negative and within half of the last of 16 digits of the exact fee.
\<close>

theorem fill_is_pessimistic:
  fixes D :: "'d::linordered_idom decimal_pkg"
  assumes D: "decimal_div D" and "0 \<le> p" "0 \<le> bps" "0 \<le> qty" "0 \<le> feeBps"
  shows "p \<le> ComputeFillPrice D True p bps \<and> ComputeFillPrice D False p bps \<le> p \<and>
     (bps \<le> 10000 \<longrightarrow> 0 \<le> ComputeFillPrice D False p bps) \<and>
     0 \<le> ComputeFee D qty p feeBps \<and>
     2 * 10 ^ 16 * \<bar>10000 * ComputeFee D qty p feeBps - qty * p * of_int feeBps\<bar> \<le> 10000"
proof -
  let ?s = "DDiv D (of_int bps) (ten4 :: 'd)"
  have s: "0 \<le> ?s" using assms by (intro DDiv_nonneg) simp_all
  then have ps: "0 \<le> p * ?s" using assms by simp
  have "bps \<le> 10000 \<longrightarrow> ?s \<le> 1"
  proof
    assume "bps \<le> 10000"
    then have "10000 * ?s \<le> 10000 * 1" using slip_exact [OF D, of bps]
      by (metis mult.right_neutral of_int_le_iff of_int_numeral)
    then show "?s \<le> 1" by simp
  qed
  then have "bps \<le> 10000 \<longrightarrow> p * ?s \<le> p" using assms by (metis mult_left_mono mult.right_neutral)
  moreover have "0 \<le> ComputeFee D qty p feeBps"
    unfolding ComputeFee_def using assms by (intro DDiv_nonneg) simp_all
  moreover have "2 * 10 ^ 16 * \<bar>10000 * ComputeFee D qty p feeBps - qty * p * of_int feeBps\<bar> \<le> 10000"
  proof -
    let ?a = "qty * p * of_int feeBps"
    obtain k :: int where k: "10 ^ 16 * DDiv D ?a ten4 = of_int k"
      and near: "2 * \<bar>10 ^ 16 * ?a - of_int k * ten4\<bar> \<le> \<bar>ten4\<bar>"
      using decimal_divE [OF D, of ten4 ?a] by (metis ten4_pos(2))
    have "2 * 10 ^ 16 * \<bar>10000 * DDiv D ?a ten4 - ?a\<bar> = 2 * \<bar>10 ^ 16 * (10000 * DDiv D ?a ten4 - ?a)\<bar>"
      by (simp only: abs_mult power_abs abs_numeral mult.assoc)
    also have "10 ^ 16 * (10000 * DDiv D ?a ten4 - ?a) = - (10 ^ 16 * ?a - of_int k * ten4)"
      using k by (simp add: ten4_def algebra_simps flip: k)
    finally show ?thesis using near by (simp add: ComputeFee_def ten4_def abs_minus_commute)
  qed
  ultimately show ?thesis using ps by (simp add: ComputeFillPrice_def Let_def)
qed

lemma fill_is_pessimistic_witness:
  "(100 :: rat) \<le> ComputeFillPrice rat_pkg True 100 25 \<and>
   0 \<le> ComputeFee rat_pkg 2 (100 :: rat) 10"
  using fill_is_pessimistic [OF rat_pkg_div, of 100 25 2 10] by simp

end
