(* ===== verification/Streams.thy ===== *)
theory Streams
  imports GoStrings
begin

text \<open>
  The two read loops the services run over a Redis Stream: the blocking XREAD loop, which starts
  at the last consumed id and ends when the context is done, and the non-blocking XRANGE drain
  after it. Redis itself is outside: each reply is a function of the arguments the loop sends
  that depend on its state. A loop is a recursion over the list of its replies; the
  list ending means that the loop is still running.
\<close>

section \<open>The loops\<close>

text \<open>
  A reply to XREAD: \<open>redis.Nil\<close> at a block timeout or another error, each with whether the
  context is done then, or the messages (their ids and contents).
\<close>

datatype 'm xread_reply =
    XReadNil bool
  | XReadErr bool
  | XReadMsgs "(string \<times> 'm) list"

definition processBatch ::
  "(string \<times> 'm \<Rightarrow> 's \<Rightarrow> 's) \<Rightarrow> (string \<times> 'm) list \<Rightarrow> string \<Rightarrow> 's \<Rightarrow> 's \<times> string" where
  "processBatch handle msgs lastID st =
     foldl (\<lambda>(s, l) msg. (handle msg s, fst msg)) (st, lastID) msgs"

fun readerLoop ::
  "(string \<times> 'm \<Rightarrow> 's \<Rightarrow> 's) \<Rightarrow> (string \<Rightarrow> 'm xread_reply) list \<Rightarrow> string \<Rightarrow> 's \<Rightarrow> 's \<times> string" where
  "readerLoop handle [] lastID st = (st, lastID)"
| "readerLoop handle (r # rs) lastID st =
     (case r lastID of
        XReadNil ctxDone \<Rightarrow> if ctxDone then (st, lastID) else readerLoop handle rs lastID st
      | XReadErr ctxDone \<Rightarrow> if ctxDone then (st, lastID) else readerLoop handle rs lastID st
      | XReadMsgs msgs \<Rightarrow>
          (case processBatch handle msgs lastID st of
             (st', lastID') \<Rightarrow> readerLoop handle rs lastID' st'))"

text \<open>The first argument of XRANGE: everything, or what follows an id.\<close>

definition drainStartOf :: "string \<Rightarrow> string" where
  "drainStartOf lastID = (if lastID = ''0-0'' then ''-'' else CHR ''('' # lastID)"

text \<open>A reply to XRANGE is the list of messages, or \<open>None\<close> for an error. Both of an error and an
  empty list end the loop.\<close>

fun drainLoop ::
  "(string \<times> 'm \<Rightarrow> 's \<Rightarrow> 's) \<Rightarrow> (string \<Rightarrow> (string \<times> 'm) list option) list \<Rightarrow> string \<Rightarrow> string \<Rightarrow> 's \<Rightarrow> 's" where
  "drainLoop handle [] drainStart lastID st = st"
| "drainLoop handle (r # rs) drainStart lastID st =
     (case r drainStart of
        None \<Rightarrow> st
      | Some [] \<Rightarrow> st
      | Some (m # ms) \<Rightarrow>
          (case processBatch handle (m # ms) lastID st of
             (st', lastID') \<Rightarrow> drainLoop handle rs (CHR ''('' # lastID') lastID' st'))"

section \<open>What Redis documents\<close>

text \<open>
  The stream as the list of its entries in id order. XREAD after an id returns the next entries
  (some prefix of them, because entries may still be added); XRANGE returns at most \<open>n\<close>
  entries from its start.
\<close>

definition stream_log :: "(string \<times> 'm) list \<Rightarrow> bool" where
  "stream_log es \<longleftrightarrow> distinct (map fst es) \<and> ''0-0'' \<notin> fst ` set es"

definition entries_after :: "(string \<times> 'm) list \<Rightarrow> string \<Rightarrow> (string \<times> 'm) list" where
  "entries_after es i =
     (if i = ''0-0'' then es else tl (dropWhile (\<lambda>e. fst e \<noteq> i) es))"

definition range_from :: "(string \<times> 'm) list \<Rightarrow> string \<Rightarrow> (string \<times> 'm) list" where
  "range_from es start = (if start = ''-'' then es else entries_after es (tl start))"

definition xread_serves :: "(string \<times> 'm) list \<Rightarrow> (string \<Rightarrow> 'm xread_reply) \<Rightarrow> bool" where
  "xread_serves es r \<longleftrightarrow> (\<forall>i ms. r i = XReadMsgs ms \<longrightarrow> prefix ms (entries_after es i))"

definition xrange_serves ::
  "(string \<times> 'm) list \<Rightarrow> nat \<Rightarrow> (string \<Rightarrow> (string \<times> 'm) list option) \<Rightarrow> bool" where
  "xrange_serves es n r \<longleftrightarrow> (\<forall>s. r s = Some (take n (range_from es s)))"

section \<open>Every entry is handled once, in order\<close>

lemma processBatch_fold:
  "processBatch handle msgs lastID st =
     (fold handle msgs st, if msgs = [] then lastID else fst (last msgs))"
  by (induction msgs arbitrary: st lastID) (auto simp: processBatch_def)

text \<open>\<open>at es done i\<close>: the entries \<open>done\<close> are handled and \<open>i\<close> is the id of the last of them.\<close>

definition at_entry :: "(string \<times> 'm) list \<Rightarrow> (string \<times> 'm) list \<Rightarrow> string \<Rightarrow> bool" where
  "at_entry es handled i \<longleftrightarrow> prefix handled es \<and>
     i = (if handled = [] then ''0-0'' else fst (last handled))"

lemma entries_after_at:
  assumes es: "stream_log es" and at_i: "at_entry es handled i"
  shows "es = handled @ entries_after es i"
proof (cases "handled = []")
  case True
  then show ?thesis using at_i by (simp add: at_entry_def entries_after_def)
next
  case False
  then obtain hs e where h: "handled = hs @ [e]" by (cases handled rule: rev_cases) auto
  obtain rest where l: "es = hs @ e # rest" using at_i h by (auto simp: at_entry_def prefix_def)
  have "fst e \<noteq> ''0-0''" "fst e \<notin> fst ` set hs" using es l by (auto simp: stream_log_def)
  moreover have "dropWhile (\<lambda>x. fst x \<noteq> fst e) (hs @ e # rest) = e # rest"
  proof -
    have "\<forall>x \<in> set hs. fst x \<noteq> fst e"
      using \<open>fst e \<notin> fst ` set hs\<close> by (metis image_eqI)
    then show ?thesis by (simp add: dropWhile_append2)
  qed
  ultimately show ?thesis using at_i h l by (simp add: at_entry_def entries_after_def)
qed

lemma at_entry_more:
  assumes "stream_log es" and "at_entry es handled i" and "prefix ms (entries_after es i)"
    and "ms \<noteq> []"
  shows "at_entry es (handled @ ms) (fst (last ms))"
  using assms entries_after_at [OF assms(1,2)]
  by (auto simp: at_entry_def prefix_def)

lemma readerLoop_at:
  assumes "stream_log es" and "at_entry es handled i" and "\<forall>r \<in> set rs. xread_serves es r"
    and "readerLoop handle rs i (fold handle handled st) = (st', i')"
  shows "\<exists>handled'. at_entry es handled' i' \<and> prefix handled handled' \<and>
    st' = fold handle handled' st"
  using assms(2-)
proof (induction rs arbitrary: handled i)
  case Nil
  then show ?case by auto
next
  case (Cons r rs)
  note stay = Cons.IH [OF Cons.prems(1)]
  show ?case
  proof (cases "r i")
    case (XReadMsgs ms)
    then have pre: "prefix ms (entries_after es i)"
      using Cons.prems(2) by (auto simp: xread_serves_def)
    show ?thesis
    proof (cases "ms = []")
      case True
      then show ?thesis using XReadMsgs Cons.prems stay by (simp add: processBatch_fold)
    next
      case False
      have at': "at_entry es (handled @ ms) (fst (last ms))"
        using assms(1) Cons.prems(1) pre False by (rule at_entry_more)
      have "readerLoop handle rs (fst (last ms)) (fold handle (handled @ ms) st) = (st', i')"
        using XReadMsgs Cons.prems(3) False by (simp add: processBatch_fold)
      from Cons.IH [OF at' _ this] Cons.prems(2) show ?thesis
        by (auto dest: append_prefixD)
    qed
  qed (use Cons.prems stay in \<open>auto split: if_splits\<close>)
qed

text \<open>
  The drain ends by itself: with at most \<open>n * k\<close> entries left it sends at most \<open>k + 1\<close> queries,
  so that replies to further ones do not matter.
\<close>

lemma last_batch:
  assumes es: "stream_log es" and at': "at_entry es (handled @ ms) (fst (last ms))" and ms: "ms \<noteq> []"
  shows "CHR ''('' # fst (last ms) = drainStartOf (fst (last ms))"
proof -
  have "last ms \<in> set es"
    using at' ms last_in_set [of ms] by (auto simp: at_entry_def dest!: set_mono_prefix)
  then have "fst (last ms) \<in> fst ` set es" by (rule imageI)
  with es have "fst (last ms) \<noteq> ''0-0''" unfolding stream_log_def by metis
  then show ?thesis by (simp add: drainStartOf_def)
qed

lemma drainLoop_rounds:
  assumes es: "stream_log es" and n: "0 < n"
  shows "at_entry es handled i \<Longrightarrow> \<forall>r \<in> set rs. xrange_serves es n r \<Longrightarrow>
    length (entries_after es i) \<le> n * k \<Longrightarrow> length rs = Suc k \<Longrightarrow>
    drainLoop handle (rs @ rest) (drainStartOf i) i (fold handle handled st) = fold handle es st"
proof (induction k arbitrary: handled i rs)
  case (0 handled i rs)
  then obtain r where r: "rs = [r]" by (cases rs) auto
  have "es = handled" using entries_after_at [OF es 0(1)] 0(3) by simp
  moreover have "range_from es (drainStartOf i) = []"
    using 0(3) by (simp add: range_from_def drainStartOf_def entries_after_def split: if_splits)
  ultimately show ?case using 0(2) r by (simp add: xrange_serves_def)
next
  case (Suc k handled i rs)
  then obtain r rs' where rs: "rs = r # rs'" by (cases rs) auto
  have all: "es = handled @ entries_after es i" using es Suc.prems(1) by (rule entries_after_at)
  have "range_from es (drainStartOf i) = entries_after es i"
    by (simp add: range_from_def drainStartOf_def entries_after_def)
  then have reply: "r (drainStartOf i) = Some (take n (entries_after es i))"
    using Suc.prems(2) rs by (simp add: xrange_serves_def)
  show ?case
  proof (cases "take n (entries_after es i)")
    case Nil
    with n have "entries_after es i = []" by (cases "entries_after es i") auto
    with all reply rs show ?thesis by simp
  next
    case (Cons m ms)
    let ?b = "m # ms"
    have pre: "prefix ?b (entries_after es i)" using Cons by (metis take_is_prefix)
    have at': "at_entry es (handled @ ?b) (fst (last ?b))"
      using es Suc.prems(1) pre by (rule at_entry_more) simp
    have "entries_after es i = ?b @ entries_after es (fst (last ?b))"
      using all entries_after_at [OF es at'] by (metis append_assoc same_append_eq)
    then have "entries_after es (fst (last ?b)) = drop n (entries_after es i)"
      using Cons by (metis append_take_drop_id same_append_eq)
    then have "length (entries_after es (fst (last ?b))) \<le> n * k"
      using Suc.prems(3) by simp
    then have "drainLoop handle (rs' @ rest) (drainStartOf (fst (last ?b))) (fst (last ?b))
        (fold handle (handled @ ?b) st) = fold handle es st"
      using Suc.prems(2,4) rs by (intro Suc.IH [OF at']) auto
    moreover have "CHR ''('' # fst (last ?b) = drainStartOf (fst (last ?b))"
      using es at' by (rule last_batch) simp
    ultimately show ?thesis using reply Cons rs by (simp add: processBatch_fold)
  qed
qed

lemma drainLoop_all:
  assumes es: "stream_log es" and n: "0 < n" and at_i: "at_entry es handled i"
    and rs: "\<forall>r \<in> set rs. xrange_serves es n r" and len: "length (entries_after es i) < length rs"
  shows "drainLoop handle rs (drainStartOf i) i (fold handle handled st) = fold handle es st"
proof -
  obtain k where k: "length rs = Suc k" using len by (cases "length rs") auto
  then have "length (entries_after es i) \<le> n * k" using len n by (cases n) auto
  from drainLoop_rounds [OF es n at_i rs this k, of handle "[]" st] show ?thesis by simp
qed

text \<open>The reader from the start of the stream, and then the drain.\<close>

lemma read_then_drain_all:
  assumes es: "stream_log es" and n: "0 < n" and "\<forall>r \<in> set rs. xread_serves es r"
    and "\<forall>r \<in> set ds. xrange_serves es n r" and len: "length es < length ds"
    and read: "readerLoop handle rs ''0-0'' st = (st', i')"
  shows "drainLoop handle ds (drainStartOf i') i' st' = fold handle es st"
proof -
  have "at_entry es [] ''0-0''" by (simp add: at_entry_def)
  with readerLoop_at [OF es this assms(3), of handle st st' i'] read obtain handled where
    h: "at_entry es handled i'" "st' = fold handle handled st" by auto
  have "length (entries_after es i') \<le> length es"
    using entries_after_at [OF es h(1)] by (metis length_append le_add2)
  with drainLoop_all [OF es n h(1) assms(4), of handle st] len h(2) show ?thesis by simp
qed

lemma read_then_drain_rounds:
  assumes es: "stream_log es" and n: "0 < n" and "\<forall>r \<in> set rs. xread_serves es r"
    and ds: "\<forall>r \<in> set ds. xrange_serves es n r" "length ds = Suc k" and len: "length es \<le> n * k"
    and read: "readerLoop handle rs ''0-0'' st = (st', i')"
  shows "drainLoop handle (ds @ rest) (drainStartOf i') i' st' = fold handle es st"
proof -
  have "at_entry es [] ''0-0''" by (simp add: at_entry_def)
  with readerLoop_at [OF es this assms(3), of handle st st' i'] read obtain handled where
    h: "at_entry es handled i'" "st' = fold handle handled st" by auto
  have "length (entries_after es i') \<le> length es"
    using entries_after_at [OF es h(1)] by (metis length_append le_add2)
  with len have "length (entries_after es i') \<le> n * k" by simp
  from drainLoop_rounds [OF es n h(1) ds(1) this ds(2), of handle rest st] h(2) show ?thesis by simp
qed

end
