(* ===== verification/Executor.thy ===== *)
theory Executor
  imports Signals Risk Fillmath Streams
begin

text \<open>
  The simulated executor of a backtest (engine/backtest/execution/executor.go and
  strategy.go) and the decider of the paper trading service (engine/execution/decider/decider.go).

  One goroutine per symbol reads that symbol's book updates; all share the risk checker, whose
  mutex makes CanTrade and RecordFill atomic but not the stretch between them, and the orders
  stream. A message is therefore handled in four steps: \<open>checkL2\<close> (up to the order), \<open>moveL2\<close> (the
  goroutine's own position), \<open>publishL2\<close> (XADD) and \<open>bookL2\<close> (RecordFill); the executor is the
  interleaving of the steps of all symbols. \<open>xs_pending\<close> is the order a symbol's goroutine holds
  between two steps, with the stage it has reached; \<open>xs_orders\<close> are the orders handed to XADD (a failure
  of XADD is only logged and changes nothing here) and \<open>xs_booked\<close> those handed to RecordFill, each in
  the order of the calls. \<open>newOrderID\<close> gives the UUID drawn for a message.
\<close>

section \<open>Strategy configuration\<close>

record 'd strategy_config =
  sc_MakerFeeBps :: int
  sc_TakerFeeBps :: int
  sc_SlippageBps :: int
  sc_TradeQty :: 'd
  sc_BuyThreshold :: 'd
  sc_SellThreshold :: 'd
  sc_InitialCapital :: 'd
  sc_MaxPositionQty :: "string \<rightharpoonup> 'd"
  sc_MaxDrawdownPct :: 'd
  sc_RunLossLimitPct :: 'd

definition RequireFromString :: "'d decimal_pkg \<Rightarrow> string \<Rightarrow> 'd" where
  "RequireFromString D s = the (DFromString D s)"

definition strategyDefaults :: "'d::linordered_idom decimal_pkg \<Rightarrow> 'd strategy_config" where
  "strategyDefaults D = \<lparr>sc_MakerFeeBps = 10, sc_TakerFeeBps = 10, sc_SlippageBps = 0,
     sc_TradeQty = RequireFromString D ''0.001'', sc_BuyThreshold = RequireFromString D ''0.2'',
     sc_SellThreshold = RequireFromString D ''0.2'',
     sc_InitialCapital = RequireFromString D ''10000'', sc_MaxPositionQty = Map.empty,
     sc_MaxDrawdownPct = 0, sc_RunLossLimitPct = 0\<rparr>"

text \<open>
  \<open>ParseStrategyConfig\<close>: \<open>unmarshal\<close> is what \<open>json.Unmarshal\<close> does to the defaults, with its error.
\<close>

definition ParseStrategyConfig ::
  "'d::linordered_idom decimal_pkg \<Rightarrow>
   (string \<Rightarrow> 'd strategy_config \<Rightarrow> 'd strategy_config \<times> string option) \<Rightarrow> string \<Rightarrow>
   'd strategy_config \<times> string option" where
  "ParseStrategyConfig D unmarshal raw =
     (let cfg = strategyDefaults D in
      if raw = [] \<or> raw = ''{}'' then (cfg, None)
      else case unmarshal raw cfg of
             (cfg', Some err) \<Rightarrow> (cfg', Some (''parse strategy_config: '' @ err))
           | (cfg', None) \<Rightarrow> (cfg', None))"

section \<open>The decider\<close>

datatype position = Flat | Long | Short

definition Decide :: "'d::linordered_idom strategy_config \<Rightarrow> 'd signal_event \<Rightarrow> position \<Rightarrow> side option" where
  "Decide cfg sg pos =
     (if sg_Name sg \<noteq> ''book_imbalance'' then None
      else let wantBuy = sc_BuyThreshold cfg < sg_Value sg;
               wantSell = sg_Value sg < - sc_SellThreshold cfg
           in if wantBuy \<and> (pos = Flat \<or> pos = Short) then Some SideBuy
              else if wantSell \<and> (pos = Flat \<or> pos = Long) then Some SideSell
              else None)"

section \<open>The executor\<close>

record 'd exec_l2 =
  el_runID :: string
  el_EventTime :: time
  el_bids :: "'d price_level list"
  el_asks :: "'d price_level list"

text \<open>How far the order of a message has come: built, position moved, handed to XADD.\<close>

datatype fill_stage = Accepted | Moved | Published

record ('s, 'd) exec_state =
  xs_pos :: "string \<Rightarrow> 'd"
  xs_pending :: "string \<rightharpoonup> fill_stage \<times> 'd order_event"
  xs_risk :: "('s, 'd) checker"
  xs_orders :: "'d order_event list"
  xs_booked :: "'d order_event list"

definition NewExecutor :: "('s, 'd::zero) checker \<Rightarrow> ('s, 'd) exec_state" where
  "NewExecutor riskChk = \<lparr>xs_pos = (\<lambda>s. 0), xs_pending = Map.empty, xs_risk = riskChk,
     xs_orders = [], xs_booked = []\<rparr>"

text \<open>The executor's own decoders.\<close>

definition execDecodePriceLevels :: "'d decimal_pkg \<Rightarrow> string \<Rightarrow> 'd price_level list option" where
  "execDecodePriceLevels D raw =
     (if raw = [] then Some []
      else do { pairs \<leftarrow> unmarshalPairs raw; traverse (levelOfPair D) pairs })"

definition decodeL2Event :: "'d decimal_pkg \<Rightarrow> fields \<Rightarrow> 'd exec_l2 option" where
  "decodeL2Event D vals =
     (if strField vals ''event_time'' = [] then None
      else do {
        t \<leftarrow> ParseRFC3339Nano (strField vals ''event_time'');
        bids \<leftarrow> execDecodePriceLevels D (strField vals ''bids'');
        asks \<leftarrow> execDecodePriceLevels D (strField vals ''asks'');
        Some \<lparr>el_runID = strField vals ''run_id'', el_EventTime = t, el_bids = bids, el_asks = asks\<rparr>})"

lemma execDecodePriceLevels_eq: "execDecodePriceLevels D = decodePriceLevels D"
  by (simp add: fun_eq_iff execDecodePriceLevels_def decodePriceLevels_def)

lemma decode_l2Values_exec:
  assumes "decimal_strings D" "decimal_text D" "time_ok t"
  shows "decodeL2Event D (l2Values D r s t i bs as) =
    Some \<lparr>el_runID = r, el_EventTime = t, el_bids = bs, el_asks = as\<rparr>"
  using assms by (simp add: decodeL2Event_def execDecodePriceLevels_eq decodePriceLevels_levels)

text \<open>The executor's own copy of the signal: zero for an empty total.\<close>

definition execImbalance ::
  "'d::linordered_idom decimal_pkg \<Rightarrow> 'd price_level list \<Rightarrow> 'd price_level list \<Rightarrow> int \<Rightarrow> 'd" where
  "execImbalance D bids asks depth =
     (let bidQty = sumQty bids depth; askQty = sumQty asks depth; tot = bidQty + askQty in
      if tot = 0 then 0 else DDiv D (bidQty - askQty) tot)"

definition tradeDecision :: "'d::linordered_idom strategy_config \<Rightarrow> 'd \<Rightarrow> 'd \<Rightarrow> side option" where
  "tradeDecision cfg imbalance qty =
     (let wantBuy = sc_BuyThreshold cfg < imbalance;
          wantSell = imbalance < - sc_SellThreshold cfg
      in if wantBuy \<and> (qty = 0 \<or> qty < 0) then Some SideBuy
         else if wantSell \<and> (qty = 0 \<or> 0 < qty) then Some SideSell
         else None)"

definition execFillPrice ::
  "'d::linordered_idom decimal_pkg \<Rightarrow> 'd strategy_config \<Rightarrow> side \<Rightarrow> 'd price_level list \<Rightarrow>
   'd price_level list \<Rightarrow> 'd option" where
  "execFillPrice D cfg sd bids asks =
     (if sd = SideBuy
      then (case asks of [] \<Rightarrow> None
            | a # _ \<Rightarrow> Some (ComputeFillPrice D True (pl_Price a) (sc_SlippageBps cfg)))
      else (case bids of [] \<Rightarrow> None
            | b # _ \<Rightarrow> Some (ComputeFillPrice D False (pl_Price b) (sc_SlippageBps cfg))))"

definition newOrder ::
  "'d::linordered_idom decimal_pkg \<Rightarrow> 'd strategy_config \<Rightarrow> string \<Rightarrow> string \<Rightarrow> side \<Rightarrow> 'd exec_l2 \<Rightarrow>
   'd \<Rightarrow> 'd order_event" where
  "newOrder D cfg orderID symbol sd ev fillPrice =
     (let qty = sc_TradeQty cfg in
      \<lparr>oe_RunID = el_runID ev, oe_Symbol = symbol, oe_EventTime = el_EventTime ev,
       oe_OrderID = orderID, oe_Side = sd, oe_Type = OrderTypeMarket, oe_Price = 0,
       oe_Quantity = qty, oe_Status = OrderStatusFilled, oe_FillPrice = fillPrice,
       oe_FillQty = qty, oe_Fee = ComputeFee D qty fillPrice (sc_TakerFeeBps cfg),
       oe_SignalName = ''book_imbalance''\<rparr>)"

definition checkL2 ::
  "'d::linordered_idom decimal_pkg \<Rightarrow> 'd strategy_config \<Rightarrow> (string \<Rightarrow> string) \<Rightarrow> string \<Rightarrow> string \<times> fields \<Rightarrow> ('s, 'd) exec_state \<Rightarrow> ('s, 'd) exec_state" where
  "checkL2 D cfg newOrderID symbol msg st =
     (case decodeL2Event D (snd msg) of
        None \<Rightarrow> st
      | Some ev \<Rightarrow>
          (case tradeDecision cfg (execImbalance D (el_bids ev) (el_asks ev) 10) (xs_pos st symbol) of
             None \<Rightarrow> st
           | Some sd \<Rightarrow>
               (case CanTrade D symbol sd (sc_TradeQty cfg) (el_EventTime ev) (xs_risk st) of
                  (c, Some riskErr) \<Rightarrow> st\<lparr>xs_risk := c\<rparr>
                | (c, None) \<Rightarrow>
                    (case execFillPrice D cfg sd (el_bids ev) (el_asks ev) of
                       None \<Rightarrow> st\<lparr>xs_risk := c\<rparr>
                     | Some fillPrice \<Rightarrow>
                         st\<lparr>xs_risk := c, xs_pending := (xs_pending st)(symbol \<mapsto>
                           (Accepted, newOrder D cfg (newOrderID (fst msg)) symbol sd ev fillPrice))\<rparr>))))"

definition moveL2 ::
  "string \<Rightarrow> ('s, 'd::linordered_idom) exec_state \<Rightarrow> ('s, 'd) exec_state" where
  "moveL2 symbol st =
     (case xs_pending st symbol of
        Some (Accepted, order) \<Rightarrow>
          st\<lparr>xs_pos := (xs_pos st)(symbol :=
               (if oe_Side order = SideBuy then xs_pos st symbol + oe_Quantity order
                else xs_pos st symbol - oe_Quantity order)),
             xs_pending := (xs_pending st)(symbol \<mapsto> (Moved, order))\<rparr>
      | _ \<Rightarrow> st)"

definition publishL2 ::
  "string \<Rightarrow> ('s, 'd::linordered_idom) exec_state \<Rightarrow> ('s, 'd) exec_state" where
  "publishL2 symbol st =
     (case xs_pending st symbol of
        Some (Moved, order) \<Rightarrow>
          st\<lparr>xs_orders := xs_orders st @ [order],
             xs_pending := (xs_pending st)(symbol \<mapsto> (Published, order))\<rparr>
      | _ \<Rightarrow> st)"

definition bookL2 ::
  "string \<Rightarrow> ('s, 'd::linordered_idom) exec_state \<Rightarrow> ('s, 'd) exec_state" where
  "bookL2 symbol st =
     (case xs_pending st symbol of
        Some (Published, order) \<Rightarrow>
          st\<lparr>xs_risk := RecordFill symbol (oe_Side order) (oe_FillQty order) (oe_FillPrice order)
               (oe_Fee order) (xs_risk st),
             xs_booked := xs_booked st @ [order],
             xs_pending := (xs_pending st)(symbol := None)\<rparr>
      | _ \<Rightarrow> st)"

definition handleL2 ::
  "'d::linordered_idom decimal_pkg \<Rightarrow> 'd strategy_config \<Rightarrow> (string \<Rightarrow> string) \<Rightarrow> string \<Rightarrow> string \<times> fields \<Rightarrow> ('s, 'd) exec_state \<Rightarrow> ('s, 'd) exec_state" where
  "handleL2 D cfg newOrderID symbol msg st =
     bookL2 symbol (publishL2 symbol (moveL2 symbol (checkL2 D cfg newOrderID symbol msg st)))"

lemmas fill_steps = moveL2_def publishL2_def bookL2_def

text \<open>The loops of one symbol: \<open>processL2Batch\<close>, \<open>runL2Reader\<close>, \<open>drainL2\<close> and \<open>symbolLoop\<close>.\<close>

definition runL2Reader ::
  "(string \<times> 'm \<Rightarrow> 'st \<Rightarrow> 'st) \<Rightarrow> (string \<Rightarrow> 'm xread_reply) list \<Rightarrow> 'st \<Rightarrow> 'st \<times> string" where
  "runL2Reader handle replies st = readerLoop handle replies ''0-0'' st"

definition drainL2 ::
  "(string \<times> 'm \<Rightarrow> 'st \<Rightarrow> 'st) \<Rightarrow> (string \<Rightarrow> (string \<times> 'm) list option) list \<Rightarrow> string \<Rightarrow> 'st \<Rightarrow> 'st" where
  "drainL2 handle replies lastID st = drainLoop handle replies (drainStartOf lastID) lastID st"

definition symbolLoop ::
  "'d::linordered_idom decimal_pkg \<Rightarrow> 'd strategy_config \<Rightarrow> (string \<Rightarrow> string) \<Rightarrow> string \<Rightarrow> (string \<Rightarrow> fields xread_reply) list \<Rightarrow>
   (string \<Rightarrow> (string \<times> fields) list option) list \<Rightarrow> ('s, 'd) exec_state \<Rightarrow> ('s, 'd) exec_state" where
  "symbolLoop D cfg newOrderID symbol reads drains st =
     (case runL2Reader (handleL2 D cfg newOrderID symbol) reads st of
        (st', lastID) \<Rightarrow> drainL2 (handleL2 D cfg newOrderID symbol) drains lastID st')"

section \<open>Interleaved steps\<close>

inductive exec_step ::
  "'d::linordered_idom decimal_pkg \<Rightarrow> 'd strategy_config \<Rightarrow> (string \<Rightarrow> string) \<Rightarrow> ('s, 'd) exec_state \<Rightarrow> ('s, 'd) exec_state \<Rightarrow> bool"
  for D cfg newOrderID where
  exec_check: "xs_pending st s = None \<Longrightarrow>
     exec_step D cfg newOrderID st (checkL2 D cfg newOrderID s msg st)"
| exec_move: "xs_pending st s = Some (Accepted, order) \<Longrightarrow>
     exec_step D cfg newOrderID st (moveL2 s st)"
| exec_publish: "xs_pending st s = Some (Moved, order) \<Longrightarrow>
     exec_step D cfg newOrderID st (publishL2 s st)"
| exec_book: "xs_pending st s = Some (Published, order) \<Longrightarrow>
     exec_step D cfg newOrderID st (bookL2 s st)"

inductive exec_reach ::
  "'d::linordered_idom decimal_pkg \<Rightarrow> 'd strategy_config \<Rightarrow> (string \<Rightarrow> string) \<Rightarrow> ('s, 'd) exec_state \<Rightarrow> ('s, 'd) exec_state \<Rightarrow> bool"
  for D cfg newOrderID st0 where
  exec_start: "exec_reach D cfg newOrderID st0 st0"
| exec_next: "exec_reach D cfg newOrderID st0 st \<Longrightarrow>
     exec_step D cfg newOrderID st st' \<Longrightarrow> exec_reach D cfg newOrderID st0 st'"

text \<open>
  The invariant of a symbol \<open>s\<close>, between the executor's position \<open>p\<close>, the checker's \<open>k\<close>, the order in
  flight and the orders of the symbol handed to XADD and to RecordFill. An accepted order moves
  the position to another of the three values \<open>- q\<close>, 0, \<open>q\<close>, within the limit; once the goroutine has
  moved its position and until RecordFill, executor and checker differ by exactly that order.
\<close>

definition toggle_ok :: "'d::linordered_idom strategy_config \<Rightarrow> (string \<rightharpoonup> 'd) \<Rightarrow> string \<Rightarrow> 'd \<Rightarrow> bool" where
  "toggle_ok cfg limits s p \<longleftrightarrow> p \<in> {- sc_TradeQty cfg, 0, sc_TradeQty cfg} \<and>
     (\<forall>m. limits s = Some m \<and> 0 \<le> m \<longrightarrow> \<bar>p\<bar> \<le> m)"

definition order_delta :: "'d::linordered_idom order_event \<Rightarrow> 'd" where
  "order_delta order = proposedDelta (oe_Side order) (oe_Quantity order)"

definition pending_ok ::
  "'d::linordered_idom strategy_config \<Rightarrow> (string \<rightharpoonup> 'd) \<Rightarrow> string \<Rightarrow> 'd \<Rightarrow> 'd order_event \<Rightarrow> bool" where
  "pending_ok cfg limits s p order \<longleftrightarrow>
     oe_Symbol order = s \<and> oe_Quantity order = sc_TradeQty cfg \<and>
     oe_FillQty order = sc_TradeQty cfg \<and>
     (if oe_Side order = SideBuy then p \<le> 0 else oe_Side order = SideSell \<and> 0 \<le> p) \<and>
     (\<forall>m. limits s = Some m \<longrightarrow> \<bar>p + order_delta order\<bar> \<le> m)"

definition orders_of :: "string \<Rightarrow> 'd order_event list \<Rightarrow> 'd order_event list" where
  "orders_of s orders = filter (\<lambda>order. oe_Symbol order = s) orders"

fun stage_ok ::
  "'d::linordered_idom \<Rightarrow> 'd \<Rightarrow> (fill_stage \<times> 'd order_event) option \<Rightarrow> 'd order_event list \<Rightarrow>
   'd order_event list \<Rightarrow> bool" where
  "stage_ok p k (Some (Moved, order)) orders booked \<longleftrightarrow> p = k + order_delta order \<and> orders = booked"
| "stage_ok p k (Some (Published, order)) orders booked \<longleftrightarrow>
     p = k + order_delta order \<and> orders = booked @ [order]"
| "stage_ok p k _ orders booked \<longleftrightarrow> p = k \<and> orders = booked"

definition symbol_ok ::
  "'d::linordered_idom strategy_config \<Rightarrow> (string \<rightharpoonup> 'd) \<Rightarrow> ('s, 'd) exec_state \<Rightarrow> string \<Rightarrow> bool" where
  "symbol_ok cfg limits st s \<longleftrightarrow>
     (let k = lookup0 (ck_positions (xs_risk st)) s in
      toggle_ok cfg limits s k \<and>
      (\<forall>stage order. xs_pending st s = Some (stage, order) \<longrightarrow> pending_ok cfg limits s k order) \<and>
      stage_ok (xs_pos st s) k (xs_pending st s) (orders_of s (xs_orders st)) (orders_of s (xs_booked st)))"

definition accounts_for ::
  "('s, 'd::linordered_idom) checker \<Rightarrow> 'd order_event list \<Rightarrow> ('s, 'd) checker \<Rightarrow> bool" where
  "accounts_for c0 orders c \<longleftrightarrow>
     ck_positions c = ck_positions (fold record_req (map fill_of orders) c0) \<and>
     ck_equity c = ck_equity (fold record_req (map fill_of orders) c0) \<and>
     ck_peakEquity c = ck_peakEquity (fold record_req (map fill_of orders) c0)"

definition exec_inv ::
  "'d::linordered_idom strategy_config \<Rightarrow> ('s, 'd) checker \<Rightarrow> ('s, 'd) exec_state \<Rightarrow> bool" where
  "exec_inv cfg c0 st \<longleftrightarrow> ck_cfg (xs_risk st) = ck_cfg c0 \<and>
     (\<forall>s. symbol_ok cfg (rc_MaxPositionQty (ck_cfg c0)) st s) \<and>
     accounts_for c0 (xs_booked st) (xs_risk st)"

lemma pending_toggles:
  assumes "pending_ok cfg limits s k order" and "toggle_ok cfg limits s k" and "0 < sc_TradeQty cfg"
  shows "toggle_ok cfg limits s (k + order_delta order)"
  using assms by (auto simp: toggle_ok_def pending_ok_def order_delta_def proposedDelta_def split: if_splits)

lemma stage_ok_pos: "stage_ok p k pend orders booked \<Longrightarrow>
    p = k \<or> (\<exists>stage order. pend = Some (stage, order) \<and> p = k + order_delta order)"
  by (cases "(p, k, pend, orders, booked)" rule: stage_ok.cases) auto

lemma exec_inv_risk:
  assumes "exec_inv cfg c0 st" and "ck_cfg c = ck_cfg (xs_risk st)"
    and "ck_positions c = ck_positions (xs_risk st)" and "ck_equity c = ck_equity (xs_risk st)"
    and "ck_peakEquity c = ck_peakEquity (xs_risk st)"
  shows "exec_inv cfg c0 (st\<lparr>xs_risk := c\<rparr>)"
proof -
  have "symbol_ok cfg limits (st\<lparr>xs_risk := c\<rparr>) s = symbol_ok cfg limits st s" for limits s
    by (simp add: symbol_ok_def assms(3))
  moreover have "accounts_for c0 (xs_booked st) c"
    using assms by (simp add: exec_inv_def accounts_for_def)
  ultimately show ?thesis using assms(1,2) by (simp add: exec_inv_def)
qed

lemma exec_inv_accept:
  assumes "exec_inv cfg c0 st" and "xs_pending st s = None"
    and "pending_ok cfg (rc_MaxPositionQty (ck_cfg c0)) s (xs_pos st s) order"
  shows "exec_inv cfg c0 (st\<lparr>xs_pending := (xs_pending st)(s \<mapsto> (Accepted, order))\<rparr>)"
proof -
  have "xs_pos st s = lookup0 (ck_positions (xs_risk st)) s"
    using assms(1,2) by (auto simp: exec_inv_def symbol_ok_def Let_def dest: spec [of _ s])
  with assms show ?thesis by (auto simp: exec_inv_def symbol_ok_def Let_def dest: spec [of _ s])
qed

lemma tradeDecision_side:
  "tradeDecision cfg i q = Some sd \<Longrightarrow> (if sd = SideBuy then q \<le> 0 else sd = SideSell \<and> 0 \<le> q)"
  by (auto simp: tradeDecision_def Let_def split: if_splits)

lemma exec_inv_check:
  assumes inv: "exec_inv cfg c0 st" and none: "xs_pending st s = None"
  shows "exec_inv cfg c0 (checkL2 D cfg newOrderID s msg st)"
proof (cases "decodeL2Event D (snd msg)")
  case None
  then show ?thesis using inv by (simp add: checkL2_def)
next
  case (Some ev)
  show ?thesis
  proof (cases "tradeDecision cfg (execImbalance D (el_bids ev) (el_asks ev) 10) (xs_pos st s)")
    case None
    then show ?thesis using inv Some by (simp add: checkL2_def)
  next
    case (Some sd)
    note side = tradeDecision_side [OF Some]
    have pos: "lookup0 (ck_positions (xs_risk st)) s = xs_pos st s"
      using inv none by (auto simp: exec_inv_def symbol_ok_def Let_def dest: spec [of _ s])
    obtain c r where ct: "CanTrade D s sd (sc_TradeQty cfg) (el_EventTime ev) (xs_risk st) = (c, r)"
      by fastforce
    have sels: "ck_cfg c = ck_cfg (xs_risk st)" "ck_positions c = ck_positions (xs_risk st)"
      "ck_equity c = ck_equity (xs_risk st)" "ck_peakEquity c = ck_peakEquity (xs_risk st)"
      using CanTrade_sels [of D s sd "sc_TradeQty cfg" "el_EventTime ev" "xs_risk st"] ct by simp_all
    have inv1: "exec_inv cfg c0 (st\<lparr>xs_risk := c\<rparr>)" using inv sels by (rule exec_inv_risk)
    have "exec_inv cfg c0 (st\<lparr>xs_risk := c, xs_pending := (xs_pending st)(s \<mapsto>
        (Accepted, newOrder D cfg (newOrderID (fst msg)) s sd ev p))\<rparr>)" if r: "r = None" for p
    proof -
      have "\<forall>m. rc_MaxPositionQty (ck_cfg c0) s = Some m \<longrightarrow>
          \<bar>xs_pos st s + proposedDelta sd (sc_TradeQty cfg)\<bar> \<le> m"
        using CanTrade_None [of D s sd "sc_TradeQty cfg" "el_EventTime ev" "xs_risk st"] ct r inv pos
        by (simp add: exec_inv_def)
      then have "pending_ok cfg (rc_MaxPositionQty (ck_cfg c0)) s (xs_pos st s)
          (newOrder D cfg (newOrderID (fst msg)) s sd ev p)"
        using side by (simp add: pending_ok_def order_delta_def newOrder_def Let_def)
      with exec_inv_accept [OF inv1] none show ?thesis by simp
    qed
    with inv1 ct Some \<open>decodeL2Event D (snd msg) = Some ev\<close> show ?thesis
      by (auto simp: checkL2_def split: option.split)
  qed
qed

lemma exec_inv_move:
  assumes inv: "exec_inv cfg c0 st" and pend: "xs_pending st s = Some (Accepted, order)"
  shows "exec_inv cfg c0 (moveL2 s st)"
proof -
  have "symbol_ok cfg (rc_MaxPositionQty (ck_cfg c0)) st s'" for s'
    using inv by (simp add: exec_inv_def)
  from this [of s] have "xs_pos (moveL2 s st) = (xs_pos st)(s := xs_pos st s + order_delta order)"
    using pend by (simp add: moveL2_def order_delta_def proposedDelta_def fun_eq_iff)
  moreover have "xs_pending (moveL2 s st) = (xs_pending st)(s \<mapsto> (Moved, order))"
    "xs_risk (moveL2 s st) = xs_risk st" "xs_orders (moveL2 s st) = xs_orders st"
    "xs_booked (moveL2 s st) = xs_booked st"
    using pend by (simp_all add: moveL2_def)
  ultimately show ?thesis
    using inv pend by (auto simp: exec_inv_def symbol_ok_def Let_def dest: spec [of _ s])
qed

lemma orders_of_snoc [simp]:
  "orders_of s (orders @ [order]) = orders_of s orders @ (if oe_Symbol order = s then [order] else [])"
  by (simp add: orders_of_def)

lemma exec_inv_publish:
  assumes inv: "exec_inv cfg c0 st" and pend: "xs_pending st s = Some (Moved, order)"
  shows "exec_inv cfg c0 (publishL2 s st)"
proof -
  have "oe_Symbol order = s"
    using inv pend by (auto simp: exec_inv_def symbol_ok_def Let_def pending_ok_def dest: spec [of _ s])
  then show ?thesis
    using inv pend
    by (auto simp: exec_inv_def symbol_ok_def Let_def publishL2_def dest: spec [of _ s])
qed

lemma exec_inv_book:
  assumes inv: "exec_inv cfg c0 st" and pend: "xs_pending st s = Some (Published, order)"
    and q: "0 < sc_TradeQty cfg"
  shows "exec_inv cfg c0 (bookL2 s st)"
proof -
  let ?k = "lookup0 (ck_positions (xs_risk st))" and ?limits = "rc_MaxPositionQty (ck_cfg c0)"
  let ?c = "RecordFill s (oe_Side order) (oe_FillQty order) (oe_FillPrice order) (oe_Fee order) (xs_risk st)"
  let ?f = "fold record_req (map fill_of (xs_booked st)) c0"
  have sy: "symbol_ok cfg ?limits st s'" for s' using inv by (simp add: exec_inv_def)
  have ok: "pending_ok cfg ?limits s (?k s) order" "toggle_ok cfg ?limits s (?k s)"
    "xs_pos st s = ?k s + order_delta order" "orders_of s (xs_orders st) = orders_of s (xs_booked st) @ [order]"
    using sy [of s] pend by (simp_all add: symbol_ok_def Let_def)
  have sym: "oe_Symbol order = s" using ok(1) by (simp add: pending_ok_def)
  have k': "lookup0 (ck_positions ?c) = ?k(s := ?k s + order_delta order)"
    using ok(1) by (simp add: fun_eq_iff pending_ok_def order_delta_def)
  have st': "bookL2 s st = st\<lparr>xs_risk := ?c, xs_booked := xs_booked st @ [order],
      xs_pending := (xs_pending st)(s := None)\<rparr>"
    using pend by (simp add: bookL2_def)
  have "record_req (fill_of order) ?f = RecordFill s (oe_Side order) (oe_FillQty order)
      (oe_FillPrice order) (oe_Fee order) ?f"
    using ok(1) by (simp add: record_req_def fill_of_def pending_ok_def)
  then have "accounts_for c0 (xs_booked st @ [order]) ?c"
    using inv by (simp add: exec_inv_def accounts_for_def)
  moreover have "symbol_ok cfg ?limits (bookL2 s st) s'" for s'
    using sy [of s'] ok(2-4) pending_toggles [OF ok(1,2) q] sym
    by (cases "s' = s") (simp_all add: st' symbol_ok_def Let_def k' del: RecordFill_positions)
  ultimately show ?thesis using inv by (simp add: exec_inv_def st')
qed

lemma exec_inv_reach:
  assumes "exec_reach D cfg newOrderID st0 st" and "exec_inv cfg c0 st0"
    and "0 < sc_TradeQty cfg"
  shows "exec_inv cfg c0 st"
  using assms(1,2)
proof (induction rule: exec_reach.induct)
  case (exec_next st st')
  from exec_next(2) show ?case
    using exec_next assms(3)
    by cases (auto intro: exec_inv_check exec_inv_move exec_inv_publish exec_inv_book)
qed

lemma exec_inv_New:
  assumes "ck_positions c0 = Map.empty"
  shows "exec_inv cfg c0 (NewExecutor c0)"
  using assms by (simp add: exec_inv_def NewExecutor_def accounts_for_def symbol_ok_def toggle_ok_def
      orders_of_def)

text \<open>With nothing between XADD and RecordFill the two logs hold the same orders.\<close>

lemma mset_of_symbols:
  assumes "\<And>s. orders_of s xs = orders_of s ys"
  shows "mset xs = mset ys"
proof (rule multiset_eqI)
  fix order :: "'a order_event"
  have "count (mset (orders_of (oe_Symbol order) zs)) order = count (mset zs) order" for zs
    by (induction zs) (auto simp: orders_of_def)
  then show "count (mset xs) order = count (mset ys) order" using assms by metis
qed

definition no_published :: "('s, 'd) exec_state \<Rightarrow> bool" where
  "no_published st \<longleftrightarrow> (\<forall>s order. xs_pending st s \<noteq> Some (Published, order))"

lemma stage_ok_logs:
  "stage_ok p k pend orders booked \<Longrightarrow> (\<And>order. pend \<noteq> Some (Published, order)) \<Longrightarrow> orders = booked"
  by (cases "(p, k, pend, orders, booked)" rule: stage_ok.cases) auto

lemma all_booked:
  assumes "exec_inv cfg c0 st" and "no_published st"
  shows "mset (xs_orders st) = mset (xs_booked st)"
proof (rule mset_of_symbols)
  fix s
  have "stage_ok (xs_pos st s) (lookup0 (ck_positions (xs_risk st)) s) (xs_pending st s)
      (orders_of s (xs_orders st)) (orders_of s (xs_booked st))"
    using assms(1) by (simp add: exec_inv_def symbol_ok_def Let_def)
  from stage_ok_logs [OF this] assms(2) show "orders_of s (xs_orders st) = orders_of s (xs_booked st)"
    by (simp add: no_published_def)
qed

text \<open>Positions depend on the orders of the symbol alone, equity on all of them in any order.\<close>

lemma accounts_sums:
  assumes "c0 = NewChecker rcfg store ns rid w"
  shows "lookup0 (ck_positions (fold record_req (map fill_of orders) c0)) s =
      (\<Sum>order \<leftarrow> orders_of s orders. signed_qty (fill_of order))"
    and "ck_equity (fold record_req (map fill_of orders) c0) = rc_InitialCapital rcfg -
      (\<Sum>order \<leftarrow> orders. signed_qty (fill_of order) * oe_FillPrice order + oe_Fee order)"
  using fold_record_req [of c0 "map fill_of orders" s] assms
  by (simp_all add: NewChecker_def Let_def orders_of_def filter_map comp_def fill_of_def)

lemma accounts_same:
  assumes "c0 = NewChecker rcfg store ns rid w"
  shows "orders_of s xs = orders_of s ys \<Longrightarrow>
      lookup0 (ck_positions (fold record_req (map fill_of xs) c0)) s =
      lookup0 (ck_positions (fold record_req (map fill_of ys) c0)) s"
    and "mset xs = mset ys \<Longrightarrow> ck_equity (fold record_req (map fill_of xs) c0) =
      ck_equity (fold record_req (map fill_of ys) c0)"
  by (simp_all add: accounts_sums [OF assms])
    (metis (no_types, lifting) mset_map sum_mset_sum_list)

section \<open>Properties\<close>

text \<open>
  C13 (invariant): whatever way the symbols' goroutines interleave, between any two of the steps
  of a message (risk check, position update, XADD, RecordFill): the executor's position of a
  symbol and the checker's are equal, except from the position update to RecordFill of an
  order of that symbol, when they differ by exactly that order; both are always flat or one
  trade quantity long or short, and within the limit; the symbol's orders are handed to RecordFill
  in the order they were handed to XADD, each once, at most the last one still missing; and the
  checker's positions, equity and peak are those of the orders handed to RecordFill. So when no symbol is
  between XADD and RecordFill the checker has booked exactly the orders handed to XADD and its equity is
  theirs. (Different symbols' orders may be booked in another order than they were published.)
\<close>

theorem executor_toggles_in_step_with_risk:
  assumes "exec_reach D cfg newOrderID (NewExecutor c0) st"
    and "c0 = NewChecker rcfg store ns rid w" and "0 < sc_TradeQty cfg"
    and "k = lookup0 (ck_positions (xs_risk st)) s"
  shows "stage_ok (xs_pos st s) k (xs_pending st s) (orders_of s (xs_orders st)) (orders_of s (xs_booked st)) \<and>
     toggle_ok cfg (rc_MaxPositionQty rcfg) s (xs_pos st s) \<and> toggle_ok cfg (rc_MaxPositionQty rcfg) s k \<and>
     accounts_for c0 (xs_booked st) (xs_risk st) \<and>
     (no_published st \<longrightarrow> mset (xs_booked st) = mset (xs_orders st) \<and>
        ck_equity (xs_risk st) = ck_equity (fold record_req (map fill_of (xs_orders st)) c0))"
proof -
  have cfg: "ck_cfg c0 = rcfg" using assms(2) by (simp add: NewChecker_def Let_def)
  have inv: "exec_inv cfg c0 st"
    using exec_inv_reach [OF assms(1) exec_inv_New assms(3)] assms(2) by (simp add: NewChecker_def Let_def)
  have "symbol_ok cfg (rc_MaxPositionQty rcfg) st s" using inv by (simp add: exec_inv_def cfg)
  then have ok: "toggle_ok cfg (rc_MaxPositionQty rcfg) s k"
    "\<And>stage order. xs_pending st s = Some (stage, order) \<Longrightarrow> pending_ok cfg (rc_MaxPositionQty rcfg) s k order"
    "stage_ok (xs_pos st s) k (xs_pending st s) (orders_of s (xs_orders st)) (orders_of s (xs_booked st))"
    by (simp_all add: symbol_ok_def Let_def assms(4))
  have "toggle_ok cfg (rc_MaxPositionQty rcfg) s (xs_pos st s)"
    using stage_ok_pos [OF ok(3)] ok(1) pending_toggles [OF ok(2,1) assms(3)] by metis
  moreover have acc: "accounts_for c0 (xs_booked st) (xs_risk st)" using inv by (simp add: exec_inv_def)
  ultimately show ?thesis
    using ok(1,3) all_booked [OF inv] accounts_same(2) [OF assms(2), of "xs_orders st" "xs_booked st"]
    by (auto simp: accounts_for_def)
qed

definition wit_strategy :: "rat strategy_config" where
  "wit_strategy = \<lparr>sc_MakerFeeBps = 0, sc_TakerFeeBps = 0, sc_SlippageBps = 0, sc_TradeQty = 1,
     sc_BuyThreshold = 1 / 5, sc_SellThreshold = 1 / 5, sc_InitialCapital = 1000,
     sc_MaxPositionQty = Map.empty, sc_MaxDrawdownPct = 0, sc_RunLossLimitPct = 0\<rparr>"

definition wit_update :: fields where
  "wit_update = l2Values rat_pkg ''r'' ''A'' 3 1 [\<lparr>pl_Price = 99, pl_Quantity = 1\<rparr>] []"

definition wit_quote :: fields where
  "wit_quote = l2Values rat_pkg ''r'' ''A'' 3 1 [\<lparr>pl_Price = 99, pl_Quantity = 3\<rparr>]
     [\<lparr>pl_Price = 101, pl_Quantity = 1\<rparr>]"

definition wit_fill_order :: "rat order_event" where
  "wit_fill_order = \<lparr>oe_RunID = ''r'', oe_Symbol = ''A'', oe_EventTime = 3, oe_OrderID = ''1-0'', oe_Side = SideBuy,
     oe_Type = OrderTypeMarket, oe_Price = 0, oe_Quantity = 1, oe_Status = OrderStatusFilled,
     oe_FillPrice = 101, oe_FillQty = 1, oe_Fee = 0, oe_SignalName = ''book_imbalance''\<rparr>"

lemma wit_quote_buy:
  "tradeDecision wit_strategy (execImbalance rat_pkg [\<lparr>pl_Price = 99, pl_Quantity = 3\<rparr>]
     [\<lparr>pl_Price = 101, pl_Quantity = 1\<rparr>] 10) 0 = Some SideBuy"
  by (simp add: execImbalance_def sumQty_def rat_pkg_def rat_div_def tradeDecision_def wit_strategy_def)

lemma wit_quote_accepted:
  "xs_pending (checkL2 rat_pkg wit_strategy id ''A'' (''1-0'', wit_quote) (NewExecutor wit_checker)) =
     [''A'' \<mapsto> (Accepted, wit_fill_order)]"
proof -
  have "snd (CanTrade rat_pkg ''A'' SideBuy 1 3 wit_checker) = None"
    by (simp add: CanTrade_def wit_checker_def wit_risk_cfg_def NewChecker_def Let_def Halted_def
        probePersistedHalt_def NoopHaltStore_def checkPosition_def split: prod.split option.split)
  then obtain c where "CanTrade rat_pkg ''A'' SideBuy 1 3 wit_checker = (c, None)"
    by (cases "CanTrade rat_pkg ''A'' SideBuy 1 3 wit_checker") auto
  moreover have "\<lfloor>1 / 2 :: rat\<rfloor> = 0" by linarith
  ultimately show ?thesis
    by (simp add: checkL2_def NewExecutor_def wit_quote_def decode_l2Values_exec time_ok_def
      wit_quote_buy execFillPrice_def newOrder_def wit_strategy_def [THEN arg_cong, of sc_TradeQty, simplified])
     (simp add: wit_fill_order_def wit_strategy_def ComputeFillPrice_def ComputeFee_def rat_pkg_def rat_div_def
      ten4_def Let_def)
qed

lemma checkL2_rest [simp]:
  "xs_pos (checkL2 D cfg newOrderID s msg st) = xs_pos st"
  "xs_orders (checkL2 D cfg newOrderID s msg st) = xs_orders st"
  "xs_booked (checkL2 D cfg newOrderID s msg st) = xs_booked st"
  by (simp_all add: checkL2_def split: option.split prod.split)

text \<open>A buy that is in the orders stream but not yet in the checker, and then is.\<close>

lemma executor_toggles_in_step_with_risk_witness:
  "let st = publishL2 ''A'' (moveL2 ''A'' (checkL2 rat_pkg wit_strategy id ''A'' (''1-0'', wit_quote)
       (NewExecutor wit_checker))) in
   xs_orders st = [wit_fill_order] \<and> xs_pos st ''A'' = 1 \<and> lookup0 (ck_positions (xs_risk st)) ''A'' = 0 \<and>
   lookup0 (ck_positions (xs_risk (bookL2 ''A'' st))) ''A'' = 1 \<and>
   mset (xs_booked (bookL2 ''A'' st)) = {#wit_fill_order#}"
proof -
  let ?st0 = "NewExecutor wit_checker"
  let ?st1 = "checkL2 rat_pkg wit_strategy id ''A'' (''1-0'', wit_quote) ?st0"
  let ?st2 = "moveL2 ''A'' ?st1"
  let ?st3 = "publishL2 ''A'' ?st2"
  have new: "xs_pos ?st1 ''A'' = 0" "xs_orders ?st1 = []" by (simp_all add: NewExecutor_def)
  have p2: "xs_pending ?st2 = [''A'' \<mapsto> (Moved, wit_fill_order)]" "xs_orders ?st2 = []" "xs_pos ?st2 ''A'' = 1"
    using new by (simp_all add: moveL2_def wit_quote_accepted del: checkL2_rest) (simp add: wit_fill_order_def)
  have p3: "xs_pending ?st3 = [''A'' \<mapsto> (Published, wit_fill_order)]" "xs_orders ?st3 = [wit_fill_order]"
    "xs_pos ?st3 ''A'' = 1"
    by (simp_all add: publishL2_def p2)
  have p4: "xs_pending (bookL2 ''A'' ?st3) = Map.empty" "xs_orders (bookL2 ''A'' ?st3) = [wit_fill_order]"
    "xs_pos (bookL2 ''A'' ?st3) ''A'' = 1"
    by (simp_all add: bookL2_def p3)
  have "exec_reach rat_pkg wit_strategy id ?st0 ?st1"
    by (rule exec_next [OF exec_start exec_check]) (simp add: NewExecutor_def)
  from exec_next [OF this exec_move] wit_quote_accepted
  have "exec_reach rat_pkg wit_strategy id ?st0 ?st2" by simp
  from exec_next [OF this exec_publish] p2 have r3: "exec_reach rat_pkg wit_strategy id ?st0 ?st3" by simp
  from exec_next [OF this exec_book] p3 have r4: "exec_reach rat_pkg wit_strategy id ?st0 (bookL2 ''A'' ?st3)"
    by simp
  have q: "0 < sc_TradeQty wit_strategy" by (simp add: wit_strategy_def)
  from executor_toggles_in_step_with_risk [OF r3 wit_checker_def q refl, of "''A''"]
    executor_toggles_in_step_with_risk [OF r4 wit_checker_def q refl, of "''A''"]
  show ?thesis
    by (simp add: Let_def p3 p4 no_published_def order_delta_def wit_fill_order_def proposedDelta_def)
qed

text \<open>
  The executor's inline strategy is the live one. Its decision for a book
  and a net position is what the decider decides on the signal service's book_imbalance of that
  book at depth 10 and the direction of the position.
\<close>

lemma executor_agrees_with_decider:
  "tradeDecision cfg (execImbalance D (l2_Bids e) (l2_Asks e) 10) qty =
   Decide cfg (bookImbalance D e 10) (if qty = 0 then Flat else if 0 < qty then Long else Short)"
  by (auto simp: tradeDecision_def Decide_def bookImbalance_def execImbalance_def Let_def)

text \<open>The outcome of one message as one expression: no order, or the order and its fill.\<close>

definition l2_outcome ::
  "'d::linordered_idom decimal_pkg \<Rightarrow> 'd strategy_config \<Rightarrow> string \<Rightarrow> string \<Rightarrow> 'd exec_l2 \<Rightarrow> side \<Rightarrow>
   ('s, 'd) exec_state \<Rightarrow> ('s, 'd) exec_state" where
  "l2_outcome D cfg orderID s ev sd st =
     (let (c, err) = CanTrade D s sd (sc_TradeQty cfg) (el_EventTime ev) (xs_risk st);
          quotes = (if sd = SideBuy then el_asks ev else el_bids ev);
          q = sc_TradeQty cfg in
      if err \<noteq> None \<or> quotes = [] then st\<lparr>xs_risk := c\<rparr>
      else let price = ComputeFillPrice D (sd = SideBuy) (pl_Price (hd quotes)) (sc_SlippageBps cfg);
               fee = ComputeFee D q price (sc_TakerFeeBps cfg);
               order = \<lparr>oe_RunID = el_runID ev, oe_Symbol = s,
                   oe_EventTime = el_EventTime ev, oe_OrderID = orderID, oe_Side = sd,
                   oe_Type = OrderTypeMarket, oe_Price = 0, oe_Quantity = q,
                   oe_Status = OrderStatusFilled, oe_FillPrice = price, oe_FillQty = q,
                   oe_Fee = fee, oe_SignalName = ''book_imbalance''\<rparr>
           in st\<lparr>xs_pos := (xs_pos st)(s := xs_pos st s + (if sd = SideBuy then q else - q)),
                 xs_pending := (xs_pending st)(s := None),
                 xs_orders := xs_orders st @ [order], xs_booked := xs_booked st @ [order],
                 xs_risk := RecordFill s sd q price fee c\<rparr>)"

lemma commit_check_trade:
  assumes none: "xs_pending st s = None" and ev: "decodeL2Event D (snd msg) = Some ev"
    and sd: "tradeDecision cfg (execImbalance D (el_bids ev) (el_asks ev) 10) (xs_pos st s) = Some sd"
  shows "handleL2 D cfg newOrderID s msg st =
     l2_outcome D cfg (newOrderID (fst msg)) s ev sd st"
proof -
  obtain c err where ct: "CanTrade D s sd (sc_TradeQty cfg) (el_EventTime ev) (xs_risk st) = (c, err)"
    by fastforce
  let ?quotes = "if sd = SideBuy then el_asks ev else el_bids ev"
  show ?thesis
  proof (cases "err \<noteq> None \<or> ?quotes = []")
    case True
    then have "checkL2 D cfg newOrderID s msg st = st\<lparr>xs_risk := c\<rparr>"
      using ev sd ct by (auto simp: checkL2_def execFillPrice_def split: option.split)
    with True none ct show ?thesis
      by (auto simp: handleL2_def fill_steps l2_outcome_def Let_def)
  next
    case False
    then obtain b bs where q: "?quotes = b # bs" and e: "err = None" by (cases ?quotes) auto
    have price: "execFillPrice D cfg sd (el_bids ev) (el_asks ev) =
        Some (ComputeFillPrice D (sd = SideBuy) (pl_Price b) (sc_SlippageBps cfg))"
      using q by (cases "sd = SideBuy") (simp_all add: execFillPrice_def)
    show ?thesis
      using ev sd ct e price q False
      by (simp add: handleL2_def checkL2_def fill_steps newOrder_def l2_outcome_def Let_def)
  qed
qed

text \<open>
  The life of one message, on every branch. A message that does not decode, a
  decision not to trade, a risk refusal or an empty side of the book leaves
  positions and orders alone (the risk checker only keeps what CanTrade did to it). Otherwise
  exactly one order is published: for the trade quantity at the slipped best price of the
  side it crosses, with the taker fee, stamped with the event's run and time; and the same
  fill is booked in the position and in the checker.
\<close>

lemma handleL2_branches:
  assumes "xs_pending st s = None"
  shows "handleL2 D cfg newOrderID s msg st =
     (case decodeL2Event D (snd msg) of None \<Rightarrow> st
      | Some ev \<Rightarrow>
         (case tradeDecision cfg (execImbalance D (el_bids ev) (el_asks ev) 10) (xs_pos st s) of
            None \<Rightarrow> st
          | Some sd \<Rightarrow> l2_outcome D cfg (newOrderID (fst msg)) s ev sd st))"
proof (cases "decodeL2Event D (snd msg)")
  case None
  then show ?thesis using assms by (simp add: handleL2_def checkL2_def fill_steps)
next
  case (Some ev)
  show ?thesis
  proof (cases "tradeDecision cfg (execImbalance D (el_bids ev) (el_asks ev) 10) (xs_pos st s)")
    case None
    then show ?thesis using assms Some by (simp add: handleL2_def checkL2_def fill_steps)
  next
    case (Some sd)
    with commit_check_trade [of st s D msg ev cfg sd newOrderID] assms
      \<open>decodeL2Event D (snd msg) = Some ev\<close>
    show ?thesis by (simp add: \<open>decodeL2Event D (snd msg) = Some ev\<close>)
  qed
qed

lemma handleL2_branches_witness:
  "xs_orders (handleL2 rat_pkg wit_strategy id ''A'' (''1-0'', Map.empty)
     (NewExecutor wit_checker)) = []"
  using handleL2_branches [of "NewExecutor wit_checker" "''A''" rat_pkg wit_strategy
      id "(''1-0'', Map.empty)"]
  by (simp add: NewExecutor_def decodeL2Event_def)

text \<open>
  No book update is lost and none is handled twice. However the reader's
  replies are cut into batches, timeouts and errors, when the context ends it and the drain runs
  against a Redis that answers, the symbol's loop has handled exactly the entries of the
  stream, each once and in order.
\<close>

lemma symbolLoop_handles_all_once:
  assumes "stream_log es" and "\<forall>r \<in> set reads. xread_serves es r"
    and "\<forall>r \<in> set drains. xrange_serves es 20 r" and "length es < length drains"
  shows "symbolLoop D cfg newOrderID s reads drains st =
     fold (handleL2 D cfg newOrderID s) es st"
proof -
  let ?h = "handleL2 D cfg newOrderID s"
  obtain st' i where read: "readerLoop ?h reads ''0-0'' st = (st', i)" by fastforce
  have "drainLoop ?h drains (drainStartOf i) i st' = fold ?h es st"
    by (rule read_then_drain_all [OF assms(1) _ assms(2,3,4) read]) simp
  with read show ?thesis by (simp add: symbolLoop_def runL2Reader_def drainL2_def)
qed

lemma symbolLoop_handles_all_once_witness:
  "symbolLoop rat_pkg wit_strategy id ''A''
     [\<lambda>i. XReadNil False, \<lambda>i. XReadErr False, \<lambda>i. XReadMsgs (take 1 (entries_after
        [(''1-0'', wit_update), (''2-0'', wit_update)] i)), \<lambda>i. XReadNil True]
     (replicate 3 (\<lambda>s. Some (take 20 (range_from [(''1-0'', wit_update), (''2-0'', wit_update)] s))))
     (NewExecutor wit_checker) =
   fold (handleL2 rat_pkg wit_strategy id ''A'') [(''1-0'', wit_update), (''2-0'', wit_update)]
     (NewExecutor wit_checker)"
  by (rule symbolLoop_handles_all_once)
    (auto simp: stream_log_def xread_serves_def xrange_serves_def take_is_prefix)

end
