(* ===== verification/Collector.thy ===== *)
theory Collector
  imports Risk Streams Wire
begin

text \<open>
  The result collector of a backtest, engine/backtest/collector/collector.go: signal counts, and
  the persistence of filled orders with a mark-to-market equity curve.

  The calls to the trade writer are listed oldest first; their errors are only logged.
\<close>

section \<open>Signal counts\<close>

record signal_counts =
  cl_counts :: "(string \<times> int) list"
  cl_total :: int

definition handleSignal ::
  "string \<times> fields \<Rightarrow> signal_counts \<Rightarrow> signal_counts" where
  "handleSignal msg c =
     (let symbol = ToUpper (strField (snd msg) ''symbol''); n = lookup0 (map_of (cl_counts c)) symbol in
      c\<lparr>cl_counts := AList.update symbol (n + 1) (cl_counts c), cl_total := cl_total c + 1\<rparr>)"

text \<open>\<open>signalsLoop\<close>: unlike the orders loop it only ends at an error that is not a timeout.\<close>

fun signalsLoop ::
  "(string \<Rightarrow> fields xread_reply) list \<Rightarrow> string \<Rightarrow> signal_counts \<Rightarrow>
   signal_counts \<times> string" where
  "signalsLoop [] lastID c = (c, lastID)"
| "signalsLoop (r # rs) lastID c =
     (case r lastID of
        XReadNil ctxDone \<Rightarrow> signalsLoop rs lastID c
      | XReadErr ctxDone \<Rightarrow>
          if ctxDone then (c, lastID) else signalsLoop rs lastID c
      | XReadMsgs msgs \<Rightarrow>
          (case processBatch (handleSignal) msgs lastID c of
             (c', lastID') \<Rightarrow> signalsLoop rs lastID' c'))"

section \<open>The equity tracker\<close>

text \<open>The two Go maps are association lists: the equity loop iterates the positions.\<close>

record 'd equity_tracker =
  et_cash :: 'd
  et_positions :: "(string \<times> 'd) list"
  et_lastFillPrice :: "(string \<times> 'd) list"

definition newEquityTracker :: "'d \<Rightarrow> 'd equity_tracker" where
  "newEquityTracker initialCapital =
     \<lparr>et_cash = initialCapital, et_positions = [], et_lastFillPrice = []\<rparr>"

definition markToMarket ::
  "'d::linordered_idom \<Rightarrow> (string \<times> 'd) list \<Rightarrow> (string \<times> 'd) list \<Rightarrow> 'd" where
  "markToMarket cash positions marks =
     foldl (\<lambda>equity (s, pos).
       if pos \<noteq> 0
       then (case map_of marks s of None \<Rightarrow> equity | Some mark \<Rightarrow> equity + pos * mark)
       else equity) cash positions"

definition applyFill ::
  "string \<Rightarrow> side \<Rightarrow> 'd::linordered_idom \<Rightarrow> 'd \<Rightarrow> 'd \<Rightarrow> 'd equity_tracker \<Rightarrow>
   'd equity_tracker \<times> 'd" where
  "applyFill symbol sd qty price fee t =
     (let t1 = t\<lparr>et_lastFillPrice := AList.update symbol price (et_lastFillPrice t)\<rparr>;
          prev = lookup0 (map_of (et_positions t1)) symbol;
          t2 = (if sd = SideBuy
                then t1\<lparr>et_cash := et_cash t1 - qty * price - fee,
                        et_positions := AList.update symbol (prev + qty) (et_positions t1)\<rparr>
                else t1\<lparr>et_cash := et_cash t1 + qty * price - fee,
                        et_positions := AList.update symbol (prev - qty) (et_positions t1)\<rparr>)
      in (t2, markToMarket (et_cash t2) (et_positions t2) (et_lastFillPrice t2)))"

section \<open>The orders loop\<close>

datatype 'd writer_call = CallWriteTrade "'d trade_record" | CallWriteEquity "'d equity_point"

record 'd orders_state =
  od_tracker :: "'d equity_tracker"
  od_count :: int
  od_calls :: "'d writer_call list"

definition trade_of :: "'d order_event \<Rightarrow> 'd trade_record" where
  "trade_of ev = \<lparr>tr_RunID = oe_RunID ev, tr_TradeID = oe_OrderID ev, tr_Symbol = oe_Symbol ev,
     tr_EventTime = oe_EventTime ev, tr_Side = oe_Side ev, tr_FillPrice = oe_FillPrice ev,
     tr_FillQty = oe_FillQty ev, tr_Fee = oe_Fee ev, tr_SignalName = oe_SignalName ev\<rparr>"

definition handleOrder ::
  "'d::linordered_idom decimal_pkg \<Rightarrow> string \<times> fields \<Rightarrow> 'd orders_state \<Rightarrow>
   'd orders_state \<times> bool" where
  "handleOrder D msg st =
     (case decodeOrderEvent D (snd msg) of
        None \<Rightarrow> (st, False)
      | Some ev \<Rightarrow>
          if oe_Status ev \<noteq> OrderStatusFilled then (st, False)
          else let st1 = st\<lparr>od_calls := od_calls st @ [CallWriteTrade (trade_of ev)]\<rparr>;
                   (t, equity) = applyFill (oe_Symbol ev) (oe_Side ev) (oe_FillQty ev)
                     (oe_FillPrice ev) (oe_Fee ev) (od_tracker st1)
               in (st1\<lparr>od_tracker := t, od_calls := od_calls st1 @
                     [CallWriteEquity \<lparr>ep_RunID = oe_RunID ev, ep_EventTime = oe_EventTime ev,
                        ep_Equity = equity\<rparr>]\<rparr>, True))"

definition countOrder ::
  "'d::linordered_idom decimal_pkg \<Rightarrow> string \<times> fields \<Rightarrow> 'd orders_state \<Rightarrow>
   'd orders_state" where
  "countOrder D msg st =
     (case handleOrder D msg st of
        (st', b) \<Rightarrow> if b then st'\<lparr>od_count := od_count st' + 1\<rparr> else st')"

definition runOrdersReader ::
  "'d::linordered_idom decimal_pkg \<Rightarrow> (string \<Rightarrow> fields xread_reply) list \<Rightarrow>
   'd orders_state \<Rightarrow> 'd orders_state \<times> string" where
  "runOrdersReader D replies st = readerLoop (countOrder D) replies ''0-0'' st"

definition drainOrders ::
  "'d::linordered_idom decimal_pkg \<Rightarrow> (string \<Rightarrow> (string \<times> fields) list option) list \<Rightarrow>
   string \<Rightarrow> 'd orders_state \<Rightarrow> 'd orders_state" where
  "drainOrders D replies lastID st =
     drainLoop (countOrder D) replies (drainStartOf lastID) lastID st"

definition ordersLoop ::
  "'d::linordered_idom decimal_pkg \<Rightarrow> 'd \<Rightarrow> (string \<Rightarrow> fields xread_reply) list \<Rightarrow>
   (string \<Rightarrow> (string \<times> fields) list option) list \<Rightarrow> 'd orders_state" where
  "ordersLoop D initialCapital reads drains =
     (case runOrdersReader D reads
        \<lparr>od_tracker = newEquityTracker initialCapital, od_count = 0, od_calls = []\<rparr> of
        (st, lastID) \<Rightarrow> drainOrders D drains lastID st)"

section \<open>Accounting facts\<close>

definition wf_tracker :: "'d::linordered_idom equity_tracker \<Rightarrow> bool" where
  "wf_tracker t \<longleftrightarrow> distinct (map fst (et_positions t))"

text \<open>The value of a portfolio: cash and every position at its mark.\<close>

definition portfolio_value :: "'d::linordered_idom equity_tracker \<Rightarrow> 'd" where
  "portfolio_value t = et_cash t +
     (\<Sum>s \<in> fst ` set (et_positions t).
        lookup0 (map_of (et_positions t)) s * lookup0 (map_of (et_lastFillPrice t)) s)"

lemma markToMarket_sum:
  "distinct (map fst positions) \<Longrightarrow> markToMarket cash positions marks = cash +
     (\<Sum>s \<in> fst ` set positions. lookup0 (map_of positions) s * lookup0 (map_of marks) s)"
proof (induction positions arbitrary: cash)
  case Nil
  then show ?case by (simp add: markToMarket_def)
next
  case (Cons x positions)
  obtain s pos where x: "x = (s, pos)" by fastforce
  have s: "s \<notin> fst ` set positions" using Cons.prems x by simp
  have rest: "(\<Sum>s' \<in> fst ` set positions.
        lookup0 (map_of (x # positions)) s' * lookup0 (map_of marks) s') =
      (\<Sum>s' \<in> fst ` set positions. lookup0 (map_of positions) s' * lookup0 (map_of marks) s')"
    using s by (intro sum.cong) (auto simp: x lookup0_def)
  have "markToMarket cash (x # positions) marks =
      markToMarket (cash + pos * lookup0 (map_of marks) s) positions marks"
    by (auto simp: markToMarket_def x lookup0_def split: option.split)
  then show ?case using Cons s rest by (simp add: x lookup0_def)
qed

lemma applyFill_wf:
  assumes "wf_tracker t"
  shows "wf_tracker (fst (applyFill s sd q p f t))"
  using assms by (auto simp: wf_tracker_def applyFill_def Let_def distinct_update update_conv')

lemma applyFill_value:
  assumes "wf_tracker t"
  shows "snd (applyFill s sd q p f t) = portfolio_value (fst (applyFill s sd q p f t))"
  using applyFill_wf [OF assms, of s sd q p f]
  by (auto simp: applyFill_def Let_def portfolio_value_def wf_tracker_def markToMarket_sum)

lemma applyFill_cash [simp]:
  "et_cash (fst (applyFill s sd q p f t)) = et_cash t - proposedDelta sd q * p - f"
  by (simp add: applyFill_def Let_def proposedDelta_def)

lemma applyFill_positions:
  "map_of (et_positions (fst (applyFill s sd q p f t))) =
     (map_of (et_positions t))(s \<mapsto> lookup0 (map_of (et_positions t)) s + proposedDelta sd q)"
  by (auto simp: applyFill_def Let_def proposedDelta_def update_conv')

lemma applyFill_marks:
  "map_of (et_lastFillPrice (fst (applyFill s sd q p f t))) =
     (map_of (et_lastFillPrice t))(s \<mapsto> p)"
  by (simp add: applyFill_def Let_def update_conv')

lemma applyFill_dom:
  "fst ` set (et_positions (fst (applyFill s sd q p f t))) = insert s (fst ` set (et_positions t))"
  by (auto simp: applyFill_def Let_def dom_update)

lemma portfolio_value_fill:
  assumes wf: "wf_tracker t"
  shows "portfolio_value (fst (applyFill s sd q p f t)) = portfolio_value t - f +
     lookup0 (map_of (et_positions t)) s * (p - lookup0 (map_of (et_lastFillPrice t)) s)"
proof -
  let ?t = "fst (applyFill s sd q p f t)" and ?S = "fst ` set (et_positions t)"
  let ?v = "\<lambda>t s. lookup0 (map_of (et_positions t)) s * lookup0 (map_of (et_lastFillPrice t)) s"
  have "(\<Sum>s' \<in> insert s ?S. ?v ?t s') = ?v ?t s + (\<Sum>s' \<in> ?S - {s}. ?v ?t s')"
    by (simp add: sum.insert_remove)
  also have "(\<Sum>s' \<in> ?S - {s}. ?v ?t s') = (\<Sum>s' \<in> ?S - {s}. ?v t s')"
    by (intro sum.cong) (auto simp: applyFill_positions applyFill_marks)
  finally have new: "(\<Sum>s' \<in> insert s ?S. ?v ?t s') = ?v ?t s + (\<Sum>s' \<in> ?S - {s}. ?v t s')" .
  have old: "(\<Sum>s' \<in> ?S. ?v t s') = ?v t s + (\<Sum>s' \<in> ?S - {s}. ?v t s')"
  proof (cases "s \<in> ?S")
    case True
    then show ?thesis by (simp add: sum.remove)
  next
    case False
    then have "map_of (et_positions t) s = None" by (simp add: map_of_eq_None_iff)
    then have "?v t s = 0" by (simp add: lookup0_def)
    with False show ?thesis by (simp add: Diff_triv)
  qed
  show ?thesis
    unfolding portfolio_value_def applyFill_dom new old
    by (simp add: applyFill_positions applyFill_marks algebra_simps)
qed

definition track :: "'d::linordered_idom order_req list \<Rightarrow> 'd equity_tracker \<Rightarrow> 'd equity_tracker" where
  "track fills t = fold (\<lambda>r t. fst (applyFill (rq_symbol r) (rq_side r) (rq_qty r) (rq_price r)
     (rq_fee r) t)) fills t"

lemma track_sync:
  assumes "wf_tracker t" and "et_cash t = ck_equity c"
    and "\<forall>s. lookup0 (map_of (et_positions t)) s = lookup0 (ck_positions c) s"
  shows "wf_tracker (track fills t) \<and> et_cash (track fills t) = ck_equity (fold record_req fills c) \<and>
    (\<forall>s. lookup0 (map_of (et_positions (track fills t))) s =
       lookup0 (ck_positions (fold record_req fills c)) s)"
  using assms
proof (induction fills arbitrary: t c)
  case Nil
  then show ?case by (simp add: track_def)
next
  case (Cons r fills)
  let ?t = "fst (applyFill (rq_symbol r) (rq_side r) (rq_qty r) (rq_price r) (rq_fee r) t)"
  have "wf_tracker ?t" using Cons.prems(1) by (rule applyFill_wf)
  moreover have "et_cash ?t = ck_equity (record_req r c)"
    using Cons.prems by (simp add: record_req_def)
  moreover have "\<forall>s. lookup0 (map_of (et_positions ?t)) s = lookup0 (ck_positions (record_req r c)) s"
    using Cons.prems by (simp add: record_req_def applyFill_positions)
  ultimately show ?case using Cons.IH [of ?t "record_req r c"] by (simp add: track_def)
qed

text \<open>The filled orders among the messages, and what is written for each.\<close>

definition filled ::
  "'d::linordered_idom decimal_pkg \<Rightarrow> (string \<times> fields) list \<Rightarrow> 'd order_event list" where
  "filled D msgs = List.map_filter (\<lambda>msg.
     case decodeOrderEvent D (snd msg) of None \<Rightarrow> None
     | Some ev \<Rightarrow> if oe_Status ev = OrderStatusFilled then Some ev else None) msgs"

fun trades_written :: "'d writer_call list \<Rightarrow> 'd trade_record list" where
  "trades_written [] = []"
| "trades_written (CallWriteTrade t # cs) = t # trades_written cs"
| "trades_written (c # cs) = trades_written cs"

fun equities_written :: "'d writer_call list \<Rightarrow> 'd list" where
  "equities_written [] = []"
| "equities_written (CallWriteEquity p # cs) = ep_Equity p # equities_written cs"
| "equities_written (c # cs) = equities_written cs"

lemma trades_written_append [simp]:
  "trades_written (cs @ cs') = trades_written cs @ trades_written cs'"
  by (induction cs rule: trades_written.induct) simp_all

lemma equities_written_append [simp]:
  "equities_written (cs @ cs') = equities_written cs @ equities_written cs'"
  by (induction cs rule: equities_written.induct) simp_all

fun value_path :: "'d::linordered_idom equity_tracker \<Rightarrow> 'd order_req list \<Rightarrow> 'd list" where
  "value_path t [] = []"
| "value_path t (r # rs) =
     (let t' = fst (applyFill (rq_symbol r) (rq_side r) (rq_qty r) (rq_price r) (rq_fee r) t) in
      portfolio_value t' # value_path t' rs)"

lemma countOrder_none: "filled D [msg] = [] \<Longrightarrow> countOrder D msg st = st"
  by (auto simp: filled_def countOrder_def handleOrder_def split: option.splits if_splits)

lemma countOrder_filled:
  assumes "filled D [msg] = [ev]" and "wf_tracker (od_tracker st)"
  shows "countOrder D msg st =
    (let t' = fst (applyFill (oe_Symbol ev) (oe_Side ev) (oe_FillQty ev) (oe_FillPrice ev)
       (oe_Fee ev) (od_tracker st)) in
     st\<lparr>od_tracker := t', od_count := od_count st + 1,
        od_calls := od_calls st @ [CallWriteTrade (trade_of ev), CallWriteEquity
          \<lparr>ep_RunID = oe_RunID ev, ep_EventTime = oe_EventTime ev,
           ep_Equity = portfolio_value t'\<rparr>]\<rparr>)"
  using assms applyFill_value [OF assms(2)]
  by (auto simp: filled_def countOrder_def handleOrder_def Let_def case_prod_beta
      split: option.splits if_splits)

lemma filled_Cons: "filled D (msg # msgs) = filled D [msg] @ filled D msgs"
  by (simp add: filled_def split: option.split)

lemma filled_single: "filled D [msg] = [] \<or> (\<exists>ev. filled D [msg] = [ev])"
  by (simp add: filled_def split: option.split)

lemma fold_countOrder:
  assumes "wf_tracker (od_tracker st)" and "st' = fold (countOrder D) msgs st"
  shows "wf_tracker (od_tracker st') \<and>
    od_tracker st' = track (map fill_of (filled D msgs)) (od_tracker st) \<and>
    od_count st' = od_count st + int (length (filled D msgs)) \<and>
    trades_written (od_calls st') = trades_written (od_calls st) @ map trade_of (filled D msgs) \<and>
    equities_written (od_calls st') = equities_written (od_calls st) @
      value_path (od_tracker st) (map fill_of (filled D msgs))"
  using assms
proof (induction msgs arbitrary: st)
  case Nil
  then show ?case by (simp add: filled_def track_def)
next
  case (Cons msg msgs)
  consider "filled D [msg] = []" | ev where "filled D [msg] = [ev]"
    using filled_single by blast
  then show ?case
  proof cases
    case 1
    then have fs: "filled D (msg # msgs) = filled D msgs"
      using filled_Cons [of D msg msgs] by simp
    have run: "st' = fold (countOrder D) msgs st"
      using 1 Cons.prems(2) by (simp add: countOrder_none)
    show ?thesis unfolding fs by (rule Cons.IH [OF Cons.prems(1) run])
  next
    case (2 ev)
    let ?t = "fst (applyFill (oe_Symbol ev) (oe_Side ev) (oe_FillQty ev) (oe_FillPrice ev)
       (oe_Fee ev) (od_tracker st))"
    let ?st = "countOrder D msg st"
    have st: "od_tracker ?st = ?t" "od_count ?st = od_count st + 1"
      "trades_written (od_calls ?st) = trades_written (od_calls st) @ [trade_of ev]"
      "equities_written (od_calls ?st) = equities_written (od_calls st) @ [portfolio_value ?t]"
      using countOrder_filled [OF 2 Cons.prems(1)] by (simp_all add: Let_def)
    have wf: "wf_tracker (od_tracker ?st)" using st applyFill_wf [OF Cons.prems(1)] by simp
    have run: "st' = fold (countOrder D) msgs ?st" using Cons.prems(2) by simp
    have fs: "filled D (msg # msgs) = ev # filled D msgs"
      using 2 filled_Cons [of D msg msgs] by simp
    have "track (map fill_of (ev # es)) (od_tracker st) = track (map fill_of es) ?t"
      "value_path (od_tracker st) (map fill_of (ev # es)) =
         portfolio_value ?t # value_path ?t (map fill_of es)" for es
      by (simp_all add: track_def fill_of_def Let_def)
    note ih = Cons.IH [OF wf run, unfolded st] and steps = this
    show ?thesis unfolding fs steps using ih by (elim conjE) (intro conjI; simp)
  qed
qed

definition counts_ok :: "signal_counts \<Rightarrow> bool" where
  "counts_ok c \<longleftrightarrow> cl_total c = (\<Sum>(s, n) \<leftarrow> cl_counts c. n) \<and> distinct (map fst (cl_counts c)) \<and>
     0 \<le> cl_total c"

lemma sum_update_plus_one:
  "distinct (map fst xs) \<Longrightarrow> (\<Sum>(s, n) \<leftarrow> AList.update k (lookup0 (map_of xs) k + 1) xs. n) =
     (\<Sum>(s, n) \<leftarrow> xs. n) + (1 :: int)"
proof (induction xs)
  case Nil
  then show ?case by (simp add: lookup0_def)
next
  case (Cons x xs)
  then show ?case by (cases x) (auto simp: lookup0_def)
qed

lemma counts_ok_signal: "counts_ok c \<Longrightarrow> counts_ok (handleSignal msg c)"
  by (simp add: counts_ok_def handleSignal_def Let_def sum_update_plus_one distinct_update)

lemma counts_ok_batch: "counts_ok c \<Longrightarrow> counts_ok (fold (handleSignal) msgs c)"
  by (induction msgs arbitrary: c) (simp_all add: counts_ok_signal)

lemma counts_ok_loop: "counts_ok c0 \<Longrightarrow> signalsLoop rs i c0 = (c, l) \<Longrightarrow> counts_ok c"
proof (induction rs arbitrary: c0 i)
  case (Cons r rs)
  show ?case
  proof (cases "r i")
    case (XReadMsgs ms)
    then show ?thesis
      using Cons.IH [OF counts_ok_batch [OF Cons.prems(1)]] Cons.prems(2)
      by (simp add: processBatch_fold)
  qed (use Cons in \<open>auto split: if_splits\<close>)
qed simp

section \<open>Properties\<close>

text \<open>
  C26 (invariant): the collector's equity is the mark-to-market value of the portfolio, and a
  fill changes it by the fee and by the revaluation of the position held before at the new price:
  trading at the last price costs the fee and nothing else.
\<close>

theorem equity_mark_to_market:
  fixes p f q :: "'d::linordered_idom"
  assumes "t = track fills (newEquityTracker capital)"
  shows "snd (applyFill s sd q p f t) = portfolio_value (fst (applyFill s sd q p f t)) \<and>
     snd (applyFill s sd q p f t) = portfolio_value t - f +
       lookup0 (map_of (et_positions t)) s * (p - lookup0 (map_of (et_lastFillPrice t)) s)"
proof -
  have "wf_tracker (newEquityTracker capital)" by (simp add: wf_tracker_def newEquityTracker_def)
  moreover have "wf_tracker t0 \<Longrightarrow> wf_tracker (track fills t0)" for t0 :: "'d equity_tracker"
    unfolding track_def by (induction fills arbitrary: t0) (simp_all add: applyFill_wf)
  ultimately have "wf_tracker t" using assms by simp
  then show ?thesis by (simp add: applyFill_value portfolio_value_fill)
qed

lemma equity_mark_to_market_witness:
  "snd (applyFill ''A'' SideBuy 2 50 1 (newEquityTracker (1000 :: rat))) = 999"
  using equity_mark_to_market [of "newEquityTracker (1000 :: rat)" "[]" 1000 "''A''" SideBuy 2 50 1]
  by (simp add: track_def portfolio_value_def newEquityTracker_def)

text \<open>
  Collector and risk checker keep the same books of cash and positions: from
  the same capital and the same fills the checker's equity is the collector's cash, so the two
  notions of equity differ by exactly the marked value of the open positions.
\<close>

lemma risk_equity_is_collector_cash:
  assumes "t = track fills (newEquityTracker (rc_InitialCapital cfg))"
    and "c = fold record_req fills (NewChecker cfg store ns rid w)"
  shows "ck_equity c = et_cash t \<and>
     portfolio_value t - ck_equity c = (\<Sum>s \<in> fst ` set (et_positions t).
       lookup0 (ck_positions c) s * lookup0 (map_of (et_lastFillPrice t)) s)"
proof -
  have "wf_tracker t \<and> et_cash t = ck_equity c \<and>
      (\<forall>s. lookup0 (map_of (et_positions t)) s = lookup0 (ck_positions c) s)"
    unfolding assms
    by (rule track_sync) (simp_all add: newEquityTracker_def wf_tracker_def NewChecker_def Let_def)
  then show ?thesis by (simp add: portfolio_value_def)
qed

lemma risk_equity_is_collector_cash_witness:
  "ck_equity (record_req wit_req (NewChecker wit_risk_cfg None ''ns'' ''r'' ())) =
   et_cash (track [wit_req] (newEquityTracker 1000))"
  using risk_equity_is_collector_cash [of "track [wit_req] (newEquityTracker 1000)" "[wit_req]"
      wit_risk_cfg "record_req wit_req (NewChecker wit_risk_cfg None ''ns'' ''r'' ())"
      None "''ns''" "''r''" "()"]
  by (simp add: wit_risk_cfg_def)

text \<open>The loop over a whole stream is a fold over its entries.\<close>

definition orders_start :: "'d \<Rightarrow> 'd orders_state" where
  "orders_start initialCapital =
     \<lparr>od_tracker = newEquityTracker initialCapital, od_count = 0, od_calls = []\<rparr>"

lemma ordersLoop_fold:
  assumes "stream_log es" and "\<forall>r \<in> set reads. xread_serves es r"
    and "\<forall>r \<in> set drains. xrange_serves es 100 r" and "length es < length drains"
  shows "ordersLoop D capital reads drains = fold (countOrder D) es (orders_start capital)"
proof -
  obtain st' i where read: "readerLoop (countOrder D) reads ''0-0'' (orders_start capital) = (st', i)"
    by fastforce
  have "drainLoop (countOrder D) drains (drainStartOf i) i st' = fold (countOrder D) es (orders_start capital)"
    by (rule read_then_drain_all [OF assms(1) _ assms(2,3,4) read]) simp
  with read show ?thesis
    by (simp add: ordersLoop_def runOrdersReader_def drainOrders_def orders_start_def)
qed

text \<open>
  However the orders stream is cut into batches, the collector writes one trade
  for each filled order of the stream, in stream order, counts exactly those, and after
  each writes the portfolio value at that point.
\<close>

lemma orders_loop_persists_filled:
  assumes "stream_log es" and "\<forall>r \<in> set reads. xread_serves es r"
    and "\<forall>r \<in> set drains. xrange_serves es 100 r" and "length es < length drains"
    and "st = ordersLoop D capital reads drains"
  shows "trades_written (od_calls st) = map trade_of (filled D es) \<and>
     od_count st = int (length (filled D es)) \<and>
     equities_written (od_calls st) =
       value_path (newEquityTracker capital) (map fill_of (filled D es))"
proof -
  have "st = fold (countOrder D) es (orders_start capital)"
    using ordersLoop_fold [OF assms(1-4)] assms(5) by simp
  from fold_countOrder [OF _ this] show ?thesis
    by (simp add: orders_start_def wf_tracker_def newEquityTracker_def)
qed

definition wit_fill :: fields where
  "wit_fill = orderValues rat_pkg \<lparr>oe_RunID = ''r'', oe_Symbol = ''A'', oe_EventTime = 3, oe_OrderID = ''o'',
     oe_Side = SideBuy, oe_Type = OrderTypeMarket, oe_Price = 0, oe_Quantity = 2,
     oe_Status = OrderStatusFilled, oe_FillPrice = 50, oe_FillQty = 2, oe_Fee = 1, oe_SignalName = ''s''\<rparr>"

lemma wit_fill_filled: "map oe_OrderID (filled rat_pkg [(''1-0'', wit_fill)]) = [''o'']"
  unfolding wit_fill_def filled_def List.map_filter_def
  by (simp add: decode_order order_ok_def time_ok_def order_type_of_string_def order_status_of_string_def)

lemma orders_loop_persists_filled_witness:
  "od_count (ordersLoop rat_pkg 1000 [\<lambda>i. XReadNil True]
     (replicate 2 (\<lambda>s. Some (take 100 (range_from [(''1-0'', wit_fill)] s))))) = 1"
  using orders_loop_persists_filled [of "[(''1-0'', wit_fill)]" "[\<lambda>i. XReadNil True]"
      "replicate 2 (\<lambda>s. Some (take 100 (range_from [(''1-0'', wit_fill)] s)))" _ rat_pkg "1000 :: rat",
      OF _ _ _ _ refl] arg_cong [OF wit_fill_filled, of length]
  by (simp add: stream_log_def xread_serves_def xrange_serves_def)

text \<open>
  The collector's signal counts: at any moment the total is the sum over the
  symbols and both count the messages handled.
\<close>

lemma signal_counts_add_up:
  assumes "signalsLoop rs ''0-0'' \<lparr>cl_counts = [], cl_total = 0\<rparr> = (c, lastID)"
  shows "cl_total c = (\<Sum>(s, n) \<leftarrow> cl_counts c. n) \<and> distinct (map fst (cl_counts c)) \<and> 0 \<le> cl_total c"
proof -
  have "counts_ok c" by (rule counts_ok_loop [OF _ assms]) (simp add: counts_ok_def)
  then show ?thesis by (simp add: counts_ok_def)
qed

lemma signal_counts_add_up_witness:
  "let c = fst (signalsLoop [\<lambda>i. XReadMsgs [(''1-0'', [''symbol'' \<mapsto> ''a'']), (''2-0'', [''symbol'' \<mapsto> ''A''])],
      \<lambda>i. XReadErr True] ''0-0'' \<lparr>cl_counts = [], cl_total = 0\<rparr>) in cl_total c = (\<Sum>(s, n) \<leftarrow> cl_counts c. n)"
  using signal_counts_add_up [OF prod.collapse [symmetric]] unfolding Let_def by blast

end
