(* ===== verification/Runner.thy ===== *)
theory Runner
  imports Executor Collector Replay
begin

text \<open>
  The life of one backtest run, engine/backtest/runner/runner.go, and the command line that
  starts it, engine/backtest/cmd/erebor-backtest/main.go.

  The replay engines, the executor and the collector run as goroutines and are models of their own
  (Replay, Executor, Collector); here a run is the sequence of calls the runner makes, in the
  order it makes them. \<open>run_env\<close> holds the outcomes of these calls: \<open>en_results\<close> lists the
  engines' results in the order in which they return, of which the errgroup keeps the first
  error, and \<open>en_ctxErr\<close> is \<open>ctx.Err()\<close> after the engines have returned. Errors that are only logged
  are left out.
\<close>

section \<open>Command line\<close>

definition addSymbol :: "string list \<Rightarrow> string \<Rightarrow> string list" where
  "addSymbol out p =
     (let sy = ToUpper (TrimSpace p) in
      if sy = [] then out else if sy \<in> set out then out else out @ [sy])"

definition splitSymbols :: "string \<Rightarrow> string list" where
  "splitSymbols s = foldl addSymbol [] (Split (CHR '','') s)"

definition parseSpeedMode :: "string \<Rightarrow> string + speed_mode" where
  "parseSpeedMode s =
     (let u = ToUpper s in
      if u = ''AFAP'' then Inr SpeedAFAP
      else if u = ''NX'' then Inr SpeedNX
      else if u = ''WALL_CLOCK'' then Inr SpeedWallClock
      else Inl s)"

record 'f parsed_flags =
  pf_symbols :: "string list"
  pf_from :: time
  pf_to :: time
  pf_speedMode :: speed_mode
  pf_speedFactor :: 'f
  pf_depth :: int
  pf_strategyConfig :: string

datatype flag_error =
    SymbolsRequired | FromRequired | ToRequired | NoSymbols | BadFrom string | BadTo string
  | ToNotAfterFrom | BadSpeed string | BadSpeedFactor | BadStrategyConfig string

definition validateFlags ::
  "(string \<Rightarrow> time option) \<Rightarrow> ('f \<Rightarrow> bool) \<Rightarrow> (string \<Rightarrow> bool) \<Rightarrow> string \<Rightarrow> string \<Rightarrow> string \<Rightarrow> string \<Rightarrow>
   string \<Rightarrow> 'f \<Rightarrow> int \<Rightarrow> flag_error + 'f parsed_flags" where
  "validateFlags parseTime positive jsonValid symbolsFlag fromFlag toFlag speedFlag strategyFlag
     speedFactorFlag depthFlag =
     (if symbolsFlag = [] then Inl SymbolsRequired
      else if fromFlag = [] then Inl FromRequired
      else if toFlag = [] then Inl ToRequired
      else let symbols = splitSymbols symbolsFlag in
        if symbols = [] then Inl NoSymbols
        else case parseTime fromFlag of
          None \<Rightarrow> Inl (BadFrom fromFlag)
        | Some from1 \<Rightarrow>
            (case parseTime toFlag of
               None \<Rightarrow> Inl (BadTo toFlag)
             | Some to1 \<Rightarrow>
                 if \<not> from1 < to1 then Inl ToNotAfterFrom
                 else case parseSpeedMode speedFlag of
                   Inl s \<Rightarrow> Inl (BadSpeed s)
                 | Inr speedMode \<Rightarrow>
                     if speedMode = SpeedNX \<and> \<not> positive speedFactorFlag then Inl BadSpeedFactor
                     else if \<not> jsonValid strategyFlag then Inl (BadStrategyConfig strategyFlag)
                     else Inr \<lparr>pf_symbols = symbols, pf_from = from1, pf_to = to1,
                            pf_speedMode = speedMode, pf_speedFactor = speedFactorFlag,
                            pf_depth = depthFlag, pf_strategyConfig = strategyFlag\<rparr>))"

section \<open>The runner\<close>

record 'f runner_config =
  rg_RunID :: string
  rg_Symbols :: "string list"
  rg_From :: time
  rg_To :: time
  rg_Depth :: int
  rg_SpeedMode :: speed_mode
  rg_SpeedFactor :: 'f
  rg_StrategyConfig :: string

datatype ('d, 'f) run_call =
    CallCreateRun "'f run_record"
  | CallUpdateRun run_status "time option" "time option" string
  | CallControl control_event_type "(string \<times> string) list"
  | CallCollectorStart 'd
  | CallExecutorStart "'d strategy_config" "'d risk_config"
  | CallEngine replay_cfg
  | CallExecutorStop
  | CallCollectorStop
  | CallExpire string
  | CallMetrics string

text \<open>
  \<open>en_metricsPanic\<close>: the metrics computation panics (\<open>ComputeRun\<close> has no value); the goroutine is main's
  and nothing recovers, so the process dies there.
\<close>

datatype run_result = Returned "string option" | Panicked

record run_env =
  en_createErr :: "string option"
  en_runningErr :: "string option"
  en_results :: "(string \<times> string option) list"
  en_ctxErr :: "string option"
  en_keys :: "string list option"
  en_metricsPanic :: bool
  en_started :: time
  en_completed :: time

definition namespaceOf :: "'f runner_config \<Rightarrow> string" where
  "namespaceOf cfg = ''erebor:backtest:'' @ rg_RunID cfg"

definition runRecordOf :: "'f runner_config \<Rightarrow> 'f run_record" where
  "runRecordOf cfg =
     \<lparr>rr_RunID = rg_RunID cfg, rr_Symbols = rg_Symbols cfg, rr_FromTime = rg_From cfg,
      rr_ToTime = rg_To cfg, rr_SpeedMode = rg_SpeedMode cfg,
      rr_SpeedFactor = (if rg_SpeedMode cfg = SpeedNX then Some (rg_SpeedFactor cfg) else None),
      rr_StrategyConfig = rg_StrategyConfig cfg, rr_Status = RunStatusPending\<rparr>"

definition engineCfg :: "'f runner_config \<Rightarrow> string \<Rightarrow> replay_cfg" where
  "engineCfg cfg sy = \<lparr>rp_RunID = rg_RunID cfg, rp_Symbol = sy, rp_From = rg_From cfg,
     rp_To = rg_To cfg, rp_Depth = rg_Depth cfg\<rparr>"

definition runRiskConfig :: "'d strategy_config \<Rightarrow> 'd risk_config" where
  "runRiskConfig sc = \<lparr>rc_InitialCapital = sc_InitialCapital sc,
     rc_MaxPositionQty = sc_MaxPositionQty sc, rc_MaxDrawdownPct = sc_MaxDrawdownPct sc,
     rc_RunLossLimitPct = sc_RunLossLimitPct sc\<rparr>"

text \<open>\<open>errgroup.Wait\<close>: the error of the first engine that returned one.\<close>

fun firstError :: "(string \<times> string option) list \<Rightarrow> string option" where
  "firstError [] = None"
| "firstError ((sy, None) # rs) = firstError rs"
| "firstError ((sy, Some e) # rs) = Some e"

definition expireStreams :: "string list option \<Rightarrow> ('d, 'f) run_call list" where
  "expireStreams keys = (case keys of None \<Rightarrow> [] | Some ks \<Rightarrow> map CallExpire ks)"

text \<open>Steps 3 to 8: what the runner does in every run that reaches RUNNING.\<close>

definition fanOut ::
  "'d strategy_config \<Rightarrow> 'f runner_config \<Rightarrow> ('d, 'f) run_call list" where
  "fanOut sc cfg =
     [CallControl ControlReplayStart [(''symbols'', Join (rg_Symbols cfg) '','')],
      CallCollectorStart (sc_InitialCapital sc), CallExecutorStart sc (runRiskConfig sc)] @
     map (CallEngine \<circ> engineCfg cfg) (rg_Symbols cfg) @
     [CallExecutorStop, CallCollectorStop]"

definition finishRun ::
  "'f runner_config \<Rightarrow> run_env \<Rightarrow> ('d, 'f) run_call list \<times> run_result" where
  "finishRun cfg env =
     (case en_ctxErr env of
        Some e \<Rightarrow>
          ([CallControl ControlCancelled [], CallUpdateRun RunStatusCancelled None None []], Returned (Some e))
      | None \<Rightarrow>
          (case firstError (en_results env) of
             Some e \<Rightarrow>
               ([CallControl ControlCancelled [],
                 CallUpdateRun RunStatusFailed None (Some (en_completed env)) e], Returned (Some e))
           | None \<Rightarrow>
               ([CallControl ControlReplayComplete [(''symbols'', Join (rg_Symbols cfg) '','')]] @
                expireStreams (en_keys env) @ [CallMetrics (rg_RunID cfg)] @
                (if en_metricsPanic env then []
                 else [CallUpdateRun RunStatusCompleted None (Some (en_completed env)) []]),
                if en_metricsPanic env then Panicked else Returned None)))"

definition openRun :: "'f runner_config \<Rightarrow> run_env \<Rightarrow> ('d, 'f) run_call list" where
  "openRun cfg env = [CallCreateRun (runRecordOf cfg),
     CallUpdateRun RunStatusRunning (Some (en_started env)) None []]"

definition RunBacktest ::
  "'d::linordered_idom decimal_pkg \<Rightarrow> (string \<Rightarrow> 'd strategy_config \<Rightarrow> 'd strategy_config \<times> string option) \<Rightarrow>
   'f runner_config \<Rightarrow> run_env \<Rightarrow> ('d, 'f) run_call list \<times> run_result" where
  "RunBacktest D unmarshal cfg env =
     (case ParseStrategyConfig D unmarshal (rg_StrategyConfig cfg) of
        (sc, Some err) \<Rightarrow> ([], Returned (Some (''parse strategy config: '' @ err)))
      | (sc, None) \<Rightarrow>
          (case en_createErr env of
             Some err \<Rightarrow> ([CallCreateRun (runRecordOf cfg)], Returned (Some (''create run record: '' @ err)))
           | None \<Rightarrow>
               (case en_runningErr env of
                  Some err \<Rightarrow> (openRun cfg env, Returned (Some (''set run RUNNING: '' @ err)))
                | None \<Rightarrow>
                    (case finishRun cfg env of
                       (cs, r) \<Rightarrow> (openRun cfg env @ fanOut sc cfg @ cs, r)))))"

section \<open>The state machine of a run\<close>

inductive status_step :: "run_status \<Rightarrow> run_status \<Rightarrow> bool" where
  "status_step RunStatusPending RunStatusRunning"
| "status_step RunStatusRunning RunStatusCompleted"
| "status_step RunStatusRunning RunStatusFailed"
| "status_step RunStatusRunning RunStatusCancelled"

inductive_simps status_step_simps [simp]: "status_step a b"

text \<open>The order in which a run may pass through its statuses.\<close>

instantiation run_status :: linorder
begin

fun status_rank :: "run_status \<Rightarrow> nat" where
  "status_rank RunStatusPending = 0"
| "status_rank RunStatusRunning = 1"
| "status_rank RunStatusCompleted = 2"
| "status_rank RunStatusFailed = 3"
| "status_rank RunStatusCancelled = 4"

definition less_eq_run_status :: "run_status \<Rightarrow> run_status \<Rightarrow> bool" where
  "less_eq_run_status a b \<longleftrightarrow> status_rank a \<le> status_rank b"

definition less_run_status :: "run_status \<Rightarrow> run_status \<Rightarrow> bool" where
  "less_run_status a b \<longleftrightarrow> status_rank a < status_rank b"

instance
proof
  fix a b :: run_status
  show "a \<le> b \<Longrightarrow> b \<le> a \<Longrightarrow> a = b"
    by (cases a; cases b) (simp_all add: less_eq_run_status_def)
qed (auto simp: less_eq_run_status_def less_run_status_def)

end

lemma status_step_less: "status_step a b \<Longrightarrow> a < b"
  by (auto simp: less_run_status_def)

text \<open>The statuses a run is given, and the control events it sends, in order.\<close>

fun statuses :: "('d, 'f) run_call list \<Rightarrow> run_status list" where
  "statuses [] = []"
| "statuses (CallCreateRun r # cs) = rr_Status r # statuses cs"
| "statuses (CallUpdateRun s a b e # cs) = s # statuses cs"
| "statuses (c # cs) = statuses cs"

fun controls :: "('d, 'f) run_call list \<Rightarrow> control_event_type list" where
  "controls [] = []"
| "controls (CallControl t p # cs) = t # controls cs"
| "controls (c # cs) = controls cs"

fun path :: "run_status list \<Rightarrow> bool" where
  "path (a # b # ss) = (status_step a b \<and> path (b # ss))"
| "path ss = True"

lemma path_sorted: "path ss \<Longrightarrow> sorted_wrt (<) ss"
proof (induction ss rule: path.induct)
  case (1 a b ss)
  then have "a < b" "sorted_wrt (<) (b # ss)" by (auto dest: status_step_less simp del: status_step_simps)
  then show ?case by (auto intro: less_trans)
qed simp_all

lemma statuses_append [simp]: "statuses (cs @ cs') = statuses cs @ statuses cs'"
  by (induction cs rule: statuses.induct) simp_all

lemma controls_append [simp]: "controls (cs @ cs') = controls cs @ controls cs'"
  by (induction cs rule: controls.induct) simp_all

lemma logs_silent [simp]:
  "statuses (map CallExpire ks) = []" "controls (map CallExpire ks) = []"
  "statuses (map (CallEngine \<circ> f) ys) = []" "controls (map (CallEngine \<circ> f) ys) = []"
  by (induction ks, simp_all) (induction ys, simp_all)+

lemma logs_expire [simp]: "statuses (expireStreams ks) = []" "controls (expireStreams ks) = []"
  by (simp_all add: expireStreams_def split: option.split)

lemma logs_fanOut [simp]:
  "statuses (fanOut sc cfg) = []" "controls (fanOut sc cfg) = [ControlReplayStart]"
  by (simp_all add: fanOut_def)

text \<open>The status a run that started is left in; RUNNING after a panic.\<close>

definition outcome :: "run_env \<Rightarrow> run_status" where
  "outcome env = (if en_ctxErr env \<noteq> None then RunStatusCancelled
     else if firstError (en_results env) \<noteq> None then RunStatusFailed
     else if en_metricsPanic env then RunStatusRunning else RunStatusCompleted)"

lemma finishRun_logs:
  assumes "finishRun cfg env = (cs, r)"
  shows "statuses cs = (if r = Panicked then [] else [outcome env])" and "controls cs =
      [if outcome env \<in> {RunStatusCompleted, RunStatusRunning} then ControlReplayComplete else ControlCancelled]"
    and "r = Returned None \<longleftrightarrow> outcome env = RunStatusCompleted" and "CallEngine c \<notin> set cs"
    and "r = Panicked \<longleftrightarrow> outcome env = RunStatusRunning"
  using assms
  by (cases "en_ctxErr env"; cases "firstError (en_results env)"; cases "en_metricsPanic env";
      auto simp: finishRun_def outcome_def expireStreams_def split: option.splits)+

lemma outcome_cases: "outcome env \<in> {RunStatusCompleted, RunStatusFailed, RunStatusCancelled, RunStatusRunning}"
  by (simp add: outcome_def)

lemma openRun_logs [simp]:
  "statuses (openRun cfg env) = [RunStatusPending, RunStatusRunning]" "controls (openRun cfg env) = []"
  by (simp_all add: openRun_def runRecordOf_def)

lemma RunBacktest_cases:
  obtains (parse) e where "RunBacktest D unmarshal cfg env = ([], Returned (Some e))"
  | (create) e where "RunBacktest D unmarshal cfg env = ([CallCreateRun (runRecordOf cfg)], Returned (Some e))"
  | (running) e where "RunBacktest D unmarshal cfg env = (openRun cfg env, Returned (Some e))"
      "en_runningErr env \<noteq> None"
  | (full) sc cs r where "finishRun cfg env = (cs, r)" "en_runningErr env = None"
      "RunBacktest D unmarshal cfg env = (openRun cfg env @ fanOut sc cfg @ cs, r)"
proof -
  obtain cs :: "('a, 'b) run_call list" and r where f: "finishRun cfg env = (cs, r)" by fastforce
  obtain sc p where p: "ParseStrategyConfig D unmarshal (rg_StrategyConfig cfg) = (sc, p)" by fastforce
  show thesis
    using parse create running full [of cs r sc]
    by (cases p; cases "en_createErr env"; cases "en_runningErr env")
      (simp_all add: RunBacktest_def p f)
qed

lemma firstError_None: "firstError rs = None \<longleftrightarrow> (\<forall>r \<in> set rs. snd r = None)"
  by (induction rs rule: firstError.induct) auto

lemma outcome_completed: "outcome env = RunStatusCompleted \<longleftrightarrow>
    en_ctxErr env = None \<and> (\<forall>x \<in> set (en_results env). snd x = None) \<and> \<not> en_metricsPanic env"
  by (auto simp: outcome_def firstError_None)

section \<open>Properties\<close>

text \<open>
  C34 (safety): the statuses a run is given always follow PENDING, RUNNING, then one of COMPLETED,
  FAILED, CANCELLED, never backwards. A run that reaches RUNNING first sends REPLAY_START and starts
  one engine per symbol; then the executor is stopped, then the collector; only after that come exactly
  one closing event (REPLAY_COMPLETE when all engines succeeded, CANCELLED otherwise) and, after it,
  the closing status: CANCELLED when the context was cancelled, else FAILED when some engine failed,
  else COMPLETED, unless the metrics computation panics, which leaves the run RUNNING. The runner
  returns no error exactly when the run is COMPLETED, and then every engine has succeeded.
\<close>

theorem run_lifecycle:
  "case RunBacktest D unmarshal cfg env of (cs, r) \<Rightarrow>
     path (statuses cs) \<and> sorted_wrt (<) (statuses cs) \<and>
     (RunStatusRunning \<in> set (statuses cs) \<and> en_runningErr env = None \<longrightarrow>
        (\<exists>pre post. cs = pre @ [CallExecutorStop, CallCollectorStop] @ post \<and>
           statuses pre = [RunStatusPending, RunStatusRunning] \<and> controls pre = [ControlReplayStart] \<and>
           (\<forall>sy \<in> set (rg_Symbols cfg). CallEngine (engineCfg cfg sy) \<in> set pre) \<and>
           CallExecutorStop \<notin> set pre \<and> CallCollectorStop \<notin> set pre \<and> (\<forall>c. CallEngine c \<notin> set post) \<and>
           (\<exists>p rest. post = CallControl (if outcome env \<in> {RunStatusCompleted, RunStatusRunning}
                then ControlReplayComplete else ControlCancelled) p # rest \<and> controls rest = [] \<and>
              statuses rest = (if r = Panicked then [] else [outcome env])))) \<and>
     (r = Returned None \<longleftrightarrow> RunStatusCompleted \<in> set (statuses cs)) \<and>
     (r = Returned None \<longrightarrow> en_ctxErr env = None \<and> (\<forall>x \<in> set (en_results env). snd x = None)) \<and>
     (r = Panicked \<longrightarrow> en_metricsPanic env \<and> outcome env = RunStatusRunning)"
proof -
  show ?thesis
  proof (cases rule: RunBacktest_cases [where D = D and unmarshal = unmarshal and cfg = cfg and env = env])
    case (full sc cs1 r1)
    note logs = finishRun_logs [OF full(1)]
    let ?pre = "openRun cfg env @ butlast (butlast (fanOut sc cfg))"
    have split: "openRun cfg env @ fanOut sc cfg @ cs1 = ?pre @ [CallExecutorStop, CallCollectorStop] @ cs1"
      by (simp add: fanOut_def butlast_append)
    have pre: "statuses ?pre = [RunStatusPending, RunStatusRunning]" "controls ?pre = [ControlReplayStart]"
      "\<forall>sy \<in> set (rg_Symbols cfg). CallEngine (engineCfg cfg sy) \<in> set ?pre"
      "CallExecutorStop \<notin> set ?pre" "CallCollectorStop \<notin> set ?pre"
      by (auto simp: fanOut_def butlast_append openRun_def runRecordOf_def)
    obtain p rest where post: "cs1 = CallControl (if outcome env \<in> {RunStatusCompleted, RunStatusRunning}
        then ControlReplayComplete else ControlCancelled) p # rest"
      using full(1) by (cases "en_ctxErr env"; cases "firstError (en_results env)")
        (auto simp: finishRun_def outcome_def)
    then have "controls rest = []" "statuses rest = (if r1 = Panicked then [] else [outcome env])"
      using logs(1,2) by simp_all
    with split pre logs(4) post have "\<exists>pre post. openRun cfg env @ fanOut sc cfg @ cs1 =
        pre @ [CallExecutorStop, CallCollectorStop] @ post \<and>
        statuses pre = [RunStatusPending, RunStatusRunning] \<and> controls pre = [ControlReplayStart] \<and>
        (\<forall>sy \<in> set (rg_Symbols cfg). CallEngine (engineCfg cfg sy) \<in> set pre) \<and>
        CallExecutorStop \<notin> set pre \<and> CallCollectorStop \<notin> set pre \<and> (\<forall>c. CallEngine c \<notin> set post) \<and>
        (\<exists>p rest. post = CallControl (if outcome env \<in> {RunStatusCompleted, RunStatusRunning}
             then ControlReplayComplete else ControlCancelled) p # rest \<and> controls rest = [] \<and>
           statuses rest = (if r1 = Panicked then [] else [outcome env]))"
      by (intro exI [of _ ?pre] exI [of _ cs1]) blast
    moreover have "path (statuses (openRun cfg env @ fanOut sc cfg @ cs1))"
      "sorted_wrt (<) (statuses (openRun cfg env @ fanOut sc cfg @ cs1))"
      using logs(1,5) outcome_cases [of env] by (auto simp: less_run_status_def)
    moreover have "r1 = Returned None \<longleftrightarrow>
        RunStatusCompleted \<in> set (statuses (openRun cfg env @ fanOut sc cfg @ cs1))"
      using logs(1,3) by auto
    moreover have "r1 = Panicked \<longrightarrow> en_metricsPanic env"
      using logs(5) by (auto simp: outcome_def split: if_splits)
    ultimately show ?thesis
      using logs(3,5) outcome_completed [of env] unfolding full(3) prod.case by blast
  next
    case (running e)
    then obtain err where "en_runningErr env = Some err" by blast
    with running(1) show ?thesis by (simp add: less_run_status_def)
  qed (simp_all add: runRecordOf_def less_run_status_def)
qed

definition wit_run_cfg :: "rat runner_config" where
  "wit_run_cfg = \<lparr>rg_RunID = ''r1'', rg_Symbols = [''BTCUSDT''], rg_From = 1, rg_To = 9, rg_Depth = 5,
     rg_SpeedMode = SpeedAFAP, rg_SpeedFactor = 1, rg_StrategyConfig = ''{}''\<rparr>"

definition wit_run_env :: run_env where
  "wit_run_env = \<lparr>en_createErr = None, en_runningErr = None,
     en_results = [(''BTCUSDT'', Some ''seek checkpoint'')], en_ctxErr = None, en_keys = None, en_metricsPanic = False,
     en_started = 1, en_completed = 2\<rparr>"

lemma run_lifecycle_witness:
  "\<exists>pre p rest. fst (RunBacktest rat_pkg (\<lambda>raw c. (c, None)) wit_run_cfg wit_run_env) =
       pre @ [CallExecutorStop, CallCollectorStop] @ CallControl ControlCancelled p # rest \<and>
     CallEngine (engineCfg wit_run_cfg ''BTCUSDT'') \<in> set pre \<and> statuses rest = [RunStatusFailed]"
proof -
  obtain cs r where run: "RunBacktest rat_pkg (\<lambda>raw c. (c, None)) wit_run_cfg wit_run_env = (cs, r)" by fastforce
  then have "RunStatusRunning \<in> set (statuses cs)" "r \<noteq> Panicked"
    by (auto simp: RunBacktest_def ParseStrategyConfig_def Let_def finishRun_def wit_run_cfg_def wit_run_env_def)
  moreover have "outcome wit_run_env = RunStatusFailed" "en_runningErr wit_run_env = None"
    "''BTCUSDT'' \<in> set (rg_Symbols wit_run_cfg)"
    by (simp_all add: outcome_def wit_run_env_def wit_run_cfg_def)
  ultimately show ?thesis
    using run_lifecycle [where D = rat_pkg and unmarshal = "\<lambda>raw c. (c, None)"
        and cfg = wit_run_cfg and env = wit_run_env] by (auto simp: run)
qed

section \<open>The symbols of the command line\<close>

definition good_symbols :: "string list \<Rightarrow> bool" where
  "good_symbols out \<longleftrightarrow> distinct out \<and> (\<forall>sy \<in> set out. sy \<noteq> [] \<and> ToUpper sy = sy)"

lemma addSymbol_good: "good_symbols out \<Longrightarrow> good_symbols (addSymbol out p)"
  by (simp add: good_symbols_def addSymbol_def Let_def)

lemma addSymbol_set: "set (addSymbol out p) = set out \<union> ({ToUpper (TrimSpace p)} - {[]})"
  by (auto simp: addSymbol_def Let_def simp del: ToUpper_eq_Nil)

lemma addSymbols_good: "good_symbols out \<Longrightarrow> good_symbols (foldl addSymbol out ps)"
  by (induction ps arbitrary: out) (simp_all add: addSymbol_good)

lemma addSymbols_set:
  "set (foldl addSymbol out ps) = set out \<union> ((\<lambda>p. ToUpper (TrimSpace p)) ` set ps - {[]})"
  by (induction ps arbitrary: out) (auto simp: addSymbol_set)

text \<open>The engines of a run get every symbol once, in capitals.\<close>

lemma splitSymbols_good: "good_symbols (splitSymbols s)"
  unfolding splitSymbols_def by (rule addSymbols_good) (simp add: good_symbols_def)

lemma splitSymbols_set:
  "set (splitSymbols s) = (\<lambda>p. ToUpper (TrimSpace p)) ` set (Split (CHR '','') s) - {[]}"
  by (simp add: splitSymbols_def addSymbols_set)

lemma validated_flags:
  assumes "validateFlags parseTime positive jsonValid sf ff tf spf scf fac dep = Inr pf"
  shows "pf_symbols pf = splitSymbols sf \<and> pf_symbols pf \<noteq> [] \<and> pf_from pf < pf_to pf \<and>
     jsonValid (pf_strategyConfig pf) \<and>
     (pf_speedMode pf = SpeedNX \<longrightarrow> positive (pf_speedFactor pf))"
proof -
  let ?syms = "splitSymbols sf"
  obtain t0 t1 where t: "parseTime ff = Some t0" "parseTime tf = Some t1"
    using assms by (cases "parseTime ff"; cases "parseTime tf")
      (simp_all add: validateFlags_def Let_def split: if_split_asm)
  obtain m where m: "parseSpeedMode spf = Inr m"
    using assms t by (cases "parseSpeedMode spf") (simp_all add: validateFlags_def Let_def split: if_split_asm)
  show ?thesis
    using assms by (simp add: validateFlags_def Let_def t m split: if_split_asm) auto
qed

end
