(* ===== verification/Metrics.thy ===== *)
theory Metrics
  imports Decimal_Instance Domain "HOL-Library.Monad_Syntax"
begin

text \<open>
  The performance metrics of a finished run, engine/backtest/metrics/computer.go.

  The float64 operations behind the annualised return and the Sharpe ratio are a
  record of operations on a type \<open>'f\<close>: what they round to is not stated anywhere below.
  \<open>FL_toDecimal\<close> is \<open>decimal.NewFromFloat\<close>, which panics on NaN and the infinities: \<open>None\<close>, and
  then the whole computation has no value. The properties are about the decimal part: returns,
  drawdown and the FIFO round trips.
\<close>

section \<open>Floating point\<close>

record ('d, 'f) float_pkg =
  FL_ofDecimal :: "'d \<Rightarrow> 'f"
  FL_toDecimal :: "'f \<Rightarrow> 'd option"
  FL_ofInt :: "int \<Rightarrow> 'f"
  FL_add :: "'f \<Rightarrow> 'f \<Rightarrow> 'f"
  FL_sub :: "'f \<Rightarrow> 'f \<Rightarrow> 'f"
  FL_mul :: "'f \<Rightarrow> 'f \<Rightarrow> 'f"
  FL_div :: "'f \<Rightarrow> 'f \<Rightarrow> 'f"
  FL_pow :: "'f \<Rightarrow> 'f \<Rightarrow> 'f"
  FL_sqrt :: "'f \<Rightarrow> 'f"
  FL_isZero :: "'f \<Rightarrow> bool"
  FL_ge1 :: "'f \<Rightarrow> bool"
  FL_hours :: "duration \<Rightarrow> 'f"

section \<open>Equity metrics\<close>

definition sharpeRatio :: "('d::zero, 'f) float_pkg \<Rightarrow> 'f list \<Rightarrow> 'd option" where
  "sharpeRatio F returns =
     (if length returns < 2 then Some 0
      else let n = FL_ofInt F (int (length returns));
               mean = FL_div F (foldl (FL_add F) (FL_ofInt F 0) returns) n;
               ss = foldl (\<lambda>v r. let d = FL_sub F r mean in FL_add F v (FL_mul F d d))
                      (FL_ofInt F 0) returns;
               std = FL_sqrt F (FL_div F ss (FL_ofInt F (int (length returns) - 1)))
           in if FL_isZero F std then Some 0
              else FL_toDecimal F (FL_mul F (FL_div F mean std) (FL_sqrt F (FL_ofInt F 252))))"

text \<open>The drawdown loop: peak so far and largest drawdown so far.\<close>

definition ddStep :: "'d::linordered_idom decimal_pkg \<Rightarrow> 'd \<times> 'd \<Rightarrow> 'd equity_point \<Rightarrow> 'd \<times> 'd" where
  "ddStep D s e =
     (let (peak0, maxDD) = s; peak = (if peak0 < ep_Equity e then ep_Equity e else peak0) in
      (peak,
       if 0 < peak
       then let dd = DDiv D (peak - ep_Equity e) peak * 100 in if maxDD < dd then dd else maxDD
       else maxDD))"

definition maxDrawdown :: "'d::linordered_idom decimal_pkg \<Rightarrow> 'd equity_point list \<Rightarrow> 'd" where
  "maxDrawdown D equity = snd (foldl (ddStep D) (ep_Equity (hd equity), 0) equity)"

fun periodReturns ::
  "'d::linordered_idom decimal_pkg \<Rightarrow> ('d, 'f) float_pkg \<Rightarrow> 'd equity_point list \<Rightarrow> 'f list" where
  "periodReturns D F (a # b # es) =
     (if ep_Equity a = 0 then periodReturns D F (b # es)
      else FL_ofDecimal F (DDiv D (ep_Equity b - ep_Equity a) (ep_Equity a)) #
           periodReturns D F (b # es))"
| "periodReturns D F es = []"

definition totalReturn :: "'d::linordered_idom decimal_pkg \<Rightarrow> 'd equity_point list \<Rightarrow> 'd" where
  "totalReturn D equity =
     (let first = ep_Equity (hd equity); lst = ep_Equity (last equity) in
      DDiv D (lst - first) first * 100)"

definition annualizedReturn ::
  "'d::linordered_idom decimal_pkg \<Rightarrow> ('d, 'f) float_pkg \<Rightarrow> 'd equity_point list \<Rightarrow> 'd \<Rightarrow> 'd option" where
  "annualizedReturn D F equity tot =
     (let days = FL_div F (FL_hours F (time_Sub (ep_EventTime (last equity)) (ep_EventTime (hd equity))))
                   (FL_ofInt F 24)
      in if FL_ge1 F days
         then let baseF = FL_ofDecimal F (1 + DDiv D tot 100);
                  annF = FL_mul F (FL_sub F (FL_pow F baseF (FL_div F (FL_ofInt F 365) days))
                           (FL_ofInt F 1)) (FL_ofInt F 100)
              in FL_toDecimal F annF
         else Some tot)"

text \<open>The result: total return, annualised return, Sharpe ratio, maximal drawdown; \<open>None\<close> is the panic.\<close>

definition equityMetrics ::
  "'d::linordered_idom decimal_pkg \<Rightarrow> ('d, 'f) float_pkg \<Rightarrow> 'd equity_point list \<Rightarrow>
   ('d \<times> 'd \<times> 'd \<times> 'd) option" where
  "equityMetrics D F equity =
     (if length equity < 2 then Some (0, 0, 0, 0)
      else if ep_Equity (hd equity) = 0 then Some (0, 0, 0, 0)
      else let tot = totalReturn D equity in
           do { ann \<leftarrow> annualizedReturn D F equity tot;
                sharpe \<leftarrow> sharpeRatio F (periodReturns D F equity);
                Some (tot, ann, sharpe, maxDrawdown D equity) })"

section \<open>Trade metrics\<close>

text \<open>The loop over the trades: the queue of open costs per symbol, the wins, the losses.\<close>

record 'd pairing =
  pr_open :: "string \<Rightarrow> 'd list"
  pr_wins :: "'d list"
  pr_losses :: "'d list"

definition pairTrade :: "'d::linordered_idom pairing \<Rightarrow> 'd trade_record \<Rightarrow> 'd pairing" where
  "pairTrade p t =
     (case tr_Side t of
        SideBuy \<Rightarrow>
          (let cost = tr_FillQty t * tr_FillPrice t + tr_Fee t in
           p\<lparr>pr_open := (pr_open p)(tr_Symbol t := pr_open p (tr_Symbol t) @ [cost])\<rparr>)
      | SideSell \<Rightarrow>
          (case pr_open p (tr_Symbol t) of
             [] \<Rightarrow> p
           | cost # rest \<Rightarrow>
               (let p1 = p\<lparr>pr_open := (pr_open p)(tr_Symbol t := rest)\<rparr>;
                    revenue = tr_FillQty t * tr_FillPrice t - tr_Fee t;
                    pnl = revenue - cost
                in if 0 < pnl then p1\<lparr>pr_wins := pr_wins p1 @ [pnl]\<rparr>
                   else p1\<lparr>pr_losses := pr_losses p1 @ [pnl]\<rparr>))
      | SideOther s \<Rightarrow> p)"

definition sumDecimals :: "'d::linordered_idom list \<Rightarrow> 'd" where
  "sumDecimals ds = foldl (+) 0 ds"

definition pairTrades :: "'d::linordered_idom trade_record list \<Rightarrow> 'd pairing" where
  "pairTrades trades = foldl pairTrade \<lparr>pr_open = (\<lambda>s. []), pr_wins = [], pr_losses = []\<rparr> trades"

definition tradeMetrics ::
  "'d::linordered_idom decimal_pkg \<Rightarrow> 'd trade_record list \<Rightarrow> 'd \<times> 'd \<times> 'd \<times> int" where
  "tradeMetrics D trades =
     (let p = pairTrades trades;
          wins = pr_wins p; losses = pr_losses p;
          tot = int (length wins) + int (length losses)
      in if tot = 0 then (0, 0, 0, 0)
         else (DDiv D (of_nat (length wins)) (of_int tot) * 100,
               (if wins \<noteq> [] then DDiv D (sumDecimals wins) (of_nat (length wins)) else 0),
               (if losses \<noteq> [] then DDiv D (sumDecimals losses) (of_nat (length losses)) else 0),
               tot))"

definition computeMetrics ::
  "'d::linordered_idom decimal_pkg \<Rightarrow> ('d, 'f) float_pkg \<Rightarrow> string \<Rightarrow> 'd trade_record list \<Rightarrow>
   'd equity_point list \<Rightarrow> 'd metrics_record option" where
  "computeMetrics D F runID trades equity =
     (case (equityMetrics D F equity, tradeMetrics D trades) of
        (None, _) \<Rightarrow> None
      | (Some (tot, ann, sharpe, dd), (hit, win, loss, n)) \<Rightarrow> Some
          \<lparr>mr_RunID = runID, mr_TotalReturnPct = tot, mr_AnnualizedReturn = ann,
           mr_SharpeRatio = sharpe, mr_MaxDrawdownPct = dd, mr_HitRatePct = hit,
           mr_AvgWin = win, mr_AvgLoss = loss, mr_TradeCount = n\<rparr>)"

text \<open>
  \<open>Compute\<close>: the results of the two queries come in; the record to write goes out with the
  error of the first failing step. \<open>writeErr\<close> is the error of WriteMetrics; \<open>None\<close> is the panic,
  which comes before the write.
\<close>

definition ComputeRun ::
  "'d::linordered_idom decimal_pkg \<Rightarrow> ('d, 'f) float_pkg \<Rightarrow> string \<Rightarrow>
   string + 'd trade_record list \<Rightarrow> string + 'd equity_point list \<Rightarrow> string option \<Rightarrow>
   ('d metrics_record option \<times> string option) option" where
  "ComputeRun D F runID trades equity writeErr =
     (case trades of
        Inl err \<Rightarrow> Some (None, Some (''query trades for '' @ runID @ '': '' @ err))
      | Inr ts \<Rightarrow>
          (case equity of
             Inl err \<Rightarrow> Some (None, Some (''query equity for '' @ runID @ '': '' @ err))
           | Inr es \<Rightarrow>
               (case computeMetrics D F runID ts es of
                  None \<Rightarrow> None
                | Some m \<Rightarrow>
                    Some (Some m, map_option (\<lambda>err. ''write metrics for '' @ runID @ '': '' @ err) writeErr))))"

section \<open>Drawdown\<close>

text \<open>The peak before and including the \<open>n\<close>-th point.\<close>

definition peak_upto :: "'d::linordered_idom equity_point list \<Rightarrow> nat \<Rightarrow> 'd" where
  "peak_upto es n = Max (ep_Equity ` set (take (Suc n) es))"

definition dd_at :: "'d::linordered_idom decimal_pkg \<Rightarrow> 'd equity_point list \<Rightarrow> nat \<Rightarrow> 'd" where
  "dd_at D es n = DDiv D (peak_upto es n - ep_Equity (es ! n)) (peak_upto es n) * 100"

lemma peak_upto_snoc:
  assumes "es \<noteq> []"
  shows "peak_upto (es @ [e]) (length es) = max (peak_upto es (length es - 1)) (ep_Equity e)"
proof -
  have "take (Suc (length es)) (es @ [e]) = es @ [e]" "take (Suc (length es - 1)) es = es"
    using assms by simp_all
  then show ?thesis using assms by (simp add: peak_upto_def max.commute)
qed

lemma peak_upto_append: "n < length es \<Longrightarrow> peak_upto (es @ es') n = peak_upto es n"
  by (simp add: peak_upto_def)

lemma ddStep_max:
  assumes "0 < max p (ep_Equity e)"
  shows "ddStep D (p, m) e = (max p (ep_Equity e),
     max (DDiv D (max p (ep_Equity e) - ep_Equity e) (max p (ep_Equity e)) * 100) m)"
proof -
  have "(if p < ep_Equity e then ep_Equity e else p) = max p (ep_Equity e)" by (simp add: max_def)
  moreover have "(if m < x then x else m) = max x m" for x by (simp add: max_def)
  ultimately show ?thesis using assms by (simp add: ddStep_def Let_def del: max_less_iff_conj less_max_iff_disj)
qed

lemma drawdown_loop:
  assumes D: "decimal_div D" and "es \<noteq> []" and "0 < ep_Equity (hd es)"
  shows "foldl (ddStep D) (ep_Equity (hd es), 0) es =
    (peak_upto es (length es - 1), Max (insert 0 (dd_at D es ` {..<length es})))"
  using assms(2,3)
proof (induction es rule: rev_nonempty_induct)
  case (single e)
  have "DDiv D 0 (ep_Equity e) = 0"
    using single by (intro DDiv_exact [OF D, where m = 0]) simp_all
  with single show ?case by (simp add: ddStep_def peak_upto_def dd_at_def Let_def lessThan_Suc)
next
  case (snoc e es)
  let ?p = "peak_upto es (length es - 1)" and ?m = "Max (insert 0 (dd_at D es ` {..<length es}))"
  let ?es = "es @ [e]"
  have hd: "ep_Equity (hd ?es) = ep_Equity (hd es)" using snoc(1) by simp
  have IH: "foldl (ddStep D) (ep_Equity (hd es), 0) es = (?p, ?m)"
    using snoc.IH snoc.prems hd by simp
  have peak: "peak_upto ?es (length es) = max ?p (ep_Equity e)" using snoc(1) by (rule peak_upto_snoc)
  have "ep_Equity (hd es) \<le> ?p"
    unfolding peak_upto_def using snoc(1) by (intro Max_ge) (auto simp: hd_in_set)
  then have pos: "0 < max ?p (ep_Equity e)" using snoc.prems hd by (simp add: less_max_iff_disj)
  have old: "dd_at D ?es ` {..<length es} = dd_at D es ` {..<length es}"
    by (rule image_cong) (auto simp: dd_at_def peak_upto_append nth_append)
  have new: "dd_at D ?es (length es) =
      DDiv D (max ?p (ep_Equity e) - ep_Equity e) (max ?p (ep_Equity e)) * 100"
    by (simp add: dd_at_def peak)
  have "insert 0 (dd_at D ?es ` {..<length ?es}) =
      insert (dd_at D ?es (length es)) (insert 0 (dd_at D es ` {..<length es}))"
    by (simp add: lessThan_Suc old insert_commute)
  then have "Max (insert 0 (dd_at D ?es ` {..<length ?es})) = max (dd_at D ?es (length es)) ?m"
    by (simp only: Max_insert finite_insert finite_imageI finite_lessThan insert_not_empty
        not_False_eq_True)
  moreover have "ddStep D (?p, ?m) e = (max ?p (ep_Equity e), max (dd_at D ?es (length es)) ?m)"
    using pos by (simp only: ddStep_max new)
  ultimately show ?case using IH by (simp add: hd peak)
qed

section \<open>Round trips\<close>

lemma sumDecimals_sum: "sumDecimals ds = sum_list ds"
proof -
  have "foldl (+) a ds = a + sum_list ds" for a :: 'a
    by (induction ds arbitrary: a) (simp_all add: add.assoc)
  then show ?thesis by (simp add: sumDecimals_def)
qed

lemma pairTrades_snoc: "pairTrades (ts @ [t]) = pairTrade (pairTrades ts) t"
  by (simp add: pairTrades_def)

definition buy_cost :: "'d::linordered_idom trade_record \<Rightarrow> 'd" where
  "buy_cost t = tr_FillQty t * tr_FillPrice t + tr_Fee t"

definition sell_revenue :: "'d::linordered_idom trade_record \<Rightarrow> 'd" where
  "sell_revenue t = tr_FillQty t * tr_FillPrice t - tr_Fee t"

definition trades_of :: "string \<Rightarrow> side \<Rightarrow> 'd trade_record list \<Rightarrow> 'd trade_record list" where
  "trades_of s sd ts = filter (\<lambda>t. tr_Symbol t = s \<and> tr_Side t = sd) ts"

text \<open>No symbol has sold more often than bought, at any point of the list.\<close>

definition never_short :: "'d trade_record list \<Rightarrow> bool" where
  "never_short ts \<longleftrightarrow> (\<forall>n \<le> length ts. \<forall>s \<in> tr_Symbol ` set ts.
     length (trades_of s SideSell (take n ts)) \<le> length (trades_of s SideBuy (take n ts)))"

text \<open>Of each symbol the open costs are those of its last buys.\<close>

lemma pairing_open:
  assumes "\<forall>n \<le> length ts. length (trades_of s SideSell (take n ts)) \<le>
      length (trades_of s SideBuy (take n ts))"
  shows "pr_open (pairTrades ts) s =
    drop (length (trades_of s SideSell ts)) (map buy_cost (trades_of s SideBuy ts))"
  using assms
proof (induction ts rule: rev_induct)
  case Nil
  then show ?case by (simp add: pairTrades_def trades_of_def)
next
  case (snoc t ts)
  have pre: "\<forall>n \<le> length ts. length (trades_of s SideSell (take n ts)) \<le>
      length (trades_of s SideBuy (take n ts))"
  proof (intro allI impI)
    fix n assume "n \<le> length ts"
    then show "length (trades_of s SideSell (take n ts)) \<le> length (trades_of s SideBuy (take n ts))"
      using snoc.prems [rule_format, of n] by simp
  qed
  have cnt: "length (trades_of s SideSell ts) \<le> length (trades_of s SideBuy ts)"
    using pre by (metis order.refl take_all)
  have cnt': "length (trades_of s SideSell (ts @ [t])) \<le> length (trades_of s SideBuy (ts @ [t]))"
    using snoc.prems [rule_format, of "length (ts @ [t])"] by simp
  show ?case
  proof (cases "tr_Symbol t = s")
    case False
    then have "pr_open (pairTrades (ts @ [t])) s = pr_open (pairTrades ts) s"
      by (auto simp: pairTrades_snoc pairTrade_def Let_def split: side.split list.split)
    with False snoc.IH [OF pre] show ?thesis by (simp add: trades_of_def)
  next
    case True
    show ?thesis
    proof (cases "tr_Side t")
      case SideBuy
      with True snoc.IH [OF pre] cnt show ?thesis
        by (simp add: pairTrades_snoc pairTrade_def trades_of_def buy_cost_def Let_def)
    next
      case SideSell
      with True cnt' have "pr_open (pairTrades ts) s \<noteq> []"
        using snoc.IH [OF pre] by (simp add: trades_of_def)
      then obtain c rest where o: "pr_open (pairTrades ts) s = c # rest"
        by (auto simp: neq_Nil_conv)
      then have "pr_open (pairTrades (ts @ [t])) s = tl (pr_open (pairTrades ts) s)"
        using SideSell True by (auto simp: pairTrades_snoc pairTrade_def Let_def)
      with SideSell True snoc.IH [OF pre] show ?thesis
        by (simp add: trades_of_def drop_Suc tl_drop)
    next
      case (SideOther x)
      with True snoc.IH [OF pre] show ?thesis
        by (simp add: pairTrades_snoc pairTrade_def trades_of_def)
    qed
  qed
qed

text \<open>A pairing step moves value between the open costs and the results.\<close>

lemma pairTrade_results:
  "sumDecimals (pr_wins (pairTrade p t)) + sumDecimals (pr_losses (pairTrade p t)) =
     sumDecimals (pr_wins p) + sumDecimals (pr_losses p) +
     (if tr_Side t = SideSell \<and> pr_open p (tr_Symbol t) \<noteq> []
      then sell_revenue t - hd (pr_open p (tr_Symbol t)) else 0)"
  by (auto simp: pairTrade_def sell_revenue_def sumDecimals_sum Let_def
      split: side.split list.split)

lemma pairTrades_signs:
  "(\<forall>w \<in> set (pr_wins (pairTrades ts)). 0 < w) \<and> (\<forall>l \<in> set (pr_losses (pairTrades ts)). l \<le> 0)"
proof (induction ts rule: rev_induct)
  case Nil
  then show ?case by (simp add: pairTrades_def)
next
  case (snoc t ts)
  then show ?case
    by (auto simp: pairTrades_snoc pairTrade_def Let_def split: side.split list.split)
qed

lemma pairTrades_count:
  "length (pr_wins (pairTrades ts)) + length (pr_losses (pairTrades ts)) \<le>
     length (filter (\<lambda>t. tr_Side t = SideSell) ts)"
proof (induction ts rule: rev_induct)
  case Nil
  then show ?case by (simp add: pairTrades_def)
next
  case (snoc t ts)
  then show ?case
    by (auto simp: pairTrades_snoc pairTrade_def Let_def split: side.split list.split)
qed

text \<open>While no symbol is oversold every sell finds an open buy.\<close>

lemma never_short_prefix:
  assumes "never_short (ts @ [t])"
  shows "\<forall>n \<le> length ts. length (trades_of s SideSell (take n ts)) \<le>
      length (trades_of s SideBuy (take n ts))" and "never_short ts"
proof -
  have le: "length (trades_of s SideSell (take n ts)) \<le> length (trades_of s SideBuy (take n ts))"
    if "n \<le> length ts" for n s
  proof (cases "s \<in> tr_Symbol ` set (ts @ [t])")
    case True
    have "length (trades_of s SideSell (take n (ts @ [t]))) \<le>
        length (trades_of s SideBuy (take n (ts @ [t])))"
      using assms True that unfolding never_short_def by (metis le_SucI length_append_singleton)
    then show ?thesis using that by simp
  next
    case False
    then have "trades_of s sd (take n ts) = []" for sd
      by (auto simp: trades_of_def filter_empty_conv dest: in_set_takeD)
    then show ?thesis by simp
  qed
  then show "\<forall>n \<le> length ts. length (trades_of s SideSell (take n ts)) \<le>
      length (trades_of s SideBuy (take n ts))" by blast
  from le show "never_short ts" by (simp add: never_short_def)
qed

lemma never_short_open:
  assumes "never_short (ts @ [t])" and "tr_Side t = SideSell"
  shows "pr_open (pairTrades ts) (tr_Symbol t) \<noteq> []"
proof -
  let ?s = "tr_Symbol t"
  have "length (trades_of ?s SideSell (take (length (ts @ [t])) (ts @ [t]))) \<le>
      length (trades_of ?s SideBuy (take (length (ts @ [t])) (ts @ [t])))"
    using assms(1) unfolding never_short_def by (metis (no_types) imageI in_set_conv_decomp order.refl)
  then have "length (trades_of ?s SideSell ts) < length (trades_of ?s SideBuy ts)"
    using assms(2) by (simp add: trades_of_def)
  with pairing_open [OF never_short_prefix(1) [OF assms(1), of ?s]] show ?thesis by simp
qed

lemma round_trips_balance:
  assumes "never_short ts" and "finite S" and "tr_Symbol ` set ts \<subseteq> S"
  shows "length (pr_wins (pairTrades ts)) + length (pr_losses (pairTrades ts)) =
       length (filter (\<lambda>t. tr_Side t = SideSell) ts) \<and>
     sumDecimals (pr_wins (pairTrades ts)) + sumDecimals (pr_losses (pairTrades ts)) =
       (\<Sum>t \<leftarrow> filter (\<lambda>t. tr_Side t = SideSell) ts. sell_revenue t) -
       (\<Sum>t \<leftarrow> filter (\<lambda>t. tr_Side t = SideBuy) ts. buy_cost t) +
       (\<Sum>s \<in> S. sum_list (pr_open (pairTrades ts) s))"
  using assms
proof (induction ts rule: rev_induct)
  case Nil
  then show ?case by (simp add: pairTrades_def sumDecimals_def)
next
  case (snoc t ts)
  let ?p = "pairTrades ts" and ?s = "tr_Symbol t"
  have s: "?s \<in> S" using snoc.prems(3) by simp
  note IH = snoc.IH [OF never_short_prefix(2) [OF snoc.prems(1)] snoc.prems(2)]
  have sum: "(\<Sum>s \<in> S. sum_list (pr_open (pairTrades (ts @ [t])) s)) =
      (\<Sum>s \<in> S. sum_list (pr_open ?p s)) - sum_list (pr_open ?p ?s) +
      sum_list (pr_open (pairTrades (ts @ [t])) ?s)"
  proof -
    have "(\<Sum>s \<in> S - {?s}. sum_list (pr_open (pairTrades (ts @ [t])) s)) =
        (\<Sum>s \<in> S - {?s}. sum_list (pr_open ?p s))"
      by (intro sum.cong)
        (auto simp: pairTrades_snoc pairTrade_def Let_def split: side.split list.split)
    then show ?thesis using s snoc.prems(2) by (simp add: sum.remove [of S ?s])
  qed
  show ?case
  proof (cases "tr_Side t")
    case SideBuy
    then show ?thesis using IH snoc.prems(3) unfolding sum
      by (simp add: pairTrades_snoc pairTrade_def buy_cost_def Let_def)
  next
    case SideSell
    with never_short_open [OF snoc.prems(1)] obtain c rest where o: "pr_open ?p ?s = c # rest"
      by (auto simp: neq_Nil_conv)
    have "pr_open (pairTrades (ts @ [t])) ?s = rest"
      "length (pr_wins (pairTrades (ts @ [t]))) + length (pr_losses (pairTrades (ts @ [t]))) =
        Suc (length (pr_wins ?p) + length (pr_losses ?p))"
      using SideSell o by (simp_all add: pairTrades_snoc pairTrade_def Let_def)
    then show ?thesis using IH snoc.prems(3) SideSell o pairTrade_results [of ?p t] unfolding sum
      by (simp add: pairTrades_snoc)
  next
    case (SideOther x)
    then show ?thesis using IH snoc.prems(3) unfolding sum
      by (simp add: pairTrades_snoc pairTrade_def)
  qed
qed

section \<open>Properties\<close>

text \<open>
  C29 (functional): the maximal drawdown of a series that starts positive is exactly the largest, over all
  points, of the relative fall from the highest equity so far; it is never negative, and at most 100 percent
  when equity is never negative. It is reported unless the conversion of the annualised return or of
  the Sharpe ratio panics, and exactly then; series that are too short or start at 0 give zero metrics.
\<close>

theorem max_drawdown_exact:
  assumes D: "decimal_div D"
  shows "(length es < 2 \<or> ep_Equity (hd es) = 0 \<longrightarrow> equityMetrics D F es = Some (0, 0, 0, 0)) \<and>
     (2 \<le> length es \<and> 0 < ep_Equity (hd es) \<longrightarrow>
       (case equityMetrics D F es of
          None \<Rightarrow> annualizedReturn D F es (totalReturn D es) = None \<or> sharpeRatio F (periodReturns D F es) = None
        | Some (tot, ann, sharpe, dd) \<Rightarrow>
            tot = totalReturn D es \<and> annualizedReturn D F es tot = Some ann \<and>
            sharpeRatio F (periodReturns D F es) = Some sharpe \<and>
            dd = Max (insert 0 (dd_at D es ` {..<length es})) \<and> 0 \<le> dd \<and>
            ((\<forall>e \<in> set es. 0 \<le> ep_Equity e) \<longrightarrow> dd \<le> 100)))"
proof (intro conjI impI)
  assume "length es < 2 \<or> ep_Equity (hd es) = 0"
  then show "equityMetrics D F es = Some (0, 0, 0, 0)" by (auto simp: equityMetrics_def)
next
  assume "2 \<le> length es \<and> 0 < ep_Equity (hd es)"
  then have len: "2 \<le> length es" and pos: "0 < ep_Equity (hd es)" by simp_all
  have ne: "es \<noteq> []" using len by auto
  have m: "maxDrawdown D es = Max (insert 0 (dd_at D es ` {..<length es}))"
    using drawdown_loop [OF D ne pos] by (simp add: maxDrawdown_def)
  have "dd_at D es n \<le> 100" if nn: "\<forall>e \<in> set es. 0 \<le> ep_Equity e" and n: "n < length es" for n
  proof -
    have in_take: "es ! n \<in> set (take (Suc n) es)" "hd es \<in> set (take (Suc n) es)"
      using n ne by (simp add: take_Suc_conv_app_nth, cases es) simp_all
    then have "ep_Equity (es ! n) \<le> peak_upto es n" "ep_Equity (hd es) \<le> peak_upto es n"
      unfolding peak_upto_def by (auto intro: Max_ge)
    moreover have "0 \<le> ep_Equity (es ! n)" using nn n by simp
    ultimately have "\<bar>peak_upto es n - ep_Equity (es ! n)\<bar> \<le> \<bar>peak_upto es n\<bar>"
      and "peak_upto es n \<noteq> 0" using pos by auto
    then have "DDiv D (peak_upto es n - ep_Equity (es ! n)) (peak_upto es n) \<le> 1"
      using DDiv_abs_le_1 [OF D] abs_le_D1 by blast
    then show ?thesis by (simp add: dd_at_def)
  qed
  then have dd: "0 \<le> maxDrawdown D es" "(\<forall>e \<in> set es. 0 \<le> ep_Equity e) \<longrightarrow> maxDrawdown D es \<le> 100"
    unfolding m by simp_all
  have "equityMetrics D F es = do { ann \<leftarrow> annualizedReturn D F es (totalReturn D es);
      sharpe \<leftarrow> sharpeRatio F (periodReturns D F es); Some (totalReturn D es, ann, sharpe, maxDrawdown D es) }"
    using len pos by (simp add: equityMetrics_def Let_def)
  with dd show "case equityMetrics D F es of
      None \<Rightarrow> annualizedReturn D F es (totalReturn D es) = None \<or> sharpeRatio F (periodReturns D F es) = None
    | Some (tot, ann, sharpe, dd) \<Rightarrow>
        tot = totalReturn D es \<and> annualizedReturn D F es tot = Some ann \<and>
        sharpeRatio F (periodReturns D F es) = Some sharpe \<and>
        dd = Max (insert 0 (dd_at D es ` {..<length es})) \<and> 0 \<le> dd \<and>
        ((\<forall>e \<in> set es. 0 \<le> ep_Equity e) \<longrightarrow> dd \<le> 100)"
    by (cases "annualizedReturn D F es (totalReturn D es)"; cases "sharpeRatio F (periodReturns D F es)")
      (simp_all add: m)
qed

definition wit_float :: "(rat, rat) float_pkg" where
  "wit_float = \<lparr>FL_ofDecimal = id, FL_toDecimal = Some, FL_ofInt = of_int, FL_add = (+), FL_sub = (-),
     FL_mul = (*), FL_div = (/), FL_pow = (\<lambda>x y. x), FL_sqrt = id, FL_isZero = (\<lambda>x. x = 0),
     FL_ge1 = (\<lambda>x. 1 \<le> x), FL_hours = (\<lambda>d. of_int d)\<rparr>"

definition wit_equity :: "rat equity_point list" where
  "wit_equity = [\<lparr>ep_RunID = ''r'', ep_EventTime = 1, ep_Equity = 100\<rparr>,
     \<lparr>ep_RunID = ''r'', ep_EventTime = 2, ep_Equity = 80\<rparr>]"

lemma max_drawdown_exact_witness:
  "\<exists>tot ann sharpe dd. equityMetrics rat_pkg wit_float wit_equity = Some (tot, ann, sharpe, dd) \<and>
     dd = Max (insert 0 (dd_at rat_pkg wit_equity ` {..<2})) \<and> 0 \<le> dd \<and> dd \<le> 100"
proof -
  have w: "2 \<le> length wit_equity" "0 < ep_Equity (hd wit_equity)" "length wit_equity = 2"
    "\<forall>e \<in> set wit_equity. 0 \<le> ep_Equity e" by (simp_all add: wit_equity_def)
  have "sharpeRatio wit_float (periodReturns rat_pkg wit_float wit_equity) \<noteq> None"
    "annualizedReturn rat_pkg wit_float wit_equity (totalReturn rat_pkg wit_equity) \<noteq> None"
    by (simp_all add: sharpeRatio_def annualizedReturn_def wit_float_def Let_def)
  with max_drawdown_exact [OF rat_pkg_div, of wit_equity wit_float] w show ?thesis
    by (cases "equityMetrics rat_pkg wit_float wit_equity") auto
qed

text \<open>
  The panic: the annualised return of a run of a day or more raises 1 + r to a power, and is not a number
  when the run has lost more than it had (\<open>math.Pow\<close> of a negative base), or is too large for a float.
  Then there are no metrics, whatever the trades are, and \<open>Compute\<close> does not return.
\<close>

lemma float_panic_leaves_no_metrics:
  assumes "2 \<le> length es" and "ep_Equity (hd es) \<noteq> 0"
    and "annualizedReturn D F es (totalReturn D es) = None"
  shows "computeMetrics D F runID ts es = None \<and> ComputeRun D F runID (Inr ts) (Inr es) werr = None"
  using assms by (simp add: computeMetrics_def ComputeRun_def equityMetrics_def Let_def split: prod.split)

text \<open>
  C30 (functional): when no symbol is ever sold more often than it was bought, every sell closes
  the oldest open buy of its symbol: what is still open are the last buys, and the
  wins and losses add up to the revenue of the sells minus the cost of the buys they closed.
\<close>

theorem round_trips_fifo:
  assumes "never_short ts"
  shows "(\<forall>s \<in> tr_Symbol ` set ts. pr_open (pairTrades ts) s =
       drop (length (trades_of s SideSell ts)) (map buy_cost (trades_of s SideBuy ts))) \<and>
     length (pr_wins (pairTrades ts)) + length (pr_losses (pairTrades ts)) =
       length (filter (\<lambda>t. tr_Side t = SideSell) ts) \<and>
     sumDecimals (pr_wins (pairTrades ts)) + sumDecimals (pr_losses (pairTrades ts)) =
       (\<Sum>t \<leftarrow> filter (\<lambda>t. tr_Side t = SideSell) ts. sell_revenue t) -
       (\<Sum>t \<leftarrow> filter (\<lambda>t. tr_Side t = SideBuy) ts. buy_cost t) +
       (\<Sum>s \<in> tr_Symbol ` set ts. sum_list (pr_open (pairTrades ts) s))"
proof (intro conjI ballI)
  fix s assume "s \<in> tr_Symbol ` set ts"
  with assms show "pr_open (pairTrades ts) s =
      drop (length (trades_of s SideSell ts)) (map buy_cost (trades_of s SideBuy ts))"
    unfolding never_short_def by (intro pairing_open) blast
qed (use round_trips_balance [OF assms, of "tr_Symbol ` set ts"] in simp_all)

definition wit_trade :: "side \<Rightarrow> rat \<Rightarrow> rat trade_record" where
  "wit_trade sd p = \<lparr>tr_RunID = ''r'', tr_TradeID = ''t'', tr_Symbol = ''A'', tr_EventTime = 1,
     tr_Side = sd, tr_FillPrice = p, tr_FillQty = 1, tr_Fee = 0, tr_SignalName = []\<rparr>"

lemma round_trips_fifo_witness:
  "sumDecimals (pr_wins (pairTrades [wit_trade SideBuy 100, wit_trade SideSell 110])) +
   sumDecimals (pr_losses (pairTrades [wit_trade SideBuy 100, wit_trade SideSell 110])) = 10"
proof -
  let ?ts = "[wit_trade SideBuy 100, wit_trade SideSell 110]"
  have "never_short ?ts"
    by (auto simp: never_short_def trades_of_def wit_trade_def le_Suc_eq numeral_2_eq_2)
  from round_trips_fifo [OF this] show ?thesis
    by (simp add: wit_trade_def sell_revenue_def buy_cost_def trades_of_def)
qed

text \<open>
  The trade metrics are what their names say: the hit rate is between 0 and 100,
  the average win is not negative, the average loss not positive, and there are no
  more round trips than sells.
\<close>

lemma trade_metrics_bounds:
  assumes D: "decimal_div D" and m: "tradeMetrics D ts = (hit, win, loss, n)"
  shows "0 \<le> hit \<and> hit \<le> 100 \<and> 0 \<le> win \<and> loss \<le> 0 \<and>
     0 \<le> n \<and> n \<le> int (length (filter (\<lambda>t. tr_Side t = SideSell) ts))"
proof -
  let ?w = "pr_wins (pairTrades ts)" and ?l = "pr_losses (pairTrades ts)"
  have signs: "\<forall>x \<in> set ?w. 0 < x" "\<forall>x \<in> set ?l. x \<le> 0" using pairTrades_signs [of ts] by auto
  have "0 \<le> sumDecimals ?w" using signs(1) by (auto simp: sumDecimals_sum intro!: sum_list_nonneg)
  then have win: "?w \<noteq> [] \<Longrightarrow> 0 \<le> DDiv D (sumDecimals ?w) (of_nat (length ?w))"
    by (intro DDiv_nonneg [OF D]) simp_all
  have "sumDecimals ?l \<le> 0" using signs(2)
    by (induction ?l) (auto simp: sumDecimals_sum sum_list_nonpos)
  then have loss: "?l \<noteq> [] \<Longrightarrow> DDiv D (sumDecimals ?l) (of_nat (length ?l)) \<le> 0"
    by (intro DDiv_nonpos [OF D]) simp_all
  let ?t = "of_int (int (length ?w) + int (length ?l)) :: 'a"
  have hit: "0 \<le> DDiv D (of_nat (length ?w)) ?t \<and> DDiv D (of_nat (length ?w)) ?t \<le> 1"
    if "int (length ?w) + int (length ?l) \<noteq> 0"
  proof -
    have t: "0 < ?t" using that by (metis add_nonneg_nonneg of_int_0_less_iff of_nat_0_le_iff le_less)
    have "\<bar>of_nat (length ?w) :: 'a\<bar> \<le> \<bar>?t\<bar>" by simp
    with t DDiv_abs_le_1 [OF D] have "\<bar>DDiv D (of_nat (length ?w)) ?t\<bar> \<le> 1" by (metis less_irrefl)
    moreover have "0 \<le> DDiv D (of_nat (length ?w)) ?t" using t by (intro DDiv_nonneg [OF D]) simp_all
    ultimately show ?thesis by linarith
  qed
  have "int (length ?w) + int (length ?l) \<le> int (length (filter (\<lambda>t. tr_Side t = SideSell) ts))"
    using pairTrades_count [of ts] by linarith
  then show ?thesis using m win loss hit
    by (auto simp: tradeMetrics_def Let_def split: if_splits)
qed

lemma trade_metrics_bounds_witness:
  "\<exists>hit win loss n. tradeMetrics rat_pkg [wit_trade SideBuy 100, wit_trade SideSell 110] =
     (hit, win, loss, n) \<and> hit \<le> 100 \<and> n \<le> 1"
proof -
  let ?ts = "[wit_trade SideBuy 100, wit_trade SideSell 110]"
  obtain hit win loss n where m: "tradeMetrics rat_pkg ?ts = (hit, win, loss, n)"
    using prod_cases4 by blast
  from trade_metrics_bounds [OF rat_pkg_div m] m show ?thesis by (simp add: wit_trade_def)
qed

section \<open>Short round trips\<close>

text \<open>
  The executor also opens shorts, by selling when flat. The pairing skips that sell and takes the
  closing buy for an opening one: a short from 110 to 100 (a profit of 10), and then a new short at 90,
  is reported as one round trip that loses 10.
\<close>

lemma short_round_trip_mispaired:
  "tradeMetrics rat_pkg [wit_trade SideSell 110, wit_trade SideBuy 100] = (0, 0, 0, 0) \<and>
   pr_losses (pairTrades [wit_trade SideSell 110, wit_trade SideBuy 100, wit_trade SideSell 90]) = [-10]"
  by (simp add: tradeMetrics_def pairTrades_def pairTrade_def wit_trade_def Let_def)

end
