(* ===== verification/Backtest_Results.thy ===== *)
theory Backtest_Results
  imports Backtest_Repository Runner Collector Metrics
begin

text \<open>
  A backtest against its tables: the collector's writes as rows, the metrics computed from what is
  read back, and the row of the run as the runner's updates leave it.
\<close>

section \<open>The collector's writes\<close>

definition writeCall :: "pg \<Rightarrow> 'd writer_call \<Rightarrow> ('d, 'f) backtest_db \<Rightarrow> ('d, 'f) backtest_db" where
  "writeCall P c db =
     (case c of CallWriteTrade t \<Rightarrow> fst (WriteTrade P t db) | CallWriteEquity p \<Rightarrow> fst (WriteEquityPoint P p db))"

definition persistCalls :: "pg \<Rightarrow> 'd writer_call list \<Rightarrow> ('d, 'f) backtest_db \<Rightarrow> ('d, 'f) backtest_db" where
  "persistCalls P cs db = foldl (\<lambda>db c. writeCall P c db) db cs"

fun points_written :: "'d writer_call list \<Rightarrow> 'd equity_point list" where
  "points_written [] = []"
| "points_written (CallWriteEquity p # cs) = p # points_written cs"
| "points_written (c # cs) = points_written cs"

lemma points_written_append [simp]:
  "points_written (cs @ cs') = points_written cs @ points_written cs'"
  by (induction cs rule: points_written.induct) simp_all

definition call_run :: "'d writer_call \<Rightarrow> string" where
  "call_run c = (case c of CallWriteTrade t \<Rightarrow> tr_RunID t | CallWriteEquity p \<Rightarrow> ep_RunID p)"

text \<open>Without failures the writes of an existing run go through.\<close>

lemma writeCall_tables:
  assumes "bd_errs db = []" and "hasRun (call_run c) db"
  shows "writeCall P c db = (case c of
      CallWriteTrade t \<Rightarrow> db\<lparr>bd_trades := insertNew tradeKey (tradeRow P t) (bd_trades db)\<rparr>
    | CallWriteEquity p \<Rightarrow> db\<lparr>bd_equity := bd_equity db @ [stampPoint P p]\<rparr>)"
  using assms
  by (cases c) (simp_all add: writeCall_def call_run_def WriteTrade_def WriteEquityPoint_def)

lemma persistCalls_tables:
  assumes "bd_errs db = []" and "\<forall>c \<in> set cs. hasRun (call_run c) db"
  shows "bd_trades (persistCalls P cs db) =
      foldl (\<lambda>rs r. insertNew tradeKey r rs) (bd_trades db) (map (tradeRow P) (trades_written cs)) \<and>
    bd_equity (persistCalls P cs db) = bd_equity db @ map (stampPoint P) (points_written cs) \<and>
    bd_errs (persistCalls P cs db) = []"
  using assms
proof (induction cs arbitrary: db)
  case Nil
  then show ?case by (simp add: persistCalls_def)
next
  case (Cons c cs)
  have w: "writeCall P c db = (case c of
      CallWriteTrade t \<Rightarrow> db\<lparr>bd_trades := insertNew tradeKey (tradeRow P t) (bd_trades db)\<rparr>
    | CallWriteEquity p \<Rightarrow> db\<lparr>bd_equity := bd_equity db @ [stampPoint P p]\<rparr>)"
    using Cons.prems by (intro writeCall_tables) simp_all
  have run: "persistCalls P (c # cs) db = persistCalls P cs (writeCall P c db)"
    by (simp add: persistCalls_def)
  have "bd_errs (writeCall P c db) = []" "\<forall>x \<in> set cs. hasRun (call_run x) (writeCall P c db)"
    unfolding w using Cons.prems by (cases c; simp)+
  from Cons.IH [OF this] w show ?case unfolding run by (cases c) simp_all
qed

text \<open>The equity points of a run of filled orders.\<close>

fun point_path :: "'d::linordered_idom equity_tracker \<Rightarrow> 'd order_event list \<Rightarrow> 'd equity_point list" where
  "point_path t [] = []"
| "point_path t (ev # evs) =
     (let t' = fst (applyFill (oe_Symbol ev) (oe_Side ev) (oe_FillQty ev) (oe_FillPrice ev) (oe_Fee ev) t) in
      \<lparr>ep_RunID = oe_RunID ev, ep_EventTime = oe_EventTime ev, ep_Equity = portfolio_value t'\<rparr> #
      point_path t' evs)"

lemma point_path_values: "map ep_Equity (point_path t evs) = value_path t (map fill_of evs)"
  by (induction evs arbitrary: t) (simp_all add: Let_def fill_of_def)

lemma point_path_keys:
  "map ep_EventTime (point_path t evs) = map oe_EventTime evs"
  "map ep_RunID (point_path t evs) = map oe_RunID evs"
  by (induction evs arbitrary: t) (simp_all add: Let_def)

lemma fold_countOrder_calls:
  assumes "wf_tracker (od_tracker st)"
  shows "trades_written (od_calls (fold (countOrder D) msgs st)) =
      trades_written (od_calls st) @ map trade_of (filled D msgs) \<and>
    points_written (od_calls (fold (countOrder D) msgs st)) =
      points_written (od_calls st) @ point_path (od_tracker st) (filled D msgs) \<and>
    call_run ` set (od_calls (fold (countOrder D) msgs st)) =
      call_run ` set (od_calls st) \<union> oe_RunID ` set (filled D msgs)"
  using assms
proof (induction msgs arbitrary: st)
  case Nil
  then show ?case by (simp add: filled_def)
next
  case (Cons msg msgs)
  consider "filled D [msg] = []" | ev where "filled D [msg] = [ev]"
    using filled_single by blast
  then show ?case
  proof cases
    case 1
    then show ?thesis using Cons filled_Cons [of D msg msgs] by (simp add: countOrder_none)
  next
    case (2 ev)
    let ?t = "fst (applyFill (oe_Symbol ev) (oe_Side ev) (oe_FillQty ev) (oe_FillPrice ev)
       (oe_Fee ev) (od_tracker st))"
    let ?st = "countOrder D msg st"
    have st: "od_tracker ?st = ?t" "od_calls ?st = od_calls st @ [CallWriteTrade (trade_of ev), CallWriteEquity
          \<lparr>ep_RunID = oe_RunID ev, ep_EventTime = oe_EventTime ev, ep_Equity = portfolio_value ?t\<rparr>]"
      using countOrder_filled [OF 2 Cons.prems] by (simp_all add: Let_def)
    have "wf_tracker (od_tracker ?st)" using st(1) applyFill_wf [OF Cons.prems] by simp
    note ih = Cons.IH [OF this, unfolded st]
    have fs: "filled D (msg # msgs) = ev # filled D msgs" using 2 filled_Cons [of D msg msgs] by simp
    have runs: "call_run (CallWriteTrade (trade_of ev)) = oe_RunID ev"
      "call_run (CallWriteEquity \<lparr>ep_RunID = oe_RunID ev, ep_EventTime = oe_EventTime ev,
         ep_Equity = portfolio_value ?t\<rparr>) = oe_RunID ev"
      by (simp_all add: call_run_def trade_of_def)
    show ?thesis unfolding fs using ih runs by (simp add: Let_def)
  qed
qed

section \<open>What the metrics are computed from\<close>

lemma decoded_side:
  "ev \<in> set (filled D msgs) \<Longrightarrow> side_of_string (string_of_side (oe_Side ev)) = oe_Side ev"
  by (auto simp: filled_def List.map_filter_def decodeOrderEvent_def bind_eq_Some_conv
      split: option.splits if_splits)

text \<open>An ordered result of rows with rising times is the list itself.\<close>

lemma ordered_rising:
  assumes "orders_by key ordered" and "sorted_wrt (<) (map key rs)"
  shows "ordered rs = rs"
proof -
  have m: "mset (ordered rs) = mset rs" and s: "sorted (map key (ordered rs))"
    using assms(1) by (simp_all add: orders_by_def)
  have d: "distinct (map key rs)" "sorted (map key rs)"
    using assms(2) by (simp_all add: strict_sorted_iff)
  have "mset (map key (ordered rs)) = mset (map key rs)" using m by simp
  then have "distinct (map key (ordered rs))" using d(1) by (metis mset_eq_imp_distinct_iff)
  moreover have "set (ordered rs) = set rs" using m by (rule mset_eq_setD)
  ultimately show ?thesis using s d
    by (intro map_sorted_distinct_set_unique [of key]) (auto simp: distinct_map)
qed

text \<open>A run that has just been created: it has no trades and no equity points.\<close>

definition fresh_run :: "string \<Rightarrow> ('d, 'f) backtest_db \<Rightarrow> bool" where
  "fresh_run runID db \<longleftrightarrow> schema_ok db \<and> hasRun runID db \<and> bd_errs db = [] \<and>
     (\<forall>r \<in> set (bd_trades db). tw_run_id r \<noteq> runID) \<and> (\<forall>p \<in> set (bd_equity db). ep_RunID p \<noteq> runID)"

lemma insert_rows_new:
  assumes "distinct (map key rs)" and "key ` set t \<inter> key ` set rs = {}"
  shows "foldl (\<lambda>t r. insertNew key r t) t rs = t @ rs"
  using assms
proof (induction rs arbitrary: t)
  case (Cons r rs)
  have "key r \<notin> key ` set t" using Cons.prems(2) by simp
  then have "\<not> (\<exists>y \<in> set t. key y = key r)" by (metis imageI)
  then have "insertNew key r t = t @ [r]" by (simp add: insertNew_def)
  moreover have "foldl (\<lambda>t r. insertNew key r t) (t @ [r]) rs = (t @ [r]) @ rs"
    using Cons.prems by (intro Cons.IH) auto
  ultimately show ?case by simp
qed simp

lemma persisted_rows:
  assumes fresh: "fresh_run runID db" and P: "postgres P"
    and run: "\<forall>ev \<in> set evs. oe_RunID ev = runID" and ids: "distinct (map oe_OrderID evs)"
    and tw: "trades_written cs = map trade_of evs" and pw: "points_written cs = point_path t evs"
    and calls: "call_run ` set cs = oe_RunID ` set evs"
  shows "filter (\<lambda>r. tw_run_id r = runID) (bd_trades (persistCalls P cs db)) = map (tradeRow P \<circ> trade_of) evs \<and>
    filter (\<lambda>p. ep_RunID p = runID) (bd_equity (persistCalls P cs db)) = map (stampPoint P) (point_path t evs) \<and>
    bd_errs (persistCalls P cs db) = []"
proof -
  have "\<forall>c \<in> set cs. hasRun (call_run c) db"
    using calls run fresh by (auto simp: fresh_run_def)
  moreover have errs: "bd_errs db = []" using fresh by (simp add: fresh_run_def)
  ultimately have tabs: "bd_trades (persistCalls P cs db) =
      foldl (\<lambda>rs r. insertNew tradeKey r rs) (bd_trades db) (map (tradeRow P) (trades_written cs))"
    "bd_equity (persistCalls P cs db) = bd_equity db @ map (stampPoint P) (points_written cs)"
    "bd_errs (persistCalls P cs db) = []"
    using persistCalls_tables [of db cs P] by blast+
  let ?rows = "map (tradeRow P \<circ> trade_of) evs"
  have "map tradeKey ?rows = map (\<lambda>ev. (oe_RunID ev, oe_OrderID ev)) evs"
    by (simp add: tradeKey_def tradeRow_def trade_of_def)
  then have "distinct (map tradeKey ?rows)"
    using ids by (auto simp: distinct_map inj_on_def)
  moreover have "tradeKey ` set (bd_trades db) \<inter> tradeKey ` set ?rows = {}"
    using fresh run by (auto simp: fresh_run_def tradeKey_def tradeRow_def trade_of_def)
  ultimately have "bd_trades (persistCalls P cs db) = bd_trades db @ ?rows"
    using insert_rows_new [of tradeKey ?rows "bd_trades db"] by (simp add: tabs(1) tw)
  moreover have "filter (\<lambda>r. tw_run_id r = runID) (bd_trades db) = []"
    "filter (\<lambda>p. ep_RunID p = runID) (bd_equity db) = []"
    using fresh by (simp_all add: fresh_run_def filter_empty_conv)
  moreover have "filter (\<lambda>r. tw_run_id r = runID) ?rows = ?rows"
    using run by (simp add: filter_id_conv tradeRow_def trade_of_def)
  moreover have "\<forall>p \<in> set (point_path t evs). ep_RunID p = runID"
    using run point_path_keys(2) [of t evs] by (metis (mono_tags, lifting) imageE list.set_map image_eqI)
  then have "filter (\<lambda>p. ep_RunID p = runID) (map (stampPoint P) (point_path t evs)) =
      map (stampPoint P) (point_path t evs)"
    by (simp add: filter_id_conv stampPoint_def)
  ultimately show ?thesis by (simp add: tabs(2,3) pw)
qed

lemma stream_rows:
  fixes db :: "('d::linordered_idom, 'g) backtest_db"
  assumes P: "postgres P" and fresh: "fresh_run runID db"
    and evs: "evs = filled D es" "\<forall>ev \<in> set evs. oe_RunID ev = runID \<and> micros (oe_EventTime ev)"
      "distinct (map oe_OrderID evs)"
    and cs: "cs = od_calls (fold (countOrder D) es (orders_start capital))"
  shows "filter (\<lambda>r. tw_run_id r = runID) (bd_trades (persistCalls P cs db)) = map (tradeRow P \<circ> trade_of) evs \<and>
    filter (\<lambda>p. ep_RunID p = runID) (bd_equity (persistCalls P cs db)) = point_path (newEquityTracker capital) evs \<and>
    bd_errs (persistCalls P cs db) = [] \<and>
    map tradeOfRow (map (tradeRow P \<circ> trade_of) evs) = map trade_of evs \<and>
    map tw_event_time (map (tradeRow P \<circ> trade_of) evs) = map oe_EventTime evs"
proof -
  let ?t = "newEquityTracker capital"
  have "wf_tracker (od_tracker (orders_start capital))"
    by (simp add: orders_start_def wf_tracker_def newEquityTracker_def)
  from fold_countOrder_calls [OF this, of D es] have calls: "trades_written cs = map trade_of evs"
    "points_written cs = point_path ?t evs" "call_run ` set cs = oe_RunID ` set evs"
    unfolding cs evs(1) by (simp_all add: orders_start_def)
  have stamp: "pg_time P (oe_EventTime ev) = oe_EventTime ev" if "ev \<in> set evs" for ev
    using that evs(2) postgresD(3) [OF P] by blast
  have "map (stampPoint P) (point_path ?t evs) = point_path ?t evs"
  proof (rule map_idI)
    fix p assume "p \<in> set (point_path ?t evs)"
    then have "ep_EventTime p \<in> set (map oe_EventTime evs)"
      unfolding point_path_keys(1) [of ?t evs, symmetric] by simp
    then show "stampPoint P p = p" using stamp by (auto simp: stampPoint_def)
  qed
  moreover have "map tradeOfRow (map (tradeRow P \<circ> trade_of) evs) = map trade_of evs"
    using stamp decoded_side [of _ D es] unfolding evs(1)
    by (simp add: tradeOfRow_tradeRow trade_of_def stampTrade_def)
  ultimately show ?thesis
    using persisted_rows [OF fresh P _ evs(3) calls] evs(2) stamp by (simp add: tradeRow_def trade_of_def)
qed

text \<open>
  The metrics of a run are computed from exactly what the collector saw. However the
  orders stream of a new run is cut into batches, the trades read back are one per filled
  order and the equity points one per filled order, with the portfolio values of the collector,
  both in the order of their event times; and when event times rise along the stream, both
  lists are in stream order, and the metrics written are those of these lists.
\<close>

lemma metrics_are_of_the_stream:
  fixes db0 :: "('d::linordered_idom, 'g) backtest_db"
  assumes P: "postgres P" and fresh: "fresh_run runID db0"
    and es: "stream_log es" "\<forall>r \<in> set reads. xread_serves es r"
      "\<forall>r \<in> set drains. xrange_serves es 100 r" "length es < length drains"
    and evs: "evs = filled D es" "\<forall>ev \<in> set evs. oe_RunID ev = runID \<and> micros (oe_EventTime ev)"
      "distinct (map oe_OrderID evs)"
    and db: "db = persistCalls P (od_calls (ordersLoop D capital reads drains)) db0"
    and ord: "orders_by tw_event_time orderedT" "orders_by ep_EventTime orderedE"
  shows "\<exists>ts ps. snd (QueryTrades orderedT runID db) = Inr ts \<and> snd (QueryEquityPoints orderedE runID db) = Inr ps \<and>
     mset ts = mset (map trade_of evs) \<and> sorted (map tr_EventTime ts) \<and>
     mset ps = mset (point_path (newEquityTracker capital) evs) \<and> sorted (map ep_EventTime ps) \<and>
     (sorted_wrt (<) (map oe_EventTime evs) \<longrightarrow>
        ts = map trade_of evs \<and> ps = point_path (newEquityTracker capital) evs \<and>
        map ep_Equity ps = value_path (newEquityTracker capital) (map fill_of evs) \<and>
        map_option fst (ComputeRun D F runID (Inr ts) (Inr ps) werr) =
          map_option Some (computeMetrics D F runID (map trade_of evs) (point_path (newEquityTracker capital) evs)))"
proof -
  let ?t = "newEquityTracker capital" and ?rows = "map (tradeRow P \<circ> trade_of) evs"
  have rows: "filter (\<lambda>r. tw_run_id r = runID) (bd_trades db) = ?rows"
    "filter (\<lambda>p. ep_RunID p = runID) (bd_equity db) = point_path ?t evs" "bd_errs db = []"
    "map tradeOfRow ?rows = map trade_of evs" "map tw_event_time ?rows = map oe_EventTime evs"
    using stream_rows [OF P fresh evs refl, of capital] unfolding db ordersLoop_fold [OF es] by blast+
  let ?ts = "map tradeOfRow (orderedT ?rows)" and ?ps = "orderedE (point_path ?t evs)"
  have q: "snd (QueryTrades orderedT runID db) = Inr ?ts" "snd (QueryEquityPoints orderedE runID db) = Inr ?ps"
    by (simp_all add: queries_ok rows(1-3))
  have "mset (orderedT ?rows) = mset ?rows" using ord(1) by (simp add: orders_by_def)
  then have ts: "mset ?ts = mset (map trade_of evs)" unfolding rows(4) [symmetric] mset_map by (rule arg_cong)
  have times: "map tr_EventTime ?ts = map tw_event_time (orderedT ?rows)" by (simp add: tradeOfRow_def)
  have sorted: "sorted (map tr_EventTime ?ts)" unfolding times using ord(1) by (simp add: orders_by_def)
  have ps: "mset ?ps = mset (point_path ?t evs)" "sorted (map ep_EventTime ?ps)"
    using ord(2) by (simp_all add: orders_by_def)
  have "?ts = map trade_of evs \<and> ?ps = point_path ?t evs" if "sorted_wrt (<) (map oe_EventTime evs)"
    using ordered_rising [OF ord(1), of ?rows] ordered_rising [OF ord(2), of "point_path ?t evs"] that
    unfolding rows(5) point_path_keys by (simp only: rows(4))
  then show ?thesis using q ts sorted ps by (intro exI [of _ ?ts] exI [of _ ?ps]) (auto simp: ComputeRun_def point_path_values split: option.split)
qed

definition wit_order :: "rat order_event" where
  "wit_order = \<lparr>oe_RunID = ''r1'', oe_Symbol = ''BTCUSDT'', oe_EventTime = 3000, oe_OrderID = ''o1'',
     oe_Side = SideBuy, oe_Type = OrderTypeMarket, oe_Price = 0, oe_Quantity = 2,
     oe_Status = OrderStatusFilled, oe_FillPrice = 50, oe_FillQty = 2, oe_Fee = 1, oe_SignalName = ''s''\<rparr>"

lemma filled_wit_order: "filled rat_pkg [(''1-0'', orderValues rat_pkg wit_order)] = [wit_order]"
proof -
  have "decodeOrderEvent rat_pkg (orderValues rat_pkg wit_order) = Some wit_order"
    by (rule decode_order) (simp_all add: order_ok_def wit_order_def time_ok_def
        order_type_of_string_def order_status_of_string_def)
  then show ?thesis by (simp add: filled_def List.map_filter_def) (simp add: wit_order_def)
qed

lemma metrics_are_of_the_stream_witness:
  "let es = [(''1-0'', orderValues rat_pkg wit_order)];
       db = persistCalls micro_pg (od_calls (ordersLoop rat_pkg 1000 [\<lambda>i. XReadNil True]
         (replicate 2 (\<lambda>s. Some (take 100 (range_from es s)))))) wit_bdb in
   \<exists>ts. snd (QueryTrades (sort_key tw_event_time) ''r1'' db) = Inr ts \<and> ts = [trade_of wit_order]"
  unfolding Let_def
  using metrics_are_of_the_stream [of micro_pg "''r1''" wit_bdb "[(''1-0'', orderValues rat_pkg wit_order)]"
      "[\<lambda>i. XReadNil True]" "replicate 2 (\<lambda>s. Some (take 100 (range_from [(''1-0'', orderValues rat_pkg wit_order)] s)))"
      "[wit_order]" rat_pkg _ "1000 :: rat" "sort_key tw_event_time" "sort_key ep_EventTime",
      OF _ _ _ _ _ _ filled_wit_order [symmetric] _ _ refl]
  by (simp add: stream_log_def xread_serves_def xrange_serves_def fresh_run_def)
    (auto simp: wit_order_def wit_bdb_def micros_def)

section \<open>The row of a run\<close>

definition runCall ::
  "pg \<Rightarrow> string \<Rightarrow> ('d, 'f) run_call \<Rightarrow> ('e, 'f) backtest_db \<Rightarrow> ('e, 'f) backtest_db" where
  "runCall P runID c db =
     (case c of
        CallCreateRun rec \<Rightarrow> fst (CreateRun P rec db)
      | CallUpdateRun status startedAt completedAt errMsg \<Rightarrow>
          fst (UpdateRunStatus P runID status startedAt completedAt errMsg db)
      | _ \<Rightarrow> db)"

definition runCalls ::
  "pg \<Rightarrow> string \<Rightarrow> ('d, 'f) run_call list \<Rightarrow> ('e, 'f) backtest_db \<Rightarrow> ('e, 'f) backtest_db" where
  "runCalls P runID cs db = foldl (\<lambda>db c. runCall P runID c db) db cs"

lemma runCalls_append: "runCalls P i (cs @ cs') db = runCalls P i cs' (runCalls P i cs db)"
  by (simp add: runCalls_def)

lemma runCalls_silent:
  "\<forall>c \<in> set cs. (\<forall>r. c \<noteq> CallCreateRun r) \<and> (\<forall>s a b e. c \<noteq> CallUpdateRun s a b e) \<Longrightarrow> runCalls P i cs db = db"
proof (induction cs arbitrary: db)
  case (Cons c cs)
  then have "runCall P i c db = db" by (cases c) (auto simp: runCall_def)
  with Cons show ?case by (simp add: runCalls_def)
qed (simp add: runCalls_def)

text \<open>The last row is the run's; an update changes it only.\<close>

lemma update_last_row:
  assumes "bd_errs db = []" and "bd_runs db = rs @ [r]" and "bw_run_id r = i"
    and "\<forall>x \<in> set rs. bw_run_id x \<noteq> i"
  shows "bd_errs (fst (UpdateRunStatus P i status a b e db)) = [] \<and>
    bd_runs (fst (UpdateRunStatus P i status a b e db)) = rs @ [r\<lparr>bw_status := status,
      bw_started_at := coalesce (map_option (pg_time P) a) (bw_started_at r),
      bw_completed_at := coalesce (map_option (pg_time P) b) (bw_completed_at r),
      bw_error := coalesce (nullif_empty e) (bw_error r)\<rparr>]"
proof -
  have "map (\<lambda>r. if bw_run_id r = i then f r else r) rs = rs" for f
    using assms(4) by (intro map_idI) simp
  with assms show ?thesis by (auto simp: UpdateRunStatus_def nullif_empty_def Let_def)
qed

lemma fanOut_silent: "runCalls P i (fanOut sc cfg) db = db"
  by (rule runCalls_silent) (auto simp: fanOut_def)

lemma expire_silent: "runCalls P i (expireStreams ks) db = db"
  by (rule runCalls_silent) (auto simp: expireStreams_def split: option.split)

lemma control_silent:
  "runCalls P i [CallControl t p] db = db" "runCalls P i [CallMetrics m] db = db"
  by (simp_all add: runCalls_def runCall_def)

lemma coalesce_None: "coalesce None b = b" "coalesce a None = a"
  by (simp_all add: coalesce_def split: option.split)

lemma runCalls_update: "runCalls P i [CallUpdateRun s a b e] db = fst (UpdateRunStatus P i s a b e db)"
  by (simp add: runCalls_def runCall_def)

lemmas silent_calls = fanOut_silent expire_silent control_silent

text \<open>The row when the run has been marked RUNNING; the last call is the update with the outcome.\<close>

definition running_row :: "pg \<Rightarrow> 'f runner_config \<Rightarrow> run_env \<Rightarrow> 'f run_row" where
  "running_row P cfg env = (runRow P (runRecordOf cfg))\<lparr>bw_status := RunStatusRunning,
     bw_started_at := Some (pg_time P (en_started env)), bw_completed_at := None, bw_error := None\<rparr>"

lemma openRun_row:
  fixes db :: "('e, 'f) backtest_db"
  assumes "bd_errs db = []" and "\<not> hasRun (rg_RunID cfg) db"
  shows "bd_errs (runCalls P (rg_RunID cfg) (openRun cfg env) db) = [] \<and>
    bd_runs (runCalls P (rg_RunID cfg) (openRun cfg env) db) = bd_runs db @ [running_row P cfg env]"
proof -
  have id: "bw_run_id (runRow P (runRecordOf cfg)) = rg_RunID cfg" "rr_RunID (runRecordOf cfg) = rg_RunID cfg"
    by (simp_all add: runRow_def runRecordOf_def)
  let ?db = "fst (CreateRun P (runRecordOf cfg) db)"
  have db: "bd_errs ?db = []" "bd_runs ?db = bd_runs db @ [runRow P (runRecordOf cfg)]"
    using assms by (simp_all add: CreateRun_def id)
  have "\<forall>x \<in> set (bd_runs db). bw_run_id x \<noteq> rg_RunID cfg" using assms(2) by (simp add: hasRun_def)
  from update_last_row [OF db id(1) this, of P RunStatusRunning "Some (en_started env)" None "[]"]
  show ?thesis
    by (simp add: openRun_def runCalls_def runCall_def coalesce_def nullif_empty_def runRow_def running_row_def)
qed

lemma finishRun_last:
  fixes P :: pg and i :: string and db :: "('e, 'f) backtest_db"
  shows "\<exists>pre e. fst (finishRun cfg env :: ('d, 'f) run_call list \<times> run_result) =
      pre @ (if outcome env = RunStatusRunning then [] else [CallUpdateRun (outcome env) None
        (if outcome env = RunStatusCancelled then None else Some (en_completed env)) e]) \<and>
    runCalls P i pre db = db \<and>
    nullif_empty e = (if outcome env = RunStatusFailed then nullif_empty (the (firstError (en_results env))) else None)"
proof -
  let ?pre = "[CallControl ControlReplayComplete [(''symbols'', Join (rg_Symbols cfg) '','')]] @
      expireStreams (en_keys env) @ [CallMetrics (rg_RunID cfg)] :: ('d, 'f) run_call list"
  have pre: "runCalls P i ?pre db = db" by (simp only: runCalls_append silent_calls)
  show ?thesis
  proof (cases "outcome env" rule: run_status.exhaust)
    case RunStatusCompleted
    then have "fst (finishRun cfg env :: ('d, 'f) run_call list \<times> run_result) =
        ?pre @ [CallUpdateRun RunStatusCompleted None (Some (en_completed env)) []]"
      by (auto simp: finishRun_def outcome_def split: option.splits if_splits)
    then show ?thesis using RunStatusCompleted pre
      by (intro exI [of _ ?pre] exI [of _ "[]"]) (simp add: nullif_empty_def)
  next
    case RunStatusRunning
    then have "fst (finishRun cfg env :: ('d, 'f) run_call list \<times> run_result) = ?pre"
      by (auto simp: finishRun_def outcome_def split: option.splits if_splits)
    then show ?thesis using RunStatusRunning pre
      by (intro exI [of _ ?pre] exI [of _ "[]"]) (simp add: nullif_empty_def)
  next
    case RunStatusFailed
    then obtain e where e: "firstError (en_results env) = Some e"
      by (auto simp: outcome_def split: if_splits)
    with RunStatusFailed have "fst (finishRun cfg env :: ('d, 'f) run_call list \<times> run_result) =
        [CallControl ControlCancelled []] @ [CallUpdateRun RunStatusFailed None (Some (en_completed env)) e]"
      by (auto simp: finishRun_def outcome_def split: option.splits if_splits)
    then show ?thesis using RunStatusFailed e silent_calls(3)
      by (intro exI [of _ "[CallControl ControlCancelled []]"] exI [of _ e]) simp
  next
    case RunStatusCancelled
    then have "fst (finishRun cfg env :: ('d, 'f) run_call list \<times> run_result) =
        [CallControl ControlCancelled []] @ [CallUpdateRun RunStatusCancelled None None []]"
      by (auto simp: finishRun_def outcome_def split: option.splits if_splits)
    then show ?thesis using RunStatusCancelled silent_calls(3)
      by (intro exI [of _ "[CallControl ControlCancelled []]"] exI [of _ "[]"]) (simp add: nullif_empty_def)
  qed (use outcome_cases [of env] in simp_all)
qed

text \<open>
  C15 (functional): the row of a run tells what happened to it. When the run's id is new and the
  database takes the statements, a run that starts leaves exactly one new row, with the run's
  configuration, the moment it was marked RUNNING as the start, and the outcome as its status;
  the end is recorded unless the run was cancelled, an error text exactly when it failed; after a
  panic of the metrics computation the row stays RUNNING, without an end; the rows of other runs do
  not change.
\<close>

theorem run_row_tells_outcome:
  fixes db :: "('e, 'f) backtest_db" and D :: "'d::linordered_idom decimal_pkg"
  assumes new: "bd_errs db = []" "\<not> hasRun (rg_RunID cfg) db"
    and started: "en_createErr env = None" "en_runningErr env = None"
      "snd (ParseStrategyConfig D unmarshal (rg_StrategyConfig cfg)) = None"
  shows "bd_runs (runCalls P (rg_RunID cfg) (fst (RunBacktest D unmarshal cfg env)) db) = bd_runs db @
     [(runRow P (runRecordOf cfg))\<lparr>bw_status := outcome env,
        bw_started_at := Some (pg_time P (en_started env)),
        bw_completed_at := (if outcome env \<in> {RunStatusCancelled, RunStatusRunning} then None
          else Some (pg_time P (en_completed env))),
        bw_error := (if outcome env = RunStatusFailed then nullif_empty (the (firstError (en_results env))) else None)\<rparr>]"
proof -
  let ?i = "rg_RunID cfg"
  obtain sc where sc: "ParseStrategyConfig D unmarshal (rg_StrategyConfig cfg) = (sc, None)"
    using started(3) by (metis prod.collapse)
  have run: "fst (RunBacktest D unmarshal cfg env) = openRun cfg env @ fanOut sc cfg @ fst (finishRun cfg env)"
    by (simp add: RunBacktest_def sc started(1,2) split: prod.split)
  let ?db = "runCalls P ?i (openRun cfg env :: ('d, 'f) run_call list) db"
  note row = openRun_row [OF new, of P env]
  have row_id: "bw_run_id (running_row P cfg env) = ?i" by (simp add: running_row_def runRow_def runRecordOf_def)
  have others: "\<forall>x \<in> set (bd_runs db). bw_run_id x \<noteq> ?i" using new(2) by (simp add: hasRun_def)
  obtain pre :: "('d, 'f) run_call list" and e where fin: "fst (finishRun cfg env) =
      pre @ (if outcome env = RunStatusRunning then [] else [CallUpdateRun (outcome env) None
        (if outcome env = RunStatusCancelled then None else Some (en_completed env)) e])"
    "runCalls P ?i pre ?db = ?db"
    "nullif_empty e = (if outcome env = RunStatusFailed then nullif_empty (the (firstError (en_results env))) else None)"
    using finishRun_last [where cfg = cfg and env = env and P = P and i = ?i and db = ?db] by blast
  note last = update_last_row [OF conjunct1 [OF row] conjunct2 [OF row] row_id others, of P "outcome env" None
      "if outcome env = RunStatusCancelled then None else Some (en_completed env)" e]
  show ?thesis
  proof (cases "outcome env = RunStatusRunning")
    case True
    have "runCalls P ?i (fst (RunBacktest D unmarshal cfg env)) db = ?db"
      unfolding run fin(1) runCalls_append silent_calls using True fin(2) by (simp add: runCalls_def)
    then show ?thesis using conjunct2 [OF row] True by (simp add: running_row_def)
  next
    case False
    have upd: "runCalls P ?i (fst (RunBacktest D unmarshal cfg env)) db = fst (UpdateRunStatus P ?i (outcome env) None
        (if outcome env = RunStatusCancelled then None else Some (en_completed env)) e ?db)"
      unfolding run fin(1) runCalls_append silent_calls fin(2) using False by (simp add: runCalls_update)
    show ?thesis unfolding upd conjunct2 [OF last] using False
      by (simp add: running_row_def fin(3) coalesce_None)
  qed
qed

lemma run_row_tells_outcome_witness:
  "\<exists>row. bd_runs (runCalls micro_pg ''r2'' (fst (RunBacktest rat_pkg (\<lambda>raw c. (c, None))
       (wit_run_cfg\<lparr>rg_RunID := ''r2''\<rparr>) wit_run_env)) wit_bdb) = bd_runs wit_bdb @ [row] \<and>
     bw_status row = RunStatusFailed \<and> bw_error row = Some ''seek checkpoint''"
proof -
  have new: "\<not> hasRun (rg_RunID (wit_run_cfg\<lparr>rg_RunID := ''r2''\<rparr>)) wit_bdb"
    by (simp add: hasRun_def wit_bdb_def runRow_def)
  have started: "en_createErr wit_run_env = None" "en_runningErr wit_run_env = None"
    "snd (ParseStrategyConfig rat_pkg (\<lambda>raw c. (c, None)) (rg_StrategyConfig (wit_run_cfg\<lparr>rg_RunID := ''r2''\<rparr>))) = None"
    by (simp_all add: wit_run_env_def ParseStrategyConfig_def Let_def wit_run_cfg_def)
  show ?thesis
    using run_row_tells_outcome [OF schema_wit_bdb(2) new started, of micro_pg]
    by (simp add: outcome_def wit_run_env_def nullif_empty_def)
qed

section \<open>Where the tables lose the order of the stream\<close>

text \<open>
  The collector accumulates the equity in stream order, but the executors of several symbols write
  to one stream and the curve is read back by event time. Two fills that arrive against their
  event times come back swapped, and a loss of 10 percent is reported as a gain.
\<close>

lemma equity_curve_reordered:
  assumes "orders_by ep_EventTime ordered" and "ep_EventTime q < ep_EventTime p"
  shows "ordered [p, q] = [q, p]"
proof -
  have "mset (ordered [p, q]) = mset [q, p]" "sorted (map ep_EventTime (ordered [p, q]))"
    using assms(1) by (simp_all add: orders_by_def add_mset_commute)
  moreover from this(1) have "length (ordered [p, q]) = 2" by (metis mset_eq_length length_Cons list.size(3) numeral_2_eq_2)
  then obtain a b where ab: "ordered [p, q] = [a, b]"
    by (metis (no_types, opaque_lifting) length_0_conv length_Suc_conv numeral_2_eq_2)
  ultimately show ?thesis using assms(2) by (auto simp: add_eq_conv_ex)
qed

lemma reordered_loss_reported_as_gain:
  assumes "orders_by ep_EventTime ordered"
  shows "totalReturn rat_pkg [\<lparr>ep_RunID = ''r'', ep_EventTime = 2000, ep_Equity = 100\<rparr>,
       \<lparr>ep_RunID = ''r'', ep_EventTime = 1000, ep_Equity = 90\<rparr>] < 0 \<and>
     0 < totalReturn rat_pkg (ordered [\<lparr>ep_RunID = ''r'', ep_EventTime = 2000, ep_Equity = 100\<rparr>,
       \<lparr>ep_RunID = ''r'', ep_EventTime = 1000, ep_Equity = 90\<rparr>])"
  by (simp add: equity_curve_reordered [OF assms] totalReturn_def rat_pkg_def rat_div_def Let_def round_def)

end
