(* ===== verification/Consumer.thy ===== *)
theory Consumer
  imports Streams Wire
begin

text \<open>
  The signal consumer of the paper trading service, engine/execution/consumer/consumer.go: a Redis
  consumer group read in two phases, first the entries delivered before but not acknowledged (the
  pending list), then new ones; an entry is acknowledged when it is malformed or its
  handler succeeds, otherwise it stays pending for the next round.

  Redis is outside: \<open>group_client\<close> has the three calls made, over a state \<open>'g\<close>, and \<open>redis_group\<close>
  states what Redis documents of them, with \<open>pend\<close> the consumer's pending entries and \<open>new\<close>
  the entries of the stream not yet delivered to the group. \<open>cn_log\<close> lists the handled
  entries with whether an acknowledgement was due.
\<close>

section \<open>The group\<close>

record ('g, 'm) group_client =
  gc_pending :: "int \<Rightarrow> 'g \<Rightarrow> 'g \<times> (string + (string \<times> 'm) list)"
  gc_new :: "int \<Rightarrow> 'g \<Rightarrow> 'g \<times> 'm xread_reply"
  gc_ack :: "string \<Rightarrow> 'g \<Rightarrow> 'g \<times> string option"

definition redis_group ::
  "('g, 'm) group_client \<Rightarrow> ('g \<Rightarrow> (string \<times> 'm) list) \<Rightarrow> ('g \<Rightarrow> (string \<times> 'm) list) \<Rightarrow> bool" where
  "redis_group G pend new \<longleftrightarrow>
     (\<forall>n g g' r. gc_pending G n g = (g', r) \<longrightarrow> pend g' = pend g \<and> new g' = new g \<and>
        (\<forall>msgs. r = Inr msgs \<longrightarrow> msgs = take (nat n) (pend g))) \<and>
     (\<forall>n g g' r. gc_new G n g = (g', r) \<longrightarrow>
        (case r of
           XReadMsgs msgs \<Rightarrow> pend g' = pend g @ msgs \<and> new g = msgs @ new g' \<and> length msgs \<le> nat n
         | _ \<Rightarrow> pend g' = pend g \<and> new g' = new g)) \<and>
     (\<forall>i g g' r. gc_ack G i g = (g', r) \<longrightarrow> new g' = new g \<and>
        (if r = None then pend g' = filter (\<lambda>m. fst m \<noteq> i) (pend g)
         else pend g' = pend g \<or> pend g' = filter (\<lambda>m. fst m \<noteq> i) (pend g)))"

section \<open>The loop\<close>

definition batchSize :: int where
  "batchSize = 20"

record ('g, 's) consumer_state =
  cn_group :: 'g
  cn_state :: 's
  cn_log :: "(string \<times> bool) list"

type_synonym ('sg, 's) signal_handler = "string \<Rightarrow> 'sg \<Rightarrow> 's \<Rightarrow> 's \<times> string option"

definition consumerAck ::
  "('g, 'm) group_client \<Rightarrow> string \<Rightarrow> ('g, 's) consumer_state \<Rightarrow> ('g, 's) consumer_state" where
  "consumerAck G i c =
     c\<lparr>cn_group := fst (gc_ack G i (cn_group c)), cn_log := cn_log c @ [(i, True)]\<rparr>"

definition consumerMessage ::
  "('g, fields) group_client \<Rightarrow> 'd decimal_pkg \<Rightarrow> ('d signal_event, 's) signal_handler \<Rightarrow> string \<times> fields \<Rightarrow>
   ('g, 's) consumer_state \<Rightarrow> ('g, 's) consumer_state" where
  "consumerMessage G D handler msg c =
     (case decodeSignalEvent D (snd msg) of
        None \<Rightarrow> consumerAck G (fst msg) c
      | Some sg \<Rightarrow>
          (case handler (fst msg) sg (cn_state c) of
             (s, Some err) \<Rightarrow> c\<lparr>cn_state := s, cn_log := cn_log c @ [(fst msg, False)]\<rparr>
           | (s, None) \<Rightarrow> consumerAck G (fst msg) (c\<lparr>cn_state := s\<rparr>)))"

definition consumerMessages ::
  "('g, fields) group_client \<Rightarrow> 'd decimal_pkg \<Rightarrow> ('d signal_event, 's) signal_handler \<Rightarrow> (string \<times> fields) list \<Rightarrow>
   ('g, 's) consumer_state \<Rightarrow> ('g, 's) consumer_state" where
  "consumerMessages G D handler msgs c =
     foldl (\<lambda>c m. consumerMessage G D handler m c) c msgs"

definition drainPEL ::
  "('g, fields) group_client \<Rightarrow> 'd decimal_pkg \<Rightarrow> ('d signal_event, 's) signal_handler \<Rightarrow>
   ('g, 's) consumer_state \<Rightarrow> ('g, 's) consumer_state" where
  "drainPEL G D handler c =
     (case gc_pending G batchSize (cn_group c) of
        (g, Inl err) \<Rightarrow> c\<lparr>cn_group := g\<rparr>
      | (g, Inr msgs) \<Rightarrow> consumerMessages G D handler msgs (c\<lparr>cn_group := g\<rparr>))"

definition readNew ::
  "('g, fields) group_client \<Rightarrow> 'd decimal_pkg \<Rightarrow> ('d signal_event, 's) signal_handler \<Rightarrow>
   ('g, 's) consumer_state \<Rightarrow> ('g, 's) consumer_state \<times> bool" where
  "readNew G D handler c =
     (case gc_new G batchSize (cn_group c) of
        (g, XReadNil ctxDone) \<Rightarrow> (c\<lparr>cn_group := g\<rparr>, True)
      | (g, XReadErr ctxDone) \<Rightarrow> (c\<lparr>cn_group := g\<rparr>, \<not> ctxDone)
      | (g, XReadMsgs msgs) \<Rightarrow> (consumerMessages G D handler msgs (c\<lparr>cn_group := g\<rparr>), True))"

text \<open>\<open>readLoop\<close>, with \<open>ctx.Err()\<close> after each drain; the list ending means it is still running.\<close>

fun consumerLoop ::
  "('g, fields) group_client \<Rightarrow> 'd decimal_pkg \<Rightarrow> ('d signal_event, 's) signal_handler \<Rightarrow> bool list \<Rightarrow>
   ('g, 's) consumer_state \<Rightarrow> ('g, 's) consumer_state" where
  "consumerLoop G D handler [] c = c"
| "consumerLoop G D handler (ctxErr # rest) c =
     (let c1 = drainPEL G D handler c in
      if ctxErr then c1
      else case readNew G D handler c1 of
             (c2, goOn) \<Rightarrow> if goOn then consumerLoop G D handler rest c2 else c2)"

text \<open>Whatever every call of the handler keeps, the loop keeps.\<close>

definition handler_keeps :: "('s \<Rightarrow> bool) \<Rightarrow> ('sg, 's) signal_handler \<Rightarrow> bool" where
  "handler_keeps P h \<longleftrightarrow> (\<forall>i sg s. P s \<longrightarrow> P (fst (h i sg s)))"

lemma consumerMessage_keeps:
  assumes "handler_keeps P h" and "P (cn_state c)"
  shows "P (cn_state (consumerMessage G D h m c))"
  using assms unfolding handler_keeps_def
  by (auto simp: consumerMessage_def consumerAck_def split: option.splits prod.splits) (metis fst_conv)+

lemma consumerMessages_keeps:
  assumes "handler_keeps P h" and "P (cn_state c)"
  shows "P (cn_state (consumerMessages G D h ms c))"
  unfolding consumerMessages_def using assms(2)
  by (induction ms arbitrary: c) (simp_all add: consumerMessage_keeps [OF assms(1)])

lemma consumerLoop_keeps:
  assumes keeps: "handler_keeps P h"
  shows "P (cn_state c) \<Longrightarrow> P (cn_state (consumerLoop G D h script c))"
proof (induction script arbitrary: c)
  case Nil
  then show ?case by simp
next
  case (Cons b script)
  have drain: "P (cn_state (drainPEL G D h c))"
    using Cons.prems
    by (auto simp: drainPEL_def consumerMessages_keeps [OF keeps] split: prod.split sum.split)
  then have "P (cn_state (fst (readNew G D h (drainPEL G D h c))))"
    by (auto simp: readNew_def consumerMessages_keeps [OF keeps] split: prod.split xread_reply.split)
  then show ?case
    using drain Cons.IH by (auto simp: Let_def split: prod.split)
qed

section \<open>No entry is lost\<close>

text \<open>An entry is accounted for: pending, undelivered, or due for acknowledgement.\<close>

definition accounted ::
  "('g \<Rightarrow> (string \<times> 'm) list) \<Rightarrow> ('g \<Rightarrow> (string \<times> 'm) list) \<Rightarrow> ('g, 's) consumer_state \<Rightarrow> string \<times> 'm \<Rightarrow> bool" where
  "accounted pend new c m \<longleftrightarrow>
     m \<in> set (pend (cn_group c)) \<or> m \<in> set (new (cn_group c)) \<or> (fst m, True) \<in> set (cn_log c)"

lemma redis_pendingD:
  assumes "redis_group G pend new" and "gc_pending G n g = (g', r)"
  shows "pend g' = pend g" and "new g' = new g" and "r = Inr msgs \<Longrightarrow> msgs = take (nat n) (pend g)"
  using assms unfolding redis_group_def by blast+

lemma redis_newD:
  assumes "redis_group G pend new" and "gc_new G n g = (g', r)"
  shows "case r of
           XReadMsgs msgs \<Rightarrow> pend g' = pend g @ msgs \<and> new g = msgs @ new g' \<and> length msgs \<le> nat n
         | _ \<Rightarrow> pend g' = pend g \<and> new g' = new g"
  using assms unfolding redis_group_def by blast

lemma redis_ackD:
  assumes "redis_group G pend new"
  shows "new (fst (gc_ack G i g)) = new g"
    and "m \<in> set (pend g) \<Longrightarrow> fst m \<noteq> i \<Longrightarrow> m \<in> set (pend (fst (gc_ack G i g)))"
    and "snd (gc_ack G i g) = None \<Longrightarrow> pend (fst (gc_ack G i g)) = filter (\<lambda>m. fst m \<noteq> i) (pend g)"
proof -
  obtain g' r where a: "gc_ack G i g = (g', r)" by fastforce
  then have "new g' = new g \<and> (if r = None then pend g' = filter (\<lambda>m. fst m \<noteq> i) (pend g)
      else pend g' = pend g \<or> pend g' = filter (\<lambda>m. fst m \<noteq> i) (pend g))"
    using assms unfolding redis_group_def by blast
  with a show "new (fst (gc_ack G i g)) = new g"
    and "m \<in> set (pend g) \<Longrightarrow> fst m \<noteq> i \<Longrightarrow> m \<in> set (pend (fst (gc_ack G i g)))"
    and "snd (gc_ack G i g) = None \<Longrightarrow> pend (fst (gc_ack G i g)) = filter (\<lambda>m. fst m \<noteq> i) (pend g)"
    by (auto split: if_splits)
qed

lemma accounted_ack:
  assumes "redis_group G pend new" and "accounted pend new c m"
  shows "accounted pend new (consumerAck G i c) m"
  using assms(2) redis_ackD(1) [OF assms(1), of i "cn_group c"]
    redis_ackD(2) [OF assms(1), of m "cn_group c" i]
  by (cases "fst m = i") (auto simp: accounted_def consumerAck_def)

lemma accounted_state [simp]: "accounted pend new (c\<lparr>cn_state := s\<rparr>) m = accounted pend new c m"
  by (simp add: accounted_def)

lemma accounted_log: "accounted pend new c m \<Longrightarrow>
    accounted pend new (c\<lparr>cn_state := s, cn_log := cn_log c @ xs\<rparr>) m"
  by (auto simp: accounted_def)

lemma accounted_message:
  assumes "redis_group G pend new" and "accounted pend new c m"
  shows "accounted pend new (consumerMessage G D handler msg c) m"
  using assms(2)
  by (simp add: consumerMessage_def accounted_ack [OF assms(1)] accounted_log split: option.split prod.split)

lemma accounted_messages:
  assumes "redis_group G pend new"
  shows "accounted pend new c m \<Longrightarrow> accounted pend new (consumerMessages G D handler msgs c) m"
  by (induction msgs arbitrary: c) (simp_all add: consumerMessages_def accounted_message [OF assms])

lemma accounted_group: "pend g = pend (cn_group c) \<Longrightarrow> new g = new (cn_group c) \<Longrightarrow>
    accounted pend new (c\<lparr>cn_group := g\<rparr>) m = accounted pend new c m"
  by (simp add: accounted_def)

lemma accounted_drain:
  assumes G: "redis_group G pend new" and "accounted pend new c m"
  shows "accounted pend new (drainPEL G D handler c) m"
proof -
  obtain g r where p: "gc_pending G batchSize (cn_group c) = (g, r)" by fastforce
  have "accounted pend new (c\<lparr>cn_group := g\<rparr>) m"
    using assms(2) redis_pendingD(1,2) [OF G p] by (simp add: accounted_group)
  with p show ?thesis by (simp add: drainPEL_def accounted_messages [OF G] split: sum.split)
qed

lemma accounted_new:
  assumes G: "redis_group G pend new" and "accounted pend new c m"
  shows "accounted pend new (fst (readNew G D handler c)) m"
proof -
  obtain g r where p: "gc_new G batchSize (cn_group c) = (g, r)" by fastforce
  have "accounted pend new (c\<lparr>cn_group := g\<rparr>) m"
    using assms(2) redis_newD [OF G p] by (auto simp: accounted_def split: xread_reply.splits)
  with p show ?thesis by (simp add: readNew_def accounted_messages [OF G] split: xread_reply.split)
qed

lemma accounted_loop:
  assumes G: "redis_group G pend new" and "accounted pend new c m"
  shows "accounted pend new (consumerLoop G D handler rounds c) m"
  using assms(2)
proof (induction rounds arbitrary: c)
  case Nil
  then show ?case by simp
next
  case (Cons ctxErr rounds)
  let ?c1 = "drainPEL G D handler c"
  have d: "accounted pend new ?c1 m" by (rule accounted_drain [OF G Cons.prems])
  obtain c2 goOn where n: "readNew G D handler ?c1 = (c2, goOn)" by fastforce
  have "accounted pend new c2 m" using accounted_new [OF G d, of D handler] by (simp add: n)
  from Cons.IH [OF this] this d show ?case by (simp add: Let_def n)
qed

text \<open>A healthy round: with no errors, everything read is acknowledged.\<close>

lemma messages_acked:
  assumes G: "redis_group G pend new" and ok: "\<And>i s. snd (gc_ack G i s) = None"
    "\<And>i sg s. snd (handler i sg s) = None"
  shows "pend (cn_group (consumerMessages G D handler msgs c)) =
     filter (\<lambda>m. fst m \<notin> fst ` set msgs) (pend (cn_group c))"
proof (induction msgs arbitrary: c)
  case Nil
  then show ?case by (simp add: consumerMessages_def)
next
  case (Cons m msgs)
  have one: "pend (cn_group (consumerMessage G D handler m c)) =
      filter (\<lambda>x. fst x \<noteq> fst m) (pend (cn_group c))"
    using redis_ackD(3) [OF G ok(1)] ok(2)
    by (auto simp: consumerMessage_def consumerAck_def split: option.split prod.split)
      (metis option.distinct(1) snd_conv)
  from Cons.IH [of "consumerMessage G D handler m c"] show ?case
    by (simp add: consumerMessages_def one conj_commute)
qed

text \<open>
  An entry that fails every time is tried again in every round, and the drain always asks for the
  first batch of the pending list: while a full batch of entries keeps failing, a drain tries those
  and nothing else, so what was delivered after them and failed once is not retried.
\<close>

lemma failing_messages:
  assumes "\<forall>m \<in> set msgs. \<exists>sg. decodeSignalEvent D (snd m) = Some sg \<and> (\<forall>s. snd (handler (fst m) sg s) \<noteq> None)"
  shows "cn_group (consumerMessages G D handler msgs c) = cn_group c \<and>
    cn_log (consumerMessages G D handler msgs c) = cn_log c @ map (\<lambda>m. (fst m, False)) msgs"
  using assms
proof (induction msgs arbitrary: c)
  case Nil
  then show ?case by (simp add: consumerMessages_def)
next
  case (Cons m msgs)
  have "cn_group (consumerMessage G D handler m c) = cn_group c \<and>
      cn_log (consumerMessage G D handler m c) = cn_log c @ [(fst m, False)]"
  proof -
    obtain sg where sg: "decodeSignalEvent D (snd m) = Some sg" "snd (handler (fst m) sg (cn_state c)) \<noteq> None"
      using Cons.prems by auto
    then obtain s err where "handler (fst m) sg (cn_state c) = (s, Some err)"
      by (cases "handler (fst m) sg (cn_state c)") auto
    with sg show ?thesis by (simp add: consumerMessage_def)
  qed
  with Cons show ?case by (simp add: consumerMessages_def)
qed

lemma failing_batch_starves:
  assumes G: "redis_group G pend new"
    and bad: "\<forall>m \<in> set (take 20 (pend (cn_group c))). \<exists>sg. decodeSignalEvent D (snd m) = Some sg \<and>
      (\<forall>s. snd (handler (fst m) sg s) \<noteq> None)"
  shows "pend (cn_group (drainPEL G D handler c)) = pend (cn_group c) \<and>
    (\<exists>tried. prefix tried (map (\<lambda>m. (fst m, False)) (take 20 (pend (cn_group c)))) \<and>
       cn_log (drainPEL G D handler c) = cn_log c @ tried)"
proof -
  obtain g r where p: "gc_pending G batchSize (cn_group c) = (g, r)" by fastforce
  note same = redis_pendingD(1) [OF G p]
  show ?thesis
  proof (cases r)
    case (Inl err)
    then show ?thesis using p same by (simp add: drainPEL_def)
  next
    case (Inr msgs)
    then have "msgs = take 20 (pend (cn_group c))"
      using redis_pendingD(3) [OF G p Inr] by (simp add: batchSize_def)
    with failing_messages [of msgs D handler G "c\<lparr>cn_group := g\<rparr>"] bad p Inr same show ?thesis
      by (auto simp: drainPEL_def)
  qed
qed

section \<open>Property\<close>

text \<open>
  C33 (liveness): no signal is lost. Whatever Redis answers and whichever handlers fail, after any
  number of rounds every entry that was pending or undelivered at the start is still pending,
  still undelivered, or has been handled to the point where its acknowledgement is due; an entry
  whose handler failed is never acknowledged by that attempt. A round without errors that starts
  with at most a batch of pending entries leaves none pending.
\<close>

theorem no_signal_lost:
  assumes G: "redis_group G pend new"
  shows "(\<forall>m \<in> set (pend (cn_group c)) \<union> set (new (cn_group c)).
       accounted pend new (consumerLoop G D handler rounds c) m) \<and>
     (\<forall>msg sg. decodeSignalEvent D (snd msg) = Some sg \<longrightarrow> snd (handler (fst msg) sg (cn_state c)) \<noteq> None \<longrightarrow>
        cn_group (consumerMessage G D handler msg c) = cn_group c) \<and>
     ((\<forall>i g. snd (gc_ack G i g) = None) \<longrightarrow> (\<forall>i sg s. snd (handler i sg s) = None) \<longrightarrow>
      (\<exists>msgs. snd (gc_pending G batchSize (cn_group c)) = Inr msgs) \<longrightarrow>
      int (length (pend (cn_group c))) \<le> batchSize \<longrightarrow>
      pend (cn_group (drainPEL G D handler c)) = [])"
proof (intro conjI ballI allI impI)
  fix m assume "m \<in> set (pend (cn_group c)) \<union> set (new (cn_group c))"
  then have "accounted pend new c m" by (auto simp: accounted_def)
  then show "accounted pend new (consumerLoop G D handler rounds c) m"
    by (rule accounted_loop [OF G])
next
  fix msg sg assume "decodeSignalEvent D (snd msg) = Some sg" "snd (handler (fst msg) sg (cn_state c)) \<noteq> None"
  then show "cn_group (consumerMessage G D handler msg c) = cn_group c"
    by (auto simp: consumerMessage_def split: prod.splits option.splits)
next
  assume ok: "\<forall>i g. snd (gc_ack G i g) = None" "\<forall>i sg s. snd (handler i sg s) = None"
    and read: "\<exists>msgs. snd (gc_pending G batchSize (cn_group c)) = Inr msgs"
    and few: "int (length (pend (cn_group c))) \<le> batchSize"
  obtain g msgs where p: "gc_pending G batchSize (cn_group c) = (g, Inr msgs)"
    using read by (metis prod.collapse)
  from redis_pendingD [OF G p] few have "pend g = pend (cn_group c)" "msgs = pend (cn_group c)"
    by (simp_all add: le_nat_iff batchSize_def)
  then show "pend (cn_group (drainPEL G D handler c)) = []"
    using messages_acked [OF G, of handler D msgs "c\<lparr>cn_group := g\<rparr>"] ok
    by (simp add: drainPEL_def p)
qed

type_synonym wit_group = "(string \<times> fields) list \<times> (string \<times> fields) list"

definition wit_client :: "(wit_group, fields) group_client" where
  "wit_client = \<lparr>gc_pending = (\<lambda>n g. (g, Inr (take (nat n) (fst g)))),
     gc_new = (\<lambda>n g. ((fst g @ take (nat n) (snd g), drop (nat n) (snd g)), XReadMsgs (take (nat n) (snd g)))),
     gc_ack = (\<lambda>i g. ((filter (\<lambda>m. fst m \<noteq> i) (fst g), snd g), None))\<rparr>"

lemma wit_client_group: "redis_group wit_client fst snd"
  by (auto simp: redis_group_def wit_client_def)

definition wit_sent :: fields where
  "wit_sent = xa_Values (PublishSignalEvent rat_pkg ''erebor:live'' \<lparr>sg_RunID = [], sg_Symbol = ''BTCUSDT'',
     sg_EventTime = 5, sg_Name = ''mid_price'', sg_Version = ''1'', sg_Value = 101, sg_Params = []\<rparr>)"

lemma no_signal_lost_witness:
  "fst (cn_group (drainPEL wit_client rat_pkg (\<lambda>i sg s. (s + sg_Value sg, None))
     \<lparr>cn_group = ([(''1-0'', wit_sent), (''2-0'', Map.empty)], []), cn_state = 0, cn_log = []\<rparr>)) = []"
  using no_signal_lost [OF wit_client_group, of
      "\<lparr>cn_group = ([(''1-0'', wit_sent), (''2-0'', Map.empty)], []), cn_state = 0, cn_log = []\<rparr>" rat_pkg
      "\<lambda>i sg s. (s + sg_Value sg, None)" "[]"]
  by (simp add: wit_client_def batchSize_def)

end
