(* ===== verification/Paper_Repository.thy ===== *)
theory Paper_Repository
  imports Tables GoJSON
begin

text \<open>
  The tables of the paper trading service and the statements that engine/execution/repository
  runs on them (repository.go; the tables are those of migrations/003_paper_trading_schema.sql).

  A table is the list of its rows in insertion order. Every statement can fail on the server:
  \<open>pd_errs\<close> is the script of the answers still to come, one per call of the driver (see \<open>Tables\<close>). A
  failing statement leaves the tables alone; \<open>RecordFill\<close> is one transaction, so its single answer
  stands for the first of its five statements that fails. That includes the refusal of a second
  row with the primary key (session_id, trade_id): trade ids are UUIDs drawn for each fill, and a
  repeated one is a failure like any other, which rolls the transaction back. Rows with equal times
  come out of an ORDER BY in any order; \<open>newest\<close> takes the first.
\<close>

section \<open>Rows\<close>

record 'd paper_trade =
  pt_SessionID :: string
  pt_TradeID :: string
  pt_Symbol :: string
  pt_EventTime :: time
  pt_Side :: string
  pt_FillPrice :: 'd
  pt_FillQty :: 'd
  pt_Fee :: 'd
  pt_RealisedPnL :: 'd
  pt_SignalName :: string
  pt_SignalStreamID :: string

record 'd position_record =
  pp_SessionID :: string
  pp_Symbol :: string
  pp_NetQty :: 'd
  pp_AvgEntry :: 'd
  pp_UpdatedAt :: time

record 'd equity_record =
  pe_SessionID :: string
  pe_EventTime :: time
  pe_Equity :: 'd

record 'd paper_db =
  pd_sessions :: "paper_session list"
  pd_trades :: "'d paper_trade list"
  pd_positions :: "'d position_record list"
  pd_equity :: "'d equity_record list"
  pd_errs :: "string option list"

section \<open>Statements\<close>

definition answer :: "'d paper_db \<Rightarrow> 'd paper_db \<times> string option" where
  "answer db = (case pd_errs db of [] \<Rightarrow> (db, None) | e # es \<Rightarrow> (db\<lparr>pd_errs := es\<rparr>, e))"

text \<open>
  \<open>CreateSession\<close> marshals the strategy configuration as a raw message first, which is an error
  unless it is valid JSON (the message after the prefix is the scanner's and is left out).
\<close>

definition CreateSession :: "paper_session \<Rightarrow> 'd paper_db \<Rightarrow> 'd paper_db \<times> string option" where
  "CreateSession s db =
     (if parseJSON (ps_StrategyConfig s) = None then (db, Some ''marshal strategy_config: '')
      else case answer db of
        (db1, Some err) \<Rightarrow> (db1, Some (''insert paper_session: '' @ err))
      | (db1, None) \<Rightarrow> (db1\<lparr>pd_sessions := pd_sessions db1 @ [s]\<rparr>, None))"

definition UpdateSessionStatus ::
  "string \<Rightarrow> session_status \<Rightarrow> time option \<Rightarrow> string \<Rightarrow> 'd paper_db \<Rightarrow> 'd paper_db \<times> string option" where
  "UpdateSessionStatus sessionID status stoppedAt errMsg db =
     (case answer db of
        (db1, Some err) \<Rightarrow> (db1, Some (''update session status: '' @ err))
      | (db1, None) \<Rightarrow>
          (db1\<lparr>pd_sessions := map (\<lambda>s. if ps_SessionID s = sessionID
             then s\<lparr>ps_Status := status, ps_StoppedAt := stoppedAt, ps_Error := errMsg\<rparr> else s)
             (pd_sessions db1)\<rparr>, None))"

definition LoadRunningSession :: "'d paper_db \<Rightarrow> 'd paper_db \<times> (string + paper_session option)" where
  "LoadRunningSession db =
     (case answer db of
        (db1, Some err) \<Rightarrow> (db1, Inl (''load running session: '' @ err))
      | (db1, None) \<Rightarrow>
          (db1, Inr (newest ps_StartedAt
             (filter (\<lambda>s. ps_Status s = SessionRunning) (pd_sessions db1)))))"

definition LoadLatestSession :: "'d paper_db \<Rightarrow> 'd paper_db \<times> (string + paper_session option)" where
  "LoadLatestSession db =
     (case answer db of
        (db1, Some err) \<Rightarrow> (db1, Inl (''load latest session: '' @ err))
      | (db1, None) \<Rightarrow> (db1, Inr (newest ps_StartedAt (pd_sessions db1))))"

definition LoadLatestEquity :: "string \<Rightarrow> 'd::zero paper_db \<Rightarrow> 'd paper_db \<times> (string + 'd)" where
  "LoadLatestEquity sessionID db =
     (case answer db of
        (db1, Some err) \<Rightarrow> (db1, Inl (''load latest equity: '' @ err))
      | (db1, None) \<Rightarrow>
          (db1, Inr (case newest pe_EventTime
                       (filter (\<lambda>e. pe_SessionID e = sessionID) (pd_equity db1)) of
                       None \<Rightarrow> 0 | Some e \<Rightarrow> pe_Equity e)))"

text \<open>
  \<open>LoadPositions\<close> also returns the rows read before an iteration failed, beside its error; its only
  caller drops them, and so does the result here.
\<close>

definition LoadPositions ::
  "string \<Rightarrow> 'd paper_db \<Rightarrow> 'd paper_db \<times> (string + 'd position_record list)" where
  "LoadPositions sessionID db =
     (case answer db of
        (db1, Some err) \<Rightarrow> (db1, Inl (''load positions: '' @ err))
      | (db1, None) \<Rightarrow>
          (case scanRows Inr (\<lambda>err. ''scan position: '' @ err) (pd_errs db1)
                  (filter (\<lambda>p. pp_SessionID p = sessionID) (pd_positions db1)) [] of
             (errs, Inl err) \<Rightarrow> (db1\<lparr>pd_errs := errs\<rparr>, Inl err)
           | (errs, Inr (out, Some err)) \<Rightarrow> (db1\<lparr>pd_errs := errs\<rparr>, Inl err)
           | (errs, Inr (out, None)) \<Rightarrow> (db1\<lparr>pd_errs := errs\<rparr>, Inr out)))"

text \<open>
  The transaction of \<open>RecordFill\<close>: the trade unless its (session, stream id) is there already, the
  position inserted or overwritten, the equity point always inserted.
\<close>

definition insertTrade :: "'d paper_trade \<Rightarrow> 'd paper_trade list \<Rightarrow> 'd paper_trade list" where
  "insertTrade = insertNew (\<lambda>t. (pt_SessionID t, pt_SignalStreamID t))"

definition upsertPosition ::
  "'d position_record \<Rightarrow> 'd position_record list \<Rightarrow> 'd position_record list" where
  "upsertPosition p ps =
     (if \<exists>r \<in> set ps. pp_SessionID r = pp_SessionID p \<and> pp_Symbol r = pp_Symbol p
      then map (\<lambda>r. if pp_SessionID r = pp_SessionID p \<and> pp_Symbol r = pp_Symbol p
                 then r\<lparr>pp_NetQty := pp_NetQty p, pp_AvgEntry := pp_AvgEntry p,
                        pp_UpdatedAt := pp_UpdatedAt p\<rparr> else r) ps
      else ps @ [p])"

definition PersistFill ::
  "'d paper_trade \<Rightarrow> 'd position_record \<Rightarrow> 'd equity_record \<Rightarrow> 'd paper_db \<Rightarrow>
   'd paper_db \<times> string option" where
  "PersistFill trade pos eq db =
     (case answer db of
        (db1, Some err) \<Rightarrow> (db1, Some err)
      | (db1, None) \<Rightarrow>
          (db1\<lparr>pd_trades := insertTrade trade (pd_trades db1),
               pd_positions := upsertPosition pos (pd_positions db1),
               pd_equity := pd_equity db1 @ [eq]\<rparr>, None))"

section \<open>What the statements do to the tables\<close>

lemma answer_tables [simp]:
  "answer db = (db1, e) \<Longrightarrow> pd_sessions db1 = pd_sessions db"
  "answer db = (db1, e) \<Longrightarrow> pd_trades db1 = pd_trades db"
  "answer db = (db1, e) \<Longrightarrow> pd_positions db1 = pd_positions db"
  "answer db = (db1, e) \<Longrightarrow> pd_equity db1 = pd_equity db"
  by (auto simp: answer_def split: list.splits)

lemma LoadPositions_result:
  assumes "LoadPositions sid db = (db', r)"
  shows "pd_sessions db' = pd_sessions db" "pd_trades db' = pd_trades db" "pd_positions db' = pd_positions db"
    "pd_equity db' = pd_equity db"
    "r = Inr rows \<Longrightarrow> rows = filter (\<lambda>p. pp_SessionID p = sid) (pd_positions db)"
  using assms
  by (auto simp: LoadPositions_def split: prod.splits option.splits sum.splits dest: scanRows_Inr)

text \<open>Positions: one row per session and symbol, and the row written is the row read.\<close>

definition one_row_per_symbol :: "'d position_record list \<Rightarrow> bool" where
  "one_row_per_symbol ps \<longleftrightarrow> distinct (map (\<lambda>p. (pp_SessionID p, pp_Symbol p)) ps)"

lemma upsert_keys:
  "map (\<lambda>p. (pp_SessionID p, pp_Symbol p)) (upsertPosition p ps) =
     (if (pp_SessionID p, pp_Symbol p) \<in> set (map (\<lambda>p. (pp_SessionID p, pp_Symbol p)) ps)
      then map (\<lambda>p. (pp_SessionID p, pp_Symbol p)) ps
      else map (\<lambda>p. (pp_SessionID p, pp_Symbol p)) ps @ [(pp_SessionID p, pp_Symbol p)])"
proof -
  have "(pp_SessionID p, pp_Symbol p) \<in> set (map (\<lambda>p. (pp_SessionID p, pp_Symbol p)) ps) \<longleftrightarrow>
      (\<exists>r \<in> set ps. pp_SessionID r = pp_SessionID p \<and> pp_Symbol r = pp_Symbol p)"
    by (induction ps) auto
  then show ?thesis by (simp add: upsertPosition_def)
qed

lemma upsert_one_row: "one_row_per_symbol ps \<Longrightarrow> one_row_per_symbol (upsertPosition p ps)"
  unfolding one_row_per_symbol_def upsert_keys by auto

lemma upsert_read:
  "r \<in> set (upsertPosition p ps) \<Longrightarrow> pp_SessionID r = pp_SessionID p \<Longrightarrow> pp_Symbol r = pp_Symbol p \<Longrightarrow>
   pp_NetQty r = pp_NetQty p \<and> pp_AvgEntry r = pp_AvgEntry p"
  by (auto simp: upsertPosition_def split: if_splits)

lemma insertTrade_idem: "insertTrade t (insertTrade t ts) = insertTrade t ts"
  by (simp add: insertTrade_def insertNew_idem)

text \<open>
  The whole transaction is not idempotent: a second run of a fill that is already there skips
  the trade, but overwrites the position and appends another equity point.
\<close>

lemma redelivered_fill_not_idempotent:
  assumes "pd_errs db = []" and "u \<in> set (pd_trades db)" and "pt_SessionID u = pt_SessionID trade"
    and "pt_SignalStreamID u = pt_SignalStreamID trade"
  shows "let db' = fst (PersistFill trade pos eq db) in
     pd_trades db' = pd_trades db \<and> pd_equity db' = pd_equity db @ [eq] \<and>
     pd_positions db' = upsertPosition pos (pd_positions db)"
  using assms by (auto simp: PersistFill_def answer_def insertTrade_def insertNew_def Let_def)

end
