(* ===== verification/Session.thy ===== *)
theory Session
  imports Paper_Repository
begin

text \<open>
  The lifecycle of a paper trading session, engine/execution/session/manager.go. The manager
  talks to the interface \<open>SessionStore\<close>, here a record of operations over the store's
  state; its contract is a locale, which the repository's statements satisfy. The clock and
  the UUID are arguments.
\<close>

section \<open>The store's interface\<close>

record ('s, 'd) session_store =
  ss_CreateSession :: "paper_session \<Rightarrow> 's \<Rightarrow> 's \<times> string option"
  ss_UpdateSessionStatus ::
    "string \<Rightarrow> session_status \<Rightarrow> time option \<Rightarrow> string \<Rightarrow> 's \<Rightarrow> 's \<times> string option"
  ss_LoadRunningSession :: "'s \<Rightarrow> 's \<times> (string + paper_session option)"
  ss_LoadLatestSession :: "'s \<Rightarrow> 's \<times> (string + paper_session option)"
  ss_LoadPositions :: "string \<Rightarrow> 's \<Rightarrow> 's \<times> (string + 'd position_record list)"
  ss_LoadLatestEquity :: "string \<Rightarrow> 's \<Rightarrow> 's \<times> (string + 'd)"

definition paper_store :: "('d::zero paper_db, 'd) session_store" where
  "paper_store = \<lparr>ss_CreateSession = CreateSession, ss_UpdateSessionStatus = UpdateSessionStatus,
     ss_LoadRunningSession = LoadRunningSession, ss_LoadLatestSession = LoadLatestSession,
     ss_LoadPositions = LoadPositions, ss_LoadLatestEquity = LoadLatestEquity\<rparr>"

section \<open>The manager\<close>

record 'd start_result =
  sr_Session :: paper_session
  sr_Positions :: "'d position_record list"
  sr_Equity :: 'd
  sr_Recovered :: bool

text \<open>The manager's only field that changes is \<open>session\<close>, \<open>None\<close> for nil.\<close>

type_synonym session_manager = "paper_session option"

definition resume ::
  "('s, 'd) session_store \<Rightarrow> session_manager \<Rightarrow> paper_session \<Rightarrow> 's \<Rightarrow>
   session_manager \<times> 's \<times> (string + 'd start_result)" where
  "resume SS m s st =
     (case ss_LoadPositions SS (ps_SessionID s) st of
        (st1, Inl err) \<Rightarrow>
          (m, st1, Inl (''load positions for session '' @ ps_SessionID s @ '': '' @ err))
      | (st1, Inr positions) \<Rightarrow>
          (case ss_LoadLatestEquity SS (ps_SessionID s) st1 of
             (st2, Inl err) \<Rightarrow>
               (m, st2, Inl (''load equity for session '' @ ps_SessionID s @ '': '' @ err))
           | (st2, Inr equity) \<Rightarrow>
               (Some s, st2, Inr \<lparr>sr_Session = s, sr_Positions = positions, sr_Equity = equity,
                  sr_Recovered = True\<rparr>)))"

definition createNew ::
  "('s, 'd::zero) session_store \<Rightarrow> session_manager \<Rightarrow> string \<Rightarrow> time \<Rightarrow> string list \<Rightarrow> string \<Rightarrow> 's \<Rightarrow>
   session_manager \<times> 's \<times> (string + 'd start_result)" where
  "createNew SS m newID now symbols strategyConfig st =
     (let s = \<lparr>ps_SessionID = newID, ps_Status = SessionRunning, ps_Symbols = symbols,
               ps_StrategyConfig = strategyConfig, ps_StartedAt = now, ps_StoppedAt = None,
               ps_Error = []\<rparr>
      in case ss_CreateSession SS s st of
           (st1, Some err) \<Rightarrow> (m, st1, Inl (''create session: '' @ err))
         | (st1, None) \<Rightarrow>
             (Some s, st1, Inr \<lparr>sr_Session = s, sr_Positions = [], sr_Equity = 0,
                sr_Recovered = False\<rparr>))"

definition StartSession ::
  "('s, 'd::zero) session_store \<Rightarrow> session_manager \<Rightarrow> string \<Rightarrow> time \<Rightarrow> string list \<Rightarrow> string \<Rightarrow> 's \<Rightarrow>
   session_manager \<times> 's \<times> (string + 'd start_result)" where
  "StartSession SS m newID now symbols strategyConfig st =
     (case ss_LoadRunningSession SS st of
        (st1, Inl err) \<Rightarrow> (m, st1, Inl (''load running session: '' @ err))
      | (st1, Inr (Some running)) \<Rightarrow> resume SS m running st1
      | (st1, Inr None) \<Rightarrow>
          (case ss_LoadLatestSession SS st1 of
             (st2, Inl err) \<Rightarrow> (m, st2, Inl (''load latest session: '' @ err))
           | (st2, Inr (Some latest)) \<Rightarrow>
               if ps_Status latest = SessionHalted
               then (m, st2, Inl (''session '' @ ps_SessionID latest @
                      '' is halted; clear halt before starting''))
               else createNew SS m newID now symbols strategyConfig st2
           | (st2, Inr None) \<Rightarrow> createNew SS m newID now symbols strategyConfig st2))"

definition StopSession ::
  "('s, 'd) session_store \<Rightarrow> session_manager \<Rightarrow> time \<Rightarrow> 's \<Rightarrow> 's \<times> string option" where
  "StopSession SS m now st =
     (case m of
        None \<Rightarrow> (st, None)
      | Some s \<Rightarrow>
          (case ss_UpdateSessionStatus SS (ps_SessionID s) SessionStopped (Some now) [] st of
             (st1, Some err) \<Rightarrow> (st1, Some (''update session status to STOPPED: '' @ err))
           | (st1, None) \<Rightarrow> (st1, None)))"

definition HaltSession ::
  "('s, 'd) session_store \<Rightarrow> session_manager \<Rightarrow> string \<Rightarrow> time \<Rightarrow> 's \<Rightarrow> 's \<times> string option" where
  "HaltSession SS m reason now st =
     (case m of
        None \<Rightarrow> (st, None)
      | Some s \<Rightarrow>
          (case ss_UpdateSessionStatus SS (ps_SessionID s) SessionHalted (Some now) reason st of
             (st1, Some err) \<Rightarrow> (st1, Some (''update session status to HALTED: '' @ err))
           | (st1, None) \<Rightarrow> (st1, None)))"

section \<open>The contract of the store\<close>

definition set_status :: "string \<Rightarrow> session_status \<Rightarrow> time option \<Rightarrow> string \<Rightarrow> paper_session \<Rightarrow> paper_session" where
  "set_status sid status t e s = (if ps_SessionID s = sid
     then s\<lparr>ps_Status := status, ps_StoppedAt := t, ps_Error := e\<rparr> else s)"

abbreviation is_running :: "paper_session \<Rightarrow> bool" where
  "is_running s \<equiv> ps_Status s = SessionRunning"

definition running_count :: "paper_session list \<Rightarrow> nat" where
  "running_count ss = length (filter is_running ss)"

lemma running_count_set_status:
  "status \<noteq> SessionRunning \<Longrightarrow> running_count (map (set_status sid status t e) ss) \<le> running_count ss"
  by (induction ss) (auto simp: running_count_def set_status_def)

locale session_store_contract =
  fixes SS :: "('s, 'd::zero) session_store"
    and rows :: "'s \<Rightarrow> paper_session list"
  assumes create: "rows (fst (ss_CreateSession SS s st)) =
      (if snd (ss_CreateSession SS s st) = None then rows st @ [s] else rows st)"
    and update: "rows (fst (ss_UpdateSessionStatus SS sid status t e st)) =
      (if snd (ss_UpdateSessionStatus SS sid status t e st) = None
       then map (set_status sid status t e) (rows st) else rows st)"
    and running_keeps: "rows (fst (ss_LoadRunningSession SS st)) = rows st"
    and running: "snd (ss_LoadRunningSession SS st) = Inr r \<Longrightarrow>
      r = newest ps_StartedAt (filter is_running (rows st))"
    and latest_keeps: "rows (fst (ss_LoadLatestSession SS st)) = rows st"
    and latest: "snd (ss_LoadLatestSession SS st) = Inr r \<Longrightarrow> r = newest ps_StartedAt (rows st)"
    and positions_keep: "rows (fst (ss_LoadPositions SS sid st)) = rows st"
    and equity_keeps: "rows (fst (ss_LoadLatestEquity SS sid st)) = rows st"
begin

lemma resume_facts:
  assumes "resume SS m s st = (m', st', res)"
  shows "rows st' = rows st \<and> (case res of Inl e \<Rightarrow> m' = m
     | Inr r \<Rightarrow> m' = Some s \<and> sr_Session r = s \<and> sr_Recovered r)"
proof -
  obtain st1 p where p: "ss_LoadPositions SS (ps_SessionID s) st = (st1, p)" by fastforce
  obtain st2 e where e: "ss_LoadLatestEquity SS (ps_SessionID s) st1 = (st2, e)" by fastforce
  have "rows st1 = rows st" "rows st2 = rows st1"
    using positions_keep [of "ps_SessionID s" st] equity_keeps [of "ps_SessionID s" st1]
    by (simp_all add: p e)
  with assms p e show ?thesis by (auto simp: resume_def split: sum.splits)
qed

lemma createNew_facts:
  assumes "createNew SS m newID now symbols cfg st = (m', st', res)"
  shows "case res of Inl e \<Rightarrow> m' = m \<and> rows st' = rows st
     | Inr r \<Rightarrow> m' = Some (sr_Session r) \<and> rows st' = rows st @ [sr_Session r] \<and>
         \<not> sr_Recovered r \<and> is_running (sr_Session r) \<and> ps_SessionID (sr_Session r) = newID \<and>
         ps_Symbols (sr_Session r) = symbols \<and> ps_StartedAt (sr_Session r) = now"
proof -
  let ?s = "\<lparr>ps_SessionID = newID, ps_Status = SessionRunning, ps_Symbols = symbols,
    ps_StrategyConfig = cfg, ps_StartedAt = now, ps_StoppedAt = None, ps_Error = []\<rparr>"
  obtain st1 e where c: "ss_CreateSession SS ?s st = (st1, e)" by fastforce
  with assms create [of ?s st] show ?thesis
    by (auto simp: createNew_def Let_def split: option.splits)
qed

text \<open>Everything \<open>Start\<close> can do to the sessions, and when.\<close>

lemma StartSession_facts:
  assumes "StartSession SS m newID now symbols cfg st = (m', st', res)"
  shows "case res of Inl e \<Rightarrow> m' = m \<and> rows st' = rows st
     | Inr r \<Rightarrow> m' = Some (sr_Session r) \<and>
         (if sr_Recovered r
          then rows st' = rows st \<and>
            newest ps_StartedAt (filter is_running (rows st)) = Some (sr_Session r)
          else filter is_running (rows st) = [] \<and> rows st' = rows st @ [sr_Session r] \<and>
            (\<forall>l. newest ps_StartedAt (rows st) = Some l \<longrightarrow> ps_Status l \<noteq> SessionHalted) \<and>
            is_running (sr_Session r) \<and> ps_SessionID (sr_Session r) = newID \<and>
            ps_Symbols (sr_Session r) = symbols \<and> ps_StartedAt (sr_Session r) = now)"
proof -
  obtain st1 lr where lr: "ss_LoadRunningSession SS st = (st1, lr)" by fastforce
  obtain st2 ll where ll: "ss_LoadLatestSession SS st1 = (st2, ll)" by fastforce
  have rows: "rows st1 = rows st" "rows st2 = rows st"
    using running_keeps [of st] latest_keeps [of st1] by (simp_all add: lr ll)
  have run: "lr = Inr r \<Longrightarrow> r = newest ps_StartedAt (filter is_running (rows st))" for r
    using running [of st r] by (simp add: lr)
  have lat: "ll = Inr r \<Longrightarrow> r = newest ps_StartedAt (rows st)" for r
    using latest [of st1 r] rows by (simp add: ll)
  consider (err) e where "lr = Inl e" | (resume) s where "lr = Inr (Some s)"
    | (fresh) "lr = Inr None" by (cases lr) (auto elim: option.exhaust)
  then show ?thesis
  proof cases
    case err
    with assms lr rows show ?thesis by (auto simp: StartSession_def)
  next
    case resume
    with assms lr have "resume SS m s st1 = (m', st', res)" by (simp add: StartSession_def)
    from resume_facts [OF this] run [OF resume] rows show ?thesis
      by (auto split: sum.splits)
  next
    case fresh
    then have none: "filter is_running (rows st) = []"
      using run [OF fresh] newest_None by metis
    consider (err) e where "ll = Inl e"
      | (halted) l where "ll = Inr (Some l)" "ps_Status l = SessionHalted"
      | (new) "\<forall>l. ll \<noteq> Inr (Some l) \<or> ps_Status l \<noteq> SessionHalted" "\<forall>e. ll \<noteq> Inl e"
      by (cases ll) auto
    then show ?thesis
    proof cases
      case err
      with assms lr ll fresh rows show ?thesis by (auto simp: StartSession_def)
    next
      case halted
      with assms lr ll fresh rows show ?thesis by (auto simp: StartSession_def)
    next
      case new
      then obtain o1 where o: "ll = Inr o1" by (cases ll) auto
      with assms lr ll fresh new have "createNew SS m newID now symbols cfg st2 = (m', st', res)"
        by (auto simp: StartSession_def split: option.splits if_splits)
      from createNew_facts [OF this] rows none lat [OF o] new(1) o show ?thesis
        by (auto split: sum.splits)
    qed
  qed
qed

lemma StopSession_facts:
  "rows (fst (StopSession SS m now st)) = (case m of None \<Rightarrow> rows st | Some s \<Rightarrow>
     if snd (StopSession SS m now st) = None
     then map (set_status (ps_SessionID s) SessionStopped (Some now) []) (rows st) else rows st)"
proof (cases m)
  case (Some s)
  obtain st1 e where u: "ss_UpdateSessionStatus SS (ps_SessionID s) SessionStopped (Some now) [] st =
      (st1, e)" by fastforce
  with update [of "ps_SessionID s" SessionStopped "Some now" "[]" st] Some show ?thesis
    by (auto simp: StopSession_def split: option.splits)
qed (simp add: StopSession_def)

lemma HaltSession_facts:
  "rows (fst (HaltSession SS m reason now st)) = (case m of None \<Rightarrow> rows st | Some s \<Rightarrow>
     if snd (HaltSession SS m reason now st) = None
     then map (set_status (ps_SessionID s) SessionHalted (Some now) reason) (rows st) else rows st)"
proof (cases m)
  case (Some s)
  obtain st1 e where u: "ss_UpdateSessionStatus SS (ps_SessionID s) SessionHalted (Some now) reason st =
      (st1, e)" by fastforce
  with update [of "ps_SessionID s" SessionHalted "Some now" reason st] Some show ?thesis
    by (auto simp: HaltSession_def split: option.splits)
qed (simp add: HaltSession_def)

text \<open>Halting and stopping never make a session running.\<close>

lemma StopSession_running:
  "running_count (rows (fst (StopSession SS m now st))) \<le> running_count (rows st)"
  by (simp add: StopSession_facts running_count_set_status split: option.split)

lemma HaltSession_running:
  "running_count (rows (fst (HaltSession SS m reason now st))) \<le> running_count (rows st)"
  by (simp add: HaltSession_facts running_count_set_status split: option.split)

lemma StartSession_running:
  assumes "StartSession SS m newID now symbols cfg st = (m', st', res)" "running_count (rows st) \<le> 1"
  shows "running_count (rows st') \<le> 1"
  using StartSession_facts [OF assms(1)] assms(2)
  by (auto simp: running_count_def split: sum.splits if_splits)

end

lemma set_status_eq:
  "(\<lambda>s. if ps_SessionID s = sid then s\<lparr>ps_Status := status, ps_StoppedAt := t, ps_Error := e\<rparr> else s) =
   set_status sid status t e"
  by (simp add: fun_eq_iff set_status_def)

interpretation db: session_store_contract "paper_store :: ('d::zero paper_db, 'd) session_store" pd_sessions
  by unfold_locales
    (auto simp: paper_store_def CreateSession_def UpdateSessionStatus_def LoadRunningSession_def
      LoadLatestSession_def LoadPositions_def LoadLatestEquity_def set_status_eq
      split: prod.splits option.splits sum.splits)

section \<open>Processes over one database\<close>

text \<open>
  The service's processes one after the other: a process starts with no session, and may halt or
  stop the one it has; it may also crash at any time, which changes nothing in the database.
\<close>

inductive service_step ::
  "session_manager \<times> 'd::zero paper_db \<Rightarrow> session_manager \<times> 'd paper_db \<Rightarrow> bool" where
  boot: "StartSession paper_store None newID now symbols cfg db = (m', db', res) \<Longrightarrow>
     service_step (m, db) (m', db')"
| halt: "HaltSession paper_store m reason now db = (db', e) \<Longrightarrow> service_step (m, db) (m, db')"
| stop: "StopSession paper_store m now db = (db', e) \<Longrightarrow> service_step (m, db) (None, db')"

lemma service_step_running:
  assumes "service_step (m, db) (m', db')" and "running_count (pd_sessions db) \<le> 1"
  shows "running_count (pd_sessions db') \<le> 1"
  using assms(1)
proof cases
  case (boot newID now symbols cfg res)
  from db.StartSession_running [OF boot assms(2)] show ?thesis .
next
  case (halt reason now e)
  from assms(2) db.HaltSession_running [of m reason now db] show ?thesis by (simp add: halt)
next
  case (stop now e)
  from assms(2) db.StopSession_running [of m now db] show ?thesis by (simp add: stop)
qed

inductive_cases service_stepE: "service_step (m, db) (m', db')"

text \<open>
  C32 (invariant): however the processes of the service start, halt, stop and crash one after
  the other, and whatever statements fail on the way, a database with at most one RUNNING
  session keeps at most one; starting never creates a session while one is running.
\<close>

theorem at_most_one_running_session:
  fixes db db' :: "'d::zero paper_db"
  assumes "service_step\<^sup>*\<^sup>* (m, db) (m', db')" and "running_count (pd_sessions db) \<le> 1"
  shows "running_count (pd_sessions db') \<le> 1"
  using assms
proof (induction rule: rtranclp_induct2)
  case refl
  then show ?case by simp
next
  case (step m1 db1 m2 db2)
  then show ?case using service_step_running by blast
qed


definition wit_db :: "rat paper_db" where
  "wit_db = \<lparr>pd_sessions = [], pd_trades = [], pd_positions = [], pd_equity = [], pd_errs = []\<rparr>"

lemma wit_boot:
  "service_step (None, wit_db) (fst (StartSession paper_store None ''s1'' 5 [''BTCUSDT''] ''{}'' wit_db),
     fst (snd (StartSession paper_store None ''s1'' 5 [''BTCUSDT''] ''{}'' wit_db)))"
  by (rule service_step.boot [where res =
        "snd (snd (StartSession paper_store None ''s1'' 5 [''BTCUSDT''] ''{}'' wit_db))"])
    (simp only: prod.collapse)

lemma at_most_one_running_session_witness:
  "let s = StartSession paper_store None ''s1'' 5 [''BTCUSDT''] ''{}'' wit_db in
   running_count (pd_sessions (fst (snd s))) \<le> 1 \<and> length (pd_sessions (fst (snd s))) = 1"
proof -
  let ?s = "StartSession paper_store None ''s1'' 5 [''BTCUSDT''] ''{}'' wit_db"
  have "running_count (pd_sessions (fst (snd ?s))) \<le> 1"
    by (rule at_most_one_running_session [OF r_into_rtranclp [where r = service_step, OF wit_boot]])
      (simp add: wit_db_def running_count_def)
  moreover have "length (pd_sessions (fst (snd ?s))) = 1"
    by (simp add: StartSession_def paper_store_def LoadRunningSession_def LoadLatestSession_def
        answer_def createNew_def CreateSession_def wit_db_def Let_def)
  ultimately show ?thesis by (simp add: Let_def)
qed

text \<open>
  What \<open>Start\<close> does when it succeeds. If it reports a recovered session, that is
  the newest RUNNING one and the sessions are untouched; otherwise there was no RUNNING session,
  the newest session was not HALTED, and exactly one new RUNNING session with the given symbols
  has been added. If it fails, the sessions are untouched and the manager keeps what it had.
\<close>

lemma session_start_outcomes:
  fixes st :: "'d::zero paper_db"
  shows "case StartSession paper_store m newID now symbols cfg st of
     (m', st', Inl e) \<Rightarrow> m' = m \<and> pd_sessions st' = pd_sessions st
   | (m', st', Inr r) \<Rightarrow> m' = Some (sr_Session r) \<and>
       (if sr_Recovered r
        then pd_sessions st' = pd_sessions st \<and>
          newest ps_StartedAt (filter is_running (pd_sessions st)) = Some (sr_Session r)
        else filter is_running (pd_sessions st) = [] \<and>
          pd_sessions st' = pd_sessions st @ [sr_Session r] \<and>
          (case newest ps_StartedAt (pd_sessions st) of
             None \<Rightarrow> True | Some l \<Rightarrow> ps_Status l \<noteq> SessionHalted) \<and>
          is_running (sr_Session r) \<and> ps_SessionID (sr_Session r) = newID \<and>
          ps_Symbols (sr_Session r) = symbols \<and> ps_StartedAt (sr_Session r) = now)"
proof -
  obtain m' st' res where r: "StartSession paper_store m newID now symbols cfg st = (m', st', res)"
    by (metis prod_cases3)
  from db.StartSession_facts [OF r] show ?thesis
    unfolding r by (auto split: sum.splits option.splits if_splits)
qed

section \<open>A halted session that is stopped\<close>

text \<open>
  A shutdown after a halt overwrites HALTED with STOPPED, and the next start is not refused: it
  opens a new session, with no positions.
\<close>

lemma halted_session_restarts_after_stop:
  "let (m, db1, r1) = StartSession paper_store None ''s1'' 5 [''BTCUSDT''] ''{}'' wit_db;
       db2 = fst (HaltSession paper_store m ''DRAWDOWN_HALT'' 6 db1);
       (m3, db3, r3) = StartSession paper_store None ''s2'' 9 [''BTCUSDT''] ''{}'' db2;
       db4 = fst (StopSession paper_store m 7 db2);
       (m5, db5, r5) = StartSession paper_store None ''s2'' 9 [''BTCUSDT''] ''{}'' db4
   in r3 = Inl (''session s1 is halted; clear halt before starting'') \<and>
      (\<exists>r. r5 = Inr r \<and> \<not> sr_Recovered r \<and> sr_Positions r = [])"
  by (simp add: Let_def StartSession_def StopSession_def HaltSession_def paper_store_def
      LoadRunningSession_def LoadLatestSession_def answer_def createNew_def CreateSession_def
      UpdateSessionStatus_def wit_db_def)

end
