(* ===== verification/Blotter.thy ===== *)
theory Blotter
  imports Executor Paper_Repository
begin

text \<open>
  The blotter of a paper session, engine/execution/blotter/blotter.go: net quantity and average
  entry price per symbol, and the equity after realised profit and fees.

  \<open>FillStore\<close> is a function over the store's state; the repository's \<open>PersistFill\<close> is the one
  used. The struct behind a map entry is mutated through its pointer, here the entry is
  replaced. The mutex makes every method atomic.
\<close>

section \<open>State\<close>

record 'd symbol_position =
  sp_netQty :: 'd
  sp_avgEntry :: 'd

record 'd blotter =
  bl_sessionID :: string
  bl_equity :: 'd
  bl_positions :: "string \<rightharpoonup> 'd symbol_position"

record 'd fill_request =
  fr_TradeID :: string
  fr_Symbol :: string
  fr_Side :: side
  fr_FillPrice :: 'd
  fr_FillQty :: 'd
  fr_Fee :: 'd
  fr_EventTime :: time
  fr_SignalName :: string
  fr_SignalStreamID :: string

type_synonym ('s, 'd) fill_store =
  "'d paper_trade \<Rightarrow> 'd position_record \<Rightarrow> 'd equity_record \<Rightarrow> 's \<Rightarrow> 's \<times> string option"

definition flat_position :: "'d::zero symbol_position" where
  "flat_position = \<lparr>sp_netQty = 0, sp_avgEntry = 0\<rparr>"

definition NewBlotter :: "string \<Rightarrow> 'd \<Rightarrow> 'd blotter" where
  "NewBlotter sessionID initialEquity =
     \<lparr>bl_sessionID = sessionID, bl_equity = initialEquity, bl_positions = Map.empty\<rparr>"

definition SeedPositions :: "'d position_record list \<Rightarrow> 'd blotter \<Rightarrow> 'd blotter" where
  "SeedPositions positions b =
     foldl (\<lambda>b p. b\<lparr>bl_positions := (bl_positions b)(pp_Symbol p \<mapsto>
       \<lparr>sp_netQty = pp_NetQty p, sp_avgEntry = pp_AvgEntry p\<rparr>)\<rparr>) b positions"

definition BlotterPosition :: "string \<Rightarrow> 'd::linordered_idom blotter \<Rightarrow> position \<times> 'd" where
  "BlotterPosition symbol b =
     (case bl_positions b symbol of
        None \<Rightarrow> (Flat, 0)
      | Some pos \<Rightarrow>
          if sp_netQty pos = 0 then (Flat, 0)
          else if 0 < sp_netQty pos then (Long, sp_netQty pos)
          else (Short, sp_netQty pos))"

section \<open>Fills\<close>

definition closeLong ::
  "'d::linordered_idom symbol_position \<Rightarrow> 'd fill_request \<Rightarrow> 'd symbol_position \<times> 'd" where
  "closeLong pos fill =
     (let pnl = (fr_FillPrice fill - sp_avgEntry pos) * fr_FillQty fill;
          pos1 = pos\<lparr>sp_netQty := sp_netQty pos - fr_FillQty fill\<rparr>
      in (if \<not> 0 < sp_netQty pos1 then pos1\<lparr>sp_avgEntry := 0\<rparr> else pos1, pnl))"

definition closeShort ::
  "'d::linordered_idom symbol_position \<Rightarrow> 'd fill_request \<Rightarrow> 'd symbol_position \<times> 'd" where
  "closeShort pos fill =
     (let pnl = (sp_avgEntry pos - fr_FillPrice fill) * fr_FillQty fill;
          pos1 = pos\<lparr>sp_netQty := sp_netQty pos + fr_FillQty fill\<rparr>
      in (if \<not> sp_netQty pos1 < 0 then pos1\<lparr>sp_avgEntry := 0\<rparr> else pos1, pnl))"

definition openOrExtendLong ::
  "'d::linordered_idom decimal_pkg \<Rightarrow> 'd symbol_position \<Rightarrow> 'd fill_request \<Rightarrow> 'd symbol_position" where
  "openOrExtendLong D pos fill =
     (let newQty = sp_netQty pos + fr_FillQty fill;
          avg = (if sp_netQty pos = 0 then fr_FillPrice fill
                 else DDiv D (sp_netQty pos * sp_avgEntry pos + fr_FillQty fill * fr_FillPrice fill) newQty)
      in pos\<lparr>sp_avgEntry := avg, sp_netQty := newQty\<rparr>)"

definition openOrExtendShort ::
  "'d::linordered_idom decimal_pkg \<Rightarrow> 'd symbol_position \<Rightarrow> 'd fill_request \<Rightarrow> 'd symbol_position" where
  "openOrExtendShort D pos fill =
     (let absQty = \<bar>sp_netQty pos\<bar>; newAbsQty = absQty + fr_FillQty fill;
          avg = (if sp_netQty pos = 0 then fr_FillPrice fill
                 else DDiv D (absQty * sp_avgEntry pos + fr_FillQty fill * fr_FillPrice fill) newAbsQty)
      in pos\<lparr>sp_avgEntry := avg, sp_netQty := sp_netQty pos - fr_FillQty fill\<rparr>)"

definition applyBuy ::
  "'d::linordered_idom decimal_pkg \<Rightarrow> 'd symbol_position \<Rightarrow> 'd fill_request \<Rightarrow> 'd symbol_position \<times> 'd" where
  "applyBuy D pos fill =
     (if sp_netQty pos < 0 then closeShort pos fill else (openOrExtendLong D pos fill, 0))"

definition applySell ::
  "'d::linordered_idom decimal_pkg \<Rightarrow> 'd symbol_position \<Rightarrow> 'd fill_request \<Rightarrow> 'd symbol_position \<times> 'd" where
  "applySell D pos fill =
     (if 0 < sp_netQty pos then closeLong pos fill else (openOrExtendShort D pos fill, 0))"

definition blotApplyFill ::
  "'d::linordered_idom decimal_pkg \<Rightarrow> 'd symbol_position \<Rightarrow> 'd fill_request \<Rightarrow> 'd symbol_position \<times> 'd" where
  "blotApplyFill D pos fill =
     (if fr_Side fill = SideBuy then applyBuy D pos fill else applySell D pos fill)"

definition undoFill ::
  "'d::linordered_idom symbol_position \<Rightarrow> 'd fill_request \<Rightarrow> 'd symbol_position" where
  "undoFill pos fill =
     (if fr_Side fill = SideBuy then pos\<lparr>sp_netQty := sp_netQty pos - fr_FillQty fill\<rparr>
      else pos\<lparr>sp_netQty := sp_netQty pos + fr_FillQty fill\<rparr>)"

definition tradeRec :: "'d blotter \<Rightarrow> 'd fill_request \<Rightarrow> 'd \<Rightarrow> 'd paper_trade" where
  "tradeRec b fill realisedPnL =
     \<lparr>pt_SessionID = bl_sessionID b, pt_TradeID = fr_TradeID fill, pt_Symbol = fr_Symbol fill,
      pt_EventTime = fr_EventTime fill, pt_Side = string_of_side (fr_Side fill),
      pt_FillPrice = fr_FillPrice fill, pt_FillQty = fr_FillQty fill, pt_Fee = fr_Fee fill,
      pt_RealisedPnL = realisedPnL, pt_SignalName = fr_SignalName fill,
      pt_SignalStreamID = fr_SignalStreamID fill\<rparr>"

definition posRec :: "'d blotter \<Rightarrow> 'd fill_request \<Rightarrow> 'd symbol_position \<Rightarrow> 'd position_record" where
  "posRec b fill pos =
     \<lparr>pp_SessionID = bl_sessionID b, pp_Symbol = fr_Symbol fill, pp_NetQty = sp_netQty pos,
      pp_AvgEntry = sp_avgEntry pos, pp_UpdatedAt = fr_EventTime fill\<rparr>"

definition blotRecordFill ::
  "'d::linordered_idom decimal_pkg \<Rightarrow> ('s, 'd) fill_store \<Rightarrow> 'd fill_request \<Rightarrow> 'd blotter \<Rightarrow> 's \<Rightarrow>
   'd blotter \<times> 's \<times> string option" where
  "blotRecordFill D store fill b st =
     (let pos = (case bl_positions b (fr_Symbol fill) of None \<Rightarrow> flat_position | Some p \<Rightarrow> p) in
      case blotApplyFill D pos fill of
        (pos1, realisedPnL) \<Rightarrow>
          (let equity1 = bl_equity b + realisedPnL - fr_Fee fill in
           case store (tradeRec b fill realisedPnL) (posRec b fill pos1)
                  \<lparr>pe_SessionID = bl_sessionID b, pe_EventTime = fr_EventTime fill,
                   pe_Equity = equity1\<rparr> st of
             (st1, Some err) \<Rightarrow>
               (b\<lparr>bl_equity := equity1 - realisedPnL + fr_Fee fill,
                  bl_positions := (bl_positions b)(fr_Symbol fill \<mapsto> undoFill pos1 fill)\<rparr>,
                st1, Some err)
           | (st1, None) \<Rightarrow>
               (b\<lparr>bl_equity := equity1, bl_positions := (bl_positions b)(fr_Symbol fill \<mapsto> pos1)\<rparr>,
                st1, None)))"

section \<open>Positions and money\<close>

definition pos_of :: "'d::zero blotter \<Rightarrow> string \<Rightarrow> 'd symbol_position" where
  "pos_of b s = (case bl_positions b s of None \<Rightarrow> flat_position | Some p \<Rightarrow> p)"

abbreviation net :: "'d::zero blotter \<Rightarrow> string \<Rightarrow> 'd" where
  "net b s \<equiv> sp_netQty (pos_of b s)"

text \<open>What the open position cost: its quantity at the average entry price.\<close>

definition entry_cost :: "'d::linordered_idom symbol_position \<Rightarrow> 'd" where
  "entry_cost p = sp_netQty p * sp_avgEntry p"

lemmas fill_defs = blotApplyFill_def applyBuy_def applySell_def closeLong_def closeShort_def
  openOrExtendLong_def openOrExtendShort_def Let_def

lemma flat_position_sels [simp]: "sp_netQty flat_position = 0" "sp_avgEntry flat_position = 0"
  by (simp_all add: flat_position_def)

lemma net_fill: "sp_netQty (fst (blotApplyFill D p fill)) =
    sp_netQty p + proposedDelta (fr_Side fill) (fr_FillQty fill)"
  by (simp add: fill_defs proposedDelta_def)

text \<open>
  A fill that opens a flat position, or closes (part of) an open one without going past flat,
  moves cash and cost by the same amount: realised profit minus the change of the cost is the
  cash the fill pays or receives.
\<close>

definition plain_fill :: "'d::linordered_idom symbol_position \<Rightarrow> 'd fill_request \<Rightarrow> bool" where
  "plain_fill p fill \<longleftrightarrow> sp_netQty p = 0 \<or>
     (if fr_Side fill = SideBuy then sp_netQty p < 0 \<and> fr_FillQty fill \<le> - sp_netQty p
      else 0 < sp_netQty p \<and> fr_FillQty fill \<le> sp_netQty p)"

lemma fill_cash:
  assumes "plain_fill p fill"
  shows "snd (blotApplyFill D p fill) - (entry_cost (fst (blotApplyFill D p fill)) - entry_cost p) =
     - proposedDelta (fr_Side fill) (fr_FillQty fill) * fr_FillPrice fill"
proof -
  let ?n = "sp_netQty p" and ?q = "fr_FillQty fill" and ?a = "sp_avgEntry p"
  have "?q * ?a + ?a * ?n = 0" if "?q \<le> - ?n" "\<not> ?q + ?n < 0"
  proof -
    have "?n = - ?q" using that by linarith
    then show ?thesis by simp
  qed
  moreover have "?q * ?a = ?a * ?n" if "?q \<le> ?n" "\<not> ?q < ?n" using that by auto
  ultimately show ?thesis using assms
    by (auto simp: plain_fill_def fill_defs entry_cost_def proposedDelta_def algebra_simps
        split: if_splits)
qed

text \<open>A fill the store refuses: the equity and every net quantity are what they were.\<close>

lemma undo_net: "sp_netQty (undoFill (fst (blotApplyFill D p fill)) fill) = sp_netQty p"
  by (simp add: undoFill_def net_fill proposedDelta_def)

lemma blotRecordFill_cases:
  obtains (failed) st1 err where
    "blotRecordFill D store fill b st =
       (b\<lparr>bl_positions := (bl_positions b)(fr_Symbol fill \<mapsto>
            undoFill (fst (blotApplyFill D (pos_of b (fr_Symbol fill)) fill)) fill)\<rparr>, st1, Some err)"
    "store (tradeRec b fill (snd (blotApplyFill D (pos_of b (fr_Symbol fill)) fill)))
       (posRec b fill (fst (blotApplyFill D (pos_of b (fr_Symbol fill)) fill)))
       \<lparr>pe_SessionID = bl_sessionID b, pe_EventTime = fr_EventTime fill,
        pe_Equity = bl_equity b + snd (blotApplyFill D (pos_of b (fr_Symbol fill)) fill) - fr_Fee fill\<rparr>
       st = (st1, Some err)"
  | (recorded) st1 where
    "blotRecordFill D store fill b st =
       (b\<lparr>bl_equity := bl_equity b + snd (blotApplyFill D (pos_of b (fr_Symbol fill)) fill) - fr_Fee fill,
          bl_positions := (bl_positions b)(fr_Symbol fill \<mapsto>
            fst (blotApplyFill D (pos_of b (fr_Symbol fill)) fill))\<rparr>, st1, None)"
    "store (tradeRec b fill (snd (blotApplyFill D (pos_of b (fr_Symbol fill)) fill)))
       (posRec b fill (fst (blotApplyFill D (pos_of b (fr_Symbol fill)) fill)))
       \<lparr>pe_SessionID = bl_sessionID b, pe_EventTime = fr_EventTime fill,
        pe_Equity = bl_equity b + snd (blotApplyFill D (pos_of b (fr_Symbol fill)) fill) - fr_Fee fill\<rparr>
       st = (st1, None)"
proof -
  let ?p = "pos_of b (fr_Symbol fill)"
  let ?e = "bl_equity b + snd (blotApplyFill D ?p fill) - fr_Fee fill"
  obtain st1 r where s: "store (tradeRec b fill (snd (blotApplyFill D ?p fill)))
       (posRec b fill (fst (blotApplyFill D ?p fill)))
       \<lparr>pe_SessionID = bl_sessionID b, pe_EventTime = fr_EventTime fill, pe_Equity = ?e\<rparr> st = (st1, r)"
    by fastforce
  show thesis
  proof (cases r)
    case None
    with s recorded show ?thesis
      by (simp add: blotRecordFill_def pos_of_def Let_def case_prod_unfold)
  next
    case (Some err)
    with s failed show ?thesis
      by (simp add: blotRecordFill_def pos_of_def Let_def case_prod_unfold)
  qed
qed


section \<open>The stored positions\<close>

text \<open>The positions a session finds in the table, as a map.\<close>

abbreviation row_entry :: "'d position_record \<Rightarrow> string \<times> 'd symbol_position" where
  "row_entry p \<equiv> (pp_Symbol p, \<lparr>sp_netQty = pp_NetQty p, sp_avgEntry = pp_AvgEntry p\<rparr>)"

definition row_map :: "string \<Rightarrow> 'd position_record list \<Rightarrow> (string \<rightharpoonup> 'd symbol_position)" where
  "row_map sid rows = map_of (map row_entry (filter (\<lambda>p. pp_SessionID p = sid) rows))"

lemma row_map_append: "row_map sid (xs @ ys) = row_map sid ys ++ row_map sid xs"
  by (simp add: row_map_def)

lemma row_map_Cons: "row_map sid (r # rows) =
    (if pp_SessionID r = sid
     then (row_map sid rows)(pp_Symbol r \<mapsto> snd (row_entry r)) else row_map sid rows)"
  by (simp add: row_map_def)

lemma row_map_dom: "row_map sid rows s \<noteq> None \<longleftrightarrow>
    (\<exists>r \<in> set rows. pp_SessionID r = sid \<and> pp_Symbol r = s)"
  by (induction rows) (auto simp: row_map_Cons, simp add: row_map_def)

lemma row_map_overwrite:
  "row_map sid (map (\<lambda>r. if pp_SessionID r = pp_SessionID p \<and> pp_Symbol r = pp_Symbol p
      then r\<lparr>pp_NetQty := pp_NetQty p, pp_AvgEntry := pp_AvgEntry p, pp_UpdatedAt := pp_UpdatedAt p\<rparr>
      else r) rows) =
   (if pp_SessionID p = sid \<and> row_map sid rows (pp_Symbol p) \<noteq> None
    then (row_map sid rows)(pp_Symbol p \<mapsto> snd (row_entry p)) else row_map sid rows)"
proof (induction rows)
  case Nil
  then show ?case by (simp add: row_map_def)
next
  case (Cons r rows)
  then show ?case by (auto simp: row_map_Cons fun_eq_iff)
qed

lemma row_map_upsert:
  "row_map sid (upsertPosition p rows) =
     (if pp_SessionID p = sid then (row_map sid rows)(pp_Symbol p \<mapsto> snd (row_entry p))
      else row_map sid rows)"
proof (cases "\<exists>r \<in> set rows. pp_SessionID r = pp_SessionID p \<and> pp_Symbol r = pp_Symbol p")
  case True
  then have "pp_SessionID p = sid \<Longrightarrow> row_map sid rows (pp_Symbol p) \<noteq> None"
    unfolding row_map_dom by blast
  with True show ?thesis by (simp add: upsertPosition_def row_map_overwrite)
next
  case False
  then have "pp_SessionID p = sid \<Longrightarrow> pp_Symbol p \<notin> dom (row_map sid rows)"
    using row_map_dom [of sid rows "pp_Symbol p"] by auto
  with False show ?thesis
    by (auto simp: upsertPosition_def row_map_append row_map_Cons row_map_def [of _ "[]"]
        map_add_def fun_eq_iff split: option.splits)
qed

lemma SeedPositions_sels [simp]:
  "bl_equity (SeedPositions ps b) = bl_equity b" "bl_sessionID (SeedPositions ps b) = bl_sessionID b"
  by (induction ps arbitrary: b) (simp_all add: SeedPositions_def)

lemma SeedPositions_map:
  "bl_positions (SeedPositions ps b) = bl_positions b ++ map_of (rev (map row_entry ps))"
  by (induction ps rule: rev_induct)
    (simp_all add: SeedPositions_def fun_eq_iff map_add_def split: option.split)

lemma filter_one_row:
  "one_row_per_symbol rows \<Longrightarrow> distinct (map fst (map row_entry (filter (\<lambda>p. pp_SessionID p = sid) rows)))"
proof -
  let ?k = "\<lambda>p. (pp_SessionID p, pp_Symbol p)" and ?rs = "filter (\<lambda>p. pp_SessionID p = sid) rows"
  assume "one_row_per_symbol rows"
  then have "distinct (map ?k ?rs)" by (simp add: one_row_per_symbol_def distinct_map_filter)
  also have "map ?k ?rs = map (Pair sid) (map pp_Symbol ?rs)" by simp
  finally have "distinct (map pp_Symbol ?rs)" by (simp only: distinct_map [of "Pair sid"])
  then show ?thesis by (simp add: comp_def)
qed

lemma SeedPositions_row_map:
  assumes "one_row_per_symbol rows"
  shows "bl_positions (SeedPositions (filter (\<lambda>p. pp_SessionID p = sid) rows) (NewBlotter sid e)) =
     row_map sid rows"
proof -
  let ?es = "map row_entry (filter (\<lambda>p. pp_SessionID p = sid) rows)"
  have "distinct (map fst (rev ?es))"
    using filter_one_row [OF assms, of sid] by (simp only: rev_map [symmetric] distinct_rev)
  then have "map_of (rev ?es) = map_of ?es"
    using filter_one_row [OF assms, of sid] by (subst map_of_inject_set) (simp_all only: set_rev)
  then show ?thesis by (simp add: SeedPositions_map row_map_def NewBlotter_def)
qed

text \<open>A run of fills, whatever the store answers to each.\<close>

fun fill_run ::
  "'d::linordered_idom decimal_pkg \<Rightarrow> ('s, 'd) fill_store \<Rightarrow> 'd fill_request list \<Rightarrow> 'd blotter \<Rightarrow> 's \<Rightarrow>
   'd blotter \<times> 's \<times> string option list" where
  "fill_run D store [] b st = (b, st, [])"
| "fill_run D store (f # fs) b st =
     (case blotRecordFill D store f b st of
        (b1, st1, r) \<Rightarrow> (case fill_run D store fs b1 st1 of (b2, st2, rs) \<Rightarrow> (b2, st2, r # rs)))"

text \<open>The net quantities in memory are those of the session's rows.\<close>

definition mirrored ::
  "('s \<Rightarrow> 'd::linordered_idom position_record list) \<Rightarrow> 'd blotter \<Rightarrow> 's \<Rightarrow> bool" where
  "mirrored prows b st \<longleftrightarrow> one_row_per_symbol (prows st) \<and>
     (\<forall>s. net b s = (case row_map (bl_sessionID b) (prows st) s of None \<Rightarrow> 0 | Some p \<Rightarrow> sp_netQty p))"

text \<open>The equity points of a run end with the equity in memory.\<close>

definition equity_follows :: "'d \<Rightarrow> 'd equity_record list \<Rightarrow> 'd equity_record list \<Rightarrow> 'd \<Rightarrow> bool" where
  "equity_follows e0 rows rows' e \<longleftrightarrow>
     (\<exists>es. rows' = rows @ es \<and> (if es = [] then e = e0 else e = pe_Equity (last es)))"

lemma equity_follows_trans:
  assumes "equity_follows e0 r0 r1 e1" and "equity_follows e1 r1 r2 e2"
  shows "equity_follows e0 r0 r2 e2"
proof -
  obtain es es' where r: "r1 = r0 @ es" "r2 = r1 @ es'"
    and e: "if es = [] then e1 = e0 else e1 = pe_Equity (last es)"
      "if es' = [] then e2 = e1 else e2 = pe_Equity (last es')"
    using assms by (auto simp only: equity_follows_def)
  then have "if es @ es' = [] then e2 = e0 else e2 = pe_Equity (last (es @ es'))"
    by (cases "es = []"; cases "es' = []") simp_all
  with r show ?thesis unfolding equity_follows_def by (metis append.assoc)
qed

section \<open>The store's contract\<close>

locale fill_store_contract =
  fixes store :: "('s, 'd::linordered_idom) fill_store"
    and prows :: "'s \<Rightarrow> 'd position_record list"
    and erows :: "'s \<Rightarrow> 'd equity_record list"
  assumes stored: "store t p e st = (st', None) \<Longrightarrow>
      prows st' = upsertPosition p (prows st) \<and> erows st' = erows st @ [e]"
    and refused: "store t p e st = (st', Some err) \<Longrightarrow> prows st' = prows st \<and> erows st' = erows st"
begin

lemma blotRecordFill_mirrored:
  assumes "mirrored prows b st" and "blotRecordFill D store f b st = (b', st', r)"
  shows "mirrored prows b' st' \<and> bl_sessionID b' = bl_sessionID b"
  using blotRecordFill_cases [where D = D and store = store and fill = f and b = b and st = st]
proof cases
  case (failed st1 err)
  have b': "b' = b\<lparr>bl_positions := (bl_positions b)(fr_Symbol f \<mapsto>
      undoFill (fst (blotApplyFill D (pos_of b (fr_Symbol f)) f)) f)\<rparr>" and st: "st' = st1"
    using failed(1) assms(2) by simp_all
  have "prows st' = prows st" using refused [OF failed(2)] st by simp
  moreover have "net b' s = net b s" for s
    by (simp add: b' pos_of_def undo_net)
  ultimately show ?thesis using assms(1) by (simp add: mirrored_def b')
next
  case (recorded st1)
  let ?p = "fst (blotApplyFill D (pos_of b (fr_Symbol f)) f)"
  have b': "bl_positions b' = (bl_positions b)(fr_Symbol f \<mapsto> ?p)" "bl_sessionID b' = bl_sessionID b"
    and st: "st' = st1"
    using recorded(1) assms(2) by auto
  have rows: "prows st' = upsertPosition (posRec b f ?p) (prows st)"
    using stored [OF recorded(2)] st by simp
  have "net b' s = (if s = fr_Symbol f then sp_netQty ?p else net b s)" for s
    by (simp add: b' pos_of_def)
  with assms(1) show ?thesis
    by (simp add: mirrored_def rows b' row_map_upsert upsert_one_row posRec_def)
qed

lemma fill_run_mirrored:
  assumes "mirrored prows b st" and "fill_run D store fs b st = (b', st', rs)"
  shows "mirrored prows b' st' \<and> bl_sessionID b' = bl_sessionID b"
  using assms
proof (induction fs arbitrary: b st rs)
  case Nil
  then show ?case by simp
next
  case (Cons f fs)
  obtain b1 st1 r where one: "blotRecordFill D store f b st = (b1, st1, r)" by (metis prod_cases3)
  obtain rs' where "fill_run D store fs b1 st1 = (b', st', rs')"
    using Cons.prems(2) one by (auto split: prod.splits)
  from Cons.IH [OF _ this] blotRecordFill_mirrored [OF Cons.prems(1) one] show ?case by simp
qed

lemma blotRecordFill_equity:
  assumes "blotRecordFill D store f b st = (b', st', r)"
  shows "equity_follows (bl_equity b) (erows st) (erows st') (bl_equity b')"
  using blotRecordFill_cases [where D = D and store = store and fill = f and b = b and st = st]
proof cases
  case (failed st1 err)
  then have "bl_equity b' = bl_equity b" "st' = st1" using assms by auto
  with refused [OF failed(2)] show ?thesis by (simp add: equity_follows_def)
next
  case (recorded st1)
  then have "bl_equity b' = bl_equity b + snd (blotApplyFill D (pos_of b (fr_Symbol f)) f) - fr_Fee f"
    "st' = st1" using assms by auto
  with stored [OF recorded(2)] show ?thesis by (simp add: equity_follows_def)
qed

lemma fill_run_equity:
  assumes "fill_run D store fs b st = (b', st', rs)"
  shows "equity_follows (bl_equity b) (erows st) (erows st') (bl_equity b')"
  using assms
proof (induction fs arbitrary: b st rs)
  case Nil
  then show ?case by (simp add: equity_follows_def)
next
  case (Cons f fs)
  obtain b1 st1 r where one: "blotRecordFill D store f b st = (b1, st1, r)" by (metis prod_cases3)
  obtain rs' where rest: "fill_run D store fs b1 st1 = (b', st', rs')"
    using Cons.prems one by (auto split: prod.splits)
  from equity_follows_trans [OF blotRecordFill_equity [OF one] Cons.IH [OF rest]] show ?case .
qed

end

interpretation paper: fill_store_contract "PersistFill :: ('d::linordered_idom paper_db, 'd) fill_store"
  pd_positions pd_equity
  by unfold_locales (auto simp: PersistFill_def split: prod.splits option.splits)

section \<open>Properties\<close>

lemma BlotterPosition_net: "BlotterPosition s b =
    (if net b s = 0 then (Flat, 0) else if 0 < net b s then (Long, net b s) else (Short, net b s))"
  by (simp add: BlotterPosition_def pos_of_def split: option.split)

text \<open>
  Whatever fills a new session records, and whichever of them the database
  refuses, a process that loads the session's positions afterwards sees for every symbol the
  same position and net quantity as the process that recorded them; and if any equity point was
  written, the last one is the equity in memory, otherwise that equity has not changed.
\<close>

lemma blotter_survives_restart:
  fixes D :: "'d::linordered_idom decimal_pkg"
  assumes run: "fill_run D PersistFill fs (NewBlotter sid e0) db = (b, db1, rs)"
    and fresh: "\<forall>p \<in> set (pd_positions db). pp_SessionID p \<noteq> sid" "one_row_per_symbol (pd_positions db)"
    and load: "LoadPositions sid db1 = (db2, Inr rows)"
  shows "(\<forall>s. BlotterPosition s (SeedPositions rows (NewBlotter sid e)) = BlotterPosition s b) \<and>
     equity_follows e0 (pd_equity db) (pd_equity db1) (bl_equity b)"
proof -
  have "row_map sid (pd_positions db) s = None" for s
    using row_map_dom [of sid "pd_positions db" s] fresh(1) by auto
  then have "mirrored pd_positions (NewBlotter sid e0) db"
    using fresh(2) by (simp add: mirrored_def NewBlotter_def pos_of_def)
  from paper.fill_run_mirrored [OF this run] have m: "mirrored pd_positions b db1"
    and sid: "bl_sessionID b = sid" by (simp_all add: NewBlotter_def)
  have "rows = filter (\<lambda>p. pp_SessionID p = sid) (pd_positions db1)"
    by (rule LoadPositions_result(5) [OF load refl])
  then have "bl_positions (SeedPositions rows (NewBlotter sid e)) = row_map sid (pd_positions db1)"
    using m SeedPositions_row_map [of "pd_positions db1" sid e] by (simp add: mirrored_def)
  then have "net (SeedPositions rows (NewBlotter sid e)) s = net b s" for s
    using m sid by (simp add: mirrored_def pos_of_def split: option.split)
  then show ?thesis
    using paper.fill_run_equity [OF run] by (simp add: BlotterPosition_net NewBlotter_def)
qed

definition wit_fill :: "side \<Rightarrow> rat \<Rightarrow> string \<Rightarrow> rat fill_request" where
  "wit_fill sd p id1 = \<lparr>fr_TradeID = id1, fr_Symbol = ''BTCUSDT'', fr_Side = sd, fr_FillPrice = p,
     fr_FillQty = 1, fr_Fee = 0, fr_EventTime = 5, fr_SignalName = ''book_imbalance'',
     fr_SignalStreamID = id1\<rparr>"

definition wit_paper_db :: "string option list \<Rightarrow> rat paper_db" where
  "wit_paper_db errs =
     \<lparr>pd_sessions = [], pd_trades = [], pd_positions = [], pd_equity = [], pd_errs = errs\<rparr>"

lemmas wit_blotter_defs = blotRecordFill_def PersistFill_def answer_def NewBlotter_def
  flat_position_def fill_defs tradeRec_def posRec_def insertTrade_def upsertPosition_def
  wit_paper_db_def wit_fill_def

lemma blotter_survives_restart_witness:
  "let (b, db1, rs) = fill_run rat_pkg PersistFill [wit_fill SideBuy 100 ''1-0'']
         (NewBlotter ''s1'' 1000) (wit_paper_db [None]);
       rows = filter (\<lambda>p. pp_SessionID p = ''s1'') (pd_positions db1)
   in BlotterPosition ''BTCUSDT'' (SeedPositions rows (NewBlotter ''s1'' 0)) =
        BlotterPosition ''BTCUSDT'' b \<and> BlotterPosition ''BTCUSDT'' b = (Long, 1)"
  using blotter_survives_restart [of rat_pkg "[wit_fill SideBuy 100 ''1-0'']" "''s1''" 1000
      "wit_paper_db [None]", where e = 0]
  by (simp add: wit_blotter_defs Let_def LoadPositions_def one_row_per_symbol_def BlotterPosition_def)

section \<open>Where the blotter loses money\<close>

text \<open>
  A fill that closes a position and is refused by the database leaves the average entry price at
  zero; the retry then books the whole proceeds as profit. Here a unit is bought at 100 and sold
  at 100: the equity is 1000, but after one refused write it is 1100.
\<close>

lemma refused_close_books_proceeds_as_profit:
  "bl_equity (fst (fill_run rat_pkg PersistFill
     [wit_fill SideBuy 100 ''1-0'', wit_fill SideSell 100 ''2-0'']
     (NewBlotter ''s1'' 1000) (wit_paper_db [None, None]))) = 1000"
  "bl_equity (fst (fill_run rat_pkg PersistFill
     [wit_fill SideBuy 100 ''1-0'', wit_fill SideSell 100 ''2-0'', wit_fill SideSell 100 ''2-0'']
     (NewBlotter ''s1'' 1000) (wit_paper_db [None, Some ''timeout'', None]))) = 1100"
  by (simp_all add: wit_blotter_defs undoFill_def)

end
