(* ===== verification/L2Cache.thy ===== *)
theory L2Cache
  imports Wire
begin

text \<open>
  The cache of best prices, engine/execution/l2cache/cache.go. One goroutine tails the book
  streams of all symbols with one XREAD from the last ids it has; readers take a lock.

  A reply to XREAD depends on the stream arguments the loop sends.
\<close>

record 'd best_price =
  bp_bid :: 'd
  bp_ask :: 'd

record 'd l2_cache =
  lc_namespace :: string
  lc_symbols :: "string list"
  lc_prices :: "string \<rightharpoonup> 'd best_price"
  lc_ids :: "string \<rightharpoonup> string"

definition NewCache :: "string \<Rightarrow> string list \<Rightarrow> 'd l2_cache" where
  "NewCache namespace symbols = \<lparr>lc_namespace = namespace, lc_symbols = symbols,
     lc_prices = Map.empty,
     lc_ids = foldl (\<lambda>m s. m(ToUpper s \<mapsto> ''0'')) Map.empty symbols\<rparr>"

definition BestPrices :: "string \<Rightarrow> 'd::zero l2_cache \<Rightarrow> 'd \<times> 'd \<times> bool" where
  "BestPrices symbol c =
     (case lc_prices c (ToUpper symbol) of
        None \<Rightarrow> (0, 0, False)
      | Some p \<Rightarrow> (bp_bid p, bp_ask p, True))"

definition streamKey :: "'d l2_cache \<Rightarrow> string \<Rightarrow> string" where
  "streamKey c symbol = lc_namespace c @ '':l2:'' @ ToUpper symbol"

text \<open>A missing map entry reads as the empty string.\<close>

definition buildStreamArgs :: "'d l2_cache \<Rightarrow> string list" where
  "buildStreamArgs c = map (streamKey c) (lc_symbols c) @
     map (\<lambda>s. case lc_ids c (ToUpper s) of None \<Rightarrow> [] | Some i \<Rightarrow> i) (lc_symbols c)"

definition bestPriceFromJSON ::
  "'d::zero decimal_pkg \<Rightarrow> string \<Rightarrow> 'd option" where
  "bestPriceFromJSON D raw =
     (if raw = [] then Some 0
      else case unmarshalPairs raw of
             None \<Rightarrow> None
           | Some [] \<Rightarrow> Some 0
           | Some ((p, q) # rest) \<Rightarrow> DFromString D p)"

definition cacheMessage ::
  "'d::zero decimal_pkg \<Rightarrow> string \<times> fields \<Rightarrow>
   'd l2_cache \<Rightarrow> 'd l2_cache" where
  "cacheMessage D msg c =
     (let sym0 = strField (snd msg) ''symbol'' in
      if sym0 = [] then c
      else let sy = ToUpper sym0 in
        case bestPriceFromJSON D (strField (snd msg) ''bids'') of
          None \<Rightarrow> c
        | Some bid \<Rightarrow>
            (case bestPriceFromJSON D (strField (snd msg) ''asks'') of
               None \<Rightarrow> c
             | Some ask \<Rightarrow>
                 if bid = 0 \<or> ask = 0 then c
                 else c\<lparr>lc_prices := (lc_prices c)(sy \<mapsto> \<lparr>bp_bid = bid, bp_ask = ask\<rparr>),
                        lc_ids := (lc_ids c)(sy \<mapsto> fst msg)\<rparr>))"

datatype cache_reply = CacheNil | CacheErr bool | CacheMsgs "(string \<times> fields) list"

text \<open>\<open>readOnce\<close>: the new state and whether the loop goes on.\<close>

definition readOnce ::
  "'d::zero decimal_pkg \<Rightarrow>
   (string list \<Rightarrow> cache_reply) \<Rightarrow> 'd l2_cache \<Rightarrow> 'd l2_cache \<times> bool" where
  "readOnce D reply c =
     (case reply (buildStreamArgs c) of
        CacheNil \<Rightarrow> (c, True)
      | CacheErr ctxDone \<Rightarrow> (c, \<not> ctxDone)
      | CacheMsgs msgs \<Rightarrow> (foldl (\<lambda>c m. cacheMessage D m c) c msgs, True))"

fun cacheLoop ::
  "'d::zero decimal_pkg \<Rightarrow>
   (string list \<Rightarrow> cache_reply) list \<Rightarrow> 'd l2_cache \<Rightarrow> 'd l2_cache" where
  "cacheLoop D [] c = c"
| "cacheLoop D (r # rs) c =
     (case readOnce D r c of
        (c', goOn) \<Rightarrow> if goOn then cacheLoop D rs c' else c')"

section \<open>What the cache holds\<close>

text \<open>A usable message: symbol there, both sides parse and neither price is zero.\<close>

definition usable ::
  "'d::zero decimal_pkg \<Rightarrow> fields \<Rightarrow> (string \<times> 'd best_price) option" where
  "usable D m =
     (let sym0 = strField m ''symbol'' in
      if sym0 = [] then None
      else case (bestPriceFromJSON D (strField m ''bids''),
                 bestPriceFromJSON D (strField m ''asks'')) of
             (Some bid, Some ask) \<Rightarrow>
               if bid = 0 \<or> ask = 0 then None
               else Some (ToUpper sym0, \<lparr>bp_bid = bid, bp_ask = ask\<rparr>)
           | (_, _) \<Rightarrow> None)"

lemma cacheMessage_usable:
  "cacheMessage D msg c =
     (case usable D (snd msg) of
        None \<Rightarrow> c
      | Some (sy, p) \<Rightarrow> c\<lparr>lc_prices := (lc_prices c)(sy \<mapsto> p), lc_ids := (lc_ids c)(sy \<mapsto> fst msg)\<rparr>)"
  by (simp add: cacheMessage_def usable_def Let_def split: option.split)

text \<open>No price in the cache is zero, so \<open>BestPrices\<close> reports zero prices only with False.\<close>

definition priced :: "'d::zero l2_cache \<Rightarrow> bool" where
  "priced c \<longleftrightarrow> (\<forall>s p. lc_prices c s = Some p \<longrightarrow> bp_bid p \<noteq> 0 \<and> bp_ask p \<noteq> 0)"

lemma usable_priced: "usable D m = Some (sy, p) \<Longrightarrow> bp_bid p \<noteq> 0 \<and> bp_ask p \<noteq> 0"
  by (auto simp: usable_def Let_def split: if_splits option.splits)

lemma priced_message: "priced c \<Longrightarrow> priced (cacheMessage D msg c)"
  using usable_priced [of D "snd msg"]
  by (auto simp: cacheMessage_usable priced_def split: option.split)

lemma priced_messages: "priced c \<Longrightarrow> priced (foldl (\<lambda>c m. cacheMessage D m c) c msgs)"
  by (induction msgs arbitrary: c) (simp_all add: priced_message)

lemma priced_loop: "priced c \<Longrightarrow> priced (cacheLoop D rs c)"
proof (induction rs arbitrary: c)
  case Nil
  then show ?case by simp
next
  case (Cons r rs)
  then show ?case
    by (cases "r (buildStreamArgs c)") (simp_all add: readOnce_def priced_messages)
qed

lemma priced_New [simp]: "priced (NewCache ns syms)"
  by (simp add: priced_def NewCache_def)

text \<open>The prices after a batch are those of the symbol's last usable message.\<close>

lemma cacheMessages_last:
  "lc_prices (foldl (\<lambda>c m. cacheMessage D m c) c msgs) s =
     (case filter (\<lambda>x. fst x = s) (List.map_filter (usable D \<circ> snd) msgs) of
        [] \<Rightarrow> lc_prices c s
      | xs \<Rightarrow> Some (snd (last xs)))"
proof (induction msgs arbitrary: c)
  case Nil
  then show ?case by simp
next
  case (Cons m msgs)
  then show ?case
    by (cases "usable D (snd m)")
      (auto simp: cacheMessage_usable map_filter_simps split: list.split)
qed

section \<open>Messages it cannot use\<close>

text \<open>
  A message that is skipped does not advance the read position: the stream arguments of the next
  XREAD are the same, so Redis delivers it again, at once, until a usable message of the
  same symbol comes.
\<close>

lemma unusable_batch_is_read_again:
  assumes "\<forall>m \<in> set msgs. usable D (snd m) = None"
    and "reply (buildStreamArgs c) = CacheMsgs msgs"
  shows "readOnce D reply c = (c, True)"
proof -
  have "foldl (\<lambda>c m. cacheMessage D m c) c msgs = c"
    using assms(1) by (induction msgs) (simp_all add: cacheMessage_usable)
  then show ?thesis using assms(2) by (simp add: readOnce_def)
qed

end
