(* ===== verification/Live.thy ===== *)
theory Live
  imports Session Blotter L2Cache
begin

text \<open>
  The signal handler of the paper trading service and its restart, engine/execution/cmd/erebor-execution/main.go:
  decide on the blotter's position, ask the risk checker, fill at the cached best price,
  record the fill durably, tell the risk checker and publish the order.

  The handler runs in the consumer's single goroutine, so one call is one step of
  \<open>live_state\<close>. \<open>live_env\<close> holds what a call draws from outside: the two UUIDs and the clock of
  \<open>Halt\<close>. \<open>lv_orders\<close> lists the orders handed to the publisher; its errors are only logged.
\<close>

section \<open>State\<close>

record ('s, 'd) live_state =
  lv_blot :: "'d blotter"
  lv_risk :: "('s, 'd) checker"
  lv_db :: "'d paper_db"
  lv_session :: session_manager
  lv_cache :: "'d l2_cache"
  lv_orders :: "'d order_event list"

record live_env =
  le_tradeID :: string
  le_orderID :: string
  le_now :: time

section \<open>The handler\<close>

definition liveOrder ::
  "'d::linordered_idom strategy_config \<Rightarrow> string \<Rightarrow> live_env \<Rightarrow> 'd signal_event \<Rightarrow> side \<Rightarrow> 'd \<Rightarrow> 'd \<Rightarrow>
   'd order_event" where
  "liveOrder cfg sessionID env sg sd fillPrice fee =
     \<lparr>oe_RunID = sessionID, oe_Symbol = sg_Symbol sg, oe_EventTime = sg_EventTime sg,
      oe_OrderID = le_orderID env, oe_Side = sd, oe_Type = OrderTypeMarket, oe_Price = 0,
      oe_Quantity = sc_TradeQty cfg, oe_Status = OrderStatusFilled, oe_FillPrice = fillPrice,
      oe_FillQty = sc_TradeQty cfg, oe_Fee = fee, oe_SignalName = sg_Name sg\<rparr>"

definition liveFill ::
  "'d::linordered_idom decimal_pkg \<Rightarrow> 'd strategy_config \<Rightarrow> live_env \<Rightarrow> string \<Rightarrow> 'd signal_event \<Rightarrow> side \<Rightarrow>
   'd \<Rightarrow> 'd \<Rightarrow> 'd fill_request" where
  "liveFill D cfg env msgID sg sd bid ask =
     (let isBuy = (sd = SideBuy);
          bestPrice = (if isBuy then ask else bid);
          fillPrice = ComputeFillPrice D isBuy bestPrice (sc_SlippageBps cfg);
          fee = ComputeFee D (sc_TradeQty cfg) fillPrice (sc_TakerFeeBps cfg)
      in \<lparr>fr_TradeID = le_tradeID env, fr_Symbol = sg_Symbol sg, fr_Side = sd,
          fr_FillPrice = fillPrice, fr_FillQty = sc_TradeQty cfg, fr_Fee = fee,
          fr_EventTime = sg_EventTime sg, fr_SignalName = sg_Name sg,
          fr_SignalStreamID = msgID\<rparr>)"

definition executeFill ::
  "'d::linordered_idom decimal_pkg \<Rightarrow> 'd strategy_config \<Rightarrow> live_env \<Rightarrow> string \<Rightarrow> 'd signal_event \<Rightarrow> side \<Rightarrow>
   ('s, 'd) live_state \<Rightarrow> ('s, 'd) live_state \<times> string option" where
  "executeFill D cfg env msgID sg sd st =
     (case BestPrices (sg_Symbol sg) (lv_cache st) of
        (bid, ask, ok) \<Rightarrow>
          if \<not> ok then (st, None)
          else let fillReq = liveFill D cfg env msgID sg sd bid ask;
                   fillPrice = fr_FillPrice fillReq; fee = fr_Fee fillReq
               in (case blotRecordFill D PersistFill fillReq (lv_blot st) (lv_db st) of
                     (b, db, Some err) \<Rightarrow> (st\<lparr>lv_blot := b, lv_db := db\<rparr>, Some err)
                   | (b, db, None) \<Rightarrow>
                       (st\<lparr>lv_blot := b, lv_db := db,
                          lv_risk := RecordFill (sg_Symbol sg) sd (sc_TradeQty cfg) fillPrice fee
                            (lv_risk st),
                          lv_orders := lv_orders st @
                            [liveOrder cfg (bl_sessionID (lv_blot st)) env sg sd fillPrice fee]\<rparr>, None)))"

definition buildHandler ::
  "'d::linordered_idom decimal_pkg \<Rightarrow> 'd strategy_config \<Rightarrow> live_env \<Rightarrow> string \<Rightarrow> 'd signal_event \<Rightarrow>
   ('s, 'd) live_state \<Rightarrow> ('s, 'd) live_state \<times> string option" where
  "buildHandler D cfg env msgID sg st =
     (case Decide cfg sg (fst (BlotterPosition (sg_Symbol sg) (lv_blot st))) of
        None \<Rightarrow> (st, None)
      | Some sd \<Rightarrow>
          (case CanTrade D (sg_Symbol sg) sd (sc_TradeQty cfg) (sg_EventTime sg) (lv_risk st) of
             (c, Some riskErr) \<Rightarrow>
               (let st1 = st\<lparr>lv_risk := c\<rparr> in
                (if Halted c
                 then st1\<lparr>lv_db := fst (HaltSession paper_store (lv_session st1) riskErr (le_now env)
                        (lv_db st1))\<rparr>
                 else st1, None))
           | (c, None) \<Rightarrow> executeFill D cfg env msgID sg sd (st\<lparr>lv_risk := c\<rparr>)))"

section \<open>Starting and restarting\<close>

text \<open>
  The wiring of \<open>main\<close>: the risk configuration, the blotter with its initial equity, and, for a
  recovered session, the seeding of both.
\<close>

definition riskConfigOf :: "'d strategy_config \<Rightarrow> 'd risk_config" where
  "riskConfigOf cfg = \<lparr>rc_InitialCapital = sc_InitialCapital cfg,
     rc_MaxPositionQty = sc_MaxPositionQty cfg, rc_MaxDrawdownPct = sc_MaxDrawdownPct cfg,
     rc_RunLossLimitPct = sc_RunLossLimitPct cfg\<rparr>"

definition seedRisk ::
  "'d::linordered_idom position_record list \<Rightarrow> ('s, 'd) checker \<Rightarrow> ('s, 'd) checker" where
  "seedRisk positions c =
     foldl (\<lambda>c p. RecordFill (pp_Symbol p) SideBuy \<bar>pp_NetQty p\<bar> (pp_AvgEntry p) 0 c) c positions"

definition liveNamespace :: string where
  "liveNamespace = ''erebor:live''"

definition startLive ::
  "'d::linordered_idom strategy_config \<Rightarrow> 's halt_store \<Rightarrow> 's \<Rightarrow> string list \<Rightarrow> session_manager \<Rightarrow>
   'd start_result \<Rightarrow> 'd paper_db \<Rightarrow> ('s, 'd) live_state" where
  "startLive cfg haltStore w symbols m result db =
     (let sid = ps_SessionID (sr_Session result);
          riskChecker = NewChecker (riskConfigOf cfg) (Some haltStore) liveNamespace sid w;
          initialEquity = (if sr_Recovered result \<and> sr_Equity result \<noteq> 0 then sr_Equity result
                           else sc_InitialCapital cfg);
          blot = NewBlotter sid initialEquity
      in \<lparr>lv_blot = (if sr_Recovered result then SeedPositions (sr_Positions result) blot else blot),
          lv_risk = (if sr_Recovered result then seedRisk (sr_Positions result) riskChecker else riskChecker),
          lv_db = db, lv_session = m, lv_cache = NewCache liveNamespace symbols, lv_orders = []\<rparr>)"

section \<open>Runs\<close>

text \<open>Between two signals the cache may take in any messages of the book streams.\<close>

datatype 'd live_event =
    LiveSignal live_env string "'d signal_event"
  | LiveBook "string \<times> fields"

fun live_step ::
  "'d::linordered_idom decimal_pkg \<Rightarrow> 'd strategy_config \<Rightarrow>
   'd live_event \<Rightarrow> ('s, 'd) live_state \<Rightarrow> ('s, 'd) live_state" where
  "live_step D cfg (LiveSignal env msgID sg) st = fst (buildHandler D cfg env msgID sg st)"
| "live_step D cfg (LiveBook msg) st =
     st\<lparr>lv_cache := cacheMessage D msg (lv_cache st)\<rparr>"

definition live_run ::
  "'d::linordered_idom decimal_pkg \<Rightarrow> 'd strategy_config \<Rightarrow>
   'd live_event list \<Rightarrow> ('s, 'd) live_state \<Rightarrow> ('s, 'd) live_state" where
  "live_run D cfg evs st = foldl (\<lambda>st e. live_step D cfg e st) st evs"

text \<open>The cost of all open positions.\<close>

definition total_cost :: "'d::linordered_idom blotter \<Rightarrow> 'd" where
  "total_cost b = (\<Sum>s \<in> dom (bl_positions b). entry_cost (pos_of b s))"

lemma total_cost_update:
  assumes "finite (dom (bl_positions b))"
    and "bl_positions b' = (bl_positions b)(s \<mapsto> p)"
  shows "total_cost b' = total_cost b - entry_cost (pos_of b s) + entry_cost p"
proof -
  let ?A = "dom (bl_positions b)"
  have pos: "pos_of b' t = (if t = s then p else pos_of b t)" for t
    using assms(2) by (simp add: pos_of_def)
  have "total_cost b' = (\<Sum>t \<in> insert s ?A. entry_cost (pos_of b' t))"
    using assms(2) by (simp add: total_cost_def)
  also have "\<dots> = entry_cost p + (\<Sum>t \<in> ?A - {s}. entry_cost (pos_of b t))"
    using assms(1) by (simp add: sum.insert_remove pos)
  also have "(\<Sum>t \<in> ?A - {s}. entry_cost (pos_of b t)) = total_cost b - entry_cost (pos_of b s)"
  proof (cases "s \<in> ?A")
    case True
    then show ?thesis using assms(1) by (simp add: total_cost_def sum_diff1)
  next
    case False
    then have "entry_cost (pos_of b s) = 0" by (auto simp: pos_of_def entry_cost_def)
    with False show ?thesis by (simp add: total_cost_def)
  qed
  finally show ?thesis by simp
qed

text \<open>
  The invariant: blotter and risk checker hold the same net quantity of every symbol, one of the
  three of a toggling strategy.
\<close>

definition live_inv :: "'d::linordered_idom strategy_config \<Rightarrow> ('s, 'd) live_state \<Rightarrow> bool" where
  "live_inv cfg st \<longleftrightarrow> (\<forall>s. lookup0 (ck_positions (lv_risk st)) s = net (lv_blot st) s \<and>
     net (lv_blot st) s \<in> {- sc_TradeQty cfg, 0, sc_TradeQty cfg})"

text \<open>The money: the checker's equity is the blotter's less what the open positions cost.\<close>

definition money_inv :: "('s, 'd::linordered_idom) live_state \<Rightarrow> bool" where
  "money_inv st \<longleftrightarrow> finite (dom (bl_positions (lv_blot st))) \<and> pd_errs (lv_db st) = [] \<and>
     ck_equity (lv_risk st) = bl_equity (lv_blot st) - total_cost (lv_blot st)"

lemma Decide_side:
  "Decide cfg sg (fst (BlotterPosition s b)) = Some sd \<Longrightarrow>
   (if sd = SideBuy then net b s \<le> 0 else sd = SideSell \<and> 0 \<le> net b s)"
  by (auto simp: Decide_def BlotterPosition_net Let_def split: if_splits)

lemma toggle_plain:
  assumes "net b (fr_Symbol f) \<in> {- q, 0, q}" and "0 < q" and "fr_FillQty f = q"
    and "if fr_Side f = SideBuy then net b (fr_Symbol f) \<le> 0
      else fr_Side f = SideSell \<and> 0 \<le> net b (fr_Symbol f)"
  shows "plain_fill (pos_of b (fr_Symbol f)) f"
    and "net b (fr_Symbol f) + proposedDelta (fr_Side f) q \<in> {- q, 0, q}"
  using assms by (auto simp: plain_fill_def proposedDelta_def split: if_splits)

lemma liveFill_sels [simp]:
  "fr_Symbol (liveFill D cfg env msgID sg sd bid ask) = sg_Symbol sg"
  "fr_Side (liveFill D cfg env msgID sg sd bid ask) = sd"
  "fr_FillQty (liveFill D cfg env msgID sg sd bid ask) = sc_TradeQty cfg"
  "fr_SignalStreamID (liveFill D cfg env msgID sg sd bid ask) = msgID"
  by (simp_all add: liveFill_def Let_def)

text \<open>All that one call of the handler can do, as a case distinction.\<close>

lemma handler_cases:
  obtains (idle) "buildHandler D cfg env msgID sg st = (st, None)"
  | (blocked) c err db where "ck_positions c = ck_positions (lv_risk st)"
      "ck_equity c = ck_equity (lv_risk st)" "ck_cfg c = ck_cfg (lv_risk st)"
      "buildHandler D cfg env msgID sg st = (st\<lparr>lv_risk := c, lv_db := db\<rparr>, None)"
      "db = lv_db st \<or> Halted c \<and>
         db = fst (HaltSession paper_store (lv_session st) err (le_now env) (lv_db st))"
  | (filled) sd c bid ask f where
      "Decide cfg sg (fst (BlotterPosition (sg_Symbol sg) (lv_blot st))) = Some sd"
      "CanTrade D (sg_Symbol sg) sd (sc_TradeQty cfg) (sg_EventTime sg) (lv_risk st) = (c, None)"
      "BestPrices (sg_Symbol sg) (lv_cache st) = (bid, ask, True)"
      "f = liveFill D cfg env msgID sg sd bid ask"
      "buildHandler D cfg env msgID sg st =
         (case blotRecordFill D PersistFill f (lv_blot st) (lv_db st) of
            (b, db, Some err) \<Rightarrow> (st\<lparr>lv_risk := c, lv_blot := b, lv_db := db\<rparr>, Some err)
          | (b, db, None) \<Rightarrow>
              (st\<lparr>lv_risk := RecordFill (sg_Symbol sg) sd (sc_TradeQty cfg) (fr_FillPrice f) (fr_Fee f) c,
                 lv_blot := b, lv_db := db, lv_orders := lv_orders st @
                   [liveOrder cfg (bl_sessionID (lv_blot st)) env sg sd (fr_FillPrice f) (fr_Fee f)]\<rparr>, None))"
proof -
  obtain bid ask ok where bp: "BestPrices (sg_Symbol sg) (lv_cache st) = (bid, ask, ok)"
    by (metis prod_cases3)
  show thesis
  proof (cases "Decide cfg sg (fst (BlotterPosition (sg_Symbol sg) (lv_blot st)))")
    case None
    then show ?thesis using idle by (simp add: buildHandler_def)
  next
    case (Some sd)
    note decided = this
    obtain c r where ct: "CanTrade D (sg_Symbol sg) sd (sc_TradeQty cfg) (sg_EventTime sg) (lv_risk st) =
        (c, r)" by fastforce
    have sels: "ck_positions c = ck_positions (lv_risk st)" "ck_equity c = ck_equity (lv_risk st)"
      "ck_cfg c = ck_cfg (lv_risk st)"
      using CanTrade_sels [of D "sg_Symbol sg" sd "sc_TradeQty cfg" "sg_EventTime sg" "lv_risk st"] ct
      by simp_all
    consider (err) err where "r = Some err" | (stale) "r = None" "\<not> ok" | (go) "r = None" "ok"
      by (cases r) auto
    then show ?thesis
    proof cases
      case err
      then show ?thesis
        using blocked [OF sels] ct decided
        by (cases "Halted c") (auto simp: buildHandler_def Let_def)
    next
      case stale
      then have "buildHandler D cfg env msgID sg st = (st\<lparr>lv_risk := c, lv_db := lv_db st\<rparr>, None)"
        using ct decided bp by (simp add: buildHandler_def executeFill_def)
      then show ?thesis using blocked [OF sels] by blast
    next
      case go
      then show ?thesis
        using filled [OF decided _ _ refl] ct decided bp
        by (simp add: buildHandler_def executeFill_def Let_def split: prod.splits option.splits)
    qed
  qed
qed


section \<open>The invariants are kept\<close>

lemma fill_net:
  assumes "blotRecordFill D store f b st = (b', st', r)"
  shows "net b' s = (if r = None \<and> s = fr_Symbol f
     then net b s + proposedDelta (fr_Side f) (fr_FillQty f) else net b s)"
  using blotRecordFill_cases [where D = D and store = store and fill = f and b = b and st = st]
proof cases
  case (failed st1 err)
  then have "bl_positions b' = (bl_positions b)(fr_Symbol f \<mapsto>
      undoFill (fst (blotApplyFill D (pos_of b (fr_Symbol f)) f)) f)" "r = Some err"
    using assms by auto
  then show ?thesis by (simp add: pos_of_def undo_net)
next
  case (recorded st1)
  then have "bl_positions b' = (bl_positions b)(fr_Symbol f \<mapsto>
      fst (blotApplyFill D (pos_of b (fr_Symbol f)) f))" "r = None"
    using assms by auto
  then show ?thesis by (simp add: pos_of_def net_fill)
qed

lemma fill_money:
  assumes "blotRecordFill D store f b st = (b', st', None)"
    and "plain_fill (pos_of b (fr_Symbol f)) f" and "finite (dom (bl_positions b))"
  shows "bl_equity b' - total_cost b' = bl_equity b - total_cost b -
      proposedDelta (fr_Side f) (fr_FillQty f) * fr_FillPrice f - fr_Fee f \<and>
    finite (dom (bl_positions b'))"
  using blotRecordFill_cases [where D = D and store = store and fill = f and b = b and st = st]
proof cases
  case (failed st1 err)
  with assms show ?thesis by simp
next
  case (recorded st1)
  let ?p = "pos_of b (fr_Symbol f)"
  have b': "bl_equity b' = bl_equity b + snd (blotApplyFill D ?p f) - fr_Fee f"
    "bl_positions b' = (bl_positions b)(fr_Symbol f \<mapsto> fst (blotApplyFill D ?p f))"
    using recorded(1) assms(1) by auto
  from total_cost_update [OF assms(3) b'(2)] fill_cash [OF assms(2), of D] assms(3) show ?thesis
    by (simp add: b' algebra_simps)
qed

lemma HaltSession_errs:
  "pd_errs db = [] \<Longrightarrow> pd_errs (fst (HaltSession paper_store m reason now db)) = []"
  by (simp add: HaltSession_def paper_store_def UpdateSessionStatus_def answer_def split: option.split)

lemma PersistFill_errs:
  "pd_errs db = [] \<Longrightarrow> snd (PersistFill t p e db) = None \<and> pd_errs (fst (PersistFill t p e db)) = []"
  by (simp add: PersistFill_def answer_def)

lemma fill_errs:
  assumes "blotRecordFill D PersistFill f b db = (b', db', r)" and "pd_errs db = []"
  shows "r = None \<and> pd_errs db' = []"
  using blotRecordFill_cases [where D = D and store = PersistFill and fill = f and b = b and st = db]
proof cases
  case (failed st1 err)
  then show ?thesis using PersistFill_errs [OF assms(2)] by (metis option.distinct(1) snd_conv)
next
  case (recorded st1)
  with assms(1) have "r = None" "db' = st1" by auto
  then show ?thesis using recorded(2) PersistFill_errs [OF assms(2)] by (metis fst_conv)
qed

lemma live_inv_step:
  assumes inv: "live_inv cfg st" and q: "0 < sc_TradeQty cfg"
  shows "live_inv cfg (live_step D cfg e st)"
proof (cases e)
  case (LiveBook msg)
  then show ?thesis using inv by (simp add: live_inv_def)
next
  case (LiveSignal env msgID sg)
  show ?thesis
    using handler_cases [where D = D and cfg = cfg and env = env and msgID = msgID and sg = sg and st = st]
  proof cases
    case idle
    then show ?thesis using inv by (simp add: LiveSignal)
  next
    case (blocked c err db)
    then show ?thesis using inv by (simp add: LiveSignal live_inv_def)
  next
    case (filled sd c bid ask f)
    obtain b db r where fill: "blotRecordFill D PersistFill f (lv_blot st) (lv_db st) = (b, db, r)"
      by (metis prod_cases3)
    have c: "ck_positions c = ck_positions (lv_risk st)"
      using CanTrade_sels(2) [of D "sg_Symbol sg" sd "sc_TradeQty cfg" "sg_EventTime sg" "lv_risk st"]
        filled(2) by simp
    have net: "net b s = (if r = None \<and> s = sg_Symbol sg
        then net (lv_blot st) s + proposedDelta sd (sc_TradeQty cfg) else net (lv_blot st) s)" for s
      using fill_net [OF fill] by (simp add: filled(4))
    have tog: "net (lv_blot st) (sg_Symbol sg) + proposedDelta sd (sc_TradeQty cfg) \<in>
        {- sc_TradeQty cfg, 0, sc_TradeQty cfg}"
      using toggle_plain(2) [of "lv_blot st" f "sc_TradeQty cfg"] inv q Decide_side [OF filled(1)]
      by (simp add: filled(4) live_inv_def)
    show ?thesis
    proof (cases r)
      case None
      then show ?thesis
        using inv net tog c by (auto simp: LiveSignal filled(5) fill live_inv_def)
    next
      case (Some err)
      then show ?thesis
        using inv net c by (simp add: LiveSignal filled(5) fill live_inv_def)
    qed
  qed
qed

lemma money_inv_step:
  assumes inv: "live_inv cfg st" and money: "money_inv st" and q: "0 < sc_TradeQty cfg"
  shows "money_inv (live_step D cfg e st)"
proof (cases e)
  case (LiveBook msg)
  then show ?thesis using money by (simp add: money_inv_def)
next
  case (LiveSignal env msgID sg)
  show ?thesis
    using handler_cases [where D = D and cfg = cfg and env = env and msgID = msgID and sg = sg and st = st]
  proof cases
    case idle
    then show ?thesis using money by (simp add: LiveSignal)
  next
    case (blocked c err db)
    then have "pd_errs db = []" using money HaltSession_errs by (auto simp: money_inv_def)
    with blocked show ?thesis using money by (simp add: LiveSignal money_inv_def)
  next
    case (filled sd c bid ask f)
    obtain b db r where fill: "blotRecordFill D PersistFill f (lv_blot st) (lv_db st) = (b, db, r)"
      by (metis prod_cases3)
    have r: "r = None" and errs: "pd_errs db = []"
      using fill_errs [OF fill] money by (simp_all add: money_inv_def)
    have c: "ck_equity c = ck_equity (lv_risk st)"
      using CanTrade_sels(3) [of D "sg_Symbol sg" sd "sc_TradeQty cfg" "sg_EventTime sg" "lv_risk st"]
        filled(2) by simp
    have plain: "plain_fill (pos_of (lv_blot st) (fr_Symbol f)) f"
      using toggle_plain(1) [of "lv_blot st" f "sc_TradeQty cfg"] inv q Decide_side [OF filled(1)]
      by (simp add: filled(4) live_inv_def)
    from fill_money [OF fill [unfolded r] plain] money
    have "bl_equity b - total_cost b = ck_equity (lv_risk st) -
        proposedDelta sd (sc_TradeQty cfg) * fr_FillPrice f - fr_Fee f"
      and "finite (dom (bl_positions b))"
      by (simp_all add: money_inv_def filled(4))
    with errs c show ?thesis by (simp add: LiveSignal filled(5) fill r money_inv_def)
  qed
qed

lemma live_run_invs:
  assumes "live_inv cfg st" and "0 < sc_TradeQty cfg"
  shows "live_inv cfg (live_run D cfg evs st) \<and>
     (money_inv st \<longrightarrow> money_inv (live_run D cfg evs st))"
  using assms
proof (induction evs arbitrary: st)
  case Nil
  then show ?case by (simp add: live_run_def)
next
  case (Cons e evs)
  from Cons.IH [OF live_inv_step [OF Cons.prems, of D e] Cons.prems(2)]
    money_inv_step [OF Cons.prems(1) _ Cons.prems(2), of D e]
  show ?case by (simp add: live_run_def)
qed


section \<open>Properties\<close>

lemma start_invs:
  assumes "\<not> sr_Recovered result" and "0 < sc_TradeQty cfg"
  shows "live_inv cfg (startLive cfg hs w syms m result db)"
    and "pd_errs db = [] \<Longrightarrow> money_inv (startLive cfg hs w syms m result db)"
  using assms
  by (simp_all add: live_inv_def money_inv_def startLive_def NewBlotter_def NewChecker_def
      riskConfigOf_def pos_of_def total_cost_def Let_def)

text \<open>
  C17 (invariant): from the start of a new paper session (one that is not resumed), whatever signals
  and book messages the service then handles and whichever fills the database refuses, the blotter
  and the risk checker hold the same net quantity of every symbol: minus one lot, nothing or one
  lot. If the database refuses nothing, the checker's equity is the blotter's equity
  less the entry cost of the open positions. A resumed session is not covered, because the checker
  takes recovered shorts as longs (\<open>recovery_mirrors_shorts\<close>); nor is money after a refused fill,
  because a refused close still books its proceeds as profit in the
  blotter (\<open>refused_close_books_proceeds_as_profit\<close>).
\<close>

theorem live_books_agree:
  fixes D :: "'d::linordered_idom decimal_pkg"
  assumes "\<not> sr_Recovered result" and "0 < sc_TradeQty cfg"
  shows "let st = live_run D cfg evs (startLive cfg hs w syms m result db) in
     (\<forall>s. lookup0 (ck_positions (lv_risk st)) s = net (lv_blot st) s \<and>
        net (lv_blot st) s \<in> {- sc_TradeQty cfg, 0, sc_TradeQty cfg}) \<and>
     (pd_errs db = [] \<longrightarrow>
        ck_equity (lv_risk st) = bl_equity (lv_blot st) - total_cost (lv_blot st))"
  using live_run_invs [OF start_invs(1) [OF assms] assms(2), of D evs hs w syms m db]
    start_invs(2) [OF assms, of db hs w syms m]
  by (simp add: Let_def live_inv_def money_inv_def)

definition wit_signal :: "rat \<Rightarrow> rat signal_event" where
  "wit_signal v = \<lparr>sg_RunID = [], sg_Symbol = ''BTCUSDT'', sg_EventTime = 5,
     sg_Name = ''book_imbalance'', sg_Version = ''v1'', sg_Value = v, sg_Params = []\<rparr>"

definition wit_live_env :: live_env where
  "wit_live_env = \<lparr>le_tradeID = ''t'', le_orderID = ''o'', le_now = 6\<rparr>"

definition wit_result :: "rat start_result" where
  "wit_result = \<lparr>sr_Session = \<lparr>ps_SessionID = ''s1'', ps_Status = SessionRunning,
     ps_Symbols = [''BTCUSDT''], ps_StrategyConfig = ''{}'', ps_StartedAt = 1, ps_StoppedAt = None,
     ps_Error = []\<rparr>, sr_Positions = [], sr_Equity = 0, sr_Recovered = False\<rparr>"

section \<open>A halted service\<close>

lemma HaltSession_tables:
  "pd_trades (fst (HaltSession paper_store m reason now db)) = pd_trades db"
  "pd_positions (fst (HaltSession paper_store m reason now db)) = pd_positions db"
  "pd_equity (fst (HaltSession paper_store m reason now db)) = pd_equity db"
  by (auto simp: HaltSession_def paper_store_def UpdateSessionStatus_def split: option.splits prod.splits)

text \<open>What a halted service keeps: its books, the tables of fills, and the orders published.\<close>

definition same_fills :: "('s, 'd) live_state \<Rightarrow> ('s, 'd) live_state \<Rightarrow> bool" where
  "same_fills st st' \<longleftrightarrow> lv_blot st' = lv_blot st \<and> lv_risk st' = lv_risk st \<and>
     lv_orders st' = lv_orders st \<and> pd_trades (lv_db st') = pd_trades (lv_db st) \<and>
     pd_positions (lv_db st') = pd_positions (lv_db st) \<and> pd_equity (lv_db st') = pd_equity (lv_db st)"

lemma halted_step:
  assumes "ck_halted (lv_risk st)"
  shows "same_fills st (live_step D cfg e st)"
proof (cases e)
  case (LiveBook msg)
  then show ?thesis by (simp add: same_fills_def)
next
  case (LiveSignal env msgID sg)
  then show ?thesis using assms
    by (auto simp: buildHandler_def CanTrade_halted Halted_def same_fills_def HaltSession_tables Let_def
        split: option.split)
qed

lemma halted_run:
  "ck_halted (lv_risk st) \<Longrightarrow> same_fills st (live_run D cfg evs st)"
proof (induction evs arbitrary: st)
  case Nil
  then show ?case by (simp add: live_run_def same_fills_def)
next
  case (Cons e evs)
  have step: "same_fills st (live_step D cfg e st)" by (rule halted_step [OF Cons.prems])
  then have "ck_halted (lv_risk (live_step D cfg e st))"
    using Cons.prems by (simp add: same_fills_def)
  from Cons.IH [OF this] step show ?case by (simp add: live_run_def same_fills_def)
qed

text \<open>
  C31 (safety): once the risk checker is halted, the service handles every later signal without a
  fill: the blotter, the checker, the stored trades, positions and equity points and the published
  orders stay as they are; and a signal that asks for a trade marks the session HALTED (when the
  database takes the update).
\<close>

theorem halted_service_is_inert:
  fixes D :: "'d::linordered_idom decimal_pkg"
  assumes halted: "ck_halted (lv_risk st)"
  shows "same_fills st (live_run D cfg evs st) \<and>
     (Decide cfg sg (fst (BlotterPosition (sg_Symbol sg) (lv_blot st))) \<noteq> None \<longrightarrow>
      lv_session st = Some s \<longrightarrow> pd_errs (lv_db st) = [] \<longrightarrow>
      (\<forall>r \<in> set (pd_sessions (lv_db (fst (buildHandler D cfg env msgID sg st)))).
        ps_SessionID r = ps_SessionID s \<longrightarrow> ps_Status r = SessionHalted))"
proof (intro conjI impI)
  show "same_fills st (live_run D cfg evs st)" by (rule halted_run [OF halted])
next
  assume d: "Decide cfg sg (fst (BlotterPosition (sg_Symbol sg) (lv_blot st))) \<noteq> None"
    and s: "lv_session st = Some s" and errs: "pd_errs (lv_db st) = []"
  show "\<forall>r \<in> set (pd_sessions (lv_db (fst (buildHandler D cfg env msgID sg st)))).
      ps_SessionID r = ps_SessionID s \<longrightarrow> ps_Status r = SessionHalted"
    using d s errs halted
    by (auto simp: buildHandler_def CanTrade_halted Halted_def Let_def HaltSession_def paper_store_def
        UpdateSessionStatus_def answer_def)
qed

lemma halted_service_is_inert_witness:
  "same_fills
     (startLive wit_strategy NoopHaltStore () [''BTCUSDT''] None wit_result (wit_paper_db [])
        \<lparr>lv_risk := (NewChecker (riskConfigOf wit_strategy) None [] [] ())\<lparr>ck_halted := True\<rparr>\<rparr>)
     (live_run rat_pkg wit_strategy [LiveSignal wit_live_env ''1-0'' (wit_signal 1)]
        (startLive wit_strategy NoopHaltStore () [''BTCUSDT''] None wit_result (wit_paper_db [])
          \<lparr>lv_risk := (NewChecker (riskConfigOf wit_strategy) None [] [] ())\<lparr>ck_halted := True\<rparr>\<rparr>))"
  by (rule conjunct1 [OF halted_service_is_inert]) simp

section \<open>Redelivery\<close>

text \<open>A checker that has nothing to object to.\<close>

definition unlimited :: "('s, 'd::linordered_idom) checker \<Rightarrow> bool" where
  "unlimited c \<longleftrightarrow> \<not> ck_halted c \<and> ck_haltChecked c \<and> rc_MaxDrawdownPct (ck_cfg c) = 0 \<and>
     rc_RunLossLimitPct (ck_cfg c) = 0 \<and> rc_MaxPositionQty (ck_cfg c) = Map.empty"

lemma unlimited_CanTrade: "unlimited c \<Longrightarrow> CanTrade D s sd q t c = (c, None)"
  by (simp add: unlimited_def CanTrade_def probePersistedHalt_def checkPosition_def Let_def
      split: option.split)

lemma unlimited_RecordFill: "unlimited c \<Longrightarrow> unlimited (RecordFill s sd q p f c)"
  by (simp add: unlimited_def) (simp add: RecordFill_def Let_def)

lemma fill_trade:
  assumes "blotRecordFill D PersistFill f b db = (b', db', None)"
  shows "bl_sessionID b' = bl_sessionID b \<and>
     (\<exists>t. pt_SessionID t = bl_sessionID b \<and> pt_SignalStreamID t = fr_SignalStreamID f \<and>
        pd_trades db' = insertTrade t (pd_trades db))"
  using blotRecordFill_cases [where D = D and store = PersistFill and fill = f and b = b and st = db]
proof cases
  case (failed st1 err)
  with assms show ?thesis by simp
next
  case (recorded st1)
  let ?t = "tradeRec b f (snd (blotApplyFill D (pos_of b (fr_Symbol f)) f))"
  have "pd_trades st1 = insertTrade ?t (pd_trades db)"
    using recorded(2) by (auto simp: PersistFill_def split: prod.splits option.splits)
  moreover have "bl_sessionID b' = bl_sessionID b" "db' = st1" using recorded(1) assms by auto
  moreover have "pt_SessionID ?t = bl_sessionID b" "pt_SignalStreamID ?t = fr_SignalStreamID f"
    by (simp_all add: tradeRec_def)
  ultimately show ?thesis by blast
qed

text \<open>A signal that is traded: what the handler leaves behind.\<close>

lemma handler_trades:
  assumes dec: "Decide cfg sg (fst (BlotterPosition (sg_Symbol sg) (lv_blot st))) = Some sd"
    and can: "CanTrade D (sg_Symbol sg) sd (sc_TradeQty cfg) (sg_EventTime sg) (lv_risk st) = (c, None)"
    and best: "BestPrices (sg_Symbol sg) (lv_cache st) = (bid, ask, True)"
    and errs: "pd_errs (lv_db st) = []"
  shows "\<exists>st' b db p f. buildHandler D cfg env msgID sg st = (st', None) \<and>
     blotRecordFill D PersistFill (liveFill D cfg env msgID sg sd bid ask) (lv_blot st) (lv_db st) = (b, db, None) \<and>
     lv_blot st' = b \<and> lv_db st' = db \<and>
     lv_risk st' = RecordFill (sg_Symbol sg) sd (sc_TradeQty cfg) p f c \<and> lv_cache st' = lv_cache st \<and>
     net (lv_blot st') (sg_Symbol sg) = net (lv_blot st) (sg_Symbol sg) + proposedDelta sd (sc_TradeQty cfg) \<and>
     pd_errs (lv_db st') = []"
proof -
  let ?f = "liveFill D cfg env msgID sg sd bid ask"
  obtain b db r where fill: "blotRecordFill D PersistFill ?f (lv_blot st) (lv_db st) = (b, db, r)"
    by (metis prod_cases3)
  have r: "r = None" and errs': "pd_errs db = []" using fill_errs [OF fill errs] by simp_all
  have "buildHandler D cfg env msgID sg st =
      (st\<lparr>lv_risk := RecordFill (sg_Symbol sg) sd (sc_TradeQty cfg) (fr_FillPrice ?f) (fr_Fee ?f) c,
          lv_blot := b, lv_db := db, lv_orders := lv_orders st @
            [liveOrder cfg (bl_sessionID (lv_blot st)) env sg sd (fr_FillPrice ?f) (fr_Fee ?f)]\<rparr>, None)"
    by (simp add: buildHandler_def executeFill_def dec can best fill r Let_def)
  then show ?thesis using fill errs' fill_net [OF fill, of "sg_Symbol sg"] by (auto simp: r)
qed

lemma handler_fills:
  assumes dec: "Decide cfg sg (fst (BlotterPosition (sg_Symbol sg) (lv_blot st))) = Some sd"
    and risk: "unlimited (lv_risk st)" and best: "BestPrices (sg_Symbol sg) (lv_cache st) = (bid, ask, True)"
    and errs: "pd_errs (lv_db st) = []"
  shows "\<exists>st'. buildHandler D cfg env msgID sg st = (st', None) \<and>
     net (lv_blot st') (sg_Symbol sg) = net (lv_blot st) (sg_Symbol sg) + proposedDelta sd (sc_TradeQty cfg) \<and>
     unlimited (lv_risk st') \<and> lv_cache st' = lv_cache st \<and> pd_errs (lv_db st') = [] \<and>
     bl_sessionID (lv_blot st') = bl_sessionID (lv_blot st) \<and>
     (\<exists>t. pt_SessionID t = bl_sessionID (lv_blot st) \<and> pt_SignalStreamID t = msgID \<and>
        pd_trades (lv_db st') = insertTrade t (pd_trades (lv_db st)))"
proof -
  obtain st' p f where st': "buildHandler D cfg env msgID sg st = (st', None)"
    "blotRecordFill D PersistFill (liveFill D cfg env msgID sg sd bid ask) (lv_blot st) (lv_db st) =
       (lv_blot st', lv_db st', None)"
    "lv_risk st' = RecordFill (sg_Symbol sg) sd (sc_TradeQty cfg) p f (lv_risk st)" "lv_cache st' = lv_cache st"
    "net (lv_blot st') (sg_Symbol sg) = net (lv_blot st) (sg_Symbol sg) + proposedDelta sd (sc_TradeQty cfg)"
    "pd_errs (lv_db st') = []"
    using handler_trades [OF dec unlimited_CanTrade [OF risk] best errs] by blast
  have "bl_sessionID (lv_blot st') = bl_sessionID (lv_blot st) \<and>
     (\<exists>t. pt_SessionID t = bl_sessionID (lv_blot st) \<and> pt_SignalStreamID t = msgID \<and>
        pd_trades (lv_db st') = insertTrade t (pd_trades (lv_db st)))"
    using fill_trade [OF st'(2)] by simp
  with st' unlimited_RecordFill [OF risk] show ?thesis by auto
qed

text \<open>A book message and a signal: the service is one lot long, with 101 paid for it.\<close>

definition wit_quoted :: "rat live_event list" where
  "wit_quoted = [LiveBook (''1-0'', l2Values rat_pkg [] ''BTCUSDT'' 3 1 [\<lparr>pl_Price = 99, pl_Quantity = 3\<rparr>]
     [\<lparr>pl_Price = 101, pl_Quantity = 1\<rparr>]), LiveSignal wit_live_env ''2-0'' (wit_signal 1)]"

definition wit_new_session :: "(unit, rat) live_state" where
  "wit_new_session = startLive wit_strategy NoopHaltStore () [''BTCUSDT''] None wit_result (wit_paper_db [])"

lemma wit_new_session_flat:
  "net (lv_blot wit_new_session) ''BTCUSDT'' = 0 \<and> pd_errs (lv_db wit_new_session) = [] \<and>
   snd (CanTrade rat_pkg ''BTCUSDT'' SideBuy 1 5 (lv_risk wit_new_session)) = None"
  by (simp add: wit_new_session_def startLive_def wit_result_def wit_paper_db_def NewBlotter_def pos_of_def Let_def
      CanTrade_def riskConfigOf_def NewChecker_def Halted_def wit_strategy_def probePersistedHalt_def
      NoopHaltStore_def checkPosition_def split: prod.split option.split)

lemma wit_quoted_book:
  "\<exists>c. live_step rat_pkg wit_strategy (hd wit_quoted) wit_new_session = wit_new_session\<lparr>lv_cache := c\<rparr> \<and>
     BestPrices ''BTCUSDT'' c = (99, 101, True)"
proof -
  have up: "ToUpper ''BTCUSDT'' = ''BTCUSDT''" by code_simp
  then have "usable rat_pkg (l2Values rat_pkg [] ''BTCUSDT'' 3 1 [\<lparr>pl_Price = 99, pl_Quantity = 3\<rparr>]
     [\<lparr>pl_Price = 101, pl_Quantity = 1\<rparr>]) = Some (''BTCUSDT'', \<lparr>bp_bid = 99, bp_ask = 101\<rparr>)"
    using rat_pkg_strings by (simp add: usable_def bestPriceFromJSON_def unmarshalPairs_levels decimal_strings_def Let_def)
  then show ?thesis
    by (intro exI [of _ "lv_cache (live_step rat_pkg wit_strategy (hd wit_quoted) wit_new_session)"])
      (simp add: wit_quoted_def cacheMessage_usable BestPrices_def up)
qed

lemma wit_quoted_run: "net (lv_blot (live_run rat_pkg wit_strategy wit_quoted wit_new_session)) ''BTCUSDT'' = 1"
proof -
  obtain ca where book: "live_step rat_pkg wit_strategy (hd wit_quoted) wit_new_session = wit_new_session\<lparr>lv_cache := ca\<rparr>"
    and best: "BestPrices ''BTCUSDT'' ca = (99, 101, True)"
    using wit_quoted_book by blast
  let ?st = "wit_new_session\<lparr>lv_cache := ca\<rparr>"
  have flat: "net (lv_blot ?st) ''BTCUSDT'' = 0" "pd_errs (lv_db ?st) = []"
    "snd (CanTrade rat_pkg ''BTCUSDT'' SideBuy 1 5 (lv_risk ?st)) = None"
    using wit_new_session_flat by simp_all
  then obtain c where can: "CanTrade rat_pkg (sg_Symbol (wit_signal 1)) SideBuy (sc_TradeQty wit_strategy)
      (sg_EventTime (wit_signal 1)) (lv_risk ?st) = (c, None)"
    by (cases "CanTrade rat_pkg ''BTCUSDT'' SideBuy 1 5 (lv_risk ?st)") (simp add: wit_signal_def wit_strategy_def)
  have dec: "Decide wit_strategy (wit_signal 1) (fst (BlotterPosition (sg_Symbol (wit_signal 1)) (lv_blot ?st))) = Some SideBuy"
    using flat(1) by (simp add: Decide_def BlotterPosition_net wit_signal_def wit_strategy_def)
  obtain st' where st': "buildHandler rat_pkg wit_strategy wit_live_env ''2-0'' (wit_signal 1) ?st = (st', None)"
    "net (lv_blot st') ''BTCUSDT'' = 1"
    using handler_trades [OF dec can _ flat(2), of 99 101 wit_live_env "''2-0''"] best flat(1)
    by (fastforce simp: wit_signal_def wit_strategy_def proposedDelta_def)
  have "live_run rat_pkg wit_strategy wit_quoted wit_new_session =
      live_step rat_pkg wit_strategy (LiveSignal wit_live_env ''2-0'' (wit_signal 1))
        (live_step rat_pkg wit_strategy (hd wit_quoted) wit_new_session)"
    by (simp add: live_run_def wit_quoted_def)
  with st' book show ?thesis by simp
qed

lemma live_books_agree_witness:
  "let st = live_run rat_pkg wit_strategy wit_quoted wit_new_session
   in net (lv_blot st) ''BTCUSDT'' = 1 \<and> lookup0 (ck_positions (lv_risk st)) ''BTCUSDT'' = 1 \<and>
      ck_equity (lv_risk st) = bl_equity (lv_blot st) - total_cost (lv_blot st)"
  using live_books_agree [of wit_result wit_strategy rat_pkg wit_quoted NoopHaltStore "()" "[''BTCUSDT'']" None
      "wit_paper_db []"] wit_quoted_run
  by (simp add: Let_def wit_result_def wit_strategy_def wit_paper_db_def wit_new_session_def)

text \<open>
  A buy signal that closed a short position and is delivered again (its acknowledgement was lost,
  or the process died before it) finds a flat position and opens a long one: the trade table
  keeps one row for the stream id, but the position has moved by two lots.
\<close>

lemma redelivered_close_reopens:
  fixes D :: "'d::linordered_idom decimal_pkg"
  assumes short: "net (lv_blot st) (sg_Symbol sg) = - sc_TradeQty cfg" and q: "0 < sc_TradeQty cfg"
    and sg: "sg_Name sg = ''book_imbalance''" "sc_BuyThreshold cfg < sg_Value sg"
    and risk: "unlimited (lv_risk st)" and best: "BestPrices (sg_Symbol sg) (lv_cache st) = (bid, ask, True)"
    and errs: "pd_errs (lv_db st) = []"
  shows "let st1 = fst (buildHandler D cfg env msgID sg st);
       st2 = fst (buildHandler D cfg env' msgID sg st1) in
     net (lv_blot st1) (sg_Symbol sg) = 0 \<and> net (lv_blot st2) (sg_Symbol sg) = sc_TradeQty cfg \<and>
     pd_trades (lv_db st2) = pd_trades (lv_db st1)"
proof -
  have dec: "Decide cfg sg (fst (BlotterPosition (sg_Symbol sg) (lv_blot st))) = Some SideBuy"
    using short q sg by (simp add: Decide_def BlotterPosition_net)
  obtain st1 t where one: "buildHandler D cfg env msgID sg st = (st1, None)"
    "net (lv_blot st1) (sg_Symbol sg) = 0" "unlimited (lv_risk st1)" "lv_cache st1 = lv_cache st"
    "pd_errs (lv_db st1) = []" "bl_sessionID (lv_blot st1) = bl_sessionID (lv_blot st)"
    "pt_SessionID t = bl_sessionID (lv_blot st)" "pt_SignalStreamID t = msgID"
    "pd_trades (lv_db st1) = insertTrade t (pd_trades (lv_db st))"
    using handler_fills [OF dec risk best errs, of D env msgID] short by (auto simp: proposedDelta_def)
  have dec1: "Decide cfg sg (fst (BlotterPosition (sg_Symbol sg) (lv_blot st1))) = Some SideBuy"
    using sg by (simp add: Decide_def BlotterPosition_net one(2))
  obtain st2 t' where two: "buildHandler D cfg env' msgID sg st1 = (st2, None)"
    "net (lv_blot st2) (sg_Symbol sg) = sc_TradeQty cfg"
    "pt_SessionID t' = bl_sessionID (lv_blot st1)" "pt_SignalStreamID t' = msgID"
    "pd_trades (lv_db st2) = insertTrade t' (pd_trades (lv_db st1))"
    using handler_fills [OF dec1 one(3) _ one(5), of bid ask D env' msgID] one(2,4) best
    by (auto simp: proposedDelta_def)
  have "pd_trades (lv_db st2) = pd_trades (lv_db st1)"
    using two(3-5) one(6-9) by (auto simp: insertTrade_def insertNew_def)
  then show ?thesis using one two by simp
qed

section \<open>Recovery\<close>

text \<open>
  The checker of a resumed session is seeded with a buy of the absolute quantity: long and flat
  positions come back as they were, a short one comes back as a long one of the same size.
\<close>

lemma seedRisk_other:
  "s \<notin> pp_Symbol ` set ps \<Longrightarrow>
   lookup0 (ck_positions (seedRisk ps c)) s = lookup0 (ck_positions c) s"
  by (induction ps arbitrary: c) (simp_all add: seedRisk_def)

lemma seedRisk_positions:
  assumes "distinct (map pp_Symbol ps)" and "p \<in> set ps"
    and "lookup0 (ck_positions c) (pp_Symbol p) = 0"
  shows "lookup0 (ck_positions (seedRisk ps c)) (pp_Symbol p) = \<bar>pp_NetQty p\<bar>"
  using assms
proof (induction ps arbitrary: c)
  case Nil
  then show ?case by simp
next
  case (Cons r ps)
  have step: "seedRisk (r # ps) c =
      seedRisk ps (RecordFill (pp_Symbol r) SideBuy \<bar>pp_NetQty r\<bar> (pp_AvgEntry r) 0 c)"
    by (simp add: seedRisk_def)
  show ?case
  proof (cases "p = r")
    case True
    with Cons.prems show ?thesis by (simp add: step proposedDelta_def seedRisk_other)
  next
    case False
    with Cons.prems have p: "p \<in> set ps" by simp
    then have "pp_Symbol p \<in> pp_Symbol ` set ps" by (rule imageI)
    with Cons.prems have "pp_Symbol p \<noteq> pp_Symbol r" by auto
    with p Cons show ?thesis by (simp add: step)
  qed
qed

lemma recovery_mirrors_shorts:
  assumes "sr_Recovered result" and "sr_Positions result = [p]" and "pp_NetQty p < 0"
  shows "let st = startLive cfg hs w syms m result db in
     net (lv_blot st) (pp_Symbol p) = pp_NetQty p \<and>
     lookup0 (ck_positions (lv_risk st)) (pp_Symbol p) = - pp_NetQty p"
  using assms
  by (simp add: startLive_def Let_def NewChecker_def SeedPositions_def NewBlotter_def pos_of_def
      seedRisk_def proposedDelta_def)

end
