(* ===== verification/Message_Flow.thy ===== *)
theory Message_Flow
  imports Collector Consumer Live
begin

text \<open>
  The services joined by their streams. What one publishes the next one reads; an entry none of
  them can read changes nothing; the loops over the streams end; the collector's accounts are the
  backtest executor's; and the paper trading service, fed by the signal service, does what the
  backtest executor does on the same book updates.
\<close>

section \<open>The fields survive the stream\<close>

lemma usable_l2Values:
  assumes "decimal_strings D" "decimal_text D" "s \<noteq> []"
  shows "usable D (l2Values D r s t i bs as) =
    (case (bs, as) of
       (b # _, a # _) \<Rightarrow> if pl_Price b = 0 \<or> pl_Price a = 0 then None
         else Some (ToUpper s, \<lparr>bp_bid = pl_Price b, bp_ask = pl_Price a\<rparr>)
     | _ \<Rightarrow> None)"
  using assms
  by (auto simp: usable_def bestPriceFromJSON_def unmarshalPairs_levels decimal_strings_def Let_def
      split: list.split)

text \<open>
  C23 (roundtrip): a book update is read as it was published, by every reader. Both publishers add
  it, with the same fields, to the stream the signal consumer and the price cache tail; the signal
  consumer and the backtest executor decode from it the run, time and id and every level of
  both sides exactly, and the price cache the two best prices when neither side is empty
  and neither price is zero.
\<close>

theorem l2_messages_are_read:
  fixes D :: "'d::linordered_idom decimal_pkg"
  assumes "decimal_strings D" "decimal_text D" "time_ok t" "s \<noteq> []"
    and "args = BacktestPublishL2 D ns r s t i bs as \<or>
      args = PublishL2 D \<lparr>lp_namespace = ns, lp_maxLen = n\<rparr> r s t i bs as"
  shows "xa_Stream args = inputKey ns s \<and>
    streamKey (NewCache ns syms :: 'd l2_cache) s = xa_Stream args \<and>
    decodeL2BookUpdateEvent D (xa_Values args) =
      Some \<lparr>l2_RunID = r, l2_Symbol = ToUpper s, l2_EventTime = t, l2_LastUpdateID = i,
            l2_Bids = bs, l2_Asks = as\<rparr> \<and>
    decodeL2Event D (xa_Values args) =
      Some \<lparr>el_runID = r, el_EventTime = t, el_bids = bs, el_asks = as\<rparr> \<and>
    usable D (xa_Values args) =
      (case (bs, as) of
         (b # _, a # _) \<Rightarrow> if pl_Price b = 0 \<or> pl_Price a = 0 then None
           else Some (ToUpper s, \<lparr>bp_bid = pl_Price b, bp_ask = pl_Price a\<rparr>)
       | _ \<Rightarrow> None)"
proof -
  have "xa_Stream args = inputKey ns s" "xa_Values args = l2Values D r s t i bs as"
    using assms(5) by (auto simp: BacktestPublishL2_def PublishL2_def xadd_def inputKey_def Let_def)
  then show ?thesis
    using decode_l2Values [OF assms(1-4), of r i bs as] decode_l2Values_exec [OF assms(1-3), of r s i bs as]
      usable_l2Values [OF assms(1,2,4), of r t i bs as]
    by (simp add: streamKey_def inputKey_def NewCache_def)
qed

lemma l2_messages_are_read_witness:
  "decodeL2Event rat_pkg (xa_Values (BacktestPublishL2 rat_pkg ''bt'' ''r'' ''btcusdt'' 5 7
      [\<lparr>pl_Price = 99, pl_Quantity = 1\<rparr>] [])) =
   Some \<lparr>el_runID = ''r'', el_EventTime = 5, el_bids = [\<lparr>pl_Price = 99, pl_Quantity = 1\<rparr>], el_asks = []\<rparr>"
  using l2_messages_are_read [of rat_pkg 5 "''btcusdt''"
      "BacktestPublishL2 rat_pkg ''bt'' ''r'' ''btcusdt'' 5 7 [\<lparr>pl_Price = 99, pl_Quantity = 1\<rparr>] []"
      "''bt''" "''r''" 7 "[\<lparr>pl_Price = 99, pl_Quantity = 1\<rparr>]" "[]" 0 "[]"]
  by (simp add: time_ok_def)

text \<open>
  Orders and signals are read as they were published. Both order publishers add the
  same fields to the same stream and the collector decodes the order from them; the paper
  trading consumer decodes the signal the signal service published, its parameters in the order
  of their names.
\<close>

lemma events_are_read:
  fixes D :: "'d::linordered_idom decimal_pkg"
  assumes "decimal_strings D" "decimal_text D" "order_ok order" "signal_ok sg"
  shows "publishOrder D (ns @ '':orders'') order = PublishOrderEvent D ns order \<and>
    decodeOrderEvent D (xa_Values (PublishOrderEvent D ns order)) = Some order \<and>
    decodeSignalEvent D (xa_Values (PublishSignalEvent D ns sg)) =
      Some (sg\<lparr>sg_Params := sort_key fst (sg_Params sg)\<rparr>)"
  using decode_order [OF assms(1-3)] decode_signal [OF assms(1,2,4), of ns]
  by (simp add: publishOrder_def PublishOrderEvent_def xadd_def)

definition wit_order :: "rat order_event" where
  "wit_order = \<lparr>oe_RunID = ''r'', oe_Symbol = ''A'', oe_EventTime = 3, oe_OrderID = ''o'',
     oe_Side = SideBuy, oe_Type = OrderTypeMarket, oe_Price = 0, oe_Quantity = 2,
     oe_Status = OrderStatusFilled, oe_FillPrice = 50, oe_FillQty = 2, oe_Fee = 1, oe_SignalName = ''s''\<rparr>"

lemma events_are_read_witness:
  "decodeOrderEvent rat_pkg (xa_Values (PublishOrderEvent rat_pkg ''bt'' wit_order)) = Some wit_order"
proof -
  have "order_ok wit_order" "signal_ok (wit_signal 1)"
    by (simp_all add: order_ok_def wit_order_def signal_ok_def wit_signal_def time_ok_def
        order_type_of_string_def order_status_of_string_def)
  from events_are_read [OF rat_pkg_strings rat_pkg_text this, of "''bt''"] show ?thesis by simp
qed

section \<open>Entries nobody can read\<close>

definition bad_time :: "fields \<Rightarrow> bool" where
  "bad_time vals \<longleftrightarrow> ParseRFC3339Nano (strField vals ''event_time'') = None \<and>
     ParseLiteralZ (strField vals ''event_time'') = None"

definition bad_levels :: "fields \<Rightarrow> string \<Rightarrow> bool" where
  "bad_levels vals k \<longleftrightarrow> strField vals k \<noteq> [] \<and> unmarshalPairs (strField vals k) = None"

definition bad_decimal :: "'d decimal_pkg \<Rightarrow> fields \<Rightarrow> string \<Rightarrow> bool" where
  "bad_decimal D vals k \<longleftrightarrow> strField vals k \<noteq> [] \<and> DFromString D (strField vals k) = None"

lemma bad_levels_decode: "bad_levels vals k \<Longrightarrow> decodePriceLevels D (strField vals k) = None"
  by (simp add: bad_levels_def decodePriceLevels_def)

lemma bad_l2:
  assumes "bad_time vals \<or> bad_levels vals ''bids'' \<or> bad_levels vals ''asks''"
  shows "decodeL2BookUpdateEvent D vals = None" "decodeL2Event D vals = None"
  using assms
  by (auto simp: decodeL2BookUpdateEvent_def decodeL2Event_def execDecodePriceLevels_eq bad_time_def
      bad_levels_decode bind_eq_None_conv split: option.splits)

lemma bad_order:
  assumes "bad_time vals \<or> (\<exists>k \<in> {''price'', ''quantity'', ''fill_price'', ''fill_qty'', ''fee''}. bad_decimal D vals k)"
  shows "decodeOrderEvent D vals = None"
  using assms by (auto simp: decodeOrderEvent_def bad_time_def bad_decimal_def decimalVal_def
      bind_eq_None_conv Let_def)

text \<open>What each reader can read.\<close>

definition readable_l2 :: "fields \<Rightarrow> bool" where
  "readable_l2 vals \<longleftrightarrow> \<not> (bad_time vals \<or> bad_levels vals ''bids'' \<or> bad_levels vals ''asks'')"

definition readable_sides :: "fields \<Rightarrow> bool" where
  "readable_sides vals \<longleftrightarrow> \<not> (bad_levels vals ''bids'' \<or> bad_levels vals ''asks'')"

definition readable_order :: "'d decimal_pkg \<Rightarrow> fields \<Rightarrow> bool" where
  "readable_order D vals \<longleftrightarrow> \<not> (bad_time vals \<or>
     (\<exists>k \<in> {''price'', ''quantity'', ''fill_price'', ''fill_qty'', ''fee''}. bad_decimal D vals k))"

definition readable_signal :: "'d decimal_pkg \<Rightarrow> fields \<Rightarrow> bool" where
  "readable_signal D vals \<longleftrightarrow> \<not> (bad_time vals \<or> bad_decimal D vals ''value'')"

lemma unreadable:
  "\<not> readable_l2 vals \<Longrightarrow> decodeL2BookUpdateEvent D vals = None"
  "\<not> readable_l2 vals \<Longrightarrow> decodeL2Event D vals = None"
  "\<not> readable_order Do vals \<Longrightarrow> decodeOrderEvent Do vals = None"
  "\<not> readable_signal Ds vals \<Longrightarrow> decodeSignalEvent Ds vals = None"
  "\<not> readable_sides vals \<Longrightarrow> usable D' vals = None"
proof -
  show "decodeL2BookUpdateEvent D vals = None" "decodeL2Event D vals = None" if "\<not> readable_l2 vals"
    using bad_l2 that by (auto simp: readable_l2_def)
  show "decodeOrderEvent Do vals = None" if "\<not> readable_order Do vals"
    by (rule bad_order) (use that in \<open>simp add: readable_order_def\<close>)
  show "decodeSignalEvent Ds vals = None" if "\<not> readable_signal Ds vals"
    using that by (auto simp: readable_signal_def decodeSignalEvent_def bad_time_def bad_decimal_def
        bind_eq_None_conv split: option.split)
  show "usable D' vals = None" if "\<not> readable_sides vals"
    using that by (auto simp: readable_sides_def usable_def bad_levels_def bestPriceFromJSON_def Let_def split: option.split)
qed

lemma fold_filter:
  assumes "\<And>x st. Q st \<Longrightarrow> \<not> P x \<Longrightarrow> f x st = st" and "\<And>x st. Q st \<Longrightarrow> Q (f x st)"
  shows "Q st \<Longrightarrow> fold f (filter P xs) st = fold f xs st"
  by (induction xs arbitrary: st) (simp_all add: assms)

lemma handleL2_skips:
  assumes "xs_pending st s = None"
  shows "\<not> readable_l2 (snd m) \<Longrightarrow> handleL2 D cfg newOrderID s m st = st"
    and "xs_pending (handleL2 D cfg newOrderID s m st) s = None"
  using assms
  by (simp_all add: handleL2_branches unreadable l2_outcome_def Let_def split: option.split prod.split)

lemma countOrder_skips: "\<not> readable_order D (snd m) \<Longrightarrow> countOrder D m od = od"
  by (intro countOrder_none) (simp add: filled_def map_filter_simps unreadable)

lemma cacheMessages_skip:
  "foldl (\<lambda>c m. cacheMessage D m c) c (filter (readable_sides \<circ> snd) msgs) = foldl (\<lambda>c m. cacheMessage D m c) c msgs"
  by (induction msgs arbitrary: c) (simp_all add: cacheMessage_usable unreadable)

text \<open>The replies of the cache's XREAD without the entries it cannot read.\<close>

definition readableReply :: "cache_reply \<Rightarrow> cache_reply" where
  "readableReply r = (case r of CacheMsgs msgs \<Rightarrow> CacheMsgs (filter (readable_sides \<circ> snd) msgs) | _ \<Rightarrow> r)"

lemma cacheLoop_skips: "cacheLoop D (map (\<lambda>r args. readableReply (r args)) rs) c = cacheLoop D rs c"
proof (induction rs arbitrary: c)
  case Nil
  then show ?case by simp
next
  case (Cons r rs)
  have "readOnce D (\<lambda>args. readableReply (r args)) c = readOnce D r c"
    by (cases "r (buildStreamArgs c)") (simp_all add: readOnce_def readableReply_def cacheMessages_skip)
  with Cons.IH show ?case by (simp split: prod.split)
qed

lemma published_delivered:
  "published (concat (map (\<lambda>(k, i, m). handleSignalMessage D depth k (i, m)) ms)) =
     concat (map (\<lambda>(k, i, m). published (handleSignalMessage D depth k (i, m))) (filter (\<lambda>(k, i, m). readable_l2 m) ms))"
  by (induction ms) (auto simp: handleSignalMessage_def unreadable)

lemma consumerMessage_state:
  assumes "cn_state c = cn_state c'"
  shows "cn_state (consumerMessage G D handler m c) = cn_state (consumerMessage G D handler m c')"
  using assms by (auto simp: consumerMessage_def consumerAck_def split: option.split prod.split)

lemma consumerMessage_log: "x \<in> set (cn_log c) \<Longrightarrow> x \<in> set (cn_log (consumerMessage G D handler m c))"
  by (auto simp: consumerMessage_def consumerAck_def split: option.split prod.split)

lemma consumerMessages_skip:
  assumes "cn_state c = cn_state c'"
  shows "cn_state (consumerMessages G D handler msgs c) =
      cn_state (consumerMessages G D handler (filter (readable_signal D \<circ> snd) msgs) c')"
    and "x \<in> set (cn_log c) \<or> (\<exists>m \<in> set msgs. \<not> readable_signal D (snd m) \<and> x = (fst m, True)) \<Longrightarrow>
      x \<in> set (cn_log (consumerMessages G D handler msgs c))"
  using assms
proof (induction msgs arbitrary: c c')
  case Nil
  {
    case 1
    then show ?case by (simp add: consumerMessages_def)
  next
    case 2
    then show ?case by (simp add: consumerMessages_def)
  }
next
  case (Cons m msgs)
  have skip: "consumerMessage G D handler m c = consumerAck G (fst m) c" if "\<not> readable_signal D (snd m)" for c
    using that by (simp add: consumerMessage_def unreadable)
  {
    case (1 c c')
    show ?case
    proof (cases "readable_signal D (snd m)")
      case True
      from Cons.IH(1) [OF consumerMessage_state [OF 1(1), of G D handler m]] True show ?thesis
        by (simp add: consumerMessages_def)
    next
      case False
      have "cn_state (consumerMessage G D handler m c) = cn_state c'"
        using 1(1) by (simp add: skip [OF False] consumerAck_def)
      from Cons.IH(1) [OF this] False show ?thesis by (simp add: consumerMessages_def)
    qed
  next
    case (2 c c')
    let ?c = "consumerMessage G D handler m c"
    have "x \<in> set (cn_log ?c) \<or> (\<exists>m \<in> set msgs. \<not> readable_signal D (snd m) \<and> x = (fst m, True))"
      using 2(1) consumerMessage_log [of x c G D handler m] skip [of c] by (auto simp: consumerAck_def)
    from Cons.IH(2) [OF this refl] show ?case by (simp add: consumerMessages_def)
  }
qed

text \<open>
  C22 (error): entries that cannot be read change nothing, and the loops over the streams do with them what they
  would do without them. The backtest executor handles exactly the entries of the stream whose
  time and sides can be read, the collector exactly those whose time and numbers can be read, both up to the end
  of the stream; the signal service publishes the signals of the readable updates alone and
  acknowledges every entry; in any batch the paper trading consumer calls its handler for the readable
  signals alone and acknowledges each of the others; the price cache does the same with a reply as with its
  readable entries. The cache alone does not get past such entries: it does not advance its
  read position over them, so that a reply with nothing else leaves it asking for
  the same again (cache.go:149).
\<close>

theorem malformed_entries_are_harmless:
  fixes D :: "'d::linordered_idom decimal_pkg"
  assumes es: "stream_log es" and reads: "\<forall>r \<in> set reads. xread_serves es r"
    and drains: "\<forall>r \<in> set drains. xrange_serves es 20 r" "length es < length drains"
    and odrains: "\<forall>r \<in> set odrains. xrange_serves es 100 r" "length es < length odrains"
    and idle: "xs_pending xs s = None" and rounds: "GroupError True \<notin> set rounds"
  shows "symbolLoop D cfg newOrderID s reads drains xs =
      fold (handleL2 D cfg newOrderID s) (filter (readable_l2 \<circ> snd) es) xs \<and>
    ordersLoop D capital reads odrains =
      fold (countOrder D) (filter (readable_order D \<circ> snd) es) (orders_start capital) \<and>
    published (signalReadLoop D depth rounds) = concat (map (\<lambda>(k, i, m).
        published (handleSignalMessage D depth k (i, m))) (filter (\<lambda>(k, i, m). readable_l2 m) (delivered rounds))) \<and>
    acks (signalReadLoop D depth rounds) = map (\<lambda>(k, i, m). (k, i)) (delivered rounds) \<and>
    cn_state (consumerMessages G D handler msgs cn) =
        cn_state (consumerMessages G D handler (filter (readable_signal D \<circ> snd) msgs) cn) \<and>
    (\<forall>m \<in> set msgs. \<not> readable_signal D (snd m) \<longrightarrow> (fst m, True) \<in> set (cn_log (consumerMessages G D handler msgs cn))) \<and>
    cacheLoop D replies lc = cacheLoop D (map (\<lambda>r args. readableReply (r args)) replies) lc \<and>
    ((\<forall>m \<in> set msgs. \<not> readable_sides (snd m)) \<longrightarrow> readOnce D (\<lambda>args. CacheMsgs msgs) lc = (lc, True))"
proof (intro conjI)
  obtain xs' i where x: "readerLoop (handleL2 D cfg newOrderID s) reads ''0-0'' xs = (xs', i)" by fastforce
  have "symbolLoop D cfg newOrderID s reads drains xs = fold (handleL2 D cfg newOrderID s) es xs"
    using read_then_drain_all [OF es _ reads drains x] x by (simp add: symbolLoop_def runL2Reader_def drainL2_def)
  also have "\<dots> = fold (handleL2 D cfg newOrderID s) (filter (readable_l2 \<circ> snd) es) xs"
    by (rule fold_filter [where Q = "\<lambda>st. xs_pending st s = None", symmetric]) (simp_all add: handleL2_skips idle)
  finally show "symbolLoop D cfg newOrderID s reads drains xs =
      fold (handleL2 D cfg newOrderID s) (filter (readable_l2 \<circ> snd) es) xs" .
  show "ordersLoop D capital reads odrains =
      fold (countOrder D) (filter (readable_order D \<circ> snd) es) (orders_start capital)"
    unfolding ordersLoop_fold [OF es reads odrains]
    by (rule fold_filter [where Q = "\<lambda>st. True", symmetric]) (simp_all add: countOrder_skips)
  show "published (signalReadLoop D depth rounds) = concat (map (\<lambda>(k, i, m).
        published (handleSignalMessage D depth k (i, m))) (filter (\<lambda>(k, i, m). readable_l2 m) (delivered rounds)))"
    unfolding signalReadLoop_delivered [OF rounds] by (rule published_delivered)
  show "acks (signalReadLoop D depth rounds) = map (\<lambda>(k, i, m). (k, i)) (delivered rounds)"
    using every_message_acked [OF rounds] by (rule conjunct1)
  show "cn_state (consumerMessages G D handler msgs cn) =
        cn_state (consumerMessages G D handler (filter (readable_signal D \<circ> snd) msgs) cn)"
    by (rule consumerMessages_skip(1) [OF refl])
  show "\<forall>m \<in> set msgs. \<not> readable_signal D (snd m) \<longrightarrow>
      (fst m, True) \<in> set (cn_log (consumerMessages G D handler msgs cn))"
    using consumerMessages_skip(2) [OF refl, of _ cn msgs D G handler] by blast
  show "cacheLoop D replies lc = cacheLoop D (map (\<lambda>r args. readableReply (r args)) replies) lc"
    by (simp add: cacheLoop_skips)
  show "(\<forall>m \<in> set msgs. \<not> readable_sides (snd m)) \<longrightarrow> readOnce D (\<lambda>args. CacheMsgs msgs) lc = (lc, True)"
    using unusable_batch_is_read_again [of msgs D "\<lambda>args. CacheMsgs msgs" lc] unreadable(5) by blast
qed

text \<open>An executor that meets an unreadable entry and then one to trade on.\<close>

definition wit_bad :: fields where
  "wit_bad = [''event_time'' \<mapsto> ''now'']"

lemma wit_bad_l2: "\<not> readable_l2 wit_bad"
proof -
  have "bad_time [''event_time'' \<mapsto> ''now'']"
    by (simp add: bad_time_def ParseRFC3339Nano_short) (simp add: ParseLiteralZ_def parseDateTime_def getYear_def)
  then show ?thesis by (simp add: readable_l2_def wit_bad_def)
qed

lemma wit_quote_readable: "readable_l2 wit_quote"
proof (rule ccontr)
  assume "\<not> readable_l2 wit_quote"
  then have "decodeL2Event rat_pkg wit_quote = None" by (rule unreadable)
  then show False by (simp add: wit_quote_def decode_l2Values_exec time_ok_def)
qed

section \<open>The drains end\<close>

text \<open>
  C21 (termination): after the cancellation the drains end by themselves. Once the readers have
  returned, the executor's drain asks Redis for at most one batch of 20 per 20 entries of the
  stream and once more, the collector's for batches of 100 likewise; then they return, whatever
  replies would have followed, and every entry of the stream has been handled exactly once.
\<close>

theorem drains_end:
  fixes cfg :: "'d::linordered_idom strategy_config"
  assumes es: "stream_log es" and reads: "\<forall>r \<in> set reads. xread_serves es r"
    and n: "\<forall>r \<in> set drains. xrange_serves es n r" "length drains = Suc ((length es + n - 1) div n)"
  shows "(n = 20 \<longrightarrow> symbolLoop D cfg newOrderID s reads (drains @ further) xs =
       fold (handleL2 D cfg newOrderID s) es xs) \<and>
    (n = 100 \<longrightarrow> ordersLoop D capital reads (drains @ further) =
       fold (countOrder D) es (orders_start capital))"
proof -
  have run: "drainLoop h (drains @ further) (drainStartOf i) i st' = fold h es st"
    if "0 < n" "readerLoop h reads ''0-0'' st = (st', i)" for h :: "string \<times> fields \<Rightarrow> 'x \<Rightarrow> 'x" and st st' i
  proof (rule read_then_drain_rounds [OF es that(1) reads n _ that(2)])
    have "length es + n - 1 < n * Suc ((length es + n - 1) div n)"
      using that(1) by (metis dividend_less_times_div mult_Suc_right)
    then show "length es \<le> n * ((length es + n - 1) div n)" using that(1) by simp
  qed
  obtain xs' i where x: "readerLoop (handleL2 D cfg newOrderID s) reads ''0-0'' xs = (xs', i)" by fastforce
  obtain od j where o: "readerLoop (countOrder D) reads ''0-0'' (orders_start capital) = (od, j)" by fastforce
  show ?thesis
    using run [OF _ x] run [OF _ o] x o
    by (simp add: symbolLoop_def runL2Reader_def drainL2_def ordersLoop_def runOrdersReader_def
        drainOrders_def orders_start_def)
qed

lemma drains_end_witness:
  "symbolLoop rat_pkg wit_strategy id ''A'' [\<lambda>i. XReadErr True]
     ([\<lambda>s. Some (take 20 (range_from [(''1-0'', wit_update)] s)),
       \<lambda>s. Some (take 20 (range_from [(''1-0'', wit_update)] s))] @ [\<lambda>s. None]) (NewExecutor wit_checker) =
   fold (handleL2 rat_pkg wit_strategy id ''A'') [(''1-0'', wit_update)] (NewExecutor wit_checker)"
  using drains_end [of "[(''1-0'', wit_update)]" "[\<lambda>i. XReadErr True]"
      "replicate 2 (\<lambda>s. Some (take 20 (range_from [(''1-0'', wit_update)] s)))" 20 rat_pkg wit_strategy id
      "''A''" "[\<lambda>s. None]" "NewExecutor wit_checker"]
  by (simp add: stream_log_def xread_serves_def xrange_serves_def numeral_2_eq_2)

section \<open>The executor's orders at the collector\<close>

text \<open>Every order the executor makes is a filled market order of one of the two sides.\<close>

definition market_fill :: "'d order_event \<Rightarrow> bool" where
  "market_fill order \<longleftrightarrow> oe_Type order = OrderTypeMarket \<and> oe_Status order = OrderStatusFilled \<and>
     (oe_Side order = SideBuy \<or> oe_Side order = SideSell)"

lemma exec_orders_market:
  assumes "exec_reach D cfg newOrderID st0 st" and "xs_pending st0 = Map.empty" and "xs_orders st0 = []"
  shows "(\<forall>s stage order. xs_pending st s = Some (stage, order) \<longrightarrow> market_fill order) \<and>
    (\<forall>order \<in> set (xs_orders st). market_fill order)"
  using assms(1)
proof (induction rule: exec_reach.induct)
  case exec_start
  then show ?case using assms(2,3) by simp
next
  case (exec_next st st')
  have "market_fill (newOrder D cfg oid s sd ev p)"
    if "tradeDecision cfg i q = Some sd" for oid s sd ev p i q
    using tradeDecision_side [OF that] by (auto simp: market_fill_def newOrder_def Let_def split: if_splits)
  with exec_next.hyps(2) exec_next.IH show ?case
    by cases (auto simp: checkL2_def fill_steps split: option.splits prod.splits if_splits)
qed

lemma filled_orders:
  fixes D :: "'d::linordered_idom decimal_pkg"
  assumes D: "decimal_strings D" "decimal_text D"
  shows "map snd es = map (orderValues D) orders \<Longrightarrow> \<forall>order \<in> set orders. market_fill order \<Longrightarrow>
    \<forall>order \<in> set orders. time_ok (oe_EventTime order) \<Longrightarrow> filled D es = orders"
proof (induction orders arbitrary: es)
  case Nil
  then show ?case by (simp add: filled_def)
next
  case (Cons order orders)
  obtain e es' where es: "es = e # es'" "snd e = orderValues D order" "map snd es' = map (orderValues D) orders"
    using Cons.prems(1) by (cases es) auto
  have "order_ok order" "oe_Status order = OrderStatusFilled"
    using Cons.prems(2,3) by (auto simp: order_ok_def market_fill_def order_type_of_string_def
        order_status_of_string_def)
  then have "filled D [e] = [order]"
    using decode_order [OF D] es(2) by (simp add: filled_def)
  with Cons es show ?case by (simp add: filled_Cons [of D e es'])
qed

text \<open>A message handled without interruption is four steps of the interleaving.\<close>

lemma step_or_same:
  assumes "exec_reach D cfg newOrderID st0 st"
  shows "exec_reach D cfg newOrderID st0 (moveL2 s st)" "exec_reach D cfg newOrderID st0 (publishL2 s st)"
    "exec_reach D cfg newOrderID st0 (bookL2 s st)"
proof -
  show "exec_reach D cfg newOrderID st0 (moveL2 s st)"
  proof (cases "\<exists>order. xs_pending st s = Some (Accepted, order)")
    case True
    then show ?thesis using exec_next [OF assms] exec_move by blast
  next
    case False
    then have "moveL2 s st = st" by (auto simp: moveL2_def split: option.split fill_stage.split)
    then show ?thesis using assms by simp
  qed
  show "exec_reach D cfg newOrderID st0 (publishL2 s st)"
  proof (cases "\<exists>order. xs_pending st s = Some (Moved, order)")
    case True
    then show ?thesis using exec_next [OF assms] exec_publish by blast
  next
    case False
    then have "publishL2 s st = st" by (auto simp: publishL2_def split: option.split fill_stage.split)
    then show ?thesis using assms by simp
  qed
  show "exec_reach D cfg newOrderID st0 (bookL2 s st)"
  proof (cases "\<exists>order. xs_pending st s = Some (Published, order)")
    case True
    then show ?thesis using exec_next [OF assms] exec_book by blast
  next
    case False
    then have "bookL2 s st = st" by (auto simp: bookL2_def split: option.split fill_stage.split)
    then show ?thesis using assms by simp
  qed
qed

lemma handleL2_reach:
  assumes "exec_reach D cfg newOrderID st0 st" and "xs_pending st s = None"
  shows "exec_reach D cfg newOrderID st0 (handleL2 D cfg newOrderID s msg st)"
  unfolding handleL2_def by (intro step_or_same exec_next [OF assms(1)] exec_check assms(2))

text \<open>The executor's position of a symbol and the orders it has published for it.\<close>

definition moved_only :: "(fill_stage \<times> 'd::linordered_idom order_event) option \<Rightarrow> 'd" where
  "moved_only p = (case p of Some (Moved, order) \<Rightarrow> order_delta order | _ \<Rightarrow> 0)"

lemma published_position:
  assumes inv: "exec_inv cfg c0 st" and c0: "c0 = NewChecker rcfg store ns rid w"
  shows "lookup0 (ck_positions (fold record_req (map fill_of (xs_orders st)) c0)) s +
    moved_only (xs_pending st s) = xs_pos st s"
proof -
  let ?k = "lookup0 (ck_positions (xs_risk st)) s" and ?limits = "rc_MaxPositionQty (ck_cfg c0)"
  have ok: "symbol_ok cfg ?limits st s" using inv by (simp add: exec_inv_def)
  then have pend: "\<And>stage order. xs_pending st s = Some (stage, order) \<Longrightarrow> pending_ok cfg ?limits s ?k order"
    and stage: "stage_ok (xs_pos st s) ?k (xs_pending st s) (orders_of s (xs_orders st)) (orders_of s (xs_booked st))"
    by (simp_all add: symbol_ok_def Let_def)
  have k: "?k = (\<Sum>order \<leftarrow> orders_of s (xs_booked st). signed_qty (fill_of order))"
    using inv accounts_sums(1) [OF c0, of "xs_booked st" s] by (simp add: exec_inv_def accounts_for_def)
  have delta: "signed_qty (fill_of order) = order_delta order" if "xs_pending st s = Some (stage, order)" for stage order
    using pend [OF that] by (simp add: pending_ok_def signed_qty_def fill_of_def order_delta_def proposedDelta_def)
  show ?thesis
    unfolding accounts_sums(1) [OF c0] using stage k delta
    by (cases "xs_pending st s" rule: option.exhaust; simp add: moved_only_def)
      (auto split: fill_stage.splits prod.splits elim!: stage_ok.elims)
qed

text \<open>What the collector's loop leaves when it reads the orders of an executor.\<close>

lemma executor_at_collector:
  fixes D :: "'d::linordered_idom decimal_pkg"
  assumes D: "decimal_strings D" "decimal_text D"
    and reach: "exec_reach D cfg newOrderID (NewExecutor c0) st"
    and c0: "c0 = NewChecker rcfg store ns rid w" and q: "0 < sc_TradeQty cfg"
    and times: "\<forall>order \<in> set (xs_orders st). time_ok (oe_EventTime order)"
    and es: "stream_log es" "map snd es = map (\<lambda>order. xa_Values (publishOrder D key order)) (xs_orders st)"
    and loop: "\<forall>r \<in> set reads. xread_serves es r" "\<forall>r \<in> set drains. xrange_serves es 100 r"
      "length es < length drains"
    and od: "od = ordersLoop D (rc_InitialCapital rcfg) reads drains"
  shows "filled D es = xs_orders st" and "trades_written (od_calls od) = map trade_of (xs_orders st) \<and>
    od_count od = int (length (xs_orders st)) \<and>
    (no_published st \<longrightarrow> et_cash (od_tracker od) = ck_equity (xs_risk st)) \<and>
    lookup0 (map_of (et_positions (od_tracker od))) s + moved_only (xs_pending st s) = xs_pos st s"
proof -
  let ?t0 = "newEquityTracker (rc_InitialCapital rcfg)" and ?fills = "map fill_of (xs_orders st)"
  have inv: "exec_inv cfg c0 st"
    using exec_inv_reach [OF reach exec_inv_New q] c0 by (simp add: NewChecker_def Let_def)
  have "map snd es = map (orderValues D) (xs_orders st)" using es(2) by (simp add: publishOrder_def xadd_def)
  moreover have "\<forall>order \<in> set (xs_orders st). market_fill order"
    using exec_orders_market [OF reach] by (simp add: NewExecutor_def)
  ultimately have filled: "filled D es = xs_orders st" using times by (rule filled_orders [OF D])
  have fold: "od = fold (countOrder D) es (orders_start (rc_InitialCapital rcfg))"
    unfolding od by (rule ordersLoop_fold [OF es(1) loop])
  have t0: "wf_tracker ?t0" by (simp add: wf_tracker_def newEquityTracker_def)
  have sync: "et_cash (track ?fills ?t0) = ck_equity (fold record_req ?fills c0) \<and>
      (\<forall>s. lookup0 (map_of (et_positions (track ?fills ?t0))) s =
        lookup0 (ck_positions (fold record_req ?fills c0)) s)"
    using track_sync [OF t0, of c0 ?fills] c0 by (simp add: newEquityTracker_def NewChecker_def Let_def)
  have risk: "no_published st \<Longrightarrow> ck_equity (xs_risk st) = ck_equity (fold record_req ?fills c0)"
    using all_booked [OF inv] accounts_same(2) [OF c0, of "xs_orders st" "xs_booked st"] inv
    by (simp add: exec_inv_def accounts_for_def)
  note pos = published_position [OF inv c0, of s]
  have "wf_tracker (od_tracker (orders_start (rc_InitialCapital rcfg)))"
    using t0 by (simp add: orders_start_def)
  from fold_countOrder [OF this fold] filled sync risk pos show "trades_written (od_calls od) = map trade_of (xs_orders st) \<and>
    od_count od = int (length (xs_orders st)) \<and>
    (no_published st \<longrightarrow> et_cash (od_tracker od) = ck_equity (xs_risk st)) \<and>
    lookup0 (map_of (et_positions (od_tracker od))) s + moved_only (xs_pending st s) = xs_pos st s"
    by (simp add: orders_start_def)
  show "filled D es = xs_orders st" by (rule filled)
qed

text \<open>
  C14 (refinement): the collector keeps the executor's accounts. However the steps of the symbols'
  goroutines interleave and the orders stream is cut into batches, from the stream of the executor's
  published orders the collector writes one trade for each in that order, counts them, and ends
  with the executor's position in every symbol (less an order that the executor has moved its position for
  and not published yet) and, when no symbol is between XADD and RecordFill, with the cash that the
  risk checker calls equity. So once every goroutine is through with its message the collector's
  accounts are the executor's.
\<close>

theorem orders_reach_collector:
  fixes D :: "'d::linordered_idom decimal_pkg"
  assumes D: "decimal_strings D" "decimal_text D"
    and reach: "exec_reach D cfg newOrderID (NewExecutor c0) st"
    and c0: "c0 = NewChecker rcfg store ns rid w" and q: "0 < sc_TradeQty cfg"
    and times: "\<forall>order \<in> set (xs_orders st). time_ok (oe_EventTime order)"
    and es: "stream_log es" "map snd es = map (\<lambda>order. xa_Values (publishOrder D key order)) (xs_orders st)"
    and loop: "\<forall>r \<in> set reads. xread_serves es r" "\<forall>r \<in> set drains. xrange_serves es 100 r"
      "length es < length drains"
    and od: "od = ordersLoop D (rc_InitialCapital rcfg) reads drains"
  shows "trades_written (od_calls od) = map trade_of (xs_orders st) \<and>
    od_count od = int (length (xs_orders st)) \<and>
    (no_published st \<longrightarrow> et_cash (od_tracker od) = ck_equity (xs_risk st)) \<and>
    lookup0 (map_of (et_positions (od_tracker od))) s + moved_only (xs_pending st s) = xs_pos st s \<and>
    (xs_pending st = Map.empty \<longrightarrow> et_cash (od_tracker od) = ck_equity (xs_risk st) \<and>
       lookup0 (map_of (et_positions (od_tracker od))) s = xs_pos st s)"
  using executor_at_collector(2) [OF D reach c0 q times es loop od, of s]
  by (auto simp: no_published_def moved_only_def)

lemma wit_quote_done:
  "handleL2 rat_pkg wit_strategy id ''A'' (''1-0'', wit_quote) (NewExecutor wit_checker) = st \<Longrightarrow>
   exec_reach rat_pkg wit_strategy id (NewExecutor wit_checker) st \<and> xs_pending st = Map.empty \<and>
   xs_orders st = [wit_fill_order] \<and> xs_pos st ''A'' = 1"
proof -
  let ?st1 = "checkL2 rat_pkg wit_strategy id ''A'' (''1-0'', wit_quote) (NewExecutor wit_checker)"
  assume st: "handleL2 rat_pkg wit_strategy id ''A'' (''1-0'', wit_quote) (NewExecutor wit_checker) = st"
  have p: "xs_pending (NewExecutor wit_checker) ''A'' = None" by (simp add: NewExecutor_def)
  have "xs_pending st = Map.empty \<and> xs_orders st = [wit_fill_order] \<and> xs_pos st ''A'' = 1"
    by (simp add: handleL2_def fill_steps wit_quote_accepted flip: st)
      (simp add: NewExecutor_def wit_fill_order_def)
  with handleL2_reach [OF exec_start p, of rat_pkg wit_strategy id "(''1-0'', wit_quote)"] st show ?thesis
    by metis
qed

lemma malformed_entries_are_harmless_witness:
  "let es = [(''0-1'', wit_bad), (''1-0'', wit_quote)];
       st = symbolLoop rat_pkg wit_strategy id ''A'' [\<lambda>i. XReadMsgs (take 1 (entries_after es i))]
         (replicate 3 (\<lambda>s. Some (take 20 (range_from es s)))) (NewExecutor wit_checker) in
   xs_orders st = [wit_fill_order] \<and> xs_pending st = Map.empty"
proof -
  let ?es = "[(''0-1'', wit_bad), (''1-0'', wit_quote)]"
  obtain st where st: "handleL2 rat_pkg wit_strategy id ''A'' (''1-0'', wit_quote) (NewExecutor wit_checker) = st"
    by simp
  have "\<forall>r \<in> set [\<lambda>i. XReadMsgs (take 1 (entries_after ?es i))]. xread_serves ?es r"
    by (simp add: xread_serves_def take_is_prefix)
  from malformed_entries_are_harmless [of ?es, OF _ this, where drains = "replicate 3 (\<lambda>s. Some (take 20 (range_from ?es s)))"
      and odrains = "replicate 3 (\<lambda>s. Some (take 100 (range_from ?es s)))" and xs = "NewExecutor wit_checker"
      and rounds = "[]" and s = "''A''" and D = rat_pkg and cfg = wit_strategy and newOrderID = id, THEN conjunct1]
  show ?thesis
    using wit_quote_done [OF st] st
    by (simp add: stream_log_def xrange_serves_def NewExecutor_def wit_bad_l2 wit_quote_readable Let_def)
qed

lemma orders_reach_collector_witness:
  "let st = handleL2 rat_pkg wit_strategy id ''A'' (''1-0'', wit_quote) (NewExecutor wit_checker);
       es = [(''1-0'', xa_Values (publishOrder rat_pkg ''bt:orders'' wit_fill_order))];
       od = ordersLoop rat_pkg 1000 [\<lambda>i. XReadErr True] (replicate 2 (\<lambda>s. Some (take 100 (range_from es s)))) in
   od_count od = 1 \<and> et_cash (od_tracker od) = ck_equity (xs_risk st) \<and>
   lookup0 (map_of (et_positions (od_tracker od))) ''A'' = 1"
proof -
  obtain st where st: "handleL2 rat_pkg wit_strategy id ''A'' (''1-0'', wit_quote) (NewExecutor wit_checker) = st"
    by simp
  note fin = wit_quote_done [OF st]
  show ?thesis unfolding st
    using orders_reach_collector [OF rat_pkg_strings rat_pkg_text conjunct1 [OF fin] wit_checker_def, of
        "[(''1-0'', xa_Values (publishOrder rat_pkg ''bt:orders'' wit_fill_order))]" "''bt:orders''"
        "[\<lambda>i. XReadErr True]" "replicate 2 (\<lambda>s. Some (take 100 (range_from
          [(''1-0'', xa_Values (publishOrder rat_pkg ''bt:orders'' wit_fill_order))] s)))" _ "''A''", OF _ _ _ _ _ _ _ refl]
      fin
    by (simp add: Let_def wit_strategy_def [THEN arg_cong, of sc_TradeQty, simplified] wit_fill_order_def [THEN arg_cong, of oe_EventTime, simplified]
        time_ok_def stream_log_def xread_serves_def xrange_serves_def wit_risk_cfg_def)
qed

section \<open>Paper trading and backtest\<close>

text \<open>A book update of a market, with the stream id it gets.\<close>

record 'd market_update =
  mu_id :: string
  mu_symbol :: string
  mu_time :: time
  mu_updateID :: int64
  mu_bids :: "'d price_level list"
  mu_asks :: "'d price_level list"

definition update_fields :: "'d decimal_pkg \<Rightarrow> string \<Rightarrow> 'd market_update \<Rightarrow> fields" where
  "update_fields D runID u =
     l2Values D runID (mu_symbol u) (mu_time u) (mu_updateID u) (mu_bids u) (mu_asks u)"

text \<open>The backtest: the executor of the update's symbol handles its entry.\<close>

definition backtest_update ::
  "'d::linordered_idom decimal_pkg \<Rightarrow> 'd strategy_config \<Rightarrow> (string \<Rightarrow> string) \<Rightarrow> string \<Rightarrow> 'd market_update \<Rightarrow>
   ('s, 'd) exec_state \<Rightarrow> ('s, 'd) exec_state" where
  "backtest_update D cfg newOrderID runID u st =
     handleL2 D cfg newOrderID (mu_symbol u) (mu_id u, update_fields D runID u) st"

text \<open>
  Paper trading: the price cache takes the entry in, the signal service publishes its signals
  from it, and the handler gets each of these from the signals stream, under an id \<open>sid\<close> and with
  the UUIDs and clock \<open>env\<close> of that delivery.
\<close>

definition live_update ::
  "'d::linordered_idom decimal_pkg \<Rightarrow> (string \<Rightarrow> string \<Rightarrow> string) \<Rightarrow> (string \<Rightarrow> live_env) \<Rightarrow>
   'd market_update \<Rightarrow> 'd live_event list" where
  "live_update D sid env u =
     (let entry = (mu_id u, update_fields D [] u) in
      LiveBook entry # map (\<lambda>sg. let i = sid (mu_id u) (sg_Name sg) in LiveSignal (env i) i sg)
        (List.map_filter (\<lambda>sg. decodeSignalEvent D (xa_Values (PublishSignalEvent D liveNamespace sg)))
          (published (handleSignalMessage D 10 (inputKey liveNamespace (mu_symbol u)) entry))))"

definition update_ok :: "'d::zero market_update \<Rightarrow> bool" where
  "update_ok u \<longleftrightarrow> time_ok (mu_time u) \<and> mu_symbol u \<noteq> [] \<and> ToUpper (mu_symbol u) = mu_symbol u \<and>
     mu_bids u \<noteq> [] \<and> mu_asks u \<noteq> [] \<and> pl_Price (hd (mu_bids u)) \<noteq> 0 \<and> pl_Price (hd (mu_asks u)) \<noteq> 0"

definition order_core :: "'d order_event \<Rightarrow> 'd order_event" where
  "order_core order = order\<lparr>oe_RunID := [], oe_OrderID := []\<rparr>"

text \<open>The two sides in step.\<close>

definition in_step :: "('s, 'd::linordered_idom) exec_state \<Rightarrow> ('s, 'd) live_state \<Rightarrow> bool" where
  "in_step st lv \<longleftrightarrow> xs_risk st = lv_risk lv \<and> (\<forall>s. xs_pos st s = net (lv_blot lv) s) \<and>
     xs_pending st = Map.empty \<and> pd_errs (lv_db lv) = [] \<and>
     map order_core (xs_orders st) = map order_core (lv_orders lv)"

text \<open>The executor's inline strategy is the decider's on the signal service's imbalance.\<close>

lemma decision_same:
  assumes "sg_Name sg = ''book_imbalance''"
  shows "Decide cfg sg (fst (BlotterPosition s b)) = tradeDecision cfg (sg_Value sg) (net b s)"
  using assms by (auto simp: Decide_def tradeDecision_def BlotterPosition_net Let_def)

lemma other_signal_idle: "sg_Name sg \<noteq> ''book_imbalance'' \<Longrightarrow> buildHandler D cfg env i sg lv = (lv, None)"
  by (simp add: buildHandler_def Decide_def)

lemma in_step_risk:
  assumes "in_step st lv"
  shows "in_step (st\<lparr>xs_risk := c\<rparr>) (lv\<lparr>lv_risk := c\<rparr>)"
    and "pd_errs db = [] \<Longrightarrow> in_step (st\<lparr>xs_risk := c\<rparr>) (lv\<lparr>lv_risk := c, lv_db := db\<rparr>)"
  using assms by (simp_all add: in_step_def)

lemma live_fills:
  assumes "pd_errs (lv_db lv) = []" and "BestPrices (sg_Symbol sg) (lv_cache lv) = (bid, ask, True)"
    and f: "f = liveFill D cfg env i sg sd bid ask"
  shows "\<exists>b' db. executeFill D cfg env i sg sd lv = (lv\<lparr>lv_blot := b', lv_db := db,
      lv_risk := RecordFill (sg_Symbol sg) sd (sc_TradeQty cfg) (fr_FillPrice f) (fr_Fee f) (lv_risk lv),
      lv_orders := lv_orders lv @
        [liveOrder cfg (bl_sessionID (lv_blot lv)) env sg sd (fr_FillPrice f) (fr_Fee f)]\<rparr>, None) \<and>
    pd_errs db = [] \<and> (\<forall>s. net b' s = (if s = sg_Symbol sg
      then net (lv_blot lv) s + proposedDelta sd (sc_TradeQty cfg) else net (lv_blot lv) s))"
proof -
  obtain b' db r where fill: "blotRecordFill D PersistFill f (lv_blot lv) (lv_db lv) = (b', db, r)"
    by (metis prod_cases3)
  from fill_errs [OF fill assms(1)] have r: "r = None" "pd_errs db = []" by simp_all
  show ?thesis
    using fill_net [OF fill] fill r assms(2) by (intro exI [of _ b'] exI [of _ db]) (simp add: executeFill_def Let_def f)
qed

lemma in_step_trade:
  fixes st :: "('s, 'd::linordered_idom) exec_state"
  assumes same: "in_step st lv" and best: "BestPrices s (lv_cache lv) = (pl_Price b, pl_Price a, True)"
    and ev: "el_bids ev = b # bs" "el_asks ev = a # as"
    and sg: "sg_Symbol sg = s" "sg_EventTime sg = el_EventTime ev" "sg_Name sg = ''book_imbalance''"
    and risk: "lv_risk lv = c"
    and core: "order_core order = order_core (liveOrder cfg x env sg sd
      (ComputeFillPrice D (sd = SideBuy) (pl_Price (if sd = SideBuy then a else b)) (sc_SlippageBps cfg))
      (ComputeFee D (sc_TradeQty cfg) (ComputeFillPrice D (sd = SideBuy) (pl_Price (if sd = SideBuy then a else b))
        (sc_SlippageBps cfg)) (sc_TakerFeeBps cfg)))"
  shows "in_step (st\<lparr>xs_pos := (xs_pos st)(s := xs_pos st s + (if sd = SideBuy then sc_TradeQty cfg else - sc_TradeQty cfg)),
        xs_pending := (xs_pending st)(s := None),
        xs_orders := xs_orders st @ [order], xs_booked := xs_booked st @ [order],
        xs_risk := RecordFill s sd (sc_TradeQty cfg) (oe_FillPrice order) (oe_Fee order) c\<rparr>)
      (fst (executeFill D cfg env i sg sd lv))"
proof -
  let ?f = "liveFill D cfg env i sg sd (pl_Price b) (pl_Price a)"
  have f: "fr_FillPrice ?f = ComputeFillPrice D (sd = SideBuy) (pl_Price (if sd = SideBuy then a else b)) (sc_SlippageBps cfg)"
    "fr_Fee ?f = ComputeFee D (sc_TradeQty cfg) (fr_FillPrice ?f) (sc_TakerFeeBps cfg)"
    by (simp_all add: liveFill_def Let_def)
  have order: "order_core order = order_core (liveOrder cfg y env sg sd (fr_FillPrice ?f) (fr_Fee ?f))" for y
    using core unfolding f by (simp add: order_core_def liveOrder_def)
  then have "oe_FillPrice order = fr_FillPrice ?f \<and> oe_Fee order = fr_Fee ?f"
    by (cases order) (simp add: order_core_def liveOrder_def)
  moreover have "BestPrices (sg_Symbol sg) (lv_cache lv) = (pl_Price b, pl_Price a, True)" "pd_errs (lv_db lv) = []"
    using best sg(1) same by (simp_all add: in_step_def)
  from live_fills [OF this(2,1) refl, of D cfg env i sd] obtain b' db where
    live: "executeFill D cfg env i sg sd lv = (lv\<lparr>lv_blot := b', lv_db := db,
      lv_risk := RecordFill (sg_Symbol sg) sd (sc_TradeQty cfg) (fr_FillPrice ?f) (fr_Fee ?f) (lv_risk lv),
      lv_orders := lv_orders lv @
        [liveOrder cfg (bl_sessionID (lv_blot lv)) env sg sd (fr_FillPrice ?f) (fr_Fee ?f)]\<rparr>, None)"
    "pd_errs db = []" and net': "\<forall>s. net b' s = (if s = sg_Symbol sg
      then net (lv_blot lv) s + proposedDelta sd (sc_TradeQty cfg) else net (lv_blot lv) s)"
    by blast
  ultimately show ?thesis
    using same order sg(1) risk by (auto simp: in_step_def live proposedDelta_def net' fun_eq_iff)
qed

lemma in_step_signal:
  fixes st :: "('s, 'd::linordered_idom) exec_state"
  assumes same: "in_step st lv" and best: "BestPrices s (lv_cache lv) = (pl_Price b, pl_Price a, True)"
    and ev: "decodeL2Event D (snd msg) = Some ev" "el_bids ev = b # bs" "el_asks ev = a # as"
    and sg: "sg_Symbol sg = s" "sg_EventTime sg = el_EventTime ev" "sg_Name sg = ''book_imbalance''"
      "sg_Value sg = execImbalance D (el_bids ev) (el_asks ev) 10"
  shows "in_step (handleL2 D cfg newOrderID s msg st) (fst (buildHandler D cfg env i sg lv))"
proof -
  have pend: "xs_pending st s = None" and risk: "xs_risk st = lv_risk lv"
    and pos: "xs_pos st s = net (lv_blot lv) s" using same by (simp_all add: in_step_def)
  have dec: "Decide cfg sg (fst (BlotterPosition (sg_Symbol sg) (lv_blot lv))) =
      tradeDecision cfg (execImbalance D (el_bids ev) (el_asks ev) 10) (xs_pos st s)"
    using sg decision_same [OF sg(3)] pos by simp
  show ?thesis
  proof (cases "tradeDecision cfg (execImbalance D (el_bids ev) (el_asks ev) 10) (xs_pos st s)")
    case None
    then show ?thesis using same dec ev pend by (simp add: handleL2_branches buildHandler_def)
  next
    case (Some sd)
    then have hand: "handleL2 D cfg newOrderID s msg st = l2_outcome D cfg (newOrderID (fst msg)) s ev sd st"
      using ev pend by (simp add: handleL2_branches)
    obtain c err where ct: "CanTrade D s sd (sc_TradeQty cfg) (el_EventTime ev) (lv_risk lv) = (c, err)"
      by fastforce
    show ?thesis
    proof (cases err)
      case (Some e)
      have db: "pd_errs (lv_db lv) = []" using same by (simp add: in_step_def)
      have "handleL2 D cfg newOrderID s msg st = st\<lparr>xs_risk := c\<rparr>"
        using hand ct risk Some by (simp add: l2_outcome_def)
      moreover have "\<exists>db. fst (buildHandler D cfg env i sg lv) = lv\<lparr>lv_risk := c, lv_db := db\<rparr> \<and> pd_errs db = []"
        using dec ct Some \<open>tradeDecision _ _ _ = Some sd\<close> sg HaltSession_errs [OF db] db
        by (intro exI [of _ "if Halted c then fst (HaltSession paper_store (lv_session lv) e (le_now env) (lv_db lv))
            else lv_db lv"]) (simp add: buildHandler_def Let_def)
      ultimately show ?thesis using in_step_risk(2) [OF same] by auto
    next
      case None
      let ?price = "ComputeFillPrice D (sd = SideBuy) (pl_Price (if sd = SideBuy then a else b)) (sc_SlippageBps cfg)"
      define order where "order = newOrder D cfg (newOrderID (fst msg)) s sd ev ?price"
      have h: "handleL2 D cfg newOrderID s msg st =
          st\<lparr>xs_pos := (xs_pos st)(s := xs_pos st s + (if sd = SideBuy then sc_TradeQty cfg else - sc_TradeQty cfg)),
            xs_pending := (xs_pending st)(s := None), xs_orders := xs_orders st @ [order],
            xs_booked := xs_booked st @ [order],
            xs_risk := RecordFill s sd (sc_TradeQty cfg) (oe_FillPrice order) (oe_Fee order) c\<rparr>"
        using hand ct risk None ev(2,3)
        by (simp add: l2_outcome_def order_def newOrder_def Let_def split del: if_split split: if_split_asm)
      have "fst (buildHandler D cfg env i sg lv) = fst (executeFill D cfg env i sg sd (lv\<lparr>lv_risk := c\<rparr>))"
        using dec ct None \<open>tradeDecision _ _ _ = Some sd\<close> sg by (simp add: buildHandler_def)
      moreover have "in_step (st\<lparr>xs_risk := c\<rparr>) (lv\<lparr>lv_risk := c\<rparr>)" using same by (rule in_step_risk)
      moreover have "order_core order = order_core (liveOrder cfg x env sg sd ?price
          (ComputeFee D (sc_TradeQty cfg) ?price (sc_TakerFeeBps cfg)))" for x
        using sg by (simp add: order_core_def order_def newOrder_def liveOrder_def Let_def)
      ultimately show ?thesis
        using in_step_trade [where st = "st\<lparr>xs_risk := c\<rparr>" and lv = "lv\<lparr>lv_risk := c\<rparr>" and s = s and b = b
            and a = a and ev = ev and sg = sg and c = c and order = order and sd = sd]
          best ev(2,3) sg h by simp
    qed
  qed
qed

text \<open>The signals of an update as the handler gets them.\<close>

lemma update_signals:
  fixes D :: "'d::linordered_idom decimal_pkg"
  assumes D: "decimal_strings D" "decimal_text D" and u: "update_ok u"
  shows "\<exists>sg sg2 sg3. List.map_filter (\<lambda>sg. decodeSignalEvent D (xa_Values (PublishSignalEvent D ns sg)))
      (published (handleSignalMessage D 10 key (mu_id u, update_fields D r u))) = [sg, sg2, sg3] \<and>
    sg_Symbol sg = mu_symbol u \<and> sg_EventTime sg = mu_time u \<and> sg_Name sg = ''book_imbalance'' \<and>
    sg_Value sg = execImbalance D (mu_bids u) (mu_asks u) 10 \<and>
    sg_Name sg2 \<noteq> ''book_imbalance'' \<and> sg_Name sg3 \<noteq> ''book_imbalance''"
proof -
  let ?e = "\<lparr>l2_RunID = r, l2_Symbol = mu_symbol u, l2_EventTime = mu_time u,
    l2_LastUpdateID = mu_updateID u, l2_Bids = mu_bids u, l2_Asks = mu_asks u\<rparr>"
  let ?sort = "\<lambda>sg :: 'd signal_event. sg\<lparr>sg_Params := sort_key fst (sg_Params sg)\<rparr>"
  have "decodeL2BookUpdateEvent D (update_fields D r u) = Some ?e"
    using decode_l2Values [OF D] u by (simp add: update_ok_def update_fields_def)
  then have pub: "published (handleSignalMessage D 10 key (mu_id u, update_fields D r u)) =
      [bookImbalance D ?e 10, spreadBps D ?e, midPrice D ?e]"
    by (simp add: handleSignalMessage_def AllSignals_def)
  have "validUTF8 ''depth''" "validUTF8 (formatInt 10)" by code_simp+
  then have "signal_ok (bookImbalance D ?e 10)" "signal_ok (spreadBps D ?e)" "signal_ok (midPrice D ?e)"
    using u by (simp_all add: signal_ok_def update_ok_def bookImbalance_def spreadBps_def midPrice_def Let_def)
  then have "List.map_filter (\<lambda>sg. decodeSignalEvent D (xa_Values (PublishSignalEvent D ns sg)))
      (published (handleSignalMessage D 10 key (mu_id u, update_fields D r u))) =
      map ?sort [bookImbalance D ?e 10, spreadBps D ?e, midPrice D ?e]"
    unfolding pub by (simp add: map_filter_simps decode_signal [OF D])
  then show ?thesis
    by (intro exI [of _ "?sort (bookImbalance D ?e 10)"] exI [of _ "?sort (spreadBps D ?e)"]
        exI [of _ "?sort (midPrice D ?e)"])
      (simp add: bookImbalance_def execImbalance_def spreadBps_def midPrice_def Let_def)
qed

lemma in_step_update:
  fixes D :: "'d::linordered_idom decimal_pkg" and st :: "('s, 'd) exec_state"
  assumes D: "decimal_strings D" "decimal_text D" and u: "update_ok u" and same: "in_step st lv"
  shows "in_step (backtest_update D cfg newOrderID r u st) (live_run D cfg (live_update D sid env u) lv)"
proof -
  obtain b bs a as where sides: "mu_bids u = b # bs" "mu_asks u = a # as"
    using u by (cases "mu_bids u"; cases "mu_asks u") (auto simp: update_ok_def)
  let ?entry = "(mu_id u, update_fields D [] u)"
  let ?lv = "lv\<lparr>lv_cache := cacheMessage D ?entry (lv_cache lv)\<rparr>"
  have "usable D (update_fields D [] u) = Some (mu_symbol u, \<lparr>bp_bid = pl_Price b, bp_ask = pl_Price a\<rparr>)"
    using usable_l2Values [OF D] u sides by (simp add: update_fields_def update_ok_def)
  then have best: "BestPrices (mu_symbol u) (lv_cache ?lv) = (pl_Price b, pl_Price a, True)"
    using u by (simp add: BestPrices_def cacheMessage_usable update_ok_def)
  have lv: "in_step st ?lv" using same by (simp add: in_step_def)
  obtain sg sg2 sg3 where sgs: "List.map_filter (\<lambda>sg. decodeSignalEvent D (xa_Values (PublishSignalEvent D liveNamespace sg)))
      (published (handleSignalMessage D 10 (inputKey liveNamespace (mu_symbol u)) ?entry)) = [sg, sg2, sg3]"
    and sg: "sg_Symbol sg = mu_symbol u" "sg_EventTime sg = mu_time u" "sg_Name sg = ''book_imbalance''"
      "sg_Value sg = execImbalance D (mu_bids u) (mu_asks u) 10"
    and others: "sg_Name sg2 \<noteq> ''book_imbalance''" "sg_Name sg3 \<noteq> ''book_imbalance''"
    using update_signals [OF D u] by blast
  have live: "live_run D cfg (live_update D sid env u) lv =
      fst (buildHandler D cfg (env (sid (mu_id u) (sg_Name sg))) (sid (mu_id u) (sg_Name sg)) sg ?lv)"
    by (simp add: live_run_def live_update_def Let_def sgs other_signal_idle [OF others(1)] other_signal_idle [OF others(2)])
  let ?ev = "\<lparr>el_runID = r, el_EventTime = mu_time u, el_bids = mu_bids u, el_asks = mu_asks u\<rparr>"
  have "decodeL2Event D (update_fields D r u) = Some ?ev"
    using decode_l2Values_exec [OF D] u by (simp add: update_fields_def update_ok_def)
  then show ?thesis
    unfolding live backtest_update_def using sides sg
    by (intro in_step_signal [OF lv best, of D _ ?ev bs as]) simp_all
qed

text \<open>
  C3 (equivalence): without lag, paper trading does what the backtest does. A new paper session and a backtest
  with the same strategy and the same risk checker get the same book updates, each with both
  sides quoted, in the same order over all symbols. The schedule of the live service is the one without lag: for
  every update its entry enters the price cache, then the signals published from it are
  delivered and handled, and only then the next update enters the cache; the database
  refuses nothing. Then after any number of updates both have published the same orders, run and
  order ids apart: same symbol, time, side, quantity, fill price and fee; their risk checkers are
  equal, halts included; and executor and blotter hold the same quantities. (A service that lags
  behind fills at the price that is in the cache by then, so its orders may differ.)
\<close>

theorem paper_trading_mirrors_backtest:
  fixes D :: "'d::linordered_idom decimal_pkg"
  assumes D: "decimal_strings D" "decimal_text D" and us: "\<forall>u \<in> set us. update_ok u"
    and new: "\<not> sr_Recovered result" "pd_errs db = []"
    and st: "st = fold (backtest_update D cfg newOrderID r) us (NewExecutor (NewChecker (riskConfigOf cfg)
      (Some haltStore) liveNamespace (ps_SessionID (sr_Session result)) w))"
    and lv: "lv = live_run D cfg (concat (map (live_update D sid env) us))
      (startLive cfg haltStore w symbols m result db)"
  shows "map order_core (xs_orders st) = map order_core (lv_orders lv) \<and> xs_risk st = lv_risk lv \<and>
    xs_pos st s = net (lv_blot lv) s"
proof -
  have run: "in_step st' lv' \<Longrightarrow> in_step (fold (backtest_update D cfg newOrderID r) us st')
      (live_run D cfg (concat (map (live_update D sid env) us)) lv')"
    for st' :: "('c, 'd) exec_state" and lv'
    using us
  proof (induction us arbitrary: st' lv')
    case Nil
    then show ?case by (simp add: live_run_def)
  next
    case (Cons u us)
    from in_step_update [OF D _ Cons.prems(1)] Cons.prems(2) have
      "in_step (backtest_update D cfg newOrderID r u st') (live_run D cfg (live_update D sid env u) lv')"
      by simp
    from Cons.IH [OF this] Cons.prems(2) show ?case by (simp add: live_run_def)
  qed
  have "in_step (NewExecutor (NewChecker (riskConfigOf cfg)
      (Some haltStore) liveNamespace (ps_SessionID (sr_Session result)) w))
      (startLive cfg haltStore w symbols m result db)"
    using new by (simp add: in_step_def NewExecutor_def startLive_def Let_def NewBlotter_def pos_of_def)
  from run [OF this] show ?thesis by (simp add: st lv in_step_def)
qed

definition wit_market :: "rat market_update" where
  "wit_market = \<lparr>mu_id = ''1-0'', mu_symbol = ''A'', mu_time = 3, mu_updateID = 1,
     mu_bids = [\<lparr>pl_Price = 99, pl_Quantity = 3\<rparr>], mu_asks = [\<lparr>pl_Price = 101, pl_Quantity = 1\<rparr>]\<rparr>"

lemma wit_market_order:
  "length (xs_orders (backtest_update rat_pkg wit_strategy id ''r'' wit_market
     (NewExecutor (NewChecker (riskConfigOf wit_strategy) (Some NoopHaltStore) liveNamespace ''s1'' ())))) = 1"
proof -
  let ?c = "NewChecker (riskConfigOf wit_strategy) (Some NoopHaltStore) liveNamespace ''s1'' ()"
  have "snd (CanTrade rat_pkg ''A'' SideBuy 1 3 ?c) = None"
    by (simp add: CanTrade_def riskConfigOf_def NewChecker_def Let_def Halted_def wit_strategy_def
        probePersistedHalt_def NoopHaltStore_def checkPosition_def split: prod.split option.split)
  then obtain c where can: "CanTrade rat_pkg ''A'' SideBuy 1 3 ?c = (c, None)"
    by (cases "CanTrade rat_pkg ''A'' SideBuy 1 3 ?c") simp
  have fields: "update_fields rat_pkg ''r'' wit_market = wit_quote"
    by (simp add: update_fields_def wit_market_def wit_quote_def)
  obtain st where st: "st = NewExecutor ?c" by simp
  then have st0: "xs_pending st ''A'' = None" "xs_pos st ''A'' = 0" "xs_orders st = []" "xs_risk st = ?c"
    by (simp_all add: NewExecutor_def)
  have "backtest_update rat_pkg wit_strategy id ''r'' wit_market st =
      handleL2 rat_pkg wit_strategy id ''A'' (''1-0'', wit_quote) st"
    by (simp add: backtest_update_def fields) (simp add: wit_market_def)
  moreover have "length (xs_orders (handleL2 rat_pkg wit_strategy id ''A'' (''1-0'', wit_quote) st)) = 1"
    using can by (simp add: handleL2_branches st0 wit_quote_def decode_l2Values_exec time_ok_def
        wit_quote_buy l2_outcome_def wit_strategy_def [THEN arg_cong, of sc_TradeQty, simplified] Let_def)
  ultimately show ?thesis unfolding st by simp
qed

lemma paper_trading_mirrors_backtest_witness:
  "let st = backtest_update rat_pkg wit_strategy id ''r'' wit_market
     (NewExecutor (NewChecker (riskConfigOf wit_strategy) (Some NoopHaltStore) liveNamespace ''s1'' ()));
     lv = live_run rat_pkg wit_strategy (live_update rat_pkg (\<lambda>i n. i @ n) (\<lambda>i. wit_live_env) wit_market)
       (startLive wit_strategy NoopHaltStore () [''A''] None wit_result (wit_paper_db [])) in
   length (lv_orders lv) = 1 \<and> map order_core (xs_orders st) = map order_core (lv_orders lv)"
proof -
  have "ToUpper ''A'' = ''A''" by code_simp
  then have "\<forall>u \<in> set [wit_market]. update_ok u"
    by (simp add: wit_market_def update_ok_def time_ok_def)
  moreover have "\<not> sr_Recovered wit_result" "pd_errs (wit_paper_db []) = []"
    "ps_SessionID (sr_Session wit_result) = ''s1''"
    by (simp_all add: wit_result_def wit_paper_db_def)
  ultimately have orders: "map order_core (xs_orders (backtest_update rat_pkg wit_strategy id ''r'' wit_market
     (NewExecutor (NewChecker (riskConfigOf wit_strategy) (Some NoopHaltStore) liveNamespace ''s1'' ())))) =
   map order_core (lv_orders (live_run rat_pkg wit_strategy
     (live_update rat_pkg (\<lambda>i n. i @ n) (\<lambda>i. wit_live_env) wit_market)
     (startLive wit_strategy NoopHaltStore () [''A''] None wit_result (wit_paper_db []))))"
    using paper_trading_mirrors_backtest [where us = "[wit_market]" and result = wit_result
        and db = "wit_paper_db []" and sid = "\<lambda>i n. i @ n" and env = "\<lambda>i. wit_live_env"
        and symbols = "[''A'']" and m = None and cfg = wit_strategy and haltStore = NoopHaltStore and w = "()"
        and newOrderID = id and r = "''r''", OF rat_pkg_strings rat_pkg_text _ _ _ refl refl] by simp
  from map_eq_imp_length_eq [OF orders] wit_market_order orders show ?thesis unfolding Let_def by simp
qed

end
