(* ===== verification/Backtest_Flow.thy ===== *)
theory Backtest_Flow
  imports Recorded_Replay Backtest_Results Message_Flow
begin

text \<open>
  A backtest of one symbol from end to end: the replay engine over the recorded diffs
  (backtest/replay), its publisher (backtest/publisher), the executor (backtest/execution), the
  collector (backtest/collector), the result tables (backtest/repository) and the metrics
  (backtest/metrics). The abstract specification is \<open>strategyRun\<close>: the strategy applied to the tops
  of the recorded book, without streams, batches, wire formats or tables.
\<close>

section \<open>The strategy on the tops of a book\<close>

definition topEvent ::
  "string \<Rightarrow> time \<times> int64 \<times> 'd price_level list \<times> 'd price_level list \<Rightarrow> 'd exec_l2" where
  "topEvent r p = (case p of (t, u, bids, asks) \<Rightarrow>
     \<lparr>el_runID = r, el_EventTime = t, el_bids = bids, el_asks = asks\<rparr>)"

definition strategyStep ::
  "'d::linordered_idom decimal_pkg \<Rightarrow> 'd strategy_config \<Rightarrow> (string \<Rightarrow> string) \<Rightarrow> string \<Rightarrow> string \<Rightarrow>
   string \<times> time \<times> int64 \<times> 'd price_level list \<times> 'd price_level list \<Rightarrow>
   ('s, 'd) exec_state \<Rightarrow> ('s, 'd) exec_state" where
  "strategyStep D cfg newOrderID r s x st =
     (let ev = topEvent r (snd x) in
      case tradeDecision cfg (execImbalance D (el_bids ev) (el_asks ev) 10) (xs_pos st s) of
        None \<Rightarrow> st
      | Some sd \<Rightarrow> l2_outcome D cfg (newOrderID (fst x)) s ev sd st)"

definition strategyRun ::
  "'d::linordered_idom decimal_pkg \<Rightarrow> 'd strategy_config \<Rightarrow> (string \<Rightarrow> string) \<Rightarrow> string \<Rightarrow> string \<Rightarrow> string list \<Rightarrow>
   (time \<times> int64 \<times> 'd price_level list \<times> 'd price_level list) list \<Rightarrow> ('s, 'd) exec_state \<Rightarrow> ('s, 'd) exec_state" where
  "strategyRun D cfg newOrderID r s ids ps st = fold (strategyStep D cfg newOrderID r s) (zip ids ps) st"

lemma l2_outcome_orders:
  "xs_orders (l2_outcome D cfg i s ev sd st) = xs_orders st \<or>
   (\<exists>order. xs_orders (l2_outcome D cfg i s ev sd st) = xs_orders st @ [order] \<and> oe_RunID order = el_runID ev \<and>
      oe_OrderID order = i \<and> oe_EventTime order = el_EventTime ev \<and>
      oe_Type order = OrderTypeMarket \<and> oe_Status order = OrderStatusFilled \<and> oe_Side order = sd)"
  by (simp add: l2_outcome_def Let_def split: prod.split)

lemma l2_outcome_pending: "xs_pending st s = None \<Longrightarrow> xs_pending (l2_outcome D cfg i s ev sd st) s = None"
  by (simp add: l2_outcome_def Let_def split: prod.split)

text \<open>Between two tops nothing is in flight.\<close>

lemma strategyStep_pending:
  "xs_pending st = Map.empty \<Longrightarrow> xs_pending (strategyStep D cfg newOrderID r s x st) = Map.empty"
  by (simp add: strategyStep_def l2_outcome_def Let_def fun_upd_idem split: option.split prod.split)

lemma strategyRun_pending:
  "xs_pending st = Map.empty \<Longrightarrow> xs_pending (strategyRun D cfg newOrderID r s ids ps st) = Map.empty"
proof -
  have "xs_pending st = Map.empty \<Longrightarrow> xs_pending (fold (strategyStep D cfg newOrderID r s) xs st) = Map.empty" for xs
    by (induction xs arbitrary: st) (simp_all add: strategyStep_pending)
  then show "xs_pending st = Map.empty \<Longrightarrow> xs_pending (strategyRun D cfg newOrderID r s ids ps st) = Map.empty"
    by (simp add: strategyRun_def)
qed

text \<open>At most one order per top, under the top's id and time, in their order.\<close>

definition orderKey :: "'d order_event \<Rightarrow> string \<times> time" where
  "orderKey order = (oe_OrderID order, oe_EventTime order)"

lemma strategyStep_orders:
  "\<exists>new. xs_orders (strategyStep D cfg newOrderID r s x st) = xs_orders st @ new \<and>
     subseq (map orderKey new) [(newOrderID (fst x), fst (snd x))] \<and>
     (\<forall>order \<in> set new. oe_RunID order = r \<and> market_fill order)"
proof -
  let ?ev = "topEvent r (snd x)"
  have ev: "el_runID ?ev = r" "el_EventTime ?ev = fst (snd x)"
    by (simp_all add: topEvent_def split: prod.split)
  show ?thesis
  proof (cases "tradeDecision cfg (execImbalance D (el_bids ?ev) (el_asks ?ev) 10) (xs_pos st s)")
    case None
    then show ?thesis by (simp add: strategyStep_def Let_def)
  next
    case (Some sd)
    then have "sd = SideBuy \<or> sd = SideSell"
      by (auto simp: tradeDecision_def Let_def split: if_splits)
    with l2_outcome_orders [of D cfg "newOrderID (fst x)" s ?ev sd st] Some ev show ?thesis
      by (auto simp: strategyStep_def market_fill_def orderKey_def)
  qed
qed

lemma strategyRun_orders:
  "\<exists>new. xs_orders (fold (strategyStep D cfg newOrderID r s) xs st) = xs_orders st @ new \<and>
     subseq (map orderKey new) (map (\<lambda>x. (newOrderID (fst x), fst (snd x))) xs) \<and>
     (\<forall>order \<in> set new. oe_RunID order = r \<and> market_fill order)"
proof (induction xs arbitrary: st)
  case (Cons x xs)
  obtain new1 where new1: "xs_orders (strategyStep D cfg newOrderID r s x st) = xs_orders st @ new1"
    "subseq (map orderKey new1) [(newOrderID (fst x), fst (snd x))]"
    "\<forall>order \<in> set new1. oe_RunID order = r \<and> market_fill order"
    using strategyStep_orders by metis
  obtain new2 where new2: "xs_orders (fold (strategyStep D cfg newOrderID r s) (x # xs) st) =
      (xs_orders st @ new1) @ new2"
    "subseq (map orderKey new2) (map (\<lambda>x. (newOrderID (fst x), fst (snd x))) xs)"
    "\<forall>order \<in> set new2. oe_RunID order = r \<and> market_fill order"
    using Cons.IH [of "strategyStep D cfg newOrderID r s x st"] new1(1) by auto
  have "subseq (map orderKey (new1 @ new2)) (map (\<lambda>x. (newOrderID (fst x), fst (snd x))) (x # xs))"
    using list_emb_append_mono [OF new1(2) new2(2)] by simp
  then show ?case using new1(3) new2(1,3) by (intro exI [of _ "new1 @ new2"]) auto
qed simp

lemma subseq_sorted_wrt: "subseq xs ys \<Longrightarrow> sorted_wrt P ys \<Longrightarrow> sorted_wrt P xs"
  by (induction rule: list_emb.induct) (auto dest: list_emb_set)

lemma subseq_distinct: "subseq xs ys \<Longrightarrow> distinct ys \<Longrightarrow> distinct xs"
  by (induction rule: list_emb.induct) (auto dest: list_emb_set)

section \<open>The executor runs the strategy\<close>

text \<open>What the publisher adds for an event of the engine.\<close>

definition publishedFields :: "'d decimal_pkg \<Rightarrow> string \<Rightarrow> 'd l2_event \<Rightarrow> fields" where
  "publishedFields D ns e = xa_Values (BacktestPublishL2 D ns (l2_RunID e) (l2_Symbol e) (l2_EventTime e)
     (l2_LastUpdateID e) (l2_Bids e) (l2_Asks e))"

lemma decode_published:
  assumes "decimal_strings D" "decimal_text D" "time_ok (l2_EventTime e)"
  shows "decodeL2Event D (publishedFields D ns e) = Some (topEvent (l2_RunID e)
     (l2_EventTime e, l2_LastUpdateID e, l2_Bids e, l2_Asks e))"
  using assms by (simp add: publishedFields_def BacktestPublishL2_def xadd_def decode_l2Values_exec topEvent_def)

lemma fold_handleL2:
  assumes D: "decimal_strings D" "decimal_text D"
    and "map snd es = map (publishedFields D ns) l2s" and "xs_pending st s = None"
    and "\<forall>e \<in> set l2s. l2_RunID e = r \<and> time_ok (l2_EventTime e)"
  shows "fold (handleL2 D cfg newOrderID s) es st = fold (strategyStep D cfg newOrderID r s)
      (zip (map fst es) (map (\<lambda>e. (l2_EventTime e, l2_LastUpdateID e, l2_Bids e, l2_Asks e)) l2s)) st \<and>
    exec_reach D cfg newOrderID st (fold (handleL2 D cfg newOrderID s) es st)"
proof -
  have "fold (handleL2 D cfg newOrderID s) es st1 = fold (strategyStep D cfg newOrderID r s)
      (zip (map fst es) (map (\<lambda>e. (l2_EventTime e, l2_LastUpdateID e, l2_Bids e, l2_Asks e)) l2s)) st1 \<and>
    exec_reach D cfg newOrderID st (fold (handleL2 D cfg newOrderID s) es st1)"
    if "exec_reach D cfg newOrderID st st1" "xs_pending st1 s = None" for st1
    using that assms(3,5)
  proof (induction es arbitrary: l2s st1)
    case Nil
    then show ?case by simp
  next
    case (Cons x es)
    obtain e l2s' where l2s: "l2s = e # l2s'" "snd x = publishedFields D ns e"
      "map snd es = map (publishedFields D ns) l2s'"
      using Cons.prems(3) by (cases l2s) auto
    have e: "l2_RunID e = r" "time_ok (l2_EventTime e)" using Cons.prems(4) by (simp_all add: l2s(1))
    have step: "handleL2 D cfg newOrderID s x st1 = strategyStep D cfg newOrderID r s
        (fst x, l2_EventTime e, l2_LastUpdateID e, l2_Bids e, l2_Asks e) st1"
      using handleL2_branches [OF Cons.prems(2), of D cfg newOrderID x] decode_published [OF D e(2)]
      by (simp add: l2s(2) e(1) strategyStep_def Let_def cong: option.case_cong)
    have "xs_pending (handleL2 D cfg newOrderID s x st1) s = None"
      using Cons.prems(2) by (simp add: step strategyStep_def Let_def l2_outcome_pending split: option.split)
    note ih = Cons.IH [OF handleL2_reach [OF Cons.prems(1,2)] this l2s(3)]
    have "\<forall>e \<in> set l2s'. l2_RunID e = r \<and> time_ok (l2_EventTime e)" using Cons.prems(4) by (simp add: l2s(1))
    from ih [OF this, THEN conjunct1] ih [OF this, THEN conjunct2] show ?case by (simp add: l2s(1) step)
  qed
  from this [OF exec_start assms(4)] show ?thesis .
qed

lemma zip_keys:
  assumes "length xs = length ys"
  shows "map (\<lambda>x. f (fst x)) (zip xs ys) = map f xs" "map (\<lambda>x. g (snd x)) (zip xs ys) = map g ys"
  using assms by (induction xs ys rule: list_induct2) simp_all

text \<open>
  The executor of one symbol over the published replay ends in the state of the strategy on the
  recorded book; its orders are the run's, filled, of different ids when the ids of the entries
  give different ones, and in the order of the diffs.
\<close>

lemma executor_runs_strategy:
  fixes D :: "'d::linordered_idom decimal_pkg" and chk :: "('s, 'd) checker"
  assumes D: "decimal_strings D" "decimal_text D"
    and recorded: "nearest (rp_From rcfg) = Inr cp" "diffsBetween (se_CapturedAt cp) (rp_To rcfg) = Inr ds"
      "gaps_of None ds = []" "\<forall>d \<in> set ds. time_ok (de_EventTime d)"
    and replayed: "\<forall>i < length ds. quiet (envs i)"
      "replay D rcfg nearest diffsBetween sleep envs (NewEngine rcfg) = (rs, n, g, err)"
    and les: "stream_log les" "map snd les = map (publishedFields D ns) (l2_published (rp_calls rs))"
      "\<forall>r \<in> set lreads. xread_serves les r" "\<forall>r \<in> set ldrains. xrange_serves les 20 r"
      "length les < length ldrains"
    and ids: "inj_on newOrderID (fst ` set les)"
    and X: "X = strategyRun D cfg newOrderID (rp_RunID rcfg) (rp_Symbol rcfg) (map fst les)
      (tops D (rp_Depth rcfg) (LoadSnapshot D (Reset (New (rp_Symbol rcfg))) cp) ds) (NewExecutor chk)"
  shows "symbolLoop D cfg newOrderID (rp_Symbol rcfg) lreads ldrains (NewExecutor chk) = X \<and>
    exec_reach D cfg newOrderID (NewExecutor chk) X \<and>
    (\<forall>order \<in> set (xs_orders X). oe_RunID order = rp_RunID rcfg) \<and>
    distinct (map oe_OrderID (xs_orders X)) \<and> subseq (map oe_EventTime (xs_orders X)) (map de_EventTime ds)"
proof -
  let ?r = "rp_RunID rcfg" and ?s = "rp_Symbol rcfg" and ?l2s = "l2_published (rp_calls rs)"
  let ?tops = "tops D (rp_Depth rcfg) (LoadSnapshot D (Reset (New ?s)) cp) ds"
  have rs: "replay_published (rp_calls rs) = ?tops" "\<forall>e \<in> set ?l2s. l2_RunID e = ?r"
    using replay_tops [of nearest rcfg cp diffsBetween ds envs D sleep, OF recorded(1,2) replayed(1) recorded(3)]
      replayed(2) by auto
  have times: "map l2_EventTime ?l2s = map de_EventTime ds"
    using arg_cong [OF rs(1), of "map fst"] by (simp add: replay_published_def tops_times comp_def)
  have "time_ok (l2_EventTime e)" if "e \<in> set ?l2s" for e
  proof -
    have "l2_EventTime e \<in> set (map de_EventTime ds)" using that unfolding times [symmetric] by simp
    then show ?thesis using recorded(4) by auto
  qed
  with rs(2) have "\<forall>e \<in> set ?l2s. l2_RunID e = ?r \<and> time_ok (l2_EventTime e)" by simp
  moreover have "xs_pending (NewExecutor chk) ?s = None" by (simp add: NewExecutor_def)
  ultimately have both: "fold (handleL2 D cfg newOrderID ?s) les (NewExecutor chk) = X \<and>
    exec_reach D cfg newOrderID (NewExecutor chk) (fold (handleL2 D cfg newOrderID ?s) les (NewExecutor chk))"
    unfolding X strategyRun_def rs(1) [symmetric] replay_published_def by (intro fold_handleL2 [OF D les(2)])
  then have fold: "fold (handleL2 D cfg newOrderID ?s) les (NewExecutor chk) = X" by (rule conjunct1)
  with both have reach: "exec_reach D cfg newOrderID (NewExecutor chk) X" by simp
  have len: "length (map fst les) = length ?tops"
    using arg_cong [OF les(2), of length] by (simp add: rs(1) [symmetric] replay_published_def)
  obtain keys: "subseq (map orderKey (xs_orders X)) (map (\<lambda>x. (newOrderID (fst x), fst (snd x))) (zip (map fst les) ?tops))"
    and run: "\<forall>order \<in> set (xs_orders X). oe_RunID order = ?r"
    using strategyRun_orders [of D cfg newOrderID ?r ?s "zip (map fst les) ?tops" "NewExecutor chk"]
    by (auto simp: X strategyRun_def NewExecutor_def)
  have "subseq (map fst (map orderKey (xs_orders X))) (map newOrderID (map fst les))"
    using subseq_map [OF keys, of fst] zip_keys(1) [OF len, of newOrderID] by (simp add: comp_def)
  then have "subseq (map oe_OrderID (xs_orders X)) (map newOrderID (map fst les))"
    by (simp add: orderKey_def comp_def)
  moreover have "distinct (map newOrderID (map fst les))"
    using ids les(1) by (simp add: stream_log_def distinct_map comp_inj_on_iff)
  ultimately have "distinct (map oe_OrderID (xs_orders X))" by (rule subseq_distinct)
  moreover have "subseq (map oe_EventTime (xs_orders X)) (map de_EventTime ds)"
    using subseq_map [OF keys, of snd] zip_keys(2) [OF len, of fst] by (simp add: comp_def orderKey_def tops_times)
  ultimately show ?thesis
    using fold reach run symbolLoop_handles_all_once [OF les(1,3,4,5), of D cfg newOrderID ?s "NewExecutor chk"] by simp
qed

section \<open>From the recording to the metrics\<close>

text \<open>
  C4 (refinement): a backtest of one symbol over a recording without gaps, in which nothing fails, computes what
  the strategy does on the recorded book.
  The nearest checkpoint is found, the diffs after it are contiguous, and no sleep, publish or
  query fails; the replay engine's events are what the executor's stream holds, the
  executor's orders are what the orders stream
  holds, both streams cut into batches in any way, and the collector's writes go to the tables of
  a new run. Then the trades read back for the metrics are one for each order of the strategy on
  the tops of the recorded book, at its price and fee, sorted by their times, the
  equity points one for each with the portfolio value after it, and the collector's cash is the risk
  checker's equity. When moreover the times of the diffs rise strictly, trades and curve come in the order the
  strategy made them, and the metrics are those of these trades and of this curve (none, if their
  computation panics). Rows of one time come back in any order; and with several symbols the points are
  written in stream order but read back by event time (repository.go:342), so that the metrics
  are then not those of the curve in the order it was made.
\<close>

theorem backtest_is_strategy_on_recording:
  fixes D :: "'d::linordered_idom decimal_pkg" and created :: "('d, 'g) backtest_db"
  assumes D: "decimal_strings D" "decimal_text D" and P: "postgres P"
    and recorded: "nearest (rp_From rcfg) = Inr cp" "diffsBetween (se_CapturedAt cp) (rp_To rcfg) = Inr ds"
      "gaps_of None ds = []" "\<forall>d \<in> set ds. time_ok (de_EventTime d) \<and> micros (de_EventTime d)"
    and replayed: "\<forall>i < length ds. quiet (envs i)"
      "replay D rcfg nearest diffsBetween sleep envs (NewEngine rcfg) = (rs, n, g, err)"
    and les: "stream_log les" "map snd les = map (publishedFields D ns) (l2_published (rp_calls rs))"
      "\<forall>r \<in> set lreads. xread_serves les r" "\<forall>r \<in> set ldrains. xrange_serves les 20 r"
      "length les < length ldrains"
    and xs: "xs = symbolLoop D cfg newOrderID (rp_Symbol rcfg) lreads ldrains
        (NewExecutor (NewChecker (runRiskConfig cfg) store ns (rp_RunID rcfg) w))"
      "inj_on newOrderID (fst ` set les)" "0 < sc_TradeQty cfg"
    and oes: "stream_log oes" "map snd oes = map (\<lambda>order. xa_Values (publishOrder D key order)) (xs_orders xs)"
      "\<forall>r \<in> set oreads. xread_serves oes r" "\<forall>r \<in> set odrains. xrange_serves oes 100 r"
      "length oes < length odrains"
    and od: "od = ordersLoop D (sc_InitialCapital cfg) oreads odrains"
    and db: "fresh_run (rp_RunID rcfg) created" "db = persistCalls P (od_calls od) created"
    and ord: "orders_by tw_event_time orderedT" "orders_by ep_EventTime orderedE"
    and X: "X = strategyRun D cfg newOrderID (rp_RunID rcfg) (rp_Symbol rcfg) (map fst les)
      (tops D (rp_Depth rcfg) (LoadSnapshot D (Reset (New (rp_Symbol rcfg))) cp) ds)
      (NewExecutor (NewChecker (runRiskConfig cfg) store ns (rp_RunID rcfg) w))"
    and curve: "curve = point_path (newEquityTracker (sc_InitialCapital cfg)) (xs_orders X)"
  shows "\<exists>ts ps. snd (QueryTrades orderedT (rp_RunID rcfg) db) = Inr ts \<and>
     snd (QueryEquityPoints orderedE (rp_RunID rcfg) db) = Inr ps \<and>
     mset ts = mset (map trade_of (xs_orders X)) \<and> sorted (map tr_EventTime ts) \<and>
     mset ps = mset curve \<and> sorted (map ep_EventTime ps) \<and>
     et_cash (od_tracker od) = ck_equity (xs_risk X) \<and>
     (sorted_wrt (<) (map de_EventTime ds) \<longrightarrow> ts = map trade_of (xs_orders X) \<and> ps = curve \<and>
        map_option fst (ComputeRun D F (rp_RunID rcfg) (Inr ts) (Inr ps) werr) =
          map_option Some (computeMetrics D F (rp_RunID rcfg) (map trade_of (xs_orders X)) curve))"
proof -
  let ?c0 = "NewChecker (runRiskConfig cfg) store ns (rp_RunID rcfg) w"
  have "\<forall>d \<in> set ds. time_ok (de_EventTime d)" using recorded(4) by blast
  from executor_runs_strategy [of D nearest rcfg cp diffsBetween ds envs sleep rs n g err les ns lreads ldrains
      newOrderID X cfg ?c0, OF D recorded(1,2,3) this replayed les xs(2) X]
  have run: "xs = X" "exec_reach D cfg newOrderID (NewExecutor ?c0) X"
    "\<forall>order \<in> set (xs_orders X). oe_RunID order = rp_RunID rcfg"
    "distinct (map oe_OrderID (xs_orders X))" "subseq (map oe_EventTime (xs_orders X)) (map de_EventTime ds)"
    unfolding xs(1) by blast+
  have "oe_EventTime order \<in> set (map de_EventTime ds)" if "order \<in> set (xs_orders X)" for order
    using that list_emb_set [OF run(5), of "oe_EventTime order"] by auto
  with recorded(4) have times: "\<forall>order \<in> set (xs_orders X). time_ok (oe_EventTime order)"
    "\<forall>order \<in> set (xs_orders X). micros (oe_EventTime order)"
    by fastforce+
  have rising: "sorted_wrt (<) (map oe_EventTime (xs_orders X))" if "sorted_wrt (<) (map de_EventTime ds)"
    using run(5) that by (rule subseq_sorted_wrt)
  have cap: "sc_InitialCapital cfg = rc_InitialCapital (runRiskConfig cfg)" by (simp add: runRiskConfig_def)
  note accounts = executor_at_collector [OF D run(2) refl xs(3) times(1) oes(1) oes(2) [unfolded run(1)] oes(3-5)
      od [unfolded cap]]
  have "no_published X"
    by (simp add: X no_published_def strategyRun_pending NewExecutor_def)
  with accounts(2) have cash: "et_cash (od_tracker od) = ck_equity (xs_risk X)" by blast
  from metrics_are_of_the_stream [OF P db(1) oes(1,3-5) accounts(1) [symmetric] _ run(4) db(2) [unfolded od] ord,
      of F werr] run(3) times(2)
  show ?thesis using cash rising unfolding curve by auto
qed

text \<open>One diff that quotes both sides makes the strategy buy at the ask.\<close>

definition wit_empty :: "rat snapshot_event" where
  "wit_empty = wit_snap\<lparr>se_Bids := [], se_Asks := []\<rparr>"

definition wit_tick :: "rat diff_event" where
  "wit_tick = \<lparr>de_Symbol = ''BTCUSDT'', de_EventTime = 3000, de_FirstUpdateID = 11, de_FinalUpdateID = 12,
     de_Bids = [wit_level 99 3], de_Asks = [wit_level 101 1]\<rparr>"

definition wit_recording :: "rat replay_state" where
  "wit_recording = fst (replay rat_pkg Replay.wit_cfg (\<lambda>t. Inr wit_empty) (\<lambda>a b. Inr [wit_tick])
     (sleepFor SpeedAFAP (\<lambda>d. d)) (\<lambda>i. Replay.wit_env) (NewEngine Replay.wit_cfg))"

definition wit_events :: "(string \<times> fields) list" where
  "wit_events = map (\<lambda>e. (''1-0'', publishedFields rat_pkg ''bt'' e)) (l2_published (rp_calls wit_recording))"

abbreviation wit_executor :: "(unit, rat) exec_state" where
  "wit_executor \<equiv> NewExecutor (NewChecker (runRiskConfig wit_strategy) (Some NoopHaltStore) ''bt'' ''r1'' ())"

definition wit_run :: "(unit, rat) exec_state" where
  "wit_run = symbolLoop rat_pkg wit_strategy id ''BTCUSDT'' [\<lambda>i. XReadErr True]
     (replicate 2 (\<lambda>s. Some (take 20 (range_from wit_events s)))) wit_executor"

definition wit_entries :: "(string \<times> fields) list" where
  "wit_entries = map (\<lambda>order. (''1-0'', xa_Values (publishOrder rat_pkg ''bt:orders'' order))) (xs_orders wit_run)"

lemma wit_tops:
  "tops rat_pkg 5 (LoadSnapshot rat_pkg (Reset (New ''BTCUSDT'')) wit_empty) [wit_tick] =
     [(3000, 12, [wit_level 99 3], [wit_level 101 1])]"
proof -
  have str: "DFromString rat_pkg (DString rat_pkg x) = Some x" for x
    using rat_pkg_strings by (simp add: decimal_strings_def)
  show ?thesis
    by (simp add: wit_empty_def wit_snap_def wit_tick_def wit_level_def Let_def Apply_def LoadSnapshot_def
        Reset_def New_def loadSide_def applyLevel_def sortedLevels_def truncLevels_def parsedLevels_def
        map_filter_simps str)
qed

lemma wit_replayed:
  "replay rat_pkg Replay.wit_cfg (\<lambda>t. Inr wit_empty) (\<lambda>a b. Inr [wit_tick])
     (sleepFor SpeedAFAP (\<lambda>d. d)) (\<lambda>i. Replay.wit_env) (NewEngine Replay.wit_cfg) = (wit_recording, 1, 0, None)"
  "l2_published (rp_calls wit_recording) = [\<lparr>l2_RunID = ''r1'', l2_Symbol = ''BTCUSDT'', l2_EventTime = 3000,
     l2_LastUpdateID = 12, l2_Bids = [wit_level 99 3], l2_Asks = [wit_level 101 1]\<rparr>]"
proof -
  obtain st where st: "replay rat_pkg Replay.wit_cfg (\<lambda>t. Inr wit_empty) (\<lambda>a b. Inr [wit_tick])
     (sleepFor SpeedAFAP (\<lambda>d. d)) (\<lambda>i. Replay.wit_env) (NewEngine Replay.wit_cfg) = (st, 1, 0, None)"
    and calls: "replay_published (rp_calls st) = [(3000, 12, [wit_level 99 3], [wit_level 101 1])]"
      "\<forall>e \<in> set (l2_published (rp_calls st)). l2_RunID e = ''r1'' \<and> l2_Symbol e = ''BTCUSDT''"
    using replay_tops [of "\<lambda>t. Inr wit_empty" Replay.wit_cfg wit_empty "\<lambda>a b. Inr [wit_tick]" "[wit_tick]"
        "\<lambda>i. Replay.wit_env" rat_pkg "sleepFor SpeedAFAP (\<lambda>d. d)"]
    by (auto simp: Replay.wit_cfg_def wit_tops simp del: tops.simps)
  have rec: "wit_recording = st" unfolding wit_recording_def st by simp
  show "replay rat_pkg Replay.wit_cfg (\<lambda>t. Inr wit_empty) (\<lambda>a b. Inr [wit_tick])
     (sleepFor SpeedAFAP (\<lambda>d. d)) (\<lambda>i. Replay.wit_env) (NewEngine Replay.wit_cfg) = (wit_recording, 1, 0, None)"
    unfolding rec by (rule st)
  show "l2_published (rp_calls wit_recording) = [\<lparr>l2_RunID = ''r1'', l2_Symbol = ''BTCUSDT'', l2_EventTime = 3000,
     l2_LastUpdateID = 12, l2_Bids = [wit_level 99 3], l2_Asks = [wit_level 101 1]\<rparr>]"
    using calls by (auto simp: rec replay_published_def)
qed

definition wit_strategy_run :: "(unit, rat) exec_state" where
  "wit_strategy_run = strategyRun rat_pkg wit_strategy id ''r1'' ''BTCUSDT'' [''1-0'']
     (tops rat_pkg 5 (LoadSnapshot rat_pkg (Reset (New ''BTCUSDT'')) wit_empty) [wit_tick]) wit_executor"

lemma wit_strategy_orders:
  "xs_orders wit_strategy_run =
     [\<lparr>oe_RunID = ''r1'', oe_Symbol = ''BTCUSDT'', oe_EventTime = 3000, oe_OrderID = ''1-0'', oe_Side = SideBuy,
       oe_Type = OrderTypeMarket, oe_Price = 0, oe_Quantity = 1, oe_Status = OrderStatusFilled,
       oe_FillPrice = 101, oe_FillQty = 1, oe_Fee = 0, oe_SignalName = ''book_imbalance''\<rparr>]"
proof -
  let ?c = "NewChecker (runRiskConfig wit_strategy) (Some NoopHaltStore) ''bt'' ''r1'' ()"
  have "snd (CanTrade rat_pkg ''BTCUSDT'' SideBuy 1 3000 ?c) = None"
    by (simp add: CanTrade_def runRiskConfig_def wit_strategy_def NewChecker_def Let_def Halted_def
        probePersistedHalt_def NoopHaltStore_def checkPosition_def split: prod.split option.split)
  then obtain c where "CanTrade rat_pkg ''BTCUSDT'' SideBuy 1 3000 ?c = (c, None)"
    by (cases "CanTrade rat_pkg ''BTCUSDT'' SideBuy 1 3000 ?c") auto
  moreover have "\<lfloor>1 / 2 :: rat\<rfloor> = 0" by linarith
  ultimately show ?thesis
    by (simp add: wit_strategy_run_def wit_tops strategyRun_def strategyStep_def topEvent_def NewExecutor_def
      wit_quote_buy wit_level_def l2_outcome_def wit_strategy_def [THEN arg_cong, of sc_TradeQty, simplified]
      del: tops.simps)
     (simp add: wit_strategy_def ComputeFillPrice_def ComputeFee_def rat_pkg_def rat_div_def ten4_def Let_def)
qed

lemma wit_run_orders: "xs_orders wit_run = xs_orders wit_strategy_run"
proof -
  have "stream_log wit_events" "map snd wit_events = map (publishedFields rat_pkg ''bt'') (l2_published (rp_calls wit_recording))"
    by (simp_all add: wit_events_def wit_replayed(2) stream_log_def)
  then have "wit_run = strategyRun rat_pkg wit_strategy id ''r1'' ''BTCUSDT'' (map fst wit_events)
      (tops rat_pkg 5 (LoadSnapshot rat_pkg (Reset (New ''BTCUSDT'')) wit_empty) [wit_tick]) wit_executor"
    unfolding wit_run_def
    using executor_runs_strategy [OF rat_pkg_strings rat_pkg_text _ _ _ _ _ wit_replayed(1), where les = wit_events
        and ns = "''bt''" and ds = "[wit_tick]" and cp = wit_empty and newOrderID = id and cfg = wit_strategy
        and lreads = "[\<lambda>i. XReadErr True]" and chk = "NewChecker (runRiskConfig wit_strategy) (Some NoopHaltStore) ''bt'' ''r1'' ()"
        and ldrains = "replicate 2 (\<lambda>s. Some (take 20 (range_from wit_events s)))", OF _ _ _ _ _ _ _ _ _ _ _ refl]
    by (simp add: Replay.wit_cfg_def time_ok_def wit_tick_def xread_serves_def xrange_serves_def
        wit_events_def wit_replayed(2) del: tops.simps)
  then show ?thesis by (simp add: wit_strategy_run_def wit_events_def wit_replayed(2) del: tops.simps)
qed

lemma wit_stream:
  assumes "es = map (Pair ''1-0'') [v]"
  shows "stream_log es" "\<forall>r \<in> set [\<lambda>i. XReadErr True]. xread_serves es r"
    "\<forall>r \<in> set (replicate 2 (\<lambda>s. Some (take n (range_from es s)))). xrange_serves es n r"
    "length es < length (replicate 2 (\<lambda>s. Some (take n (range_from es s))))"
  by (simp_all add: assms stream_log_def xread_serves_def xrange_serves_def)

lemma backtest_is_strategy_on_recording_witness:
  "\<exists>ts. snd (QueryTrades (sort_key tw_event_time) ''r1'' (persistCalls micro_pg (od_calls (ordersLoop rat_pkg 1000
      [\<lambda>i. XReadErr True] (replicate 2 (\<lambda>s. Some (take 100 (range_from wit_entries s)))))) wit_bdb)) = Inr ts \<and>
     ts = map trade_of (xs_orders wit_strategy_run) \<and> length ts = 1"
proof -
  have hyps: "gaps_of None [wit_tick] = []" "\<forall>d \<in> set [wit_tick]. time_ok (de_EventTime d) \<and> micros (de_EventTime d)"
    "\<forall>i < length [wit_tick]. quiet Replay.wit_env"
    by (simp_all add: wit_tick_def time_ok_def micros_def)
  have les: "wit_events = map (Pair ''1-0'') [publishedFields rat_pkg ''bt'' (hd (l2_published (rp_calls wit_recording)))]"
    "map snd wit_events = map (publishedFields rat_pkg ''bt'') (l2_published (rp_calls wit_recording))"
    by (simp_all add: wit_events_def wit_replayed(2))
  have oes: "wit_entries = map (Pair ''1-0'') [xa_Values (publishOrder rat_pkg ''bt:orders'' (hd (xs_orders wit_run)))]"
    "map snd wit_entries = map (\<lambda>order. xa_Values (publishOrder rat_pkg ''bt:orders'' order)) (xs_orders wit_run)"
    by (simp_all add: wit_entries_def wit_run_orders wit_strategy_orders)
  have cfg: "rp_RunID Replay.wit_cfg = ''r1''" "rp_Symbol Replay.wit_cfg = ''BTCUSDT''" "rp_Depth Replay.wit_cfg = 5"
    "inj_on id (fst ` set wit_events)" "map fst wit_events = [''1-0'']"
    by (simp_all add: Replay.wit_cfg_def les(1))
  have strategy: "sc_InitialCapital wit_strategy = 1000" "0 < sc_TradeQty wit_strategy"
    by (simp_all add: wit_strategy_def)
  have fresh: "fresh_run ''r1'' wit_bdb" by (simp add: fresh_run_def) (simp add: wit_bdb_def)
  note run = backtest_is_strategy_on_recording [OF rat_pkg_strings rat_pkg_text postgres_micro_pg refl refl hyps
      wit_replayed(1) wit_stream(1) [OF les(1)] les(2) wit_stream(2,3,4) [OF les(1)], unfolded cfg(1-3),
      OF wit_run_def cfg(4) strategy(2) wit_stream(1) [OF oes(1)] oes(2) wit_stream(2,3,4) [OF oes(1)] refl fresh refl
        orders_by_sort_key orders_by_sort_key, unfolded cfg(5), OF wit_strategy_run_def refl]
  show ?thesis using run [where F = undefined and werr = None] by (auto simp: strategy wit_strategy_orders)
qed

end
