(* ===== verification/Feed.thy ===== *)
theory Feed
  imports Wire
begin

text \<open>
  The JSON the exchange sends: the frames of the combined depth stream (the structs of
  engine/stream/stream.go) and the response of the depth endpoint (engine/fetcher/fetcher.go), read
  into structs as \<open>json.Unmarshal\<close> does: a key selects the field with exactly its name, otherwise
  the first whose name is the same but for case; unknown keys are skipped; null leaves a field as
  it is; a value of another type is an error, which both callers treat like a syntax error. A
  repeated array replaces the one before (Go would merge its nulls with the earlier one).
\<close>

section \<open>Struct fields\<close>

text \<open>
  \<open>foldName\<close>: letters are compared in upper case; the Kelvin sign (U+212A) and the long s (U+017F)
  are the only other characters that fold to ASCII.
\<close>

fun foldName :: "string \<Rightarrow> string" where
  "foldName [] = []"
| "foldName (c # cs) =
     (if c = CHR 0xC5 \<and> take 1 cs = [CHR 0xBF] then CHR ''S'' # foldName (drop 1 cs)
      else if c = CHR 0xE2 \<and> take 2 cs = [CHR 0x84, CHR 0xAA] then CHR ''K'' # foldName (drop 2 cs)
      else toUpperByte c # foldName cs)"

definition matchField :: "string list \<Rightarrow> string \<Rightarrow> string option" where
  "matchField names key =
     (if key \<in> set names then Some key else find (\<lambda>n. foldName n = foldName key) names)"

text \<open>The conversions to the types of the fields, with the value the field has.\<close>

definition intoString :: "string \<Rightarrow> json \<Rightarrow> string option" where
  "intoString old v = (case v of JString s \<Rightarrow> Some s | JNull \<Rightarrow> Some old | _ \<Rightarrow> None)"

definition intoInt64 :: "int64 \<Rightarrow> json \<Rightarrow> int64 option" where
  "intoInt64 old v =
     (case v of
        JNumber n \<Rightarrow> (case ParseInt n of (i, err) \<Rightarrow> if err then None else Some (word_of_int i))
      | JNull \<Rightarrow> Some old
      | _ \<Rightarrow> None)"

definition intoStrings :: "json \<Rightarrow> string list option" where
  "intoStrings v = do { vs \<leftarrow> elementsOf v; traverse stringOf vs }"

definition intoLevels :: "json \<Rightarrow> string list list option" where
  "intoLevels v = do { vs \<leftarrow> elementsOf v; traverse intoStrings vs }"

text \<open>An object into a struct, one member after the other.\<close>

fun intoStruct :: "('s \<Rightarrow> string \<Rightarrow> json \<Rightarrow> 's option) \<Rightarrow> string list \<Rightarrow> 's \<Rightarrow> (string \<times> json) list \<Rightarrow> 's option" where
  "intoStruct set_field names s [] = Some s"
| "intoStruct set_field names s ((k, v) # kvs) = do {
     s' \<leftarrow> (case matchField names k of None \<Rightarrow> Some s | Some f \<Rightarrow> set_field s f v);
     intoStruct set_field names s' kvs}"

definition intoObject :: "('s \<Rightarrow> string \<Rightarrow> json \<Rightarrow> 's option) \<Rightarrow> string list \<Rightarrow> 's \<Rightarrow> json \<Rightarrow> 's option" where
  "intoObject set_field names s v =
     (case v of JNull \<Rightarrow> Some s | JObject kvs \<Rightarrow> intoStruct set_field names s kvs | _ \<Rightarrow> None)"

section \<open>Depth frames\<close>

record raw_diff =
  rw_EventType :: string
  rw_EventTimeMS :: int64
  rw_Symbol :: string
  rw_FirstUpdateID :: int64
  rw_FinalUpdateID :: int64
  rw_Bids :: "string list list"
  rw_Asks :: "string list list"

record raw_event =
  re_Stream :: string
  re_Data :: raw_diff

definition zeroRaw :: raw_event where
  "zeroRaw = \<lparr>re_Stream = [], re_Data = \<lparr>rw_EventType = [], rw_EventTimeMS = 0, rw_Symbol = [],
     rw_FirstUpdateID = 0, rw_FinalUpdateID = 0, rw_Bids = [], rw_Asks = []\<rparr>\<rparr>"

definition payloadNames :: "string list" where
  "payloadNames = [''e'', ''E'', ''s'', ''U'', ''u'', ''b'', ''a'']"

definition setPayload :: "raw_diff \<Rightarrow> string \<Rightarrow> json \<Rightarrow> raw_diff option" where
  "setPayload r f v =
     (if f = ''e'' then map_option (\<lambda>x. r\<lparr>rw_EventType := x\<rparr>) (intoString (rw_EventType r) v)
      else if f = ''E'' then map_option (\<lambda>x. r\<lparr>rw_EventTimeMS := x\<rparr>) (intoInt64 (rw_EventTimeMS r) v)
      else if f = ''s'' then map_option (\<lambda>x. r\<lparr>rw_Symbol := x\<rparr>) (intoString (rw_Symbol r) v)
      else if f = ''U'' then map_option (\<lambda>x. r\<lparr>rw_FirstUpdateID := x\<rparr>) (intoInt64 (rw_FirstUpdateID r) v)
      else if f = ''u'' then map_option (\<lambda>x. r\<lparr>rw_FinalUpdateID := x\<rparr>) (intoInt64 (rw_FinalUpdateID r) v)
      else if f = ''b'' then map_option (\<lambda>x. r\<lparr>rw_Bids := x\<rparr>) (intoLevels v)
      else map_option (\<lambda>x. r\<lparr>rw_Asks := x\<rparr>) (intoLevels v))"

definition setEvent :: "raw_event \<Rightarrow> string \<Rightarrow> json \<Rightarrow> raw_event option" where
  "setEvent r f v =
     (if f = ''stream'' then map_option (\<lambda>x. r\<lparr>re_Stream := x\<rparr>) (intoString (re_Stream r) v)
      else map_option (\<lambda>x. r\<lparr>re_Data := x\<rparr>) (intoObject setPayload payloadNames (re_Data r) v))"

definition unmarshalFrame :: "string \<Rightarrow> raw_event option" where
  "unmarshalFrame bytes = do {
     v \<leftarrow> parseJSON bytes;
     intoObject setEvent [''stream'', ''data''] zeroRaw v}"

section \<open>The depth endpoint\<close>

record depth_response =
  dr_LastUpdateID :: int64
  dr_Bids :: "string list list"
  dr_Asks :: "string list list"

definition setDepth :: "depth_response \<Rightarrow> string \<Rightarrow> json \<Rightarrow> depth_response option" where
  "setDepth r f v =
     (if f = ''lastUpdateId'' then map_option (\<lambda>x. r\<lparr>dr_LastUpdateID := x\<rparr>) (intoInt64 (dr_LastUpdateID r) v)
      else if f = ''bids'' then map_option (\<lambda>x. r\<lparr>dr_Bids := x\<rparr>) (intoLevels v)
      else map_option (\<lambda>x. r\<lparr>dr_Asks := x\<rparr>) (intoLevels v))"

definition unmarshalDepth :: "string \<Rightarrow> depth_response option" where
  "unmarshalDepth bytes = do {
     v \<leftarrow> parseJSON bytes;
     intoObject setDepth [''lastUpdateId'', ''bids'', ''asks'']
       \<lparr>dr_LastUpdateID = 0, dr_Bids = [], dr_Asks = []\<rparr> v}"

section \<open>What the exchange documents\<close>

text \<open>
  A depth update in the exchange's format: event type, event time, symbol, first and final id,
  bids and asks, the latter as arrays of pairs of strings.
\<close>

definition levelsValue :: "string list list \<Rightarrow> json" where
  "levelsValue ls = JArray (map (\<lambda>l. JArray (map JString l)) ls)"

definition intValue :: "int64 \<Rightarrow> json" where
  "intValue i = JNumber (formatInt (sint i))"

definition payloadValue :: "raw_diff \<Rightarrow> json" where
  "payloadValue r = JObject [(''e'', JString (rw_EventType r)), (''E'', intValue (rw_EventTimeMS r)),
     (''s'', JString (rw_Symbol r)), (''U'', intValue (rw_FirstUpdateID r)),
     (''u'', intValue (rw_FinalUpdateID r)), (''b'', levelsValue (rw_Bids r)),
     (''a'', levelsValue (rw_Asks r))]"

definition frameText :: "raw_event \<Rightarrow> string" where
  "frameText e = marshal (JObject [(''stream'', JString (re_Stream e)), (''data'', payloadValue (re_Data e))])"

definition depthText :: "depth_response \<Rightarrow> string" where
  "depthText r = marshal (JObject [(''lastUpdateId'', intValue (dr_LastUpdateID r)),
     (''bids'', levelsValue (dr_Bids r)), (''asks'', levelsValue (dr_Asks r))])"

definition levels_ok :: "string list list \<Rightarrow> bool" where
  "levels_ok ls \<longleftrightarrow> (\<forall>l \<in> set ls. \<forall>s \<in> set l. validUTF8 s)"

definition frame_ok :: "raw_event \<Rightarrow> bool" where
  "frame_ok e \<longleftrightarrow> validUTF8 (re_Stream e) \<and> validUTF8 (rw_EventType (re_Data e)) \<and>
     validUTF8 (rw_Symbol (re_Data e)) \<and> levels_ok (rw_Bids (re_Data e)) \<and> levels_ok (rw_Asks (re_Data e))"

lemma digits_formatNat: "\<forall>c \<in> set (formatNat n). isDigitJ c"
proof (induction n rule: formatNat.induct)
  case (1 n)
  have d: "isDigitJ (digitByte k)" if "k < 10" for k
    using that by (simp add: isDigitJ_def byteBetween_def of_char_digitByte)
  show ?case
    by (subst formatNat.simps) (use 1 d in \<open>auto simp: Ball_def\<close>)
qed

lemma formatNat_leading: "hd (formatNat n) = CHR ''0'' \<Longrightarrow> formatNat n = ''0''"
proof (induction n rule: formatNat.induct)
  case (1 n)
  have d: "digitByte k = CHR ''0'' \<longleftrightarrow> k = 0" if "k < 10" for k
  proof -
    have "digitByte k = CHR ''0'' \<longleftrightarrow> (of_char (digitByte k) :: nat) = of_char (CHR ''0'')"
      by (simp only: of_char_eq_iff)
    then show ?thesis using that by (simp add: of_char_digitByte)
  qed
  show ?case
  proof (cases "n < 10")
    case True
    then show ?thesis using "1.prems" d [of n] by (simp add: formatNat.simps [of n]) (simp add: formatNat.simps)
  next
    case False
    then have "formatNat n = formatNat (n div 10) @ [digitByte (n mod 10)]"
      by (simp add: formatNat.simps [of n])
    with "1.prems" have "hd (formatNat (n div 10)) = CHR ''0''" by simp
    with 1 False have z: "formatNat (n div 10) = ''0''" by simp
    have "parseDigits 0 (formatNat (n div 10)) = Some (n div 10)"
      using parseDigits_formatNat_acc [of 0 "n div 10"] by simp
    with z have "n div 10 = 0" by simp
    with False show ?thesis by simp
  qed
qed

lemma lexNumber_formatNat: "lexSign ''-'' s = (sg, formatNat n) \<Longrightarrow> lexNumber s = Some (sg @ formatNat n, [])"
proof -
  assume sg: "lexSign ''-'' s = (sg, formatNat n)"
  obtain c cs where c: "formatNat n = c # cs" by (cases "formatNat n") auto
  have "takeWhile isDigitJ (formatNat n) = formatNat n" "dropWhile isDigitJ (formatNat n) = []"
    using digits_formatNat [of n] by (simp_all add: takeWhile_eq_all_conv)
  then have "lexDigits (formatNat n) = Some (formatNat n, [])" by (simp only: lexDigits_def) simp
  moreover have "cs = []" if "c = CHR ''0''" using formatNat_leading [of n] that c by simp
  ultimately have "lexInt (formatNat n) = Some (formatNat n, [])" by (auto simp: lexInt_def c)
  with sg show ?thesis by (simp add: lexNumber_def lexFrac_def lexExp_def)
qed

lemma lexNumber_formatInt: "lexNumber (formatInt i) = Some (formatInt i, [])"
proof (cases "i < 0")
  case True
  then show ?thesis
    using lexNumber_formatNat [of "formatInt i" "''-''" "nat (- i)"] by (simp add: formatInt_def lexSign_def)
next
  case False
  have "hd (formatNat (nat i)) \<noteq> CHR ''-''" using hd_formatNat [of "nat i"] by auto
  then have "lexSign ''-'' (formatNat (nat i)) = ([], formatNat (nat i))"
    by (cases "formatNat (nat i)") (simp_all add: lexSign_def)
  with False show ?thesis using lexNumber_formatNat [of "formatInt i" "[]" "nat i"] by (simp add: formatInt_def)
qed

lemma intoInt64_intValue [simp]: "intoInt64 old (intValue i) = Some i"
  by (simp add: intoInt64_def intValue_def ParseInt_int64)

lemma intoString_JString [simp]: "intoString old (JString s) = Some s"
  by (simp add: intoString_def)

lemma intoLevels_levelsValue [simp]: "intoLevels (levelsValue ls) = Some ls"
proof -
  have "intoStrings (JArray (map JString l)) = Some l" for l
    using traverse_map [of l stringOf JString id] by (simp add: intoStrings_def elementsOf_def stringOf_def)
  then show ?thesis
    using traverse_map [of ls intoStrings "\<lambda>l. JArray (map JString l)" id]
    by (simp add: intoLevels_def levelsValue_def elementsOf_def)
qed

lemma jsonOk_intValue [simp]: "jsonOk (intValue i)" "jsonDepth (intValue i) = 0"
  by (simp_all add: intValue_def lexNumber_formatInt)

lemma jsonOk_levelsValue [simp]: "jsonOk (levelsValue ls) = levels_ok ls"
  by (simp add: levelsValue_def levels_ok_def)

lemma jsonDepth_levelsValue: "jsonDepth (levelsValue ls) \<le> 2"
proof -
  have one: "fold max (map jsonDepth (map JString l)) 0 \<le> 0" for l
    by (subst fold_max_le) auto
  have "fold max (map jsonDepth (map (\<lambda>l. JArray (map JString l)) ls)) 0 \<le> 1"
    by (subst fold_max_le) (use one in auto)
  then show ?thesis by (simp add: levelsValue_def)
qed

lemma unmarshal_frameText:
  assumes "frame_ok e"
  shows "unmarshalFrame (frameText e) = Some e"
proof -
  let ?v = "JObject [(''stream'', JString (re_Stream e)), (''data'', payloadValue (re_Data e))]"
  have "jsonOk ?v" using assms by (auto simp: frame_ok_def payloadValue_def asciiText_valid byteBetween_def)
  moreover have "jsonDepth ?v \<le> maxNestingDepth"
    using jsonDepth_levelsValue [of "rw_Bids (re_Data e)"] jsonDepth_levelsValue [of "rw_Asks (re_Data e)"]
    by (simp add: payloadValue_def maxNestingDepth_def)
  ultimately have "parseJSON (frameText e) = Some ?v"
    unfolding frameText_def by (rule parseJSON_marshal)
  then show ?thesis
    by (simp add: unmarshalFrame_def intoObject_def payloadValue_def matchField_def payloadNames_def
        setEvent_def setPayload_def zeroRaw_def)
qed

lemma unmarshal_depthText:
  assumes "levels_ok (dr_Bids r)" and "levels_ok (dr_Asks r)"
  shows "unmarshalDepth (depthText r) = Some r"
proof -
  let ?v = "JObject [(''lastUpdateId'', intValue (dr_LastUpdateID r)),
     (''bids'', levelsValue (dr_Bids r)), (''asks'', levelsValue (dr_Asks r))]"
  have "jsonOk ?v" using assms by (auto simp: asciiText_valid byteBetween_def)
  moreover have "jsonDepth ?v \<le> maxNestingDepth"
    using jsonDepth_levelsValue [of "dr_Bids r"] jsonDepth_levelsValue [of "dr_Asks r"]
    by (simp add: maxNestingDepth_def)
  ultimately have "parseJSON (depthText r) = Some ?v"
    unfolding depthText_def by (rule parseJSON_marshal)
  then show ?thesis
    by (simp add: unmarshalDepth_def intoObject_def matchField_def setDepth_def)
qed

end
