(* ===== verification/Settings.thy ===== *)
theory Settings
  imports Feed
begin

text \<open>
  What the services read before they serve: the configuration loaders (engine/execution/config,
  engine/signals/config, engine/backtest/config and loadConfig of engine/cmd/erebor-ingest/main.go),
  the environment (requireEnv), the loggers and the answers of the health endpoints.

  The viper library is outside: a loader is the list of the calls it makes on a viper object, and
  \<open>viper_pkg\<close> says what reading the file and decoding into the struct give. A struct is decoded
  by the dotted keys its \<open>mapstructure\<close> tags spell, one component of \<open>settings\<close> per type of field.
  \<open>viper_precedence\<close> is what viper documents of a bound, defaulted key.
\<close>

section \<open>The viper object\<close>

datatype viper_value = ViperString string | ViperInt int

datatype viper_call =
    SetConfigFile string
  | SetDefault string viper_value
  | BindEnv string string

record symbol_config =
  sy_Name :: string
  sy_DepthLimit :: int
  sy_CheckpointInterval :: duration
  sy_CheckpointDiffThreshold :: int
  sy_MaxBufferSize :: int

record settings =
  st_string :: "string \<Rightarrow> string"
  st_int :: "string \<Rightarrow> int"
  st_strings :: "string \<Rightarrow> string list"
  st_symbols :: "string \<Rightarrow> symbol_config list"

record viper_pkg =
  vk_ReadInConfig :: "viper_call list \<Rightarrow> string option"
  vk_Unmarshal :: "viper_call list \<Rightarrow> string + settings"

type_synonym environment = "string \<Rightarrow> string"

text \<open>The variable bound to a key, and the default set for it, by the last such call.\<close>

fun boundVar :: "viper_call list \<Rightarrow> string \<Rightarrow> string option" where
  "boundVar [] key = None"
| "boundVar (BindEnv k v # cs) key =
     (case boundVar cs key of Some w \<Rightarrow> Some w | None \<Rightarrow> if k = key then Some v else None)"
| "boundVar (SetDefault k v # cs) key = boundVar cs key"
| "boundVar (SetConfigFile p # cs) key = boundVar cs key"

fun defaultOf :: "viper_call list \<Rightarrow> string \<Rightarrow> viper_value option" where
  "defaultOf [] key = None"
| "defaultOf (SetDefault k v # cs) key =
     (case defaultOf cs key of Some w \<Rightarrow> Some w | None \<Rightarrow> if k = key then Some v else None)"
| "defaultOf (BindEnv k v # cs) key = defaultOf cs key"
| "defaultOf (SetConfigFile p # cs) key = defaultOf cs key"

text \<open>
  The documented precedence for a field of type string: a bound variable that is not empty, then
  the file (\<open>file path key\<close>), then the default, then the zero value.
\<close>

definition effective ::
  "environment \<Rightarrow> (string \<rightharpoonup> string) \<Rightarrow> viper_call list \<Rightarrow> string \<Rightarrow> string" where
  "effective getenv file calls key =
     (let v = (case boundVar calls key of None \<Rightarrow> [] | Some var \<Rightarrow> getenv var) in
      if v \<noteq> [] then v
      else case file key of
             Some s \<Rightarrow> s
           | None \<Rightarrow> (case defaultOf calls key of Some (ViperString s) \<Rightarrow> s | _ \<Rightarrow> []))"

definition viper_precedence ::
  "viper_pkg \<Rightarrow> environment \<Rightarrow> (string \<Rightarrow> string \<rightharpoonup> string) \<Rightarrow> bool" where
  "viper_precedence V getenv file \<longleftrightarrow>
     (\<forall>path calls s key. vk_Unmarshal V (SetConfigFile path # calls) = Inr s \<longrightarrow>
        st_string s key = effective getenv (file path) (SetConfigFile path # calls) key)"

section \<open>The loaders\<close>

text \<open>\<open>ReadInConfig\<close> and \<open>Unmarshal\<close>, in this order, as every loader calls them.\<close>

definition readAndUnmarshal :: "viper_pkg \<Rightarrow> viper_call list \<Rightarrow> string + settings" where
  "readAndUnmarshal V calls =
     (case vk_ReadInConfig V calls of
        Some err \<Rightarrow> Inl err
      | None \<Rightarrow> vk_Unmarshal V calls)"

record log_config =
  lg_Level :: string
  lg_FileLevel :: string
  lg_FilePath :: string

definition logConfig :: "settings \<Rightarrow> log_config" where
  "logConfig s = \<lparr>lg_Level = st_string s ''log.level'', lg_FileLevel = st_string s ''log.file_level'',
     lg_FilePath = st_string s ''log.file_path''\<rparr>"

text \<open>engine/execution/config/config.go.\<close>

record execution_config =
  xc_Symbols :: "string list"
  xc_StrategyConfig :: string
  xc_RedisAddr :: string
  xc_RedisPassword :: string
  xc_Log :: log_config
  xc_HealthAddr :: string

definition executionCalls :: "string \<Rightarrow> viper_call list" where
  "executionCalls path =
     [SetConfigFile path,
      SetDefault ''strategy_config'' (ViperString ''{}''),
      SetDefault ''redis.addr'' (ViperString ''localhost:6379''),
      SetDefault ''log.level'' (ViperString ''info''),
      SetDefault ''log.file_level'' (ViperString ''debug''),
      SetDefault ''health.addr'' (ViperString '':8082''),
      BindEnv ''redis.addr'' ''REDIS_ADDR'',
      BindEnv ''redis.password'' ''REDIS_PASSWORD'']"

definition executionLoad :: "viper_pkg \<Rightarrow> string \<Rightarrow> string + execution_config" where
  "executionLoad V path =
     (case readAndUnmarshal V (executionCalls path) of
        Inl err \<Rightarrow> Inl err
      | Inr s \<Rightarrow> Inr \<lparr>xc_Symbols = st_strings s ''symbols'',
          xc_StrategyConfig = st_string s ''strategy_config'',
          xc_RedisAddr = st_string s ''redis.addr'', xc_RedisPassword = st_string s ''redis.password'',
          xc_Log = logConfig s, xc_HealthAddr = st_string s ''health.addr''\<rparr>)"

text \<open>engine/signals/config/config.go.\<close>

record signals_config =
  gc_Symbols :: "string list"
  gc_StreamNamespace :: string
  gc_SignalDepth :: int
  gc_RedisAddr :: string
  gc_RedisPassword :: string
  gc_Log :: log_config
  gc_HealthAddr :: string

definition signalsCalls :: "string \<Rightarrow> viper_call list" where
  "signalsCalls path =
     [SetConfigFile path,
      SetDefault ''stream_namespace'' (ViperString ''erebor:live''),
      SetDefault ''signal_depth'' (ViperInt 10),
      SetDefault ''redis.addr'' (ViperString ''localhost:6379''),
      SetDefault ''log.level'' (ViperString ''info''),
      SetDefault ''log.file_level'' (ViperString ''debug''),
      SetDefault ''health.addr'' (ViperString '':8080''),
      BindEnv ''redis.addr'' ''REDIS_ADDR'',
      BindEnv ''redis.password'' ''REDIS_PASSWORD'',
      BindEnv ''stream_namespace'' ''STREAM_NAMESPACE'']"

definition signalsLoad :: "viper_pkg \<Rightarrow> string \<Rightarrow> string + signals_config" where
  "signalsLoad V path =
     (case readAndUnmarshal V (signalsCalls path) of
        Inl err \<Rightarrow> Inl err
      | Inr s \<Rightarrow> Inr \<lparr>gc_Symbols = st_strings s ''symbols'',
          gc_StreamNamespace = st_string s ''stream_namespace'',
          gc_SignalDepth = st_int s ''signal_depth'',
          gc_RedisAddr = st_string s ''redis.addr'', gc_RedisPassword = st_string s ''redis.password'',
          gc_Log = logConfig s, gc_HealthAddr = st_string s ''health.addr''\<rparr>)"

text \<open>\<open>loadConfig\<close> of the ingest service; the address of Redis has no default.\<close>

record app_config =
  ac_WebSocketBaseURL :: string
  ac_RESTBaseURL :: string
  ac_Symbols :: "symbol_config list"
  ac_RedisAddr :: string
  ac_RedisPassword :: string
  ac_Log :: log_config
  ac_HealthAddr :: string

definition ingestCalls :: "string \<Rightarrow> viper_call list" where
  "ingestCalls path =
     [SetConfigFile path,
      SetDefault ''binance.websocket_base_url'' (ViperString ''wss://stream.binance.com:9443''),
      SetDefault ''binance.rest_base_url'' (ViperString ''https://api.binance.com''),
      SetDefault ''log.level'' (ViperString ''info''),
      SetDefault ''health.addr'' (ViperString '':8080''),
      BindEnv ''redis.addr'' ''REDIS_ADDR'',
      BindEnv ''redis.password'' ''REDIS_PASSWORD'']"

definition loadConfig :: "viper_pkg \<Rightarrow> string \<Rightarrow> string + app_config" where
  "loadConfig V path =
     (case readAndUnmarshal V (ingestCalls path) of
        Inl err \<Rightarrow> Inl err
      | Inr s \<Rightarrow> Inr \<lparr>ac_WebSocketBaseURL = st_string s ''binance.websocket_base_url'',
          ac_RESTBaseURL = st_string s ''binance.rest_base_url'', ac_Symbols = st_symbols s ''symbols'',
          ac_RedisAddr = st_string s ''redis.addr'', ac_RedisPassword = st_string s ''redis.password'',
          ac_Log = logConfig s, ac_HealthAddr = st_string s ''health.addr''\<rparr>)"

text \<open>engine/backtest/config/config.go reads the environment only.\<close>

record backtest_config =
  bc_TimescaleDSN :: string
  bc_RedisAddr :: string
  bc_RedisPassword :: string

definition backtestLoad :: "environment \<Rightarrow> string + backtest_config" where
  "backtestLoad getenv =
     (let dsn = getenv ''TIMESCALE_DSN'' in
      if dsn = [] then Inl ''TIMESCALE_DSN environment variable is required''
      else let a = getenv ''REDIS_ADDR'';
               addr = (if a = [] then ''localhost:6379'' else a)
           in Inr \<lparr>bc_TimescaleDSN = dsn, bc_RedisAddr = addr,
                bc_RedisPassword = getenv ''REDIS_PASSWORD''\<rparr>)"

section \<open>The environment\<close>

text \<open>\<open>requireEnv\<close> of the ingest service, and the one of the trading service, which is fatal.\<close>

definition requireEnvs :: "environment \<Rightarrow> string list \<Rightarrow> string option" where
  "requireEnvs getenv keys =
     (let missing = filter (\<lambda>k. getenv k = []) keys in
      if 0 < length missing
      then Some (''missing required environment variables: '' @ Join missing '', '')
      else None)"

definition requireEnv :: "environment \<Rightarrow> string \<Rightarrow> string option" where
  "requireEnv getenv key = (let v = getenv key in if v = [] then None else Some v)"

section \<open>Loggers\<close>

text \<open>
  A logger is the list of its cores, each a sink with its level. \<open>zap\<close> is outside: \<open>levelText\<close> is
  \<open>UnmarshalText\<close> on a level, with its error; \<open>openFile\<close> the error of opening the log file.
\<close>

datatype log_sink = SinkStderr | SinkFile string

datatype log_error =
    StderrLevel string string
  | FileLevel string string
  | OpenLogFile string string

record 'l zap_levels =
  zl_levelText :: "string \<Rightarrow> string + 'l"
  zl_InfoLevel :: 'l
  zl_DebugLevel :: 'l

definition parseLevel :: "'l zap_levels \<Rightarrow> string \<Rightarrow> 'l \<Rightarrow> (string \<times> string) + 'l" where
  "parseLevel Z s fallback =
     (if s = [] then Inr fallback
      else case zl_levelText Z s of Inl err \<Rightarrow> Inl (s, err) | Inr lvl \<Rightarrow> Inr lvl)"

definition buildLogger ::
  "'l zap_levels \<Rightarrow> (string \<Rightarrow> string option) \<Rightarrow> log_config \<Rightarrow> log_error + (log_sink \<times> 'l) list" where
  "buildLogger Z openFile cfg =
     (case parseLevel Z (lg_Level cfg) (zl_InfoLevel Z) of
        Inl (s, err) \<Rightarrow> Inl (StderrLevel s err)
      | Inr stderrLvl \<Rightarrow>
          (case parseLevel Z (lg_FileLevel cfg) (zl_DebugLevel Z) of
             Inl (s, err) \<Rightarrow> Inl (FileLevel s err)
           | Inr fileLvl \<Rightarrow>
               (let cores = [(SinkStderr, stderrLvl)]; filePath = lg_FilePath cfg in
                if filePath \<noteq> []
                then (case openFile filePath of
                        Some err \<Rightarrow> Inl (OpenLogFile filePath err)
                      | None \<Rightarrow> Inr (cores @ [(SinkFile filePath, fileLvl)]))
                else Inr cores)))"

text \<open>The signal service has its own copies of both, over the three settings.\<close>

definition signalsParseLevel :: "'l zap_levels \<Rightarrow> string \<Rightarrow> 'l \<Rightarrow> (string \<times> string) + 'l" where
  "signalsParseLevel Z s fallback =
     (let lvl = fallback in
      if s = [] then Inr lvl
      else case zl_levelText Z s of Inl err \<Rightarrow> Inl (s, err) | Inr l \<Rightarrow> Inr l)"

definition signalsLogger ::
  "'l zap_levels \<Rightarrow> (string \<Rightarrow> string option) \<Rightarrow> string \<Rightarrow> string \<Rightarrow> string \<Rightarrow>
   log_error + (log_sink \<times> 'l) list" where
  "signalsLogger Z openFile stderrLevel fileLevel filePath =
     (case signalsParseLevel Z stderrLevel (zl_InfoLevel Z) of
        Inl (s, err) \<Rightarrow> Inl (StderrLevel s err)
      | Inr stderrLvl \<Rightarrow>
          (case signalsParseLevel Z fileLevel (zl_DebugLevel Z) of
             Inl (s, err) \<Rightarrow> Inl (FileLevel s err)
           | Inr fileLvl \<Rightarrow>
               (let cores = [(SinkStderr, stderrLvl)] in
                if filePath \<noteq> []
                then (case openFile filePath of
                        Some err \<Rightarrow> Inl (OpenLogFile filePath err)
                      | None \<Rightarrow> Inr (cores @ [(SinkFile filePath, fileLvl)]))
                else Inr cores)))"

lemma signalsLogger_is_buildLogger:
  "signalsLogger Z openFile (lg_Level cfg) (lg_FileLevel cfg) (lg_FilePath cfg) = buildLogger Z openFile cfg"
proof -
  have "signalsParseLevel = (parseLevel :: 'a zap_levels \<Rightarrow> string \<Rightarrow> 'a \<Rightarrow> (string \<times> string) + 'a)"
    by (simp add: fun_eq_iff signalsParseLevel_def parseLevel_def)
  then show ?thesis unfolding signalsLogger_def buildLogger_def Let_def by (rule ssubst) (rule refl)
qed

text \<open>The logger of a backtest writes to the standard error only.\<close>

definition backtestLogger :: "'l zap_levels \<Rightarrow> string \<Rightarrow> (string \<times> string) + (log_sink \<times> 'l) list" where
  "backtestLogger Z level =
     (case parseLevel Z level (zl_InfoLevel Z) of
        Inl e \<Rightarrow> Inl e
      | Inr lvl \<Rightarrow> Inr [(SinkStderr, lvl)])"

text \<open>
  The trading service starts from zap's production configuration, whose output paths and build
  are parameters; an unknown level is replaced by info instead of being an error.
\<close>

definition executionLogger ::
  "'l zap_levels \<Rightarrow> string list \<Rightarrow> ('l \<Rightarrow> string list \<Rightarrow> string option) \<Rightarrow> log_config \<Rightarrow>
   string + 'l \<times> string list" where
  "executionLogger Z productionPaths build cfg =
     (let level = (case zl_levelText Z (lg_Level cfg) of Inl err \<Rightarrow> zl_InfoLevel Z | Inr l \<Rightarrow> l);
          paths = (if lg_FilePath cfg \<noteq> [] then productionPaths @ [lg_FilePath cfg]
                   else productionPaths)
      in case build level paths of Some err \<Rightarrow> Inl err | None \<Rightarrow> Inr (level, paths))"

section \<open>Health endpoints\<close>

record http_response =
  hr_status :: int
  hr_json :: bool
  hr_body :: string

definition statusBody :: "string \<Rightarrow> string" where
  "statusBody s = marshal (JObject [(''status'', JString s)]) @ [CHR 0x0A]"

text \<open>The answer of the signals service, of the trading service, and of the ingest service.\<close>

definition signalsHealth :: "bool \<Rightarrow> http_response" where
  "signalsHealth running =
     (if running then \<lparr>hr_status = 200, hr_json = True, hr_body = statusBody ''ok''\<rparr>
      else \<lparr>hr_status = 503, hr_json = True, hr_body = statusBody ''degraded''\<rparr>)"

definition executionHealth :: "bool \<Rightarrow> http_response" where
  "executionHealth running =
     (if \<not> running
      then \<lparr>hr_status = 503, hr_json = False, hr_body = ''consumer not running'' @ [CHR 0x0A]\<rparr>
      else \<lparr>hr_status = 200, hr_json = False, hr_body = ''ok''\<rparr>)"

section \<open>Facts\<close>

lemmas loader_calls = executionCalls_def signalsCalls_def ingestCalls_def

lemma requireEnvs_None: "requireEnvs getenv keys = None \<longleftrightarrow> (\<forall>k \<in> set keys. getenv k \<noteq> [])"
  by (auto simp: requireEnvs_def Let_def filter_empty_conv)

lemma readAndUnmarshal_string:
  assumes "viper_precedence V getenv file"
    and "readAndUnmarshal V (SetConfigFile path # calls) = Inr s"
  shows "st_string s key = effective getenv (file path) (SetConfigFile path # calls) key"
  using assms by (auto simp: viper_precedence_def readAndUnmarshal_def split: option.splits)

lemma calls_start:
  "executionCalls path = SetConfigFile path # tl (executionCalls path)"
  "signalsCalls path = SetConfigFile path # tl (signalsCalls path)"
  "ingestCalls path = SetConfigFile path # tl (ingestCalls path)"
  by (simp_all add: loader_calls)

lemma loader_settings:
  "executionLoad V path = Inr c \<Longrightarrow> \<exists>s. readAndUnmarshal V (executionCalls path) = Inr s \<and>
     xc_RedisAddr c = st_string s ''redis.addr'' \<and> xc_StrategyConfig c = st_string s ''strategy_config''"
  "signalsLoad V path = Inr g \<Longrightarrow> \<exists>s. readAndUnmarshal V (signalsCalls path) = Inr s \<and>
     gc_RedisAddr g = st_string s ''redis.addr'' \<and> gc_StreamNamespace g = st_string s ''stream_namespace''"
  "loadConfig V path = Inr a \<Longrightarrow> \<exists>s. readAndUnmarshal V (ingestCalls path) = Inr s \<and>
     ac_RedisAddr a = st_string s ''redis.addr''"
  by (auto simp: executionLoad_def signalsLoad_def loadConfig_def split: sum.splits)

text \<open>The log file is opened only after both levels have been accepted.\<close>

lemma log_file_opened_last:
  assumes "buildLogger Z openFile cfg = Inl (OpenLogFile p e)"
  shows "(\<exists>l. parseLevel Z (lg_Level cfg) (zl_InfoLevel Z) = Inr l) \<and>
     (\<exists>l. parseLevel Z (lg_FileLevel cfg) (zl_DebugLevel Z) = Inr l) \<and>
     p = lg_FilePath cfg \<and> openFile p = Some e"
  using assms by (auto simp: buildLogger_def Let_def split: sum.splits prod.splits if_splits option.splits)

text \<open>
  Where each service finds Redis: in REDIS_ADDR when it is set, else in the
  configuration file, else at localhost:6379 for the trading and the signals service, while the
  ingest service then has none and publishes nothing.
\<close>

lemma redis_address_precedence:
  assumes "viper_precedence V getenv file"
  shows "(\<forall>c. executionLoad V path = Inr c \<longrightarrow> xc_RedisAddr c =
       (if getenv ''REDIS_ADDR'' \<noteq> [] then getenv ''REDIS_ADDR''
        else case file path ''redis.addr'' of Some a \<Rightarrow> a | None \<Rightarrow> ''localhost:6379'')) \<and>
    (\<forall>g. signalsLoad V path = Inr g \<longrightarrow> gc_RedisAddr g =
       (if getenv ''REDIS_ADDR'' \<noteq> [] then getenv ''REDIS_ADDR''
        else case file path ''redis.addr'' of Some a \<Rightarrow> a | None \<Rightarrow> ''localhost:6379'')) \<and>
    (\<forall>a. loadConfig V path = Inr a \<longrightarrow> ac_RedisAddr a =
       (if getenv ''REDIS_ADDR'' \<noteq> [] then getenv ''REDIS_ADDR''
        else case file path ''redis.addr'' of Some a \<Rightarrow> a | None \<Rightarrow> []))"
proof (intro conjI allI impI)
  note read = readAndUnmarshal_string [OF assms, where path = path and key = "''redis.addr''"]
  show "xc_RedisAddr c = (if getenv ''REDIS_ADDR'' \<noteq> [] then getenv ''REDIS_ADDR''
        else case file path ''redis.addr'' of Some a \<Rightarrow> a | None \<Rightarrow> ''localhost:6379'')"
    if "executionLoad V path = Inr c" for c
    using loader_settings(1) [OF that] read
    by (auto simp: executionCalls_def effective_def split: option.split)
  show "gc_RedisAddr g = (if getenv ''REDIS_ADDR'' \<noteq> [] then getenv ''REDIS_ADDR''
        else case file path ''redis.addr'' of Some a \<Rightarrow> a | None \<Rightarrow> ''localhost:6379'')"
    if "signalsLoad V path = Inr g" for g
    using loader_settings(2) [OF that] read
    by (auto simp: signalsCalls_def effective_def split: option.split)
  show "ac_RedisAddr a = (if getenv ''REDIS_ADDR'' \<noteq> [] then getenv ''REDIS_ADDR''
        else case file path ''redis.addr'' of Some a \<Rightarrow> a | None \<Rightarrow> [])"
    if "loadConfig V path = Inr a" for a
    using loader_settings(3) [OF that] read
    by (auto simp: ingestCalls_def effective_def split: option.split)
qed

text \<open>An object that does what viper documents.\<close>

definition plain_viper :: "environment \<Rightarrow> (string \<Rightarrow> string \<rightharpoonup> string) \<Rightarrow> viper_pkg" where
  "plain_viper getenv file = \<lparr>vk_ReadInConfig = (\<lambda>calls. None),
     vk_Unmarshal = (\<lambda>calls. case calls of
        SetConfigFile path # cs \<Rightarrow> Inr \<lparr>st_string = effective getenv (file path) calls, st_int = (\<lambda>k. 0),
          st_strings = (\<lambda>k. []), st_symbols = (\<lambda>k. [])\<rparr>
      | _ \<Rightarrow> Inl ''no file'')\<rparr>"

lemma plain_viper_precedence: "viper_precedence (plain_viper getenv file) getenv file"
  by (auto simp: viper_precedence_def plain_viper_def)

lemma redis_address_precedence_witness:
  "\<exists>c. executionLoad (plain_viper (\<lambda>k. []) (\<lambda>p k. None)) ''c.yaml'' = Inr c \<and>
     xc_RedisAddr c = ''localhost:6379''"
proof -
  obtain c where c: "executionLoad (plain_viper (\<lambda>k. []) (\<lambda>p k. None)) ''c.yaml'' = Inr c"
    by (simp add: executionLoad_def readAndUnmarshal_def plain_viper_def executionCalls_def)
  with redis_address_precedence [OF plain_viper_precedence [of "\<lambda>k. []" "\<lambda>p k. None"], of "''c.yaml''"]
  show ?thesis by simp
qed

end
