(* ===== verification/Backtest_Service.thy ===== *)
theory Backtest_Service
  imports Runner Settings
begin

text \<open>
  The backtest command, main of engine/backtest/cmd/erebor-backtest/main.go: flags and their
  defaults, logger, run id, configuration, connections, then one run. The run is the model of
  Runner; \<open>command_world\<close> holds what the command finds outside. The result is the exit code and
  the calls of the run; a command that fails before the run makes none. What \<open>flag.Parse\<close> makes of the
  command line is an argument: the values of the flags, or one of the two cases in which the flag
  package exits itself (ExitOnError). An exit code above 2 (a signal that is not handled) is not modelled.
\<close>

section \<open>Flags\<close>

record 'f cli_flags =
  cf_runID :: string
  cf_symbols :: string
  cf_from :: string
  cf_to :: string
  cf_speed :: string
  cf_speedFactor :: 'f
  cf_depth :: int
  cf_strategyConfig :: string
  cf_logLevel :: string

text \<open>The defaults; \<open>factor\<close> is the float 1.0.\<close>

definition defaultFlags :: "'f \<Rightarrow> 'f cli_flags" where
  "defaultFlags factor = \<lparr>cf_runID = [], cf_symbols = [], cf_from = [], cf_to = [],
     cf_speed = ''AFAP'', cf_speedFactor = factor, cf_depth = 10, cf_strategyConfig = ''{}'',
     cf_logLevel = ''info''\<rparr>"

datatype 'f parsed_args = FlagsHelp | FlagsBad string | FlagsOk "'f cli_flags"

section \<open>The command\<close>

record 'l command_world =
  cw_getenv :: environment
  cw_levels :: "'l zap_levels"
  cw_newID :: "string + string"
  cw_ping :: "string \<Rightarrow> string \<Rightarrow> string option"
  cw_pool :: "string \<Rightarrow> string option"
  cw_poolPing :: "string option"

datatype command_failure =
    CommandLogger string string
  | CommandFlags flag_error
  | CommandRunID string
  | CommandConfig string
  | CommandRedis string
  | CommandPool string
  | CommandPing string

definition commandExit :: "command_failure \<Rightarrow> int" where
  "commandExit f = (case f of CommandLogger s e \<Rightarrow> 2 | _ \<Rightarrow> 1)"

definition prepareRun ::
  "('f \<Rightarrow> bool) \<Rightarrow> 'l command_world \<Rightarrow> 'f cli_flags \<Rightarrow> command_failure + 'f runner_config" where
  "prepareRun positive W flags =
     (case backtestLogger (cw_levels W) (cf_logLevel flags) of
        Inl (s, err) \<Rightarrow> Inl (CommandLogger s err)
      | Inr logger \<Rightarrow>
     (case validateFlags ParseRFC3339Nano positive (\<lambda>s. parseJSON s \<noteq> None) (cf_symbols flags)
             (cf_from flags) (cf_to flags) (cf_speed flags) (cf_strategyConfig flags)
             (cf_speedFactor flags) (cf_depth flags) of
        Inl err \<Rightarrow> Inl (CommandFlags err)
      | Inr pf \<Rightarrow>
     (case (if cf_runID flags = [] then cw_newID W else Inr (cf_runID flags)) of
        Inl err \<Rightarrow> Inl (CommandRunID err)
      | Inr runID \<Rightarrow>
     (case backtestLoad (cw_getenv W) of
        Inl err \<Rightarrow> Inl (CommandConfig err)
      | Inr cfg \<Rightarrow>
     (case cw_ping W (bc_RedisAddr cfg) (bc_RedisPassword cfg) of
        Some err \<Rightarrow> Inl (CommandRedis err)
      | None \<Rightarrow>
     (case cw_pool W (bc_TimescaleDSN cfg) of
        Some err \<Rightarrow> Inl (CommandPool err)
      | None \<Rightarrow>
     (case cw_poolPing W of
        Some err \<Rightarrow> Inl (CommandPing err)
      | None \<Rightarrow>
          Inr \<lparr>rg_RunID = runID, rg_Symbols = pf_symbols pf, rg_From = pf_from pf, rg_To = pf_to pf,
            rg_Depth = pf_depth pf, rg_SpeedMode = pf_speedMode pf, rg_SpeedFactor = pf_speedFactor pf,
            rg_StrategyConfig = pf_strategyConfig pf\<rparr>)))))))"

text \<open>\<open>cancelled\<close>: whether \<open>ctx.Err()\<close> is set when \<open>Run\<close> has returned an error.\<close>

definition backtestMain ::
  "'d::linordered_idom decimal_pkg \<Rightarrow>
   (string \<Rightarrow> 'd strategy_config \<Rightarrow> 'd strategy_config \<times> string option) \<Rightarrow> ('f \<Rightarrow> bool) \<Rightarrow>
   'l command_world \<Rightarrow> 'f parsed_args \<Rightarrow> run_env \<Rightarrow> bool \<Rightarrow> int \<times> ('d, 'f) run_call list" where
  "backtestMain D unmarshal positive W args env cancelled =
     (case args of
        FlagsHelp \<Rightarrow> (0, [])
      | FlagsBad msg \<Rightarrow> (2, [])
      | FlagsOk flags \<Rightarrow>
          (case prepareRun positive W flags of
             Inl f \<Rightarrow> (commandExit f, [])
           | Inr cfg \<Rightarrow>
               (case RunBacktest D unmarshal cfg env of
                  (calls, Returned (Some err)) \<Rightarrow> if cancelled then (0, calls) else (1, calls)
                | (calls, Returned None) \<Rightarrow> (0, calls)
                | (calls, Panicked) \<Rightarrow> (2, calls))))"

section \<open>What reaches the runner\<close>

lemma prepared:
  assumes "prepareRun positive W flags = Inr cfg"
  shows "rg_Symbols cfg = splitSymbols (cf_symbols flags) \<and> rg_Symbols cfg \<noteq> [] \<and>
     good_symbols (rg_Symbols cfg) \<and> rg_From cfg < rg_To cfg \<and>
     parseJSON (rg_StrategyConfig cfg) \<noteq> None \<and>
     (rg_SpeedMode cfg = SpeedNX \<longrightarrow> positive (rg_SpeedFactor cfg)) \<and>
     (cf_runID flags \<noteq> [] \<longrightarrow> rg_RunID cfg = cf_runID flags) \<and>
     cw_getenv W ''TIMESCALE_DSN'' \<noteq> []"
proof -
  obtain pf runID bc where
    v: "validateFlags ParseRFC3339Nano positive (\<lambda>s. parseJSON s \<noteq> None) (cf_symbols flags)
         (cf_from flags) (cf_to flags) (cf_speed flags) (cf_strategyConfig flags)
         (cf_speedFactor flags) (cf_depth flags) = Inr pf"
    and id: "(if cf_runID flags = [] then cw_newID W else Inr (cf_runID flags)) = Inr runID"
    and load: "backtestLoad (cw_getenv W) = Inr bc"
    and cfg: "cfg = \<lparr>rg_RunID = runID, rg_Symbols = pf_symbols pf, rg_From = pf_from pf, rg_To = pf_to pf,
       rg_Depth = pf_depth pf, rg_SpeedMode = pf_speedMode pf, rg_SpeedFactor = pf_speedFactor pf,
       rg_StrategyConfig = pf_strategyConfig pf\<rparr>"
    using assms unfolding prepareRun_def by (auto split: sum.splits option.splits prod.splits)
  have "cw_getenv W ''TIMESCALE_DSN'' \<noteq> []"
    using load by (auto simp: backtestLoad_def Let_def split: if_splits)
  then show ?thesis
    using validated_flags [OF v] splitSymbols_good id by (auto simp: cfg)
qed

text \<open>The runner returns no error exactly when it has marked the run COMPLETED.\<close>

lemma run_completes:
  assumes "RunBacktest D unmarshal cfg env = (cs, r)"
  shows "r = Returned None \<longleftrightarrow> RunStatusCompleted \<in> set (statuses cs)"
proof (cases rule: RunBacktest_cases [where D = D and unmarshal = unmarshal and cfg = cfg and env = env])
  case (full sc cs1 r1)
  then show ?thesis using assms finishRun_logs [OF full(1)] by auto
qed (use assms in \<open>auto simp: runRecordOf_def\<close>)

lemma run_panics:
  assumes "RunBacktest D unmarshal cfg env = (cs, Panicked)"
  shows "statuses cs = [RunStatusPending, RunStatusRunning]"
proof (cases rule: RunBacktest_cases [where D = D and unmarshal = unmarshal and cfg = cfg and env = env])
  case (full sc cs1 r1)
  then show ?thesis using assms finishRun_logs(1) [OF full(1)] by auto
qed (use assms in simp_all)

section \<open>Properties\<close>

text \<open>
  C36 (error): what the exit code of the backtest command means. Asked for help it exits with 0, given a
  flag it does not know or a value that does not parse with 2, in both cases before anything else. With
  good flags, and unless a signal cancelled it, it is 0 exactly when the run was COMPLETED; a cancelled
  command that had connected exits with 0 too, whatever became of its run. 2 stands for a bad log level or
  a panic of the metrics computation, which leaves the run RUNNING. Every other failure is 1. One that
  precedes the run has made no call at all: with calls, every symbol is in capitals and occurs once, the
  range is not empty and the configuration is JSON.
\<close>

theorem backtest_exit_code:
  fixes D :: "'d::linordered_idom decimal_pkg"
  assumes "backtestMain D unmarshal positive W args env cancelled = (code, calls)"
  shows "code \<in> {0, 1, 2} \<and>
    (case args of
       FlagsHelp \<Rightarrow> code = 0 \<and> calls = []
     | FlagsBad msg \<Rightarrow> code = 2 \<and> calls = []
     | FlagsOk flags \<Rightarrow>
         (let panicked = (\<exists>cfg. prepareRun positive W flags = Inr cfg \<and>
                snd (RunBacktest D unmarshal cfg env) = Panicked) in
          (\<not> cancelled \<longrightarrow> (code = 0 \<longleftrightarrow> RunStatusCompleted \<in> set (statuses calls))) \<and>
          (cancelled \<longrightarrow> (code = 0 \<longleftrightarrow> (\<exists>cfg. prepareRun positive W flags = Inr cfg) \<and> \<not> panicked)) \<and>
          (code = 2 \<longleftrightarrow> (\<exists>e. backtestLogger (cw_levels W) (cf_logLevel flags) = Inl e) \<or> panicked) \<and>
          (panicked \<longrightarrow> statuses calls = [RunStatusPending, RunStatusRunning]) \<and>
          (\<forall>r \<in> set calls. \<exists>cfg. prepareRun positive W flags = Inr cfg \<and> good_symbols (rg_Symbols cfg) \<and>
             rg_Symbols cfg \<noteq> [] \<and> rg_From cfg < rg_To cfg \<and> parseJSON (rg_StrategyConfig cfg) \<noteq> None)))"
proof (cases args)
  case (FlagsOk flags)
  have two: "(\<exists>e. backtestLogger (cw_levels W) (cf_logLevel flags) = Inl e) \<longleftrightarrow>
      (\<exists>s e. prepareRun positive W flags = Inl (CommandLogger s e))"
    unfolding prepareRun_def by (auto split: sum.splits option.splits prod.splits)
  show ?thesis
  proof (cases "prepareRun positive W flags")
    case (Inl f)
    then have "code = commandExit f" "calls = []" using assms by (simp_all add: backtestMain_def FlagsOk)
    then show ?thesis using two by (cases f) (auto simp: Inl FlagsOk commandExit_def Let_def)
  next
    case (Inr cfg)
    obtain cs r where run: "RunBacktest D unmarshal cfg env = (cs, r)" by fastforce
    have "r = Returned None \<longleftrightarrow> RunStatusCompleted \<in> set (statuses cs)"
      using run_completes [OF run] .
    moreover have "r = Panicked \<Longrightarrow> statuses cs = [RunStatusPending, RunStatusRunning]"
      using run_panics [of D unmarshal cfg env cs] run by simp
    moreover have "calls = cs" "code = (case r of Panicked \<Rightarrow> 2 | Returned e \<Rightarrow> if e = None \<or> cancelled then 0 else 1)"
      using assms by (auto simp: backtestMain_def FlagsOk Inr run split: run_result.splits option.splits if_splits)
    ultimately show ?thesis using two prepared [OF Inr]
      by (cases r) (auto simp: Inr FlagsOk run Let_def split: if_splits)
  qed
qed (use assms in \<open>simp_all add: backtestMain_def\<close>)

definition wit_flags :: "rat cli_flags" where
  "wit_flags = (defaultFlags 1)\<lparr>cf_symbols := ''btcusdt'', cf_runID := ''r1'',
     cf_from := FormatRFC3339Nano 5, cf_to := FormatRFC3339Nano 9\<rparr>"

definition wit_command :: "string \<Rightarrow> unit command_world" where
  "wit_command dsn = \<lparr>cw_getenv = (\<lambda>k. dsn),
     cw_levels = \<lparr>zl_levelText = (\<lambda>s. Inr ()), zl_InfoLevel = (), zl_DebugLevel = ()\<rparr>,
     cw_newID = Inl ''no entropy'', cw_ping = (\<lambda>a p. None), cw_pool = (\<lambda>d. None), cw_poolPing = None\<rparr>"

lemma wit_symbols: "splitSymbols ''btcusdt'' = [''BTCUSDT'']" "parseSpeedMode ''AFAP'' = Inr SpeedAFAP"
  by code_simp+

lemma wit_prepares: "\<exists>cfg. prepareRun (\<lambda>f. True) (wit_command ''d'') wit_flags = Inr cfg"
  by (simp add: prepareRun_def backtestLogger_def parseLevel_def wit_command_def wit_flags_def
      defaultFlags_def validateFlags_def wit_symbols backtestLoad_def time_ok_def Let_def)

lemma backtest_exit_code_witness:
  "let r = backtestMain rat_pkg (\<lambda>raw c. (c, None)) (\<lambda>f. True) (wit_command ''d'') (FlagsOk wit_flags) wit_run_env False
   in fst r = 1 \<and> RunStatusCompleted \<notin> set (statuses (snd r))"
proof -
  obtain code calls where main: "backtestMain rat_pkg (\<lambda>raw c. (c, None)) (\<lambda>f. True) (wit_command ''d'')
      (FlagsOk wit_flags) wit_run_env False = (code, calls)" by fastforce
  obtain cfg where cfg: "prepareRun (\<lambda>f. True) (wit_command ''d'') wit_flags = Inr cfg"
    using wit_prepares by blast
  obtain cs r where run: "RunBacktest rat_pkg (\<lambda>raw c. (c, None)) cfg wit_run_env = (cs, r)" by fastforce
  then have "r \<noteq> Returned None" "r \<noteq> Panicked"
    by (auto simp: RunBacktest_def finishRun_def wit_run_env_def split: prod.splits option.splits)
  then have "code = 1" using main run
    by (auto simp: backtestMain_def cfg split: run_result.splits option.splits)
  with backtest_exit_code [OF main] show ?thesis by (simp add: main Let_def)
qed

end
