(* ===== verification/Execution_Service.thy ===== *)
theory Execution_Service
  imports Live Consumer Settings
begin

text \<open>
  The paper trading service as a whole, main of engine/execution/cmd/erebor-execution/main.go: what
  happens before it serves, the consumer loop with the signal handler while it serves, and the
  shutdown.

  \<open>exec_world\<close> holds what a process finds outside: the environment, the answers of Redis and of
  the connection pool, the UUID and the clock. A process that cannot start ends with exit code 1
  and the database it leaves; so does a service that has been shut down, with exit code 0. A
  process may also be killed while it serves: it leaves the database of its state.
\<close>

section \<open>Risk events on the wire\<close>

text \<open>\<open>RedisPublisher\<close> of engine/risk/publisher.go.\<close>

definition PublishRiskEvent :: "'d decimal_pkg \<Rightarrow> string \<Rightarrow> 'd risk_event \<Rightarrow> xadd_args" where
  "PublishRiskEvent D namespace ev = xadd (namespace @ '':risk'')
     [''run_id'' \<mapsto> re_RunID ev, ''symbol'' \<mapsto> re_Symbol ev,
      ''event_time'' \<mapsto> FormatRFC3339Nano (re_EventTime ev), ''type'' \<mapsto> event_type_string (re_Type ev),
      ''detail'' \<mapsto> re_Detail ev, ''equity'' \<mapsto> DString D (re_Equity ev)]"

text \<open>Time, kind and equity of an event can be read off its entry.\<close>

lemma event_type_string_inj: "event_type_string a = event_type_string b \<longleftrightarrow> a = b"
  by (cases a; cases b) simp_all

lemma risk_event_readable:
  assumes "decimal_strings D" and "time_ok (re_EventTime ev)"
  shows "ParseRFC3339Nano (strField (xa_Values (PublishRiskEvent D ns ev)) ''event_time'') = Some (re_EventTime ev) \<and>
    DFromString D (strField (xa_Values (PublishRiskEvent D ns ev)) ''equity'') = Some (re_Equity ev) \<and>
    (strField (xa_Values (PublishRiskEvent D ns ev)) ''type'' = event_type_string k \<longleftrightarrow> re_Type ev = k)"
  using assms by (simp add: PublishRiskEvent_def xadd_def event_type_string_inj decimal_strings_def)

section \<open>Before serving\<close>

record 'l exec_world =
  xw_getenv :: environment
  xw_viper :: viper_pkg
  xw_levels :: "'l zap_levels"
  xw_logPaths :: "string list"
  xw_logBuild :: "'l \<Rightarrow> string list \<Rightarrow> string option"
  xw_ping :: "string \<Rightarrow> string \<Rightarrow> string option"
  xw_pool :: "string \<Rightarrow> string option"
  xw_group :: "string \<Rightarrow> string \<Rightarrow> string option"
  xw_newID :: string
  xw_now :: time

datatype exec_failure =
    FailConfig string
  | FailLogger string
  | FailRedis string
  | FailEnv string
  | FailPool string
  | FailSession string
  | FailStrategy string
  | FailConsumer string

text \<open>\<open>Start\<close> of the consumer: the group may be there already.\<close>

definition executionGroup :: string where
  "executionGroup = ''erebor-execution''"

definition signalsKey :: "string \<Rightarrow> string" where
  "signalsKey namespace = namespace @ '':signals''"

definition consumerStart :: "(string \<Rightarrow> string \<Rightarrow> string option) \<Rightarrow> string \<Rightarrow> string option" where
  "consumerStart createGroup namespace =
     (case createGroup (signalsKey namespace) executionGroup of
        None \<Rightarrow> None
      | Some err \<Rightarrow>
          if Contains err ''BUSYGROUP'' then None
          else Some (''create consumer group for '' @ signalsKey namespace @ '': '' @ err))"

text \<open>
  \<open>main\<close> up to the running consumer. \<open>hs\<close> is the halt store and \<open>w\<close> its state, \<open>unmarshal\<close> the
  decoding of the strategy configuration.
\<close>

datatype ('s, 'd) booted =
    BootFailed exec_failure "'d paper_db"
  | Serving "'d strategy_config" "'d start_result" "('s, 'd) live_state"

definition bootExecution ::
  "'d::linordered_idom decimal_pkg \<Rightarrow>
   (string \<Rightarrow> 'd strategy_config \<Rightarrow> 'd strategy_config \<times> string option) \<Rightarrow> 'l exec_world \<Rightarrow>
   's halt_store \<Rightarrow> 's \<Rightarrow> string \<Rightarrow> 'd paper_db \<Rightarrow> ('s, 'd) booted" where
  "bootExecution D unmarshal W hs w path db =
     (case executionLoad (xw_viper W) path of
        Inl err \<Rightarrow> BootFailed (FailConfig err) db
      | Inr cfg \<Rightarrow>
     (case executionLogger (xw_levels W) (xw_logPaths W) (xw_logBuild W) (xc_Log cfg) of
        Inl err \<Rightarrow> BootFailed (FailLogger err) db
      | Inr logger \<Rightarrow>
     (case xw_ping W (xc_RedisAddr cfg) (xc_RedisPassword cfg) of
        Some err \<Rightarrow> BootFailed (FailRedis err) db
      | None \<Rightarrow>
     (case requireEnv (xw_getenv W) ''TIMESCALE_DSN'' of
        None \<Rightarrow> BootFailed (FailEnv ''TIMESCALE_DSN'') db
      | Some dsn \<Rightarrow>
     (case xw_pool W dsn of
        Some err \<Rightarrow> BootFailed (FailPool err) db
      | None \<Rightarrow>
     (case StartSession paper_store None (xw_newID W) (xw_now W) (xc_Symbols cfg) (xc_StrategyConfig cfg) db of
        (m, db1, Inl err) \<Rightarrow> BootFailed (FailSession err) db1
      | (m, db1, Inr result) \<Rightarrow>
     (case ParseStrategyConfig D unmarshal (xc_StrategyConfig cfg) of
        (stratCfg, Some err) \<Rightarrow> BootFailed (FailStrategy err) db1
      | (stratCfg, None) \<Rightarrow>
          let st = startLive stratCfg hs w (xc_Symbols cfg) m result db1 in
          (case consumerStart (xw_group W) liveNamespace of
             Some err \<Rightarrow> BootFailed (FailConsumer err) db1
           | None \<Rightarrow> Serving stratCfg result st))))))))"

section \<open>Serving\<close>

text \<open>
  The handler as the consumer calls it. Before its \<open>n\<close>-th call the cache goroutine has taken in
  the messages \<open>li_books\<close>; \<open>li_env\<close> is what the call draws from outside.
\<close>

record live_input =
  li_books :: "(string \<times> fields) list"
  li_env :: live_env

definition liveHandler ::
  "'d::linordered_idom decimal_pkg \<Rightarrow> 'd strategy_config \<Rightarrow> (nat \<Rightarrow> live_input) \<Rightarrow>
   ('d signal_event, ('s, 'd) live_state \<times> nat) signal_handler" where
  "liveHandler D cfg inp msgID sg s =
     (case s of (st, n) \<Rightarrow>
        (case buildHandler D cfg (li_env (inp n)) msgID sg
                (live_run D cfg (map LiveBook (li_books (inp n))) st) of
           (st1, r) \<Rightarrow> ((st1, Suc n), r)))"

definition serveExecution ::
  "('g, fields) group_client \<Rightarrow> 'd::linordered_idom decimal_pkg \<Rightarrow> 'd strategy_config \<Rightarrow>
   (nat \<Rightarrow> live_input) \<Rightarrow> bool list \<Rightarrow> 'g \<Rightarrow> ('s, 'd) live_state \<Rightarrow> ('s, 'd) live_state" where
  "serveExecution G D cfg inp script g st =
     fst (cn_state (consumerLoop G D (liveHandler D cfg inp) script
       \<lparr>cn_group = g, cn_state = (st, 0), cn_log = []\<rparr>))"

section \<open>Shutdown\<close>

text \<open>
  After the signal the consumer's loop ends at its next look at the context, the last entry of
  the script, and the session is marked stopped. An error of the update is only logged.
\<close>

definition executionMain ::
  "('g, fields) group_client \<Rightarrow> 'd::linordered_idom decimal_pkg \<Rightarrow>
   (string \<Rightarrow> 'd strategy_config \<Rightarrow> 'd strategy_config \<times> string option) \<Rightarrow> 'l exec_world \<Rightarrow>
   's halt_store \<Rightarrow> 's \<Rightarrow> string \<Rightarrow> (nat \<Rightarrow> live_input) \<Rightarrow> bool list \<Rightarrow> 'g \<Rightarrow> time \<Rightarrow> 'd paper_db \<Rightarrow>
   int \<times> 'd paper_db" where
  "executionMain G D unmarshal W hs w path inp script g stopTime db =
     (case bootExecution D unmarshal W hs w path db of
        BootFailed f db1 \<Rightarrow> (1, db1)
      | Serving cfg result st \<Rightarrow>
          let st1 = serveExecution G D cfg inp (script @ [True]) g st in
          (0, fst (StopSession paper_store (lv_session st1) stopTime (lv_db st1))))"

section \<open>What booting does\<close>

lemma StartSession_tables:
  assumes "StartSession paper_store m newID now symbols cfg db = (m', db', res)"
  shows "pd_trades db' = pd_trades db \<and> pd_positions db' = pd_positions db \<and> pd_equity db' = pd_equity db"
  using assms
  by (auto simp: StartSession_def resume_def createNew_def paper_store_def LoadRunningSession_def
      LoadLatestSession_def LoadPositions_def LoadLatestEquity_def CreateSession_def Let_def
      split: prod.splits sum.splits option.splits if_splits)

lemma StartSession_errs:
  assumes "StartSession paper_store m newID now symbols cfg db = (m', db', res)" and "pd_errs db = []"
  shows "pd_errs db' = []"
  using assms
  by (auto simp: StartSession_def resume_def createNew_def paper_store_def LoadRunningSession_def
      LoadLatestSession_def LoadPositions_def LoadLatestEquity_def CreateSession_def answer_def Let_def
      split: prod.splits sum.splits option.splits if_splits)

lemma boot_failed_tables:
  assumes "bootExecution D U W hs w path db = BootFailed f db'"
  shows "pd_trades db' = pd_trades db \<and> pd_positions db' = pd_positions db \<and> pd_equity db' = pd_equity db"
  using assms StartSession_tables
  by (auto simp: bootExecution_def Let_def split: sum.splits option.splits prod.splits) blast+

text \<open>A process that serves: the session it was given, and the service it started.\<close>

lemma boot_serving:
  assumes "bootExecution D U W hs w path db = Serving cfg r st"
  obtains xc m db1 logger dsn where
    "executionLoad (xw_viper W) path = Inr xc"
    "executionLogger (xw_levels W) (xw_logPaths W) (xw_logBuild W) (xc_Log xc) = Inr logger"
    "xw_ping W (xc_RedisAddr xc) (xc_RedisPassword xc) = None"
    "requireEnv (xw_getenv W) ''TIMESCALE_DSN'' = Some dsn" "xw_pool W dsn = None"
    "consumerStart (xw_group W) liveNamespace = None"
    "StartSession paper_store None (xw_newID W) (xw_now W) (xc_Symbols xc) (xc_StrategyConfig xc) db =
       (m, db1, Inr r)"
    "ParseStrategyConfig D U (xc_StrategyConfig xc) = (cfg, None)"
    "st = startLive cfg hs w (xc_Symbols xc) m r db1"
  using assms
  by (auto simp: bootExecution_def Let_def split: sum.splits option.splits prod.splits)

text \<open>The same process over another database: all that can go wrong is the session.\<close>

lemma boot_again:
  assumes boot: "bootExecution D U W hs w path db = Serving cfg r st"
    and load: "executionLoad (xw_viper W) path = Inr xc"
  shows "bootExecution D U (W\<lparr>xw_newID := i, xw_now := t\<rparr>) hs' w' path db' =
    (case StartSession paper_store None i t (xc_Symbols xc) (xc_StrategyConfig xc) db' of
       (m, db1, Inl err) \<Rightarrow> BootFailed (FailSession err) db1
     | (m, db1, Inr r) \<Rightarrow> Serving cfg r (startLive cfg hs' w' (xc_Symbols xc) m r db1))"
proof -
  obtain m db1 logger dsn where
    "executionLogger (xw_levels W) (xw_logPaths W) (xw_logBuild W) (xc_Log xc) = Inr logger"
    "xw_ping W (xc_RedisAddr xc) (xc_RedisPassword xc) = None"
    "requireEnv (xw_getenv W) ''TIMESCALE_DSN'' = Some dsn" "xw_pool W dsn = None"
    "consumerStart (xw_group W) liveNamespace = None"
    "ParseStrategyConfig D U (xc_StrategyConfig xc) = (cfg, None)"
    by (rule boot_serving [OF boot]) (use load in simp)
  then show ?thesis by (simp add: bootExecution_def load)
qed

section \<open>What serving keeps\<close>

text \<open>The sessions are as they were, or the served one has been halted.\<close>

definition halt_of :: "string \<Rightarrow> paper_session list \<Rightarrow> paper_session list \<Rightarrow> bool" where
  "halt_of sid rows rows' \<longleftrightarrow>
     rows' = rows \<or> (\<exists>t e. rows' = map (set_status sid SessionHalted t e) rows)"

lemma set_status_again:
  "map (set_status sid SessionHalted t e) (map (set_status sid SessionHalted t' e') rows) =
     map (set_status sid SessionHalted t e) rows"
  by (simp add: set_status_def comp_def cong: map_cong)

lemma halt_of_again: "halt_of sid rows rows' \<Longrightarrow> halt_of sid rows (map (set_status sid SessionHalted t e) rows')"
  unfolding halt_of_def using set_status_again by metis

definition session_kept :: "paper_session \<Rightarrow> paper_session list \<Rightarrow> ('s, 'd) live_state \<Rightarrow> bool" where
  "session_kept s rows st \<longleftrightarrow> lv_session st = Some s \<and>
     halt_of (ps_SessionID s) rows (pd_sessions (lv_db st))"

text \<open>The blotter in memory is the one in the tables.\<close>

definition served ::
  "string \<Rightarrow> 'd \<Rightarrow> 'd equity_record list \<Rightarrow> ('s, 'd::linordered_idom) live_state \<Rightarrow> bool" where
  "served sid e0 es st \<longleftrightarrow> bl_sessionID (lv_blot st) = sid \<and>
     mirrored pd_positions (lv_blot st) (lv_db st) \<and>
     equity_follows e0 es (pd_equity (lv_db st)) (bl_equity (lv_blot st))"

lemma fill_sessions:
  assumes "blotRecordFill D PersistFill f b db = (b', db', r)"
  shows "pd_sessions db' = pd_sessions db"
proof -
  have keeps: "PersistFill t p e db = (x, y) \<Longrightarrow> pd_sessions x = pd_sessions db" for t p e x y
    by (auto simp: PersistFill_def split: prod.splits option.splits)
  show ?thesis
    using blotRecordFill_cases [where D = D and store = PersistFill and fill = f and b = b and st = db]
    by cases (use assms keeps in auto)
qed

lemma halt_kept:
  assumes "halt_of (ps_SessionID s) rows (pd_sessions db)"
  shows "halt_of (ps_SessionID s) rows (pd_sessions (fst (HaltSession paper_store (Some s) err t db)))"
  using db.HaltSession_facts [of "Some s" err t db] assms halt_of_again by simp

lemma session_step:
  assumes "session_kept s rows st"
  shows "session_kept s rows (live_step D cfg ev st)"
proof (cases ev)
  case (LiveBook msg)
  then show ?thesis using assms by (simp add: session_kept_def)
next
  case (LiveSignal env msgID sg)
  show ?thesis
    using handler_cases [where D = D and cfg = cfg and env = env and msgID = msgID and sg = sg and st = st]
  proof cases
    case idle
    then show ?thesis using assms by (simp add: LiveSignal)
  next
    case (blocked c err db)
    then show ?thesis using assms by (auto simp: LiveSignal session_kept_def halt_kept)
  next
    case (filled sd c bid ask f)
    obtain b db r where fill: "blotRecordFill D PersistFill f (lv_blot st) (lv_db st) = (b, db, r)"
      by (metis prod_cases3)
    then show ?thesis
      using assms fill_sessions [OF fill]
      by (auto simp: LiveSignal filled(5) session_kept_def split: option.split)
  qed
qed

lemma served_step:
  assumes "served sid e0 es st"
  shows "served sid e0 es (live_step D cfg ev st)"
proof (cases ev)
  case (LiveBook msg)
  then show ?thesis using assms by (simp add: served_def)
next
  case (LiveSignal env msgID sg)
  show ?thesis
    using handler_cases [where D = D and cfg = cfg and env = env and msgID = msgID and sg = sg and st = st]
  proof cases
    case idle
    then show ?thesis using assms by (simp add: LiveSignal)
  next
    case (blocked c err db)
    then show ?thesis
      using assms by (auto simp: LiveSignal served_def mirrored_def HaltSession_tables)
  next
    case (filled sd c bid ask f)
    obtain b db r where fill: "blotRecordFill D PersistFill f (lv_blot st) (lv_db st) = (b, db, r)"
      by (metis prod_cases3)
    have "mirrored pd_positions b db \<and> bl_sessionID b = bl_sessionID (lv_blot st)"
      using paper.blotRecordFill_mirrored [OF _ fill] assms by (simp add: served_def)
    moreover have "equity_follows e0 es (pd_equity db) (bl_equity b)"
      using equity_follows_trans [OF _ paper.blotRecordFill_equity [OF fill]] assms
      by (simp add: served_def)
    ultimately show ?thesis
      using assms by (auto simp: LiveSignal filled(5) fill served_def split: option.split)
  qed
qed

lemma live_run_keeps:
  assumes "\<And>st ev. P st \<Longrightarrow> P (live_step D cfg ev st)"
  shows "P st \<Longrightarrow> P (live_run D cfg evs st)"
  unfolding live_run_def by (induction evs arbitrary: st) (simp_all add: assms)

lemma session_run: "session_kept s rows st \<Longrightarrow> session_kept s rows (live_run D cfg evs st)"
  by (rule live_run_keeps [where P = "session_kept s rows", OF session_step])

lemma served_run: "served sid e0 es st \<Longrightarrow> served sid e0 es (live_run D cfg evs st)"
  by (rule live_run_keeps [where P = "served sid e0 es", OF served_step])

text \<open>Every equity point a process writes is one of its session.\<close>

definition own_rows :: "string \<Rightarrow> 'd equity_record list \<Rightarrow> 'd equity_record list" where
  "own_rows sid rows = filter (\<lambda>e. pe_SessionID e = sid) rows"

definition own_since :: "string \<Rightarrow> 'd equity_record list \<Rightarrow> ('s, 'd::linordered_idom) live_state \<Rightarrow> bool" where
  "own_since sid es0 st \<longleftrightarrow> bl_sessionID (lv_blot st) = sid \<and>
     (\<exists>es. pd_equity (lv_db st) = es0 @ es \<and> own_rows sid es = es)"

lemma fill_own:
  assumes "blotRecordFill D PersistFill f b db = (b', db', r)"
  shows "bl_sessionID b' = bl_sessionID b \<and>
    (\<exists>es. pd_equity db' = pd_equity db @ es \<and> own_rows (bl_sessionID b) es = es)"
  using blotRecordFill_cases [where D = D and store = PersistFill and fill = f and b = b and st = db]
proof cases
  case (failed st1 err)
  then show ?thesis using assms paper.refused [OF failed(2)] by (auto simp: own_rows_def)
next
  case (recorded st1)
  then show ?thesis using assms paper.stored [OF recorded(2)] by (auto simp: own_rows_def)
qed

lemma fill_row:
  assumes "blotRecordFill D PersistFill f b db = (b', db', None)"
  shows "bl_equity b' = bl_equity b + snd (blotApplyFill D (pos_of b (fr_Symbol f)) f) - fr_Fee f \<and>
    pd_equity db' = pd_equity db @ [\<lparr>pe_SessionID = bl_sessionID b, pe_EventTime = fr_EventTime f, pe_Equity = bl_equity b'\<rparr>]"
  using blotRecordFill_cases [where D = D and store = PersistFill and fill = f and b = b and st = db]
proof cases
  case (failed st1 err)
  then show ?thesis using assms by simp
next
  case (recorded st1)
  then show ?thesis using assms paper.stored [OF recorded(2)] by auto
qed

lemma own_step:
  assumes "own_since sid es0 st"
  shows "own_since sid es0 (live_step D cfg ev st)"
proof (cases ev)
  case (LiveBook msg)
  then show ?thesis using assms by (simp add: own_since_def)
next
  case (LiveSignal env msgID sg)
  show ?thesis
    using handler_cases [where D = D and cfg = cfg and env = env and msgID = msgID and sg = sg and st = st]
  proof cases
    case idle
    then show ?thesis using assms by (simp add: LiveSignal)
  next
    case (blocked c err db)
    then show ?thesis using assms by (auto simp: LiveSignal own_since_def HaltSession_tables)
  next
    case (filled sd c bid ask f)
    obtain b db r where fill: "blotRecordFill D PersistFill f (lv_blot st) (lv_db st) = (b, db, r)"
      by (metis prod_cases3)
    obtain es where es: "pd_equity (lv_db st) = es0 @ es" "own_rows sid es = es"
      using assms by (auto simp: own_since_def)
    obtain es' where "pd_equity db = (es0 @ es) @ es'" "own_rows sid es' = es'" "bl_sessionID b = sid"
      using fill_own [OF fill] assms es(1) by (auto simp: own_since_def)
    then have "\<exists>es. pd_equity db = es0 @ es \<and> own_rows sid es = es" and "bl_sessionID b = sid"
      using es(2) by (auto simp: own_rows_def intro: exI [of _ "es @ es'"])
    then show ?thesis
      using assms by (auto simp: LiveSignal filled(5) fill own_since_def split: option.split)
  qed
qed

lemma own_run: "own_since sid es0 st \<Longrightarrow> own_since sid es0 (live_run D cfg evs st)"
  by (rule live_run_keeps [where P = "own_since sid es0", OF own_step])

text \<open>The equity a start takes from the session's rows.\<close>

definition latest_equity :: "string \<Rightarrow> 'd::zero equity_record list \<Rightarrow> 'd" where
  "latest_equity sid rows = (case newest pe_EventTime (own_rows sid rows) of None \<Rightarrow> 0 | Some e \<Rightarrow> pe_Equity e)"

definition start_equity :: "'d::linordered_idom strategy_config \<Rightarrow> string \<Rightarrow> 'd equity_record list \<Rightarrow> 'd" where
  "start_equity cfg sid rows =
     (if latest_equity sid rows = 0 then sc_InitialCapital cfg else latest_equity sid rows)"

lemma start_equity_follows:
  assumes own: "own_since sid es0 st"
    and follows: "equity_follows (start_equity cfg sid es0) es0 (pd_equity (lv_db st)) (bl_equity (lv_blot st))"
    and e: "bl_equity (lv_blot st) \<noteq> 0"
    and rise: "sorted_wrt (<) (map pe_EventTime (own_rows sid (pd_equity (lv_db st))))"
  shows "start_equity cfg sid (pd_equity (lv_db st)) = bl_equity (lv_blot st)"
proof -
  obtain es where es: "pd_equity (lv_db st) = es0 @ es" "own_rows sid es = es" using own by (auto simp: own_since_def)
  with follows have last: "if es = [] then bl_equity (lv_blot st) = start_equity cfg sid es0
      else bl_equity (lv_blot st) = pe_Equity (last es)"
    by (auto simp: equity_follows_def)
  show ?thesis
  proof (cases es rule: rev_cases)
    case Nil
    then show ?thesis using last es by simp
  next
    case (snoc es' x)
    have "own_rows sid (pd_equity (lv_db st)) = own_rows sid es0 @ own_rows sid es"
      by (simp add: es(1) own_rows_def)
    then have rows: "own_rows sid (pd_equity (lv_db st)) = (own_rows sid es0 @ es') @ [x]"
      unfolding es(2) by (simp add: snoc)
    have "newest pe_EventTime ((own_rows sid es0 @ es') @ [x]) = Some x"
      using rise unfolding rows by (intro newest_snoc_latest) (auto simp: sorted_wrt_append)
    then show ?thesis using last snoc e by (simp add: start_equity_def latest_equity_def rows)
  qed
qed

lemma clean_step:
  assumes "pd_errs (lv_db st) = []"
  shows "pd_errs (lv_db (live_step D cfg ev st)) = []"
proof (cases ev)
  case (LiveSignal env msgID sg)
  show ?thesis
    using handler_cases [where D = D and cfg = cfg and env = env and msgID = msgID and sg = sg and st = st]
  proof cases
    case (filled sd c bid ask f)
    obtain b db r where fill: "blotRecordFill D PersistFill f (lv_blot st) (lv_db st) = (b, db, r)"
      by (metis prod_cases3)
    with fill_errs [OF fill assms] show ?thesis
      by (simp add: LiveSignal filled(5) split: option.split)
  qed (use assms HaltSession_errs in \<open>auto simp: LiveSignal\<close>)
qed (simp add: assms)

lemma clean_run: "pd_errs (lv_db st) = [] \<Longrightarrow> pd_errs (lv_db (live_run D cfg evs st)) = []"
  by (rule live_run_keeps [where P = "\<lambda>st. pd_errs (lv_db st) = []", OF clean_step])

text \<open>The consumer's loop is one of the runs of the handler and the cache.\<close>

lemma live_run_append: "live_run D cfg (es @ es') st = live_run D cfg es' (live_run D cfg es st)"
  by (simp add: live_run_def)

lemma serve_is_run: "\<exists>evs. serveExecution G D cfg inp script g st = live_run D cfg evs st"
proof -
  let ?P = "\<lambda>s. \<exists>evs. fst s = live_run D cfg evs st"
  have "?P (fst (liveHandler D cfg inp i sg s))" if "?P s" for i sg s
  proof -
    obtain st1 n where s: "s = (st1, n)" by (cases s)
    with that obtain evs where "st1 = live_run D cfg evs st" by auto
    then have "fst (fst (liveHandler D cfg inp i sg s)) =
        live_run D cfg (evs @ map LiveBook (li_books (inp n)) @ [LiveSignal (li_env (inp n)) i sg]) st"
      by (simp add: s liveHandler_def live_run_append case_prod_unfold) (simp add: live_run_def)
    then show ?thesis by blast
  qed
  then have "handler_keeps ?P (liveHandler D cfg inp)" by (simp add: handler_keeps_def)
  moreover have "?P (st, 0)" by (rule exI [of _ "[]"]) (simp add: live_run_def)
  ultimately show ?thesis
    using consumerLoop_keeps [where P = ?P and h = "liveHandler D cfg inp" and G = G and D = D
        and script = script and c = "\<lparr>cn_group = g, cn_state = (st, 0), cn_log = []\<rparr>"]
    by (simp add: serveExecution_def)
qed

section \<open>What a start gives to serve\<close>

lemma StartSession_result:
  assumes "StartSession paper_store None newID now symbols cfg db = (m, db', Inr r)"
  shows "m = Some (sr_Session r)"
    and "sr_Recovered r \<Longrightarrow>
      sr_Positions r = filter (\<lambda>p. pp_SessionID p = ps_SessionID (sr_Session r)) (pd_positions db)"
    and "\<not> sr_Recovered r \<Longrightarrow> ps_SessionID (sr_Session r) = newID"
    and "newest ps_StartedAt (filter is_running (pd_sessions db')) = Some (sr_Session r)"
    and "running_count (pd_sessions db) \<le> 1 \<Longrightarrow> running_count (pd_sessions db') \<le> 1"
proof -
  show "m = Some (sr_Session r)" "\<not> sr_Recovered r \<Longrightarrow> ps_SessionID (sr_Session r) = newID"
    "newest ps_StartedAt (filter is_running (pd_sessions db')) = Some (sr_Session r)"
    using db.StartSession_facts [OF assms] by (auto split: if_splits)
  show "sr_Recovered r \<Longrightarrow>
      sr_Positions r = filter (\<lambda>p. pp_SessionID p = ps_SessionID (sr_Session r)) (pd_positions db)"
    using assms
    by (auto simp: StartSession_def resume_def createNew_def paper_store_def LoadRunningSession_def
        LoadLatestSession_def LoadPositions_def LoadLatestEquity_def CreateSession_def Let_def
        split: prod.splits sum.splits option.splits if_splits dest: scanRows_Inr)
  show "running_count (pd_sessions db) \<le> 1 \<Longrightarrow> running_count (pd_sessions db') \<le> 1"
    by (rule db.StartSession_running [OF assms])
qed

lemma startLive_sels [simp]:
  "lv_db (startLive cfg hs w syms m r db) = db" "lv_session (startLive cfg hs w syms m r db) = m"
  "bl_sessionID (lv_blot (startLive cfg hs w syms m r db)) = ps_SessionID (sr_Session r)"
  by (simp_all add: startLive_def NewBlotter_def Let_def)

text \<open>The blotter a process starts with mirrors the rows it has loaded.\<close>

lemma startLive_mirrored:
  assumes rows: "one_row_per_symbol (pd_positions db)"
    and loaded: "sr_Recovered r \<Longrightarrow>
      sr_Positions r = filter (\<lambda>p. pp_SessionID p = ps_SessionID (sr_Session r)) (pd_positions db)"
    and fresh: "\<not> sr_Recovered r \<Longrightarrow> \<forall>p \<in> set (pd_positions db). pp_SessionID p \<noteq> ps_SessionID (sr_Session r)"
  shows "mirrored pd_positions (lv_blot (startLive cfg hs w syms m r db)) db"
proof (cases "sr_Recovered r")
  case True
  then have "\<exists>e. lv_blot (startLive cfg hs w syms m r db) =
      SeedPositions (sr_Positions r) (NewBlotter (ps_SessionID (sr_Session r)) e)"
    by (auto simp: startLive_def Let_def)
  then obtain e where blot: "lv_blot (startLive cfg hs w syms m r db) =
      SeedPositions (sr_Positions r) (NewBlotter (ps_SessionID (sr_Session r)) e)" by blast
  then have "bl_positions (lv_blot (startLive cfg hs w syms m r db)) =
      row_map (ps_SessionID (sr_Session r)) (pd_positions db)"
    using SeedPositions_row_map [OF rows] loaded [OF True] by simp
  then show ?thesis using rows by (simp add: mirrored_def pos_of_def split: option.split)
next
  case False
  then have "row_map (ps_SessionID (sr_Session r)) (pd_positions db) s = None" for s
    using row_map_dom [of "ps_SessionID (sr_Session r)" "pd_positions db" s] fresh by auto
  with False rows show ?thesis
    by (simp add: mirrored_def startLive_def NewBlotter_def pos_of_def Let_def)
qed

lemma boot_served:
  assumes boot: "bootExecution D U W hs w path db = Serving cfg r st"
    and rows: "one_row_per_symbol (pd_positions db)"
    and fresh: "\<forall>p \<in> set (pd_positions db). pp_SessionID p \<noteq> xw_newID W"
  shows "served (ps_SessionID (sr_Session r)) (bl_equity (lv_blot st)) (pd_equity db) st"
proof -
  obtain xc m db1 where load: "executionLoad (xw_viper W) path = Inr xc" and start: "StartSession paper_store None (xw_newID W) (xw_now W) (xc_Symbols xc)
      (xc_StrategyConfig xc) db = (m, db1, Inr r)" and st: "st = startLive cfg hs w (xc_Symbols xc) m r db1"
    by (rule boot_serving [OF boot]) blast
  note res = StartSession_result [OF start] and tabs = StartSession_tables [OF start]
  have "mirrored pd_positions (lv_blot st) db1"
    unfolding st using res(2,3) rows fresh tabs by (intro startLive_mirrored) auto
  then show ?thesis
    using tabs by (simp add: served_def st equity_follows_def)
qed

lemma LoadLatestEquity_result:
  "LoadLatestEquity sid db = (db', Inr e) \<Longrightarrow> e = latest_equity sid (pd_equity db)"
  by (auto simp: LoadLatestEquity_def latest_equity_def own_rows_def split: prod.splits option.splits)

lemma resume_equity:
  assumes "resume paper_store m s db = (m', db', Inr r)"
  shows "sr_Equity r = latest_equity (ps_SessionID s) (pd_equity db) \<and> sr_Session r = s"
  using assms
  by (auto simp: resume_def paper_store_def LoadPositions_result(4)
      split: prod.splits sum.splits dest!: LoadLatestEquity_result)

lemma StartSession_equity:
  assumes "StartSession paper_store None newID now symbols cfg db = (m, db', Inr r)" and "sr_Recovered r"
  shows "sr_Equity r = latest_equity (ps_SessionID (sr_Session r)) (pd_equity db)"
proof -
  obtain db1 x where run: "LoadRunningSession db = (db1, x)" by fastforce
  then have tab: "pd_equity db1 = pd_equity db"
    by (auto simp: LoadRunningSession_def split: prod.splits option.splits)
  have start: "(case x of Inl err \<Rightarrow> (None, db1, Inl (''load running session: '' @ err))
      | Inr (Some running) \<Rightarrow> resume paper_store None running db1
      | Inr None \<Rightarrow> StartSession paper_store None newID now symbols cfg db) = (m, db', Inr r)"
    using assms(1) run
    by (auto simp: StartSession_def paper_store_def split: sum.split option.split)
  show ?thesis
  proof (cases x)
    case (Inl err)
    then show ?thesis using start by simp
  next
    case (Inr y)
    show ?thesis
    proof (cases y)
      case (Some running)
      then have "resume paper_store None running db1 = (m, db', Inr r)" using start Inr by simp
      from resume_equity [OF this] show ?thesis by (simp add: tab)
    next
      case None
      then have "\<not> sr_Recovered r"
        using assms(1) run Inr
        by (auto simp: StartSession_def createNew_def paper_store_def Let_def
            split: prod.splits sum.splits option.splits if_splits)
      with assms(2) show ?thesis by simp
    qed
  qed
qed

lemma boot_equity:
  assumes boot: "bootExecution D U W hs w path db = Serving cfg r st"
    and fresh: "own_rows (xw_newID W) (pd_equity db) = []"
  shows "bl_equity (lv_blot st) = start_equity cfg (ps_SessionID (sr_Session r)) (pd_equity db)"
proof -
  obtain xc m db1 where "executionLoad (xw_viper W) path = Inr xc"
    and start: "StartSession paper_store None (xw_newID W) (xw_now W) (xc_Symbols xc)
      (xc_StrategyConfig xc) db = (m, db1, Inr r)" and st: "st = startLive cfg hs w (xc_Symbols xc) m r db1"
    by (rule boot_serving [OF boot]) blast
  show ?thesis
  proof (cases "sr_Recovered r")
    case True
    then have "sr_Equity r = latest_equity (ps_SessionID (sr_Session r)) (pd_equity db)"
      by (rule StartSession_equity [OF start])
    with True show ?thesis
      by (simp add: st startLive_def NewBlotter_def start_equity_def Let_def)
  next
    case False
    then have "ps_SessionID (sr_Session r) = xw_newID W" by (rule StartSession_result(3) [OF start])
    with False fresh show ?thesis
      by (simp add: st startLive_def NewBlotter_def start_equity_def latest_equity_def Let_def)
  qed
qed

lemma startLive_session:
  "session_kept s (pd_sessions db) (startLive cfg hs w syms (Some s) r db)"
  by (simp add: session_kept_def halt_of_def)

section \<open>Starting over what a process left\<close>

lemma StartSession_resumes:
  assumes "pd_errs db = []" and "newest ps_StartedAt (filter is_running (pd_sessions db)) = Some s"
  shows "StartSession paper_store None i t syms sc db =
     (Some s, db, Inr \<lparr>sr_Session = s,
        sr_Positions = filter (\<lambda>p. pp_SessionID p = ps_SessionID s) (pd_positions db),
        sr_Equity = latest_equity (ps_SessionID s) (pd_equity db), sr_Recovered = True\<rparr>)"
  using assms
  by (simp add: StartSession_def resume_def paper_store_def LoadRunningSession_def LoadPositions_def
      LoadLatestEquity_def answer_def latest_equity_def own_rows_def)

lemma StartSession_refuses:
  assumes "pd_errs db = []" and "filter is_running (pd_sessions db) = []"
    and "newest ps_StartedAt (pd_sessions db) = Some s" and "ps_Status s = SessionHalted"
  shows "\<exists>err. StartSession paper_store None i t syms sc db = (None, db, Inl err)"
  using assms
  by (simp add: StartSession_def paper_store_def LoadRunningSession_def LoadLatestSession_def answer_def)

lemma newest_map: "(\<And>x. key (f x) = key x) \<Longrightarrow> newest key (map f xs) = map_option f (newest key xs)"
  by (induction xs) (auto split: option.split)

lemma one_running:
  assumes "running_count rows \<le> 1" and "newest ps_StartedAt (filter is_running rows) = Some s"
    and "x \<in> set rows" and "is_running x"
  shows "x = s"
proof -
  have "s \<in> set (filter is_running rows)" "x \<in> set (filter is_running rows)"
    using newest_in [OF assms(2)] assms(3,4) by simp_all
  moreover have "length (filter is_running rows) \<le> 1" using assms(1) by (simp add: running_count_def)
  ultimately show ?thesis by (cases "filter is_running rows") auto
qed

lemma none_running:
  assumes "running_count rows \<le> 1" and "newest ps_StartedAt (filter is_running rows) = Some s"
    and "status \<noteq> SessionRunning"
  shows "filter is_running (map (set_status (ps_SessionID s) status t e) rows) = []"
  using one_running [OF assms(1,2)] assms(3) by (auto simp: filter_empty_conv set_status_def split: if_splits)

lemma stopped_none_running:
  assumes half: "halt_of (ps_SessionID s) rows rows'" and "running_count rows \<le> 1"
    and "newest ps_StartedAt (filter is_running rows) = Some s"
  shows "filter is_running (map (set_status (ps_SessionID s) SessionStopped t e) rows') = []"
proof -
  consider "rows' = rows" | t' e' where "rows' = map (set_status (ps_SessionID s) SessionHalted t' e') rows"
    using half by (auto simp: halt_of_def)
  then show ?thesis
  proof cases
    case 1
    then show ?thesis using none_running [OF assms(2,3)] by simp
  next
    case 2
    have "filter is_running rows' = []"
      using none_running [OF assms(2,3)] by (simp add: 2)
    then show ?thesis by (auto simp: filter_empty_conv set_status_def)
  qed
qed

text \<open>A halted session, if it is the newest one, keeps every later process from starting.\<close>

lemma halted_refuses:
  assumes "pd_errs db = []" and "running_count rows \<le> 1"
    and "newest ps_StartedAt (filter is_running rows) = Some s" and "newest ps_StartedAt rows = Some s"
    and "pd_sessions db = map (set_status (ps_SessionID s) SessionHalted t' e) rows"
  shows "\<exists>err. StartSession paper_store None i t syms sc db = (None, db, Inl err)"
proof (rule StartSession_refuses [OF assms(1)])
  show "filter is_running (pd_sessions db) = []"
    using none_running [OF assms(2,3)] assms(5) by simp
  have "newest ps_StartedAt (pd_sessions db) =
      map_option (set_status (ps_SessionID s) SessionHalted t' e) (newest ps_StartedAt rows)"
    unfolding assms(5) by (rule newest_map) (simp add: set_status_def)
  then show "newest ps_StartedAt (pd_sessions db) = Some (set_status (ps_SessionID s) SessionHalted t' e s)"
    by (simp add: assms(4))
  show "ps_Status (set_status (ps_SessionID s) SessionHalted t' e s) = SessionHalted"
    by (simp add: set_status_def)
qed

text \<open>A running session is resumed with the positions its tables have.\<close>

lemma resumed_blotter:
  assumes boot: "bootExecution D U W hs w path db = Serving cfg r st"
    and load: "executionLoad (xw_viper W) path = Inr xc"
    and inv: "served (ps_SessionID s) e0 es lv" and clean: "pd_errs (lv_db lv) = []"
    and running: "newest ps_StartedAt (filter is_running (pd_sessions (lv_db lv))) = Some s"
  shows "\<exists>r2 st2. bootExecution D U (W\<lparr>xw_newID := i, xw_now := t\<rparr>) hs' w' path (lv_db lv) = Serving cfg r2 st2 \<and>
     sr_Recovered r2 \<and> sr_Session r2 = s \<and>
     (\<forall>sy. BlotterPosition sy (lv_blot st2) = BlotterPosition sy (lv_blot lv)) \<and>
     bl_equity (lv_blot st2) = start_equity cfg (ps_SessionID s) (pd_equity (lv_db lv))"
proof -
  have start: "StartSession paper_store None i t (xc_Symbols xc) (xc_StrategyConfig xc) (lv_db lv) =
      (Some s, lv_db lv, Inr \<lparr>sr_Session = s,
        sr_Positions = filter (\<lambda>p. pp_SessionID p = ps_SessionID s) (pd_positions (lv_db lv)),
        sr_Equity = latest_equity (ps_SessionID s) (pd_equity (lv_db lv)), sr_Recovered = True\<rparr>)"
      (is "_ = (_, _, Inr ?r2)")
    by (rule StartSession_resumes [OF clean running])
  let ?st2 = "startLive cfg hs' w' (xc_Symbols xc) (Some s) ?r2 (lv_db lv)"
  have boot2: "bootExecution D U (W\<lparr>xw_newID := i, xw_now := t\<rparr>) hs' w' path (lv_db lv) = Serving cfg ?r2 ?st2"
    by (simp add: boot_again [OF boot load] start)
  have "mirrored pd_positions (lv_blot ?st2) (lv_db lv)"
    using inv by (intro startLive_mirrored) (simp_all add: served_def mirrored_def)
  then have "net (lv_blot ?st2) sy = net (lv_blot lv) sy" for sy
    using inv by (simp add: served_def mirrored_def)
  moreover have "bl_equity (lv_blot ?st2) = start_equity cfg (ps_SessionID s) (pd_equity (lv_db lv))"
    by (simp add: startLive_def NewBlotter_def start_equity_def Let_def)
  ultimately show ?thesis using boot2 by (simp add: BlotterPosition_net)
qed

section \<open>A concrete process\<close>

definition wit_viper :: "string \<Rightarrow> viper_pkg" where
  "wit_viper strategy = \<lparr>vk_ReadInConfig = (\<lambda>calls. None),
     vk_Unmarshal = (\<lambda>calls. Inr \<lparr>st_string = (\<lambda>k. if k = ''strategy_config'' then strategy else []),
       st_int = (\<lambda>k. 0), st_strings = (\<lambda>k. [''BTCUSDT'']), st_symbols = (\<lambda>k. [])\<rparr>)\<rparr>"

definition wit_world :: "string \<Rightarrow> string \<Rightarrow> unit exec_world" where
  "wit_world strategy dsn = \<lparr>xw_getenv = (\<lambda>k. dsn), xw_viper = wit_viper strategy,
     xw_levels = \<lparr>zl_levelText = (\<lambda>s. Inr ()), zl_InfoLevel = (), zl_DebugLevel = ()\<rparr>, xw_logPaths = [],
     xw_logBuild = (\<lambda>l ps. None), xw_ping = (\<lambda>a p. None), xw_pool = (\<lambda>dsn. None),
     xw_group = (\<lambda>k g. None), xw_newID = ''s1'', xw_now = 5\<rparr>"

definition wit_input :: "nat \<Rightarrow> live_input" where
  "wit_input n = \<lparr>li_books = [], li_env = wit_live_env\<rparr>"

definition wit_unmarshal :: "string \<Rightarrow> rat strategy_config \<Rightarrow> rat strategy_config \<times> string option" where
  "wit_unmarshal raw c = (c, Some ''json: cannot unmarshal array'')"

definition wit_session :: "string \<Rightarrow> paper_session" where
  "wit_session strategy = \<lparr>ps_SessionID = ''s1'', ps_Status = SessionRunning, ps_Symbols = [''BTCUSDT''],
     ps_StrategyConfig = strategy, ps_StartedAt = 5, ps_StoppedAt = None, ps_Error = []\<rparr>"

lemmas wit_boot_defs = bootExecution_def executionLoad_def readAndUnmarshal_def executionLogger_def
  logConfig_def requireEnv_def consumerStart_def wit_world_def wit_viper_def StartSession_def
  paper_store_def LoadRunningSession_def LoadLatestSession_def LoadPositions_def LoadLatestEquity_def
  answer_def createNew_def CreateSession_def resume_def wit_db_def ParseStrategyConfig_def
  wit_unmarshal_def Let_def

text \<open>The first start of the service.\<close>

definition wit_started :: "rat start_result" where
  "wit_started = \<lparr>sr_Session = wit_session ''{}'', sr_Positions = [], sr_Equity = 0, sr_Recovered = False\<rparr>"

lemma wit_serving:
  "bootExecution rat_pkg wit_unmarshal (wit_world ''{}'' ''dsn'') NoopHaltStore () ''c.yaml'' wit_db =
     Serving (strategyDefaults rat_pkg) wit_started
       (startLive (strategyDefaults rat_pkg) NoopHaltStore () [''BTCUSDT'']
         (Some (wit_session ''{}'')) wit_started (wit_db\<lparr>pd_sessions := [wit_session ''{}'']\<rparr>))"
  by (simp add: wit_boot_defs wit_started_def wit_session_def)

text \<open>A process that is killed after its first buy: the start, the entries it gets, the state it has reached.\<close>

definition wit_decode :: "string \<Rightarrow> rat strategy_config \<Rightarrow> rat strategy_config \<times> string option" where
  "wit_decode raw c = (wit_strategy, None)"

definition wit_fresh :: "rat start_result" where
  "wit_fresh = \<lparr>sr_Session = wit_session ''7'', sr_Positions = [], sr_Equity = 0, sr_Recovered = False\<rparr>"

definition wit_live :: "(unit, rat) live_state" where
  "wit_live = startLive wit_strategy NoopHaltStore () [''BTCUSDT''] (Some (wit_session ''7'')) wit_fresh
     (wit_db\<lparr>pd_sessions := [wit_session ''7'']\<rparr>)"

lemma wit_live_serving:
  "bootExecution rat_pkg wit_decode (wit_world ''7'' ''dsn'') NoopHaltStore () ''c.yaml'' wit_db =
     Serving wit_strategy wit_fresh wit_live"
proof -
  have "parseJSON ''7'' = Some (JNumber ''7'')" by code_simp
  then show ?thesis by (simp add: wit_boot_defs wit_live_def wit_fresh_def wit_session_def wit_decode_def)
qed

definition wit_booked :: "nat \<Rightarrow> live_input" where
  "wit_booked n = \<lparr>li_books = [(''1-0'', l2Values rat_pkg [] ''BTCUSDT'' 3 1 [\<lparr>pl_Price = 99, pl_Quantity = 3\<rparr>]
     [\<lparr>pl_Price = 101, pl_Quantity = 1\<rparr>])], li_env = wit_live_env\<rparr>"

definition wit_killed :: "(unit, rat) live_state" where
  "wit_killed = serveExecution wit_client rat_pkg wit_strategy wit_booked [False]
     ([], [(''2-0'', xa_Values (PublishSignalEvent rat_pkg liveNamespace (wit_signal 1)))]) wit_live"

lemma wit_cached:
  "\<exists>c. live_run rat_pkg wit_strategy (map LiveBook (li_books (wit_booked n))) wit_live = wit_live\<lparr>lv_cache := c\<rparr> \<and>
     BestPrices ''BTCUSDT'' c = (99, 101, True)"
proof -
  have up: "ToUpper ''BTCUSDT'' = ''BTCUSDT''" by code_simp
  then have "usable rat_pkg (l2Values rat_pkg [] ''BTCUSDT'' 3 1 [\<lparr>pl_Price = 99, pl_Quantity = 3\<rparr>]
     [\<lparr>pl_Price = 101, pl_Quantity = 1\<rparr>]) = Some (''BTCUSDT'', \<lparr>bp_bid = 99, bp_ask = 101\<rparr>)"
    using rat_pkg_strings by (simp add: usable_def bestPriceFromJSON_def unmarshalPairs_levels decimal_strings_def Let_def)
  then show ?thesis
    by (intro exI [of _ "lv_cache (live_run rat_pkg wit_strategy (map LiveBook (li_books (wit_booked n))) wit_live)"])
      (simp add: live_run_def wit_booked_def cacheMessage_usable BestPrices_def up)
qed

lemma wit_killed_state:
  "net (lv_blot wit_killed) ''BTCUSDT'' = 1 \<and> pd_errs (lv_db wit_killed) = [] \<and>
   pd_sessions (lv_db wit_killed) = pd_sessions (lv_db wit_live) \<and>
   bl_equity (lv_blot wit_killed) = 1000 \<and> (\<exists>e. pd_equity (lv_db wit_killed) = [e])"
proof -
  obtain ca where ca: "live_run rat_pkg wit_strategy (map LiveBook (li_books (wit_booked 0))) wit_live = wit_live\<lparr>lv_cache := ca\<rparr>"
    and best: "BestPrices ''BTCUSDT'' ca = (99, 101, True)"
    using wit_cached [of 0] by blast
  let ?st = "wit_live\<lparr>lv_cache := ca\<rparr>"
  have flat: "net (lv_blot ?st) ''BTCUSDT'' = 0" "pd_errs (lv_db ?st) = []"
    by (simp_all add: wit_live_def startLive_def wit_fresh_def wit_db_def NewBlotter_def pos_of_def Let_def)
  have "snd (CanTrade rat_pkg ''BTCUSDT'' SideBuy 1 5 (lv_risk ?st)) = None"
    by (simp add: CanTrade_def wit_live_def startLive_def wit_fresh_def riskConfigOf_def NewChecker_def Let_def
        Halted_def wit_strategy_def probePersistedHalt_def NoopHaltStore_def checkPosition_def
        split: prod.split option.split)
  then obtain c where can: "CanTrade rat_pkg (sg_Symbol (wit_signal 1)) SideBuy (sc_TradeQty wit_strategy)
      (sg_EventTime (wit_signal 1)) (lv_risk ?st) = (c, None)"
    by (cases "CanTrade rat_pkg ''BTCUSDT'' SideBuy 1 5 (lv_risk ?st)") (simp add: wit_signal_def wit_strategy_def)
  have dec: "Decide wit_strategy (wit_signal 1) (fst (BlotterPosition (sg_Symbol (wit_signal 1)) (lv_blot ?st))) = Some SideBuy"
    using flat(1) by (simp add: Decide_def BlotterPosition_net wit_signal_def wit_strategy_def)
  let ?f = "liveFill rat_pkg wit_strategy wit_live_env ''2-0'' (wit_signal 1) SideBuy 99 101"
  have empty: "pos_of (lv_blot ?st) ''BTCUSDT'' = flat_position" "bl_equity (lv_blot ?st) = 1000" "pd_equity (lv_db ?st) = []"
    by (simp_all add: wit_live_def startLive_def wit_fresh_def wit_db_def NewBlotter_def pos_of_def Let_def wit_strategy_def)
  obtain st' where st': "buildHandler rat_pkg wit_strategy wit_live_env ''2-0'' (wit_signal 1) ?st = (st', None)"
    "net (lv_blot st') ''BTCUSDT'' = 1" "pd_errs (lv_db st') = []"
    and fill: "blotRecordFill rat_pkg PersistFill ?f (lv_blot ?st) (lv_db ?st) = (lv_blot st', lv_db st', None)"
    using handler_trades [OF dec can _ flat(2), of 99 101 wit_live_env "''2-0''"] best flat(1)
    by (fastforce simp: wit_signal_def wit_strategy_def proposedDelta_def)
  have "\<lfloor>1 / 2 :: rat\<rfloor> = 0" by linarith
  then have f: "fr_Symbol ?f = ''BTCUSDT''" "fr_Fee ?f = 0" "fr_Side ?f = SideBuy"
    by (simp_all add: liveFill_def wit_signal_def wit_strategy_def Let_def ComputeFee_def rat_pkg_def rat_div_def)
  have "snd (blotApplyFill rat_pkg flat_position ?f) = 0"
    by (simp add: blotApplyFill_def applyBuy_def flat_position_def f)
  then have rows: "bl_equity (lv_blot st') = 1000" "\<exists>e. pd_equity (lv_db st') = [e]"
    "pd_sessions (lv_db st') = pd_sessions (lv_db wit_live)"
    using fill_row [OF fill, unfolded f empty] fill_sessions [OF fill] by simp_all
  have "signal_ok (wit_signal 1)" by (simp add: signal_ok_def wit_signal_def time_ok_def)
  then have "decodeSignalEvent rat_pkg (xa_Values (PublishSignalEvent rat_pkg liveNamespace (wit_signal 1))) = Some (wit_signal 1)"
    using decode_signal [OF rat_pkg_strings rat_pkg_text] by (simp add: wit_signal_def)
  then have "wit_killed = st'"
    by (simp add: wit_killed_def serveExecution_def wit_client_def batchSize_def drainPEL_def readNew_def
        consumerMessages_def consumerMessage_def consumerAck_def liveHandler_def wit_booked_def [of 0, THEN arg_cong, of li_env]
        ca st'(1))
  then show ?thesis using st' rows by simp
qed

section \<open>Properties\<close>

text \<open>
  C18 (roundtrip): a process that served any signals and was then killed, whether its session was
  new or resumed, and whichever fills the database refused: the same service started again over
  the database it left resumes that session, and its blotter shows for every symbol the position
  and quantity of the killed one. Its equity is that of the session's equity point with the latest event time,
  or the initial capital when there is none or it is zero: this is the equity of the killed process when the
  event times of the session's points rise and that equity is not zero. (The equity points written since the start
  end with the equity in memory.) If the session was halted meanwhile and is the newest one, the
  service does not start again, whatever the halt store in Redis says. Only the blotter is recovered
  exactly: the restarted checker takes short positions as longs (\<open>recovery_mirrors_shorts\<close>).
\<close>

theorem crash_recovery:
  fixes D :: "'d::linordered_idom decimal_pkg"
  assumes boot: "bootExecution D U W hs w path db = Serving cfg r st"
    and rows: "one_row_per_symbol (pd_positions db)"
    and fresh: "\<forall>p \<in> set (pd_positions db). pp_SessionID p \<noteq> xw_newID W"
    and points: "own_rows (xw_newID W) (pd_equity db) = []"
    and one: "running_count (pd_sessions db) \<le> 1"
    and kill: "st1 = serveExecution G D cfg inp script g st" and clean: "pd_errs (lv_db st1) = []"
    and sid: "sid = ps_SessionID (sr_Session r)"
  shows "equity_follows (bl_equity (lv_blot st)) (pd_equity db) (pd_equity (lv_db st1))
      (bl_equity (lv_blot st1)) \<and>
    (if pd_sessions (lv_db st1) = pd_sessions (lv_db st)
     then \<exists>r2 st2. bootExecution D U (W\<lparr>xw_newID := i, xw_now := t\<rparr>) hs' w' path (lv_db st1) = Serving cfg r2 st2 \<and>
       sr_Recovered r2 \<and> sr_Session r2 = sr_Session r \<and>
       (\<forall>s. BlotterPosition s (lv_blot st2) = BlotterPosition s (lv_blot st1)) \<and>
       bl_equity (lv_blot st2) = start_equity cfg sid (pd_equity (lv_db st1)) \<and>
       (sorted_wrt (<) (map pe_EventTime (own_rows sid (pd_equity (lv_db st1)))) \<and> bl_equity (lv_blot st1) \<noteq> 0 \<longrightarrow>
          bl_equity (lv_blot st2) = bl_equity (lv_blot st1))
     else newest ps_StartedAt (pd_sessions (lv_db st)) = Some (sr_Session r) \<longrightarrow>
       (\<exists>err. bootExecution D U (W\<lparr>xw_newID := i, xw_now := t\<rparr>) hs' w' path (lv_db st1) =
          BootFailed (FailSession err) (lv_db st1)))"
proof -
  obtain xc m db1 where load: "executionLoad (xw_viper W) path = Inr xc"
    and start: "StartSession paper_store None (xw_newID W) (xw_now W) (xc_Symbols xc)
      (xc_StrategyConfig xc) db = (m, db1, Inr r)" and st: "st = startLive cfg hs w (xc_Symbols xc) m r db1"
    by (rule boot_serving [OF boot]) blast
  let ?s = "sr_Session r"
  obtain evs where evs: "st1 = live_run D cfg evs st" using serve_is_run [of G D cfg inp script g st] kill by auto
  have inv: "served sid (bl_equity (lv_blot st)) (pd_equity db) st1"
    unfolding evs sid by (rule served_run [OF boot_served [OF boot rows fresh]])
  then have points_end: "equity_follows (bl_equity (lv_blot st)) (pd_equity db) (pd_equity (lv_db st1)) (bl_equity (lv_blot st1))"
    by (simp add: served_def)
  have half: "halt_of sid (pd_sessions db1) (pd_sessions (lv_db st1))"
    using session_run [OF startLive_session [of "sr_Session r" db1 cfg hs w "xc_Symbols xc" r], of D cfg evs]
      StartSession_result(1) [OF start]
    by (simp add: evs st session_kept_def sid)
  have own: "own_since sid (pd_equity db) st1" unfolding evs
    using StartSession_tables [OF start] by (intro own_run) (simp add: own_since_def st sid own_rows_def)
  note again = boot_again [OF boot load, where i = i and t = t and hs' = hs' and w' = w' and db' = "lv_db st1"]
  have running: "newest ps_StartedAt (filter is_running (pd_sessions db1)) = Some ?s"
    and one1: "running_count (pd_sessions db1) \<le> 1"
    using StartSession_result(4,5) [OF start] one by simp_all
  show ?thesis
  proof (cases "pd_sessions (lv_db st1) = pd_sessions db1")
    case True
    then obtain r2 st2 where r2: "bootExecution D U (W\<lparr>xw_newID := i, xw_now := t\<rparr>) hs' w' path (lv_db st1) = Serving cfg r2 st2"
      "sr_Recovered r2" "sr_Session r2 = ?s" "\<forall>s. BlotterPosition s (lv_blot st2) = BlotterPosition s (lv_blot st1)"
      "bl_equity (lv_blot st2) = start_equity cfg sid (pd_equity (lv_db st1))"
      using resumed_blotter [OF boot load inv [unfolded sid] clean, where i = i and t = t and hs' = hs' and w' = w']
        running sid by auto
    have "bl_equity (lv_blot st2) = bl_equity (lv_blot st1)"
      if "sorted_wrt (<) (map pe_EventTime (own_rows sid (pd_equity (lv_db st1))))" "bl_equity (lv_blot st1) \<noteq> 0"
      using start_equity_follows [OF own points_end [unfolded boot_equity [OF boot points] sid [symmetric]] that(2,1)] r2(5)
      by simp
    with r2 True points_end show ?thesis by (auto simp: st)
  next
    case False
    then obtain t' e where halted: "pd_sessions (lv_db st1) = map (set_status sid SessionHalted t' e) (pd_sessions db1)"
      using half by (auto simp: halt_of_def)
    have "newest ps_StartedAt (pd_sessions db1) = Some ?s \<Longrightarrow>
        \<exists>err. bootExecution D U (W\<lparr>xw_newID := i, xw_now := t\<rparr>) hs' w' path (lv_db st1) =
          BootFailed (FailSession err) (lv_db st1)"
      using halted_refuses [OF clean one1 running _ halted [unfolded sid], of i t "xc_Symbols xc" "xc_StrategyConfig xc"]
      by (auto simp: again)
    then show ?thesis using points_end False by (simp add: st)
  qed
qed

lemma crash_recovery_witness:
  "net (lv_blot wit_killed) ''BTCUSDT'' = 1 \<and>
   (\<exists>r2 st2. bootExecution rat_pkg wit_decode ((wit_world ''7'' ''dsn'')\<lparr>xw_newID := ''s2'', xw_now := 9\<rparr>)
       NoopHaltStore () ''c.yaml'' (lv_db wit_killed) = Serving wit_strategy r2 st2 \<and>
     sr_Recovered r2 \<and> sr_Session r2 = wit_session ''7'' \<and> bl_equity (lv_blot st2) = 1000 \<and>
     BlotterPosition ''BTCUSDT'' (lv_blot st2) = BlotterPosition ''BTCUSDT'' (lv_blot wit_killed))"
proof -
  obtain e where e: "pd_equity (lv_db wit_killed) = [e]" using wit_killed_state by blast
  have "sorted_wrt (<) (map pe_EventTime (own_rows sid (pd_equity (lv_db wit_killed))))" for sid
    by (simp add: e own_rows_def)
  then show ?thesis
    using crash_recovery [OF wit_live_serving _ _ _ _ wit_killed_def _ refl, where i = "''s2''" and t = 9
        and hs' = NoopHaltStore and w' = "()"] wit_killed_state
    by (auto simp: wit_db_def one_row_per_symbol_def running_count_def wit_fresh_def own_rows_def)
qed

text \<open>
  A process that cannot start has traded nothing: trades, positions and equity points
  are as they were, and so are the sessions, except that a new RUNNING one may be left behind when
  the strategy configuration or the consumer fails after it was created.
\<close>

lemma failed_start_trades_nothing:
  fixes D :: "'d::linordered_idom decimal_pkg"
  assumes "bootExecution D U W hs w path db = BootFailed f db'"
  shows "pd_trades db' = pd_trades db \<and> pd_positions db' = pd_positions db \<and> pd_equity db' = pd_equity db \<and>
    (pd_sessions db' = pd_sessions db \<or>
     (\<exists>s. pd_sessions db' = pd_sessions db @ [s] \<and> is_running s \<and> ps_SessionID s = xw_newID W \<and>
        (\<exists>err. f = FailStrategy err \<or> f = FailConsumer err))) \<and>
    executionMain G D U W hs w path inp script g stop db = (1, db')"
proof -
  have start: "case res of Inl e \<Rightarrow> pd_sessions db1 = pd_sessions db
     | Inr r \<Rightarrow> pd_sessions db1 = pd_sessions db \<or>
        (\<exists>s. pd_sessions db1 = pd_sessions db @ [s] \<and> is_running s \<and> ps_SessionID s = i)"
    if "StartSession paper_store m i t syms sc db = (m', db1, res)" for m i t syms sc m' db1 res
    using db.StartSession_facts [OF that] by (auto split: sum.splits if_splits)
  have "pd_sessions db' = pd_sessions db \<or>
     (\<exists>s. pd_sessions db' = pd_sessions db @ [s] \<and> is_running s \<and> ps_SessionID s = xw_newID W \<and>
        (\<exists>err. f = FailStrategy err \<or> f = FailConsumer err))"
    using assms
    by (auto simp: bootExecution_def Let_def split: sum.splits option.splits prod.splits dest!: start)
  then show ?thesis using boot_failed_tables [OF assms] assms by (simp add: executionMain_def)
qed

lemma failed_start_trades_nothing_witness:
  "executionMain wit_client rat_pkg wit_unmarshal (wit_world ''{}'' []) NoopHaltStore () ''c.yaml''
     wit_input [False] ([], []) 7 wit_db = (1, wit_db)"
proof -
  have "bootExecution rat_pkg wit_unmarshal (wit_world ''{}'' []) NoopHaltStore () ''c.yaml'' wit_db =
      BootFailed (FailEnv ''TIMESCALE_DSN'') wit_db"
    by (simp add: wit_boot_defs)
  from failed_start_trades_nothing [OF this, where G = wit_client and inp = wit_input
      and script = "[False]" and g = "([], [])" and stop = 7]
  show ?thesis by (elim conjE)
qed

text \<open>
  C35 (error): what the exit code of the trading service means, over a database that takes every
  statement and has at most one RUNNING session. 0: it was shut down after serving, no session is RUNNING,
  and the one it served is marked STOPPED with the time of the shutdown. 1: it never served, and trades,
  positions and equity points are as they were; the sessions too, except that a new RUNNING one
  is left behind when the strategy configuration or the consumer fails after it was created.
\<close>

theorem service_exit_code:
  fixes D :: "'d::linordered_idom decimal_pkg"
  assumes main: "executionMain G D U W hs w path inp script g stop db = (code, db')"
    and one: "running_count (pd_sessions db) \<le> 1" and errs: "pd_errs db = []"
  shows "(case bootExecution D U W hs w path db of
       BootFailed f db1 \<Rightarrow> code = 1 \<and> pd_trades db' = pd_trades db \<and>
         pd_positions db' = pd_positions db \<and> pd_equity db' = pd_equity db \<and>
         (pd_sessions db' = pd_sessions db \<or>
          (\<exists>s. pd_sessions db' = pd_sessions db @ [s] \<and> is_running s \<and>
             (\<exists>err. f = FailStrategy err \<or> f = FailConsumer err)))
     | Serving cfg r st \<Rightarrow> code = 0 \<and> running_count (pd_sessions db') = 0 \<and>
         (\<forall>s \<in> set (pd_sessions db'). ps_SessionID s = ps_SessionID (sr_Session r) \<longrightarrow>
            ps_Status s = SessionStopped \<and> ps_StoppedAt s = Some stop))"
proof (cases "bootExecution D U W hs w path db")
  case (BootFailed f db1)
  from failed_start_trades_nothing [OF this, of G inp script g stop] main BootFailed show ?thesis
    by auto
next
  case (Serving cfg r st)
  obtain xc m db1 where load: "executionLoad (xw_viper W) path = Inr xc" and start: "StartSession paper_store None (xw_newID W) (xw_now W) (xc_Symbols xc)
      (xc_StrategyConfig xc) db = (m, db1, Inr r)" and st: "st = startLive cfg hs w (xc_Symbols xc) m r db1"
    by (rule boot_serving [OF Serving]) blast
  let ?st1 = "serveExecution G D cfg inp (script @ [True]) g st" and ?sid = "ps_SessionID (sr_Session r)"
  obtain evs where evs: "?st1 = live_run D cfg evs st"
    using serve_is_run [of G D cfg inp "script @ [True]" g st] by auto
  have clean: "pd_errs (lv_db ?st1) = []"
    unfolding evs by (rule clean_run) (use StartSession_errs [OF start errs] in \<open>simp add: st\<close>)
  have m: "lv_session ?st1 = Some (sr_Session r)" and half: "halt_of ?sid (pd_sessions db1) (pd_sessions (lv_db ?st1))"
    unfolding evs
    using session_run [OF startLive_session [of "sr_Session r" db1 cfg hs w "xc_Symbols xc" r], of D cfg evs]
      StartSession_result(1) [OF start]
    by (simp_all add: st session_kept_def)
  have db': "pd_sessions db' = map (set_status ?sid SessionStopped (Some stop) []) (pd_sessions (lv_db ?st1))"
    and code: "code = 0"
    using main clean m
    by (auto simp: executionMain_def Serving Let_def StopSession_def paper_store_def UpdateSessionStatus_def
        answer_def set_status_eq)
  have "filter is_running (pd_sessions db') = []"
    using half unfolding db' by (rule stopped_none_running [OF _ StartSession_result(5) [OF start one]
          StartSession_result(4) [OF start]])
  then show ?thesis using code by (auto simp: Serving running_count_def db' set_status_def)
qed

lemma service_exit_code_witness:
  "case executionMain wit_client rat_pkg wit_unmarshal (wit_world ''{}'' ''dsn'') NoopHaltStore () ''c.yaml''
     wit_input [False] ([], []) 7 wit_db of (code, db') \<Rightarrow> code = 0 \<and> running_count (pd_sessions db') = 0"
proof -
  obtain code db' where main: "executionMain wit_client rat_pkg wit_unmarshal (wit_world ''{}'' ''dsn'')
      NoopHaltStore () ''c.yaml'' wit_input [False] ([], []) 7 wit_db = (code, db')" by fastforce
  from service_exit_code [OF main] show ?thesis
    by (simp add: main wit_serving) (simp add: wit_db_def running_count_def)
qed

section \<open>A session nobody serves\<close>

text \<open>
  The strategy configuration is looked at only after the session row has been written. If it does
  not decode, the process exits and leaves a RUNNING session; the next process, with a repaired
  file, resumes that session, whose row keeps the configuration that was refused.
\<close>

lemma bad_strategy_leaves_running_session:
  "\<exists>db1 err. bootExecution rat_pkg wit_unmarshal (wit_world ''[]'' ''dsn'') NoopHaltStore () ''c.yaml'' wit_db =
       BootFailed (FailStrategy err) db1 \<and>
     running_count (pd_sessions db1) = 1 \<and>
     (\<exists>r st. bootExecution rat_pkg wit_unmarshal (wit_world ''{}'' ''dsn'') NoopHaltStore () ''c.yaml'' db1 =
        Serving (strategyDefaults rat_pkg) r st \<and> sr_Recovered r \<and>
        ps_StrategyConfig (sr_Session r) = ''[]'')"
  by (simp add: wit_boot_defs running_count_def)

end
