(* ===== verification/Signals_Service.thy ===== *)
theory Signals_Service
  imports Consumer Settings Signals
begin

text \<open>
  The signal service as a whole, engine/signals/cmd/erebor-signals/main.go: its start, the arguments of its reads,
  the way a published book update becomes signals the trading service reads, and what is left
  of a batch when the process dies in it.
\<close>

section \<open>Before serving\<close>

record 'l signals_world =
  sw_viper :: viper_pkg
  sw_levels :: "'l zap_levels"
  sw_openLog :: "string \<Rightarrow> string option"
  sw_ping :: "string \<Rightarrow> string \<Rightarrow> string option"
  sw_hostname :: "string option"
  sw_pid :: int
  sw_create :: "string \<Rightarrow> string option"

datatype signals_failure =
    SignalsConfig string
  | SignalsLogger log_error
  | SignalsNoSymbols
  | SignalsRedis string
  | SignalsStart string

definition signalsExit :: "signals_failure \<Rightarrow> int" where
  "signalsExit f = (case f of SignalsConfig e \<Rightarrow> 2 | SignalsLogger e \<Rightarrow> 2 | _ \<Rightarrow> 1)"

record signals_service =
  sv_namespace :: string
  sv_symbols :: "string list"
  sv_depth :: int
  sv_consumerID :: string

text \<open>\<open>sw_hostname\<close> is \<open>None\<close> when \<open>os.Hostname\<close> fails; the process id stands in for it.\<close>

definition bootSignals :: "'l signals_world \<Rightarrow> string \<Rightarrow> signals_failure + signals_service" where
  "bootSignals W path =
     (case signalsLoad (sw_viper W) path of
        Inl err \<Rightarrow> Inl (SignalsConfig err)
      | Inr cfg \<Rightarrow>
     (case signalsLogger (sw_levels W) (sw_openLog W) (lg_Level (gc_Log cfg)) (lg_FileLevel (gc_Log cfg))
             (lg_FilePath (gc_Log cfg)) of
        Inl err \<Rightarrow> Inl (SignalsLogger err)
      | Inr logger \<Rightarrow>
     (if gc_Symbols cfg = [] then Inl SignalsNoSymbols
      else case sw_ping W (gc_RedisAddr cfg) (gc_RedisPassword cfg) of
        Some err \<Rightarrow> Inl (SignalsRedis err)
      | None \<Rightarrow>
          let consumerID = (case sw_hostname W of Some h \<Rightarrow> h
                            | None \<Rightarrow> ''erebor-signals-'' @ formatInt (sw_pid W)) in
          (case startGroups (gc_StreamNamespace cfg) (sw_create W) (gc_Symbols cfg) of
             (keys, Some err) \<Rightarrow> Inl (SignalsStart err)
           | (keys, None) \<Rightarrow>
               Inr \<lparr>sv_namespace = gc_StreamNamespace cfg, sv_symbols = gc_Symbols cfg,
                 sv_depth = gc_SignalDepth cfg, sv_consumerID = consumerID\<rparr>))))"

text \<open>The STREAMS argument of every XREADGROUP: the keys, then \<open>>\<close> for each of them.\<close>

definition signalStreamArgs :: "signals_service \<Rightarrow> string list" where
  "signalStreamArgs s = map (inputKey (sv_namespace s)) (sv_symbols s) @
     replicate (length (sv_symbols s)) ''>''"

text \<open>
  \<open>main\<close>: the exit code and the calls made while serving; \<open>rs\<close> are the replies until the
  context is done.
\<close>

definition signalsMain ::
  "'d::linordered_idom decimal_pkg \<Rightarrow> 'l signals_world \<Rightarrow> string \<Rightarrow> fields read_group list \<Rightarrow>
   int \<times> 'd signal_call list" where
  "signalsMain D W path rs =
     (case bootSignals W path of
        Inl f \<Rightarrow> (signalsExit f, [])
      | Inr s \<Rightarrow> (0, signalReadLoop D (sv_depth s) rs))"

section \<open>What a started service has\<close>

lemma startGroups_keys:
  "startGroups ns create ss = (ks, None) \<Longrightarrow> ks = map (inputKey ns) ss"
  by (induction ss arbitrary: ks) (auto simp: Let_def split: option.splits prod.splits if_splits)

lemma startGroups_creates:
  "startGroups ns create ss = (ks, None) \<Longrightarrow> s \<in> set ss \<Longrightarrow>
   create (inputKey ns s) = None \<or> (\<exists>err. create (inputKey ns s) = Some err \<and> Contains err ''BUSYGROUP'')"
  by (induction ss arbitrary: ks) (auto simp: Let_def split: option.splits prod.splits if_splits)

text \<open>A service that starts has a group on every stream it will read.\<close>

lemma signals_boots:
  assumes "bootSignals W path = Inr s"
  shows "sv_symbols s \<noteq> [] \<and>
    (\<forall>k \<in> set (take (length (sv_symbols s)) (signalStreamArgs s)). sw_create W k = None \<or>
       (\<exists>err. sw_create W k = Some err \<and> Contains err ''BUSYGROUP''))"
proof -
  obtain cfg :: signals_config and ks where "gc_Symbols cfg \<noteq> []"
    and st: "startGroups (gc_StreamNamespace cfg) (sw_create W) (gc_Symbols cfg) = (ks, None)"
    and s: "sv_namespace s = gc_StreamNamespace cfg" "sv_symbols s = gc_Symbols cfg"
    using assms
    by (auto simp: bootSignals_def Let_def split: sum.splits option.splits if_splits prod.splits)
  then show ?thesis using startGroups_creates [OF st] by (auto simp: signalStreamArgs_def)
qed

section \<open>From book updates to signals\<close>

lemma published_handle:
  "published (handleSignalMessage D depth k (i, m)) =
     (case decodeL2BookUpdateEvent D m of None \<Rightarrow> [] | Some e \<Rightarrow> AllSignals D e depth)"
  by (simp add: handleSignalMessage_def AllSignals_def split: option.split)

lemma acks_handle: "acks (handleSignalMessage D depth k (i, m)) = [(k, i)]"
  by (simp add: handleSignalMessage_def AllSignals_def split: option.split)

lemma validUTF8_formatInt [simp]: "validUTF8 (formatInt i)"
proof (rule asciiText_valid)
  have "\<forall>c \<in> set (formatNat n). byteBetween 0 127 c" for n
    using digits_formatNat [of n] by (auto simp: isDigitJ_def byteBetween_def)
  then have "asciiText (formatNat n)" for n by (simp add: asciiText_def)
  then show "asciiText (formatInt i)" by (simp add: formatInt_def byteBetween_def)
qed

lemma AllSignals_ok:
  assumes "l2_Symbol e \<noteq> []" and "time_ok (l2_EventTime e)" and "sg \<in> set (AllSignals D e depth)"
  shows "signal_ok sg"
proof -
  have "validUTF8 ''depth''" by (rule asciiText_valid) (simp add: asciiText_def byteBetween_def)
  then show ?thesis using assms
    by (auto simp: AllSignals_def signal_ok_def bookImbalance_def spreadBps_def midPrice_def Let_def)
qed

lemma AllSignals_params:
  "sg \<in> set (AllSignals D e depth) \<Longrightarrow> sg\<lparr>sg_Params := sort_key fst (sg_Params sg)\<rparr> = sg"
  by (auto simp: AllSignals_def bookImbalance_def spreadBps_def midPrice_def Let_def)

section \<open>From updates to signals\<close>

text \<open>A book update a handler has published, with its entry id.\<close>

record 'd published_update =
  pu_id :: string
  pu_time :: time
  pu_lastUpdateID :: int64
  pu_bids :: "'d price_level list"
  pu_asks :: "'d price_level list"

definition updateEntry ::
  "'d decimal_pkg \<Rightarrow> l2_publisher \<Rightarrow> string \<Rightarrow> string \<Rightarrow> 'd published_update \<Rightarrow> string \<times> string \<times> fields" where
  "updateEntry D pub runID symbol u =
     (let args = PublishL2 D pub runID symbol (pu_time u) (pu_lastUpdateID u) (pu_bids u) (pu_asks u)
      in (xa_Stream args, pu_id u, xa_Values args))"

definition eventOf :: "string \<Rightarrow> string \<Rightarrow> 'd published_update \<Rightarrow> 'd l2_event" where
  "eventOf runID symbol u = \<lparr>l2_RunID = runID, l2_Symbol = ToUpper symbol, l2_EventTime = pu_time u,
     l2_LastUpdateID = pu_lastUpdateID u, l2_Bids = pu_bids u, l2_Asks = pu_asks u\<rparr>"

lemma updateEntry_fields:
  "updateEntry D pub runID symbol u = (inputKey (lp_namespace pub) symbol, pu_id u,
     l2Values D runID symbol (pu_time u) (pu_lastUpdateID u) (pu_bids u) (pu_asks u))"
  by (simp add: updateEntry_def PublishL2_def xadd_def inputKey_def Let_def)

text \<open>
  The path of the market data. When the group hands the signal service the book
  updates the ingest service published for a symbol, in any batches and with any timeouts and
  errors between them, the service publishes, in order, the three signals of every update and
  acknowledges every entry once; the trading service decodes from what was published exactly these
  signals, computed from the levels of the update, with its time.
\<close>

lemma updates_become_signals:
  fixes D :: "'d::linordered_idom decimal_pkg"
  assumes D: "decimal_strings D" "decimal_text D" and sym: "symbol \<noteq> []"
    and times: "\<forall>u \<in> set us. time_ok (pu_time u)"
    and read: "delivered rs = map (updateEntry D pub runID symbol) us" "GroupError True \<notin> set rs"
  shows "published (signalReadLoop D depth rs) = concat (map (\<lambda>u. AllSignals D (eventOf runID symbol u) depth) us) \<and>
    acks (signalReadLoop D depth rs) = map (\<lambda>u. (inputKey (lp_namespace pub) symbol, pu_id u)) us \<and>
    map (\<lambda>sg. decodeSignalEvent D (xa_Values (PublishSignalEvent D (lp_namespace pub) sg)))
        (published (signalReadLoop D depth rs)) = map Some (published (signalReadLoop D depth rs))"
proof -
  let ?all = "\<lambda>us. concat (map (\<lambda>(k, i, m). handleSignalMessage D depth k (i, m)) (map (updateEntry D pub runID symbol) us))"
  have loop: "signalReadLoop D depth rs = ?all us"
    by (simp only: signalReadLoop_delivered [OF read(2)] read(1))
  have one: "decodeL2BookUpdateEvent D (l2Values D runID symbol (pu_time u) (pu_lastUpdateID u) (pu_bids u) (pu_asks u)) =
      Some (eventOf runID symbol u)" if "time_ok (pu_time u)" for u
    using decode_l2Values [OF D that sym] by (simp add: eventOf_def)
  have pubs: "published (?all us) = concat (map (\<lambda>u. AllSignals D (eventOf runID symbol u) depth) us)"
    using times by (induction us) (simp_all add: updateEntry_fields published_handle one)
  have acked: "acks (?all us) = map (\<lambda>u. (inputKey (lp_namespace pub) symbol, pu_id u)) us"
    by (induction us) (simp_all add: updateEntry_fields acks_handle)
  have dec: "decodeSignalEvent D (xa_Values (PublishSignalEvent D (lp_namespace pub) sg)) = Some sg"
    if "sg \<in> set (published (?all us))" for sg
  proof -
    have "sg \<in> set (concat (map (\<lambda>u. AllSignals D (eventOf runID symbol u) depth) us))"
      using that by (simp only: pubs)
    then obtain u where u: "u \<in> set us" "sg \<in> set (AllSignals D (eventOf runID symbol u) depth)"
      by auto
    have "signal_ok sg"
      by (rule AllSignals_ok [OF _ _ u(2)]) (use sym times u(1) in \<open>simp_all add: eventOf_def\<close>)
    from decode_signal [OF D this] AllSignals_params [OF u(2)] show ?thesis by simp
  qed
  then have "map (\<lambda>sg. decodeSignalEvent D (xa_Values (PublishSignalEvent D (lp_namespace pub) sg)))
      (published (?all us)) = map Some (published (?all us))"
    by (simp only: map_eq_conv) blast
  with pubs acked show ?thesis unfolding loop by blast
qed

definition wit_published :: "rat published_update" where
  "wit_published = \<lparr>pu_id = ''1-0'', pu_time = 5, pu_lastUpdateID = 7,
     pu_bids = [\<lparr>pl_Price = 99, pl_Quantity = 3\<rparr>], pu_asks = [\<lparr>pl_Price = 101, pl_Quantity = 1\<rparr>]\<rparr>"

definition wit_pub :: l2_publisher where
  "wit_pub = \<lparr>lp_namespace = ''erebor:live'', lp_maxLen = 50000\<rparr>"

lemma updates_become_signals_witness:
  "acks (signalReadLoop rat_pkg 10 [GroupTimeout, GroupEntries [(inputKey ''erebor:live'' ''BTCUSDT'',
     [(''1-0'', snd (snd (updateEntry rat_pkg wit_pub [] ''BTCUSDT'' wit_published)))])]]) =
   [(inputKey ''erebor:live'' ''BTCUSDT'', ''1-0'')]"
  using updates_become_signals [OF rat_pkg_strings rat_pkg_text, of "''BTCUSDT''" "[wit_published]"
      "[GroupTimeout, GroupEntries [(inputKey ''erebor:live'' ''BTCUSDT'',
         [(''1-0'', snd (snd (updateEntry rat_pkg wit_pub [] ''BTCUSDT'' wit_published)))])]]"
      wit_pub "[]" 10]
  by (simp add: updateEntry_fields wit_published_def wit_pub_def time_ok_def)

section \<open>A process that dies in a batch\<close>

text \<open>
  The reads of one stream against the group itself: every read asks for entries not yet delivered.
  An entry is handled, then acknowledged (here the acknowledgement may fail).
\<close>

fun signalRounds ::
  "('g, fields) group_client \<Rightarrow> 'd::linordered_idom decimal_pkg \<Rightarrow> int \<Rightarrow> string \<Rightarrow> nat \<Rightarrow> 'g \<Rightarrow> 'g \<times> 'd signal_call list" where
  "signalRounds G D depth key 0 g = (g, [])"
| "signalRounds G D depth key (Suc n) g =
     (case gc_new G 20 g of
        (g1, XReadMsgs msgs) \<Rightarrow>
          (case signalRounds G D depth key n (foldl (\<lambda>g m. fst (gc_ack G (fst m) g)) g1 msgs) of
             (g2, cs) \<Rightarrow> (g2, concat (map (handleSignalMessage D depth key) msgs) @ cs))
      | (g1, r) \<Rightarrow> signalRounds G D depth key n g1)"

lemma ack_all:
  assumes "redis_group G pend new"
  shows "new (foldl (\<lambda>g m. fst (gc_ack G (fst m) g)) g msgs) = new g \<and>
    {m \<in> set (pend g). fst m \<notin> fst ` set msgs} \<subseteq> set (pend (foldl (\<lambda>g m. fst (gc_ack G (fst m) g)) g msgs))"
proof (induction msgs arbitrary: g)
  case Nil
  then show ?case by simp
next
  case (Cons m msgs)
  have "new (fst (gc_ack G (fst m) g)) = new g"
    "{x \<in> set (pend g). fst x \<noteq> fst m} \<subseteq> set (pend (fst (gc_ack G (fst m) g)))"
    using redis_ackD(1,2) [OF assms] by auto
  with Cons.IH [of "fst (gc_ack G (fst m) g)"] show ?case by auto
qed

lemma acks_concat:
  "acks (concat (map (handleSignalMessage D depth key) msgs)) = map (\<lambda>m. (key, fst m)) msgs"
proof (induction msgs)
  case (Cons m msgs)
  then show ?case by (cases m) (simp add: acks_handle)
qed simp

text \<open>
  The entries delivered to a process that died before it handled them stay pending for good: no
  later read of the restarted service returns them, so their signals are never published.
\<close>

lemma crashed_batch_is_never_handled:
  assumes G: "redis_group G pend new" and "x \<in> set (pend g)" and "fst x \<notin> fst ` set (new g)"
  shows "x \<in> set (pend (fst (signalRounds G D depth key n g))) \<and>
    (key', fst x) \<notin> set (acks (snd (signalRounds G D depth key n g)))"
  using assms(2,3)
proof (induction n arbitrary: g)
  case 0
  then show ?case by simp
next
  case (Suc n)
  obtain g1 r where r: "gc_new G 20 g = (g1, r)" by fastforce
  show ?case
  proof (cases "\<exists>msgs. r = XReadMsgs msgs")
    case False
    then have "pend g1 = pend g \<and> new g1 = new g"
      using redis_newD [OF G r] by (cases r) simp_all
    then have "x \<in> set (pend (fst (signalRounds G D depth key n g1))) \<and>
        (key', fst x) \<notin> set (acks (snd (signalRounds G D depth key n g1)))"
      using Suc by simp
    then show ?thesis using False by (cases r) (simp_all add: r)
  next
    case True
    then obtain msgs where msgs: "r = XReadMsgs msgs" by blast
    let ?g2 = "foldl (\<lambda>g m. fst (gc_ack G (fst m) g)) g1 msgs"
    have g1: "pend g1 = pend g @ msgs" "new g = msgs @ new g1"
      using redis_newD [OF G r] by (simp_all add: msgs)
    have x: "fst x \<notin> fst ` set msgs" "fst x \<notin> fst ` set (new g1)"
      using Suc.prems(2) by (auto simp: g1(2))
    have "new ?g2 = new g1" "x \<in> set (pend ?g2)"
      using ack_all [OF G, of g1 msgs] x(1) Suc.prems(1) g1(1) by auto
    then have "x \<in> set (pend (fst (signalRounds G D depth key n ?g2))) \<and>
        (key', fst x) \<notin> set (acks (snd (signalRounds G D depth key n ?g2)))"
      using x(2) by (intro Suc.IH) simp_all
    then show ?thesis
      using x(1) by (auto simp: r msgs acks_concat image_iff split: prod.split)
  qed
qed

end
