(* ===== verification/Wiring.thy ===== *)
theory Wiring
  imports Backtest_Service Execution_Service Signals_Service
begin

text \<open>
  How the parts are put together: the constructors with their functional options, the goroutines
  they start and the Redis streams these use. A run's parts meet on the same streams, and two runs
  share none.
\<close>

section \<open>Functional options\<close>

text \<open>\<open>for _, o := range opts { o(c) }\<close>.\<close>

definition applyOptions :: "('c \<Rightarrow> 'c) list \<Rightarrow> 'c \<Rightarrow> 'c" where
  "applyOptions opts c = foldl (\<lambda>c o1. o1 c) c opts"

lemma applyOptions_simps [simp]:
  "applyOptions [] c = c" "applyOptions (o1 # opts) c = applyOptions opts (o1 c)"
  "applyOptions (opts @ opts') c = applyOptions opts' (applyOptions opts c)"
  by (simp_all add: applyOptions_def)

text \<open>What no option changes stays as the constructor set it.\<close>

lemma applyOptions_inv: "(\<And>o1 c. o1 \<in> set opts \<Longrightarrow> f (o1 c) = f c) \<Longrightarrow> f (applyOptions opts c) = f c"
  by (induction opts arbitrary: c) simp_all

section \<open>The result collector\<close>

record ('w, 'd) collector_setup =
  ct_namespace :: string
  ct_runID :: string
  ct_blockDur :: duration
  ct_tradeWriter :: "'w option"
  ct_initialCapital :: 'd

definition defaultBlockDuration :: duration where
  "defaultBlockDuration = 5000000000"

definition collectorWithBlockDuration :: "duration \<Rightarrow> ('w, 'd) collector_setup \<Rightarrow> ('w, 'd) collector_setup" where
  "collectorWithBlockDuration d c = c\<lparr>ct_blockDur := d\<rparr>"

definition WithTradeWriter :: "'w \<Rightarrow> 'd \<Rightarrow> ('w, 'd) collector_setup \<Rightarrow> ('w, 'd) collector_setup" where
  "WithTradeWriter tw initialCapital c = c\<lparr>ct_tradeWriter := Some tw, ct_initialCapital := initialCapital\<rparr>"

definition NewCollector ::
  "string \<Rightarrow> string \<Rightarrow> (('w, 'd) collector_setup \<Rightarrow> ('w, 'd) collector_setup) list \<Rightarrow>
   ('w, 'd::zero) collector_setup" where
  "NewCollector namespace runID opts = applyOptions opts
     \<lparr>ct_namespace = namespace, ct_runID = runID, ct_blockDur = defaultBlockDuration,
      ct_tradeWriter = None, ct_initialCapital = 0\<rparr>"

text \<open>\<open>Start\<close>: the goroutines it launches, each with its stream.\<close>

datatype collector_loop = SignalsLoopOn string | OrdersLoopOn string

definition collectorStart :: "('w, 'd) collector_setup \<Rightarrow> collector_loop list" where
  "collectorStart c =
     (let signalsKey = ct_namespace c @ '':signals'' in
      [SignalsLoopOn signalsKey] @
      (case ct_tradeWriter c of
         None \<Rightarrow> []
       | Some tw \<Rightarrow> let ordersKey = ct_namespace c @ '':orders'' in [OrdersLoopOn ordersKey]))"

text \<open>\<open>SignalCounts\<close> copies the map entry by entry; \<open>TotalSignals\<close>.\<close>

definition SignalCounts :: "signal_counts \<Rightarrow> (string \<times> int) list" where
  "SignalCounts c = foldl (\<lambda>out (k, v). AList.update k v out) [] (cl_counts c)"

definition TotalSignals :: "signal_counts \<Rightarrow> int" where
  "TotalSignals c = cl_total c"

lemma copied_map: "distinct (map fst kvs) \<Longrightarrow> fst ` set kvs \<inter> fst ` set out = {} \<Longrightarrow>
  foldl (\<lambda>out (k, v). AList.update k v out) out kvs = out @ kvs"
proof (induction kvs arbitrary: out)
  case (Cons kv kvs)
  obtain k v where kv: "kv = (k, v)" by fastforce
  have "k \<notin> fst ` set out" using Cons.prems(2) kv by simp
  then have "AList.update k v out = out @ [(k, v)]"
    by (induction out) auto
  moreover have "foldl (\<lambda>out (k, v). AList.update k v out) (out @ [(k, v)]) kvs = (out @ [(k, v)]) @ kvs"
    using Cons.prems kv by (intro Cons.IH) auto
  ultimately show ?case by (simp add: kv)
qed simp

text \<open>What the runner logs at the end: the counts of the symbols add up to the total.\<close>

lemma logged_counts:
  assumes "signalsLoop rs ''0-0'' \<lparr>cl_counts = [], cl_total = 0\<rparr> = (c, lastID)"
  shows "(\<Sum>(s, n) \<leftarrow> SignalCounts c. n) = TotalSignals c \<and> map_of (SignalCounts c) = map_of (cl_counts c)"
  using signal_counts_add_up [OF assms] copied_map [of "cl_counts c" "[]"]
  by (simp add: SignalCounts_def TotalSignals_def)

section \<open>The executor\<close>

record executor_setup =
  es_namespace :: string
  es_symbols :: "string list"
  es_blockDur :: duration
  es_ordersKey :: string

definition defaultExecBlockDur :: duration where
  "defaultExecBlockDur = 5000000000"

definition execWithBlockDuration :: "duration \<Rightarrow> executor_setup \<Rightarrow> executor_setup" where
  "execWithBlockDuration d e = e\<lparr>es_blockDur := d\<rparr>"

definition executorSetup :: "string \<Rightarrow> string list \<Rightarrow> (executor_setup \<Rightarrow> executor_setup) list \<Rightarrow> executor_setup" where
  "executorSetup namespace symbols opts = applyOptions opts
     \<lparr>es_namespace = namespace, es_symbols = symbols, es_blockDur = defaultExecBlockDur,
      es_ordersKey = namespace @ '':orders''\<rparr>"

text \<open>\<open>Start\<close> launches \<open>symbolLoop\<close> once per symbol, which reads the symbol's stream.\<close>

definition symbolStream :: "executor_setup \<Rightarrow> string \<Rightarrow> string" where
  "symbolStream e symbol = es_namespace e @ '':l2:'' @ ToUpper symbol"

definition executorStart :: "executor_setup \<Rightarrow> (string \<times> string) list" where
  "executorStart e = map (\<lambda>sym. (sym, symbolStream e sym)) (es_symbols e)"

text \<open>The id of an order: a version 7 UUID, or a version 4 one when that fails.\<close>

definition freshOrderID :: "string + string \<Rightarrow> string \<Rightarrow> string" where
  "freshOrderID v7 v4 = (case v7 of Inl err \<Rightarrow> v4 | Inr i \<Rightarrow> i)"

section \<open>The runner\<close>

record 'f runner_setup =
  rs_cfg :: "'f runner_config"
  rs_namespace :: string
  rs_collectorBlockDur :: duration

definition WithCollectorBlockDuration :: "duration \<Rightarrow> 'f runner_setup \<Rightarrow> 'f runner_setup" where
  "WithCollectorBlockDuration d r = r\<lparr>rs_collectorBlockDur := d\<rparr>"

definition NewRunner :: "'f runner_config \<Rightarrow> ('f runner_setup \<Rightarrow> 'f runner_setup) list \<Rightarrow> 'f runner_setup" where
  "NewRunner cfg opts = applyOptions opts
     \<lparr>rs_cfg = cfg, rs_namespace = namespaceOf cfg, rs_collectorBlockDur = 0\<rparr>"

text \<open>Steps 4 and 5 of \<open>Run\<close>: the collector and the executor of a run.\<close>

definition runCollector :: "'w \<Rightarrow> 'd::zero strategy_config \<Rightarrow> 'f runner_setup \<Rightarrow> ('w, 'd) collector_setup" where
  "runCollector btRepo sc r =
     (let colOpts = [WithTradeWriter btRepo (sc_InitialCapital sc)];
          colOpts = (if rs_collectorBlockDur r > 0
                     then colOpts @ [collectorWithBlockDuration (rs_collectorBlockDur r)] else colOpts)
      in NewCollector (rs_namespace r) (rg_RunID (rs_cfg r)) colOpts)"

definition runExecutor :: "'f runner_setup \<Rightarrow> executor_setup" where
  "runExecutor r =
     (let execOpts = [];
          execOpts = (if rs_collectorBlockDur r > 0
                      then execOpts @ [execWithBlockDuration (rs_collectorBlockDur r)] else execOpts)
      in executorSetup (rs_namespace r) (rg_Symbols (rs_cfg r)) execOpts)"

text \<open>The namespace \<open>main\<close> gives the publishers of the run; the runner computes its own.\<close>

definition publisherNamespace :: "string \<Rightarrow> string" where
  "publisherNamespace runID = ''erebor:backtest:'' @ runID"

text \<open>
  A control event of the run on the wire, under the namespace of the publisher; a failure is only
  logged.
\<close>

definition publishControl ::
  "string \<Rightarrow> 'f runner_setup \<Rightarrow> control_event_type \<Rightarrow> (string \<times> string) list \<Rightarrow> xadd_args" where
  "publishControl namespace r evType payload = PublishControl namespace
     \<lparr>ce_RunID = rg_RunID (rs_cfg r), ce_Type = evType, ce_Payload = payload\<rparr>"

text \<open>The pattern of \<open>expireStreams\<close>, and what Redis lists for it.\<close>

definition expirePattern :: "'f runner_setup \<Rightarrow> string" where
  "expirePattern r = rs_namespace r @ '':*''"

section \<open>The publisher and the consumers of the live system\<close>

definition WithMaxLen :: "int \<Rightarrow> l2_publisher \<Rightarrow> l2_publisher" where
  "WithMaxLen n p = p\<lparr>lp_maxLen := n\<rparr>"

definition NewL2Publisher :: "string \<Rightarrow> (l2_publisher \<Rightarrow> l2_publisher) list \<Rightarrow> l2_publisher" where
  "NewL2Publisher namespace opts = applyOptions opts \<lparr>lp_namespace = namespace, lp_maxLen = 0\<rparr>"

record feed_consumer =
  fc_namespace :: string
  fc_symbols :: "string list"
  fc_signalDepth :: int
  fc_consumerID :: string
  fc_blockDur :: duration

definition feedWithBlockDuration :: "duration \<Rightarrow> feed_consumer \<Rightarrow> feed_consumer" where
  "feedWithBlockDuration d c = c\<lparr>fc_blockDur := d\<rparr>"

definition feedWithConsumerID :: "string \<Rightarrow> feed_consumer \<Rightarrow> feed_consumer" where
  "feedWithConsumerID i c = c\<lparr>fc_consumerID := i\<rparr>"

definition NewFeedConsumer ::
  "string \<Rightarrow> string list \<Rightarrow> int \<Rightarrow> (feed_consumer \<Rightarrow> feed_consumer) list \<Rightarrow> feed_consumer" where
  "NewFeedConsumer namespace symbols signalDepth opts = applyOptions opts
     \<lparr>fc_namespace = namespace, fc_symbols = symbols, fc_signalDepth = signalDepth,
      fc_consumerID = groupName, fc_blockDur = 5000000000\<rparr>"

record 'h signal_consumer =
  sn_streamKey :: string
  sn_handler :: 'h
  sn_blockDur :: duration
  sn_consumerID :: string

definition signalWithBlockDuration :: "duration \<Rightarrow> 'h signal_consumer \<Rightarrow> 'h signal_consumer" where
  "signalWithBlockDuration d c = c\<lparr>sn_blockDur := d\<rparr>"

definition WithHandler :: "'h \<Rightarrow> 'h signal_consumer \<Rightarrow> 'h signal_consumer" where
  "WithHandler h c = c\<lparr>sn_handler := h\<rparr>"

definition signalWithConsumerID :: "string \<Rightarrow> 'h signal_consumer \<Rightarrow> 'h signal_consumer" where
  "signalWithConsumerID i c = c\<lparr>sn_consumerID := i\<rparr>"

text \<open>Without \<open>WithHandler\<close> the consumer has a handler that does nothing and returns no error.\<close>

definition NewSignalConsumer ::
  "string \<Rightarrow> (('sg, 's) signal_handler signal_consumer \<Rightarrow> ('sg, 's) signal_handler signal_consumer) list \<Rightarrow>
   ('sg, 's) signal_handler signal_consumer" where
  "NewSignalConsumer namespace opts = applyOptions opts
     \<lparr>sn_streamKey = signalsKey namespace, sn_handler = (\<lambda>msgID sg s. (s, None)),
      sn_blockDur = 5000000000, sn_consumerID = executionGroup\<rparr>"

text \<open>
  No option moves a consumer or publisher to another stream: the trading service reads the stream
  the signal service writes under the same namespace, the signal service the streams the ingest
  publisher writes.
\<close>

lemma live_streams_meet:
  fixes D :: "'d decimal_pkg"
  assumes "c = NewSignalConsumer ns (map WithHandler hs @ map signalWithConsumerID is @ map signalWithBlockDuration ds)"
    and "p = NewL2Publisher ns (map WithMaxLen ns')"
  shows "sn_streamKey c = xa_Stream (PublishSignalEvent D ns sg) \<and>
    inputKey ns s = xa_Stream (PublishL2 D p r s t i bs as)"
proof -
  have "sn_streamKey c = signalsKey ns" unfolding assms(1) NewSignalConsumer_def
    by (subst applyOptions_inv [of _ sn_streamKey])
      (auto simp: WithHandler_def signalWithConsumerID_def signalWithBlockDuration_def)
  moreover have "lp_namespace p = ns" unfolding assms(2) NewL2Publisher_def
    by (subst applyOptions_inv [of _ lp_namespace]) (auto simp: WithMaxLen_def)
  ultimately show ?thesis
    by (simp add: signalsKey_def PublishSignalEvent_def xadd_def inputKey_def PublishL2_def Let_def)
qed

section \<open>The streams of a run\<close>

text \<open>Every stream a part of the run reads or writes.\<close>

definition run_streams :: "'d::linordered_idom decimal_pkg \<Rightarrow> 'd strategy_config \<Rightarrow> 'f runner_setup \<Rightarrow> string set" where
  "run_streams D sc r = snd ` set (executorStart (runExecutor r)) \<union> {es_ordersKey (runExecutor r)} \<union>
     {k. SignalsLoopOn k \<in> set (collectorStart (runCollector () sc r)) \<or>
         OrdersLoopOn k \<in> set (collectorStart (runCollector () sc r))} \<union>
     {xa_Stream (publishControl (publisherNamespace (rg_RunID (rs_cfg r))) r t p) |t p. True} \<union>
     {xa_Stream (PublishRiskEvent D (rs_namespace r) ev) |ev. True} \<union>
     {xa_Stream (BacktestPublishL2 D (publisherNamespace (rg_RunID (rs_cfg r))) i s t u bs as) |i s t u bs as.
        s \<in> set (rg_Symbols (rs_cfg r))}"

text \<open>
  Redis' KEYS for a pattern that ends in its only special character lists the keys with the
  prefix before it.
\<close>

definition glob_plain :: "string \<Rightarrow> bool" where
  "glob_plain p \<longleftrightarrow> (\<forall>c \<in> set p. c \<notin> {CHR ''*'', CHR ''?'', CHR 0x5B, CHR 0x5C})"

definition redis_keys :: "(string \<Rightarrow> string list option) \<Rightarrow> string set \<Rightarrow> bool" where
  "redis_keys K store \<longleftrightarrow> (\<forall>p ks. glob_plain p \<longrightarrow> K (p @ ''*'') = Some ks \<longrightarrow>
     set ks = {k \<in> store. prefix p k})"

text \<open>The ids of runs are UUIDs: no colon and no special character occurs in one.\<close>

definition run_id_ok :: "string \<Rightarrow> bool" where
  "run_id_ok i \<longleftrightarrow> glob_plain i \<and> CHR '':'' \<notin> set i"

lemma glob_plain_append: "glob_plain (p @ q) \<longleftrightarrow> glob_plain p \<and> glob_plain q"
  by (auto simp: glob_plain_def)

lemma plain_namespace: "glob_plain ''erebor:backtest:''" "glob_plain '':''"
  by code_simp+

lemma run_key_inj:
  assumes "CHR '':'' \<notin> set i" "CHR '':'' \<notin> set j" and "i @ CHR '':'' # r = j @ CHR '':'' # r'"
  shows "i = j"
proof -
  have "takeWhile (\<lambda>c. c \<noteq> CHR '':'') (i @ CHR '':'' # r) = i" "takeWhile (\<lambda>c. c \<noteq> CHR '':'') (j @ CHR '':'' # r') = j"
    using assms(1,2) by (auto simp: takeWhile_append)
  with assms(3) show ?thesis by simp
qed

lemma setup_keeps:
  "rs_namespace (NewRunner cfg (map WithCollectorBlockDuration ds)) = namespaceOf cfg"
  "rs_cfg (NewRunner cfg (map WithCollectorBlockDuration ds)) = cfg"
proof -
  show "rs_cfg (NewRunner cfg (map WithCollectorBlockDuration ds)) = cfg"
    unfolding NewRunner_def by (subst applyOptions_inv [of _ rs_cfg]) (auto simp: WithCollectorBlockDuration_def)
  show "rs_namespace (NewRunner cfg (map WithCollectorBlockDuration ds)) = namespaceOf cfg"
    unfolding NewRunner_def by (subst applyOptions_inv [of _ rs_namespace]) (auto simp: WithCollectorBlockDuration_def)
qed

lemma run_parts:
  "executorStart (runExecutor r) = map (\<lambda>s. (s, rs_namespace r @ '':l2:'' @ ToUpper s)) (rg_Symbols (rs_cfg r))"
  "es_ordersKey (runExecutor r) = rs_namespace r @ '':orders''"
  "collectorStart (runCollector w sc r) =
     [SignalsLoopOn (rs_namespace r @ '':signals''), OrdersLoopOn (rs_namespace r @ '':orders'')]"
  by (simp_all add: runExecutor_def executorSetup_def executorStart_def execWithBlockDuration_def symbolStream_def
      runCollector_def NewCollector_def WithTradeWriter_def collectorWithBlockDuration_def collectorStart_def Let_def)

lemma run_stream_prefix:
  assumes "rs_namespace r = publisherNamespace (rg_RunID (rs_cfg r))" and "k \<in> run_streams D sc r"
  shows "\<exists>rest. k = rs_namespace r @ CHR '':'' # rest"
  using assms(2) unfolding run_streams_def assms(1) [symmetric]
  by (auto simp: run_streams_def run_parts publishControl_def PublishControl_def PublishRiskEvent_def
      BacktestPublishL2_def xadd_def)

text \<open>A run's namespace, the prefix of its streams, and the keys its pattern lists.\<close>

lemma run_namespace:
  assumes "r = NewRunner c (map WithCollectorBlockDuration ds)"
  shows "rs_namespace r = publisherNamespace (rg_RunID c)" "rs_cfg r = c"
  unfolding assms setup_keeps namespaceOf_def publisherNamespace_def by simp_all

lemma own_prefix:
  assumes "r = NewRunner c (map WithCollectorBlockDuration ds)" and "k \<in> run_streams D sc r"
  shows "prefix (rs_namespace r @ '':'') k"
  using run_stream_prefix [of r, OF _ assms(2)] run_namespace [OF assms(1)] by auto

lemma foreign_prefix:
  assumes a: "a = NewRunner ca (map WithCollectorBlockDuration da)"
    and b: "b = NewRunner cb (map WithCollectorBlockDuration db)"
    and ids: "run_id_ok (rg_RunID ca)" "run_id_ok (rg_RunID cb)" "rg_RunID ca \<noteq> rg_RunID cb"
    and k: "k \<in> run_streams D sc a"
  shows "\<not> prefix (rs_namespace b @ '':'') k"
proof
  assume "prefix (rs_namespace b @ '':'') k"
  then obtain r where r: "k = rs_namespace b @ CHR '':'' # r" by (auto simp: prefix_def)
  obtain r' where "k = rs_namespace a @ CHR '':'' # r'" using own_prefix [OF a k] by (auto simp: prefix_def)
  with r have "rg_RunID ca @ CHR '':'' # r' = rg_RunID cb @ CHR '':'' # r"
    by (simp add: run_namespace [OF a] run_namespace [OF b] publisherNamespace_def)
  with run_key_inj [of "rg_RunID ca" "rg_RunID cb"] ids show False by (simp add: run_id_ok_def)
qed

lemma listed_keys:
  assumes "redis_keys K store" and r: "r = NewRunner c (map WithCollectorBlockDuration ds)"
    and "run_id_ok (rg_RunID c)" and ks: "K (expirePattern r) = Some ks"
  shows "set ks = {k \<in> store. prefix (rs_namespace r @ '':'') k}"
proof -
  have "glob_plain (rg_RunID c)" using assms(3) by (simp add: run_id_ok_def)
  then have "glob_plain (rs_namespace r @ '':'')"
    by (simp only: run_namespace [OF r] publisherNamespace_def glob_plain_append plain_namespace simp_thms)
  moreover have "K ((rs_namespace r @ '':'') @ ''*'') = Some ks" using ks by (simp add: expirePattern_def)
  ultimately show ?thesis using assms(1) unfolding redis_keys_def by blast
qed

text \<open>
  C16 (safety): the parts of a run meet on its streams and no two runs share one. The replay engine of
  a symbol publishes to the stream the symbol's executor goroutine reads, a stream of its own when
  the symbols are in capitals and distinct, and the executor's orders go to the stream
  the collector reads. Runs with different ids have no stream in common, whatever their options; at
  its end a run sets the expiry on every stream of its own that exists, and on none of another run.
\<close>

theorem runs_are_isolated:
  fixes D :: "'d::linordered_idom decimal_pkg" and a b :: "'f runner_setup"
  assumes runs: "a = NewRunner ca (map WithCollectorBlockDuration da)" "b = NewRunner cb (map WithCollectorBlockDuration db)"
    and ids: "run_id_ok (rg_RunID ca)" "run_id_ok (rg_RunID cb)" "rg_RunID ca \<noteq> rg_RunID cb"
    and redis: "redis_keys K store"
  shows "(\<forall>s \<in> set (rg_Symbols ca). (s, xa_Stream (BacktestPublishL2 D (publisherNamespace (rg_RunID ca)) i s t u bs as))
       \<in> set (executorStart (runExecutor a))) \<and>
    (good_symbols (rg_Symbols ca) \<longrightarrow> distinct (map snd (executorStart (runExecutor a)))) \<and>
    OrdersLoopOn (xa_Stream (publishOrder D (es_ordersKey (runExecutor a)) order)) \<in>
       set (collectorStart (runCollector w sc a)) \<and>
    run_streams D sc a \<inter> run_streams D sc b = {} \<and>
    (\<forall>k \<in> run_streams D sc a. CallExpire k \<notin> set (expireStreams (K (expirePattern b)))) \<and>
    (\<forall>ks. K (expirePattern a) = Some ks \<longrightarrow>
       (\<forall>k \<in> run_streams D sc a \<inter> store. CallExpire k \<in> set (expireStreams (Some ks))))"
proof -
  note differ = foreign_prefix [OF runs ids, of _ D sc] and listed = listed_keys [OF redis]
  have meet: "(s, xa_Stream (BacktestPublishL2 D (publisherNamespace (rg_RunID ca)) i s t u bs as))
      \<in> set (executorStart (runExecutor a))" if "s \<in> set (rg_Symbols ca)" for s
    using that by (simp add: run_parts run_namespace [OF runs(1)] BacktestPublishL2_def xadd_def)
  have apart: "distinct (map snd (executorStart (runExecutor a)))" if "good_symbols (rg_Symbols ca)"
    using that by (simp add: run_parts run_namespace [OF runs(1)] good_symbols_def distinct_map inj_on_def comp_def)
  have orders: "OrdersLoopOn (xa_Stream (publishOrder D (es_ordersKey (runExecutor a)) order)) \<in>
      set (collectorStart (runCollector w sc a))"
    by (simp add: run_parts publishOrder_def xadd_def)
  have none: "run_streams D sc a \<inter> run_streams D sc b = {}"
    using differ own_prefix [OF runs(2), of _ D sc] by blast
  have others: "CallExpire k \<notin> set (expireStreams (K (expirePattern b)))" if "k \<in> run_streams D sc a" for k
    using differ [OF that] listed [OF runs(2) ids(2)] by (auto simp: expireStreams_def split: option.split)
  have own: "CallExpire k \<in> set (expireStreams (Some ks))"
    if "K (expirePattern a) = Some ks" "k \<in> run_streams D sc a" "k \<in> store" for k ks
    using listed [OF runs(1) ids(1) that(1)] own_prefix [OF runs(1) that(2)] that(3) by (simp add: expireStreams_def)
  show ?thesis
    by (intro conjI ballI allI impI) (fact meet, fact apart, fact orders, fact none, fact others, auto intro: own)
qed

definition wit_keys :: "string \<Rightarrow> string list option" where
  "wit_keys p = Some (filter (prefix (butlast p)) [''erebor:backtest:r1:orders'', ''erebor:backtest:r2:orders''])"

lemma runs_are_isolated_witness:
  "let b = NewRunner (wit_run_cfg\<lparr>rg_RunID := ''r2''\<rparr>) [] in
   run_streams rat_pkg wit_strategy (NewRunner wit_run_cfg []) \<inter> run_streams rat_pkg wit_strategy b = {} \<and>
   CallExpire ''erebor:backtest:r1:orders'' \<notin> set (expireStreams (wit_keys (expirePattern b)))"
proof -
  have keys: "redis_keys wit_keys (set [''erebor:backtest:r1:orders'', ''erebor:backtest:r2:orders''])"
    by (auto simp: redis_keys_def wit_keys_def)
  have r1: "''erebor:backtest:r1:orders'' \<in> run_streams rat_pkg wit_strategy (NewRunner wit_run_cfg (map WithCollectorBlockDuration []))"
    unfolding run_streams_def run_parts setup_keeps by (simp add: namespaceOf_def wit_run_cfg_def)
  have ids: "run_id_ok (rg_RunID wit_run_cfg)" "run_id_ok (rg_RunID (wit_run_cfg\<lparr>rg_RunID := ''r2''\<rparr>))"
    "rg_RunID wit_run_cfg \<noteq> rg_RunID (wit_run_cfg\<lparr>rg_RunID := ''r2''\<rparr>)"
    by (simp_all add: wit_run_cfg_def run_id_ok_def glob_plain_def)
  note run = runs_are_isolated [OF refl refl ids keys, where da = "[]" and db = "[]" and D = rat_pkg
      and sc = wit_strategy, THEN conjunct2, THEN conjunct2, THEN conjunct2]
  from run [THEN conjunct1] run [THEN conjunct2, THEN conjunct1, rule_format, OF r1] show ?thesis
    by (simp add: Let_def)
qed

end
