(* ===== verification/Ingest.thy ===== *)
theory Ingest
  imports Symbol_Handler_Correct Feed
begin

text \<open>
  The ingest path around the symbol handlers: the websocket stream manager
  (engine/stream/stream.go), the dispatcher (engine/dispatch/dispatcher.go) and the REST snapshot
  fetcher (engine/fetcher/fetcher.go).

  The network is outside: the bytes of a websocket read and of an HTTP response (\<open>Feed\<close> decodes
  them), the random numbers and the moments at which the context is done are the inputs of the
  functions. The dispatcher only uses the payload of an event, so an event is its payload here. An error value says which check failed; the texts of the errors are left out.
\<close>

section \<open>The dispatcher\<close>

datatype level_error = LevelMalformed int | LevelPrice int | LevelQty int

datatype convert_error = BidsError level_error | AsksError level_error

text \<open>\<open>parseLevels\<close>: the loop over \<open>in\<close> from index \<open>i\<close>; the fetcher has the same function.\<close>

fun parseLevelsFrom ::
  "'d decimal_pkg \<Rightarrow> int \<Rightarrow> string list list \<Rightarrow> level_error + 'd price_level list" where
  "parseLevelsFrom D i [] = Inr []"
| "parseLevelsFrom D i (pair # pairs) =
     (if length pair < 2 then Inl (LevelMalformed i)
      else case DFromString D (pair ! 0) of
             None \<Rightarrow> Inl (LevelPrice i)
           | Some price \<Rightarrow>
               (case DFromString D (pair ! 1) of
                  None \<Rightarrow> Inl (LevelQty i)
                | Some qty \<Rightarrow>
                    (case parseLevelsFrom D (i + 1) pairs of
                       Inl err \<Rightarrow> Inl err
                     | Inr out \<Rightarrow> Inr (\<lparr>pl_Price = price, pl_Quantity = qty\<rparr> # out))))"

definition parseLevels ::
  "'d decimal_pkg \<Rightarrow> string list list \<Rightarrow> level_error + 'd price_level list" where
  "parseLevels D pairs = parseLevelsFrom D 0 pairs"

definition convertRaw :: "'d decimal_pkg \<Rightarrow> raw_diff \<Rightarrow> convert_error + 'd diff_event" where
  "convertRaw D ev =
     (case parseLevels D (rw_Bids ev) of
        Inl err \<Rightarrow> Inl (BidsError err)
      | Inr bids \<Rightarrow>
          (case parseLevels D (rw_Asks ev) of
             Inl err \<Rightarrow> Inl (AsksError err)
           | Inr asks \<Rightarrow>
               Inr \<lparr>de_Symbol = ToUpper (rw_Symbol ev), de_EventTime = UnixMilli (rw_EventTimeMS ev),
                    de_FirstUpdateID = rw_FirstUpdateID ev, de_FinalUpdateID = rw_FinalUpdateID ev,
                    de_Bids = bids, de_Asks = asks\<rparr>))"

text \<open>
  \<open>New\<close> registers the handlers under upper-case symbols, in the order the map is iterated:
  of two keys that differ in case only the later one wins.
\<close>

definition NewDispatcher :: "(string \<times> 'h) list \<Rightarrow> (string \<rightharpoonup> 'h)" where
  "NewDispatcher handlers = foldl (\<lambda>m (s, h). m(ToUpper s \<mapsto> h)) Map.empty handlers"

text \<open>
  One received event, and the loop over what the channel delivers until it is closed or the
  context is done. \<open>handle\<close> is the interface's \<open>HandleDiff\<close>; \<open>env\<close> its outside inputs.
\<close>

definition dispatchOne ::
  "'d decimal_pkg \<Rightarrow> ('e \<Rightarrow> 'd diff_event \<Rightarrow> 'h \<Rightarrow> 'h) \<Rightarrow> 'e \<times> raw_diff \<Rightarrow> (string \<rightharpoonup> 'h) \<Rightarrow>
   (string \<rightharpoonup> 'h)" where
  "dispatchOne D handle x handlers =
     (case x of (env, ev) \<Rightarrow>
        (case convertRaw D ev of
           Inl err \<Rightarrow> handlers
         | Inr diff \<Rightarrow>
             (case handlers (de_Symbol diff) of
                None \<Rightarrow> handlers
              | Some h \<Rightarrow> handlers(de_Symbol diff \<mapsto> handle env diff h))))"

definition dispatchRun ::
  "'d decimal_pkg \<Rightarrow> ('e \<Rightarrow> 'd diff_event \<Rightarrow> 'h \<Rightarrow> 'h) \<Rightarrow> ('e \<times> raw_diff) list \<Rightarrow>
   (string \<rightharpoonup> 'h) \<Rightarrow> (string \<rightharpoonup> 'h)" where
  "dispatchRun D handle evs handlers = fold (dispatchOne D handle) evs handlers"

text \<open>What the dispatcher asks of a handler: handling a diff keeps its invariant.\<close>

locale symbol_handler =
  fixes handle :: "'e \<Rightarrow> 'd diff_event \<Rightarrow> 'h \<Rightarrow> 'h" and inv :: "'h \<Rightarrow> bool"
  assumes handle_inv: "inv h \<Longrightarrow> inv (handle env diff h)"
begin

lemma dispatchOne_inv:
  "\<forall>h \<in> ran handlers. inv h \<Longrightarrow> h \<in> ran (dispatchOne D handle x handlers) \<Longrightarrow> inv h"
  by (auto simp: dispatchOne_def ran_def handle_inv split: prod.splits sum.splits option.splits
      if_splits)

lemma dispatchRun_inv:
  "\<forall>h \<in> ran handlers. inv h \<Longrightarrow> h \<in> ran (dispatchRun D handle evs handlers) \<Longrightarrow> inv h"
  unfolding dispatchRun_def
  by (induction evs arbitrary: handlers) (auto, metis dispatchOne_inv)

end

interpretation sh: symbol_handler "HandleDiff OB" "handler_wf 0" for OB :: "('b, 'd) order_book"
  by unfold_locales (rule handler_wf_HandleDiff)

section \<open>The fetcher\<close>

definition hexDigit :: "nat \<Rightarrow> char" where
  "hexDigit d = (if d < 10 then char_of (48 + d) else char_of (55 + d))"

definition unreservedByte :: "char \<Rightarrow> bool" where
  "unreservedByte c \<longleftrightarrow> (let n = of_char c :: nat in
     97 \<le> n \<and> n \<le> 122 \<or> 65 \<le> n \<and> n \<le> 90 \<or> 48 \<le> n \<and> n \<le> 57 \<or> c \<in> set ''-_.~'')"

text \<open>\<open>url.QueryEscape\<close>.\<close>

definition QueryEscape :: "string \<Rightarrow> string" where
  "QueryEscape s = concat (map (\<lambda>c.
     if unreservedByte c then [c] else if c = CHR '' '' then ''+''
     else [CHR ''%'', hexDigit (of_char c div 16), hexDigit (of_char c mod 16)]) s)"

definition depthURL :: "string \<Rightarrow> string \<Rightarrow> int \<Rightarrow> string" where
  "depthURL baseURL symbol limit =
     TrimRight (CHR ''/'') baseURL @ ''/api/v3/depth?symbol='' @ QueryEscape (ToUpper symbol) @
     ''&limit='' @ formatInt (if limit \<le> 0 then 50 else limit)"

text \<open>
  The outcomes of the HTTP round trip: a failure before a response, a body that cannot be
  read, or a response with its status and its body.
\<close>

datatype http_result =
    HttpBuildError | HttpGetError | HttpReadError
  | HttpResponse int string

datatype fetch_error =
    FetchBuild | FetchGet | FetchRead | FetchStatus int | FetchDecode
  | FetchBids level_error | FetchAsks level_error

definition FetchSnapshot ::
  "'d decimal_pkg \<Rightarrow> time \<Rightarrow> string \<Rightarrow> http_result \<Rightarrow> fetch_error + 'd snapshot_event" where
  "FetchSnapshot D now symbol result =
     (case result of
        HttpBuildError \<Rightarrow> Inl FetchBuild
      | HttpGetError \<Rightarrow> Inl FetchGet
      | HttpReadError \<Rightarrow> Inl FetchRead
      | HttpResponse status body \<Rightarrow>
          if status \<noteq> 200 then Inl (FetchStatus status)
          else case unmarshalDepth body of
                 None \<Rightarrow> Inl FetchDecode
               | Some raw \<Rightarrow>
                   (case parseLevels D (dr_Bids raw) of
                      Inl err \<Rightarrow> Inl (FetchBids err)
                    | Inr bids \<Rightarrow>
                        (case parseLevels D (dr_Asks raw) of
                           Inl err \<Rightarrow> Inl (FetchAsks err)
                         | Inr asks \<Rightarrow>
                             Inr \<lparr>se_Symbol = ToUpper symbol, se_CapturedAt = now,
                                  se_LastUpdateID = dr_LastUpdateID raw,
                                  se_Bids = bids, se_Asks = asks\<rparr>)))"

section \<open>The stream manager\<close>

record stream_config =
  sc_BaseURL :: string
  sc_Symbols :: "string list"
  sc_BufferSize :: int
  sc_InitialDelay :: duration
  sc_MaxDelay :: duration

definition normalizeStream :: "stream_config \<Rightarrow> stream_config" where
  "normalizeStream cfg = cfg\<lparr>
     sc_BufferSize := (if sc_BufferSize cfg \<le> 0 then 1024 else sc_BufferSize cfg),
     sc_InitialDelay := (if sc_InitialDelay cfg \<le> 0 then 1000000000 else sc_InitialDelay cfg),
     sc_MaxDelay := (if sc_MaxDelay cfg \<le> 0 then 30000000000 else sc_MaxDelay cfg)\<rparr>"

definition streamNames :: "string list \<Rightarrow> string option" where
  "streamNames symbols =
     (if symbols = [] then None
      else Some (Join (map (\<lambda>s. ToLower s @ ''@depth'') symbols) ''/''))"

text \<open>
  \<open>url.Parse\<close> and the parsed URL are a parameter: its query, keys with their values, and its text
  with another query. \<open>Encode\<close> sorts by key.
\<close>

record 'u url_pkg =
  up_Parse :: "string \<Rightarrow> string + 'u"
  up_Query :: "'u \<Rightarrow> (string \<times> string list) list"
  up_StringWith :: "'u \<Rightarrow> string \<Rightarrow> string"

definition encodeQuery :: "(string \<times> string list) list \<Rightarrow> string" where
  "encodeQuery q = Join (concat (map (\<lambda>(k, vs). map (\<lambda>v. QueryEscape k @ ''='' @ QueryEscape v) vs)
     (sort_key fst q))) ''&''"

definition buildURL :: "'u url_pkg \<Rightarrow> string \<Rightarrow> string list \<Rightarrow> string + string" where
  "buildURL U base symbols =
     (case streamNames symbols of
        None \<Rightarrow> Inl ''at least one symbol required''
      | Some streams \<Rightarrow>
          (case up_Parse U (TrimRight (CHR ''/'') base @ ''/stream'') of
             Inl err \<Rightarrow> Inl err
           | Inr u \<Rightarrow>
               let q = AList.update ''streams'' [streams] (up_Query U u) in
               Inr (up_StringWith U u (encodeQuery q))))"

text \<open>
  One session: the reads of the connection until one fails or the context is done while the
  event is being sent. The result is what was sent to the channel.
\<close>

datatype read_result = ReadError | ReadData string bool

fun readFrames :: "read_result list \<Rightarrow> raw_diff list" where
  "readFrames [] = []"
| "readFrames (ReadError # rs) = []"
| "readFrames (ReadData bytes cancelled # rs) =
     (case unmarshalFrame bytes of
        None \<Rightarrow> readFrames rs
      | Some raw \<Rightarrow>
          if rw_EventType (re_Data raw) = [] then readFrames rs
          else if cancelled then []
          else re_Data raw # readFrames rs)"

text \<open>
  \<open>runOnce\<close>: the URL, the connection (\<open>dial\<close> is the outcome of the handshake within its 15 seconds)
  and the reads on it; what was sent to the channel and the error the session ends with.
\<close>

datatype session_error = BuildURL string | Dial string | SessionEnded

definition runOnce ::
  "'u url_pkg \<Rightarrow> stream_config \<Rightarrow> (string \<Rightarrow> string option) \<Rightarrow> read_result list \<Rightarrow>
   raw_diff list \<times> session_error" where
  "runOnce U cfg dial reads =
     (case buildURL U (sc_BaseURL cfg) (sc_Symbols cfg) of
        Inl err \<Rightarrow> ([], BuildURL err)
      | Inr wsURL \<Rightarrow>
          (case dial wsURL of
             Some err \<Rightarrow> ([], Dial err)
           | None \<Rightarrow> (readFrames reads, SessionEnded)))"

text \<open>The reads a session has: none without a connection.\<close>

definition sessionReads ::
  "'u url_pkg \<Rightarrow> stream_config \<Rightarrow> (string \<Rightarrow> string option) \<Rightarrow> read_result list \<Rightarrow> read_result list" where
  "sessionReads U cfg dial reads = (if snd (runOnce U cfg dial reads) = SessionEnded then reads else [])"

text \<open>
  An iteration of \<open>runLoop\<close>: the context before the session, the session (no reads when the
  dial fails), the context after it, the random number \<open>Int63n\<close> draws and whether the context
  ends the wait. The result is the sent events, the waits, and \<open>None\<close> for the panic
  of \<open>Int63n\<close> at an argument that is not positive. Doubling wraps at 64 bits.
\<close>

record session_script =
  ss_ctxBefore :: bool
  ss_reads :: "read_result list"
  ss_ctxAfter :: bool
  ss_rand :: int
  ss_waitCancelled :: bool

definition nextDelay :: "stream_config \<Rightarrow> duration \<Rightarrow> duration" where
  "nextDelay cfg delay =
     (let d = signed_take_bit 63 (delay * 2) in if sc_MaxDelay cfg < d then sc_MaxDelay cfg else d)"

fun runLoop ::
  "stream_config \<Rightarrow> duration \<Rightarrow> session_script list \<Rightarrow> (raw_diff list \<times> duration list) option" where
  "runLoop cfg delay [] = Some ([], [])"
| "runLoop cfg delay (s # ss) =
     (if ss_ctxBefore s then Some ([], [])
      else let sent = readFrames (ss_reads s) in
           if ss_ctxAfter s then Some (sent, [])
           else if delay \<le> 0 then None
           else let wait = delay + (ss_rand s mod delay) div 2 in
                if ss_waitCancelled s then Some (sent, [wait])
                else case runLoop cfg (nextDelay cfg delay) ss of
                       None \<Rightarrow> None
                     | Some (sent', waits) \<Rightarrow> Some (sent @ sent', wait # waits))"

text \<open>\<open>Connect\<close> and \<open>Close\<close> on the manager's flags; the counter is the WaitGroup's.\<close>

record manager =
  mg_cancel :: bool
  mg_cancelled :: bool
  mg_closed :: bool
  mg_eventsClosed :: bool
  mg_loops :: nat

definition NewManager :: manager where
  "NewManager = \<lparr>mg_cancel = False, mg_cancelled = False, mg_closed = False,
     mg_eventsClosed = False, mg_loops = 0\<rparr>"

definition Connect :: "manager \<Rightarrow> manager \<times> bool" where
  "Connect m = (if mg_closed m then (m, False)
     else (m\<lparr>mg_cancel := True, mg_loops := mg_loops m + 1\<rparr>, True))"

text \<open>
  \<open>Close\<close> cancels the loop of the last \<open>Connect\<close>, waits for all loops and closes the channel.
  \<open>None\<close>: an earlier loop runs on, because neither its own cancel function (overwritten by the
  later \<open>Connect\<close>) nor its parent context ends it, and the wait does not return.
\<close>

definition Close :: "bool \<Rightarrow> manager \<Rightarrow> manager option" where
  "Close parentDone m =
     (if mg_closed m then Some m
      else if mg_loops m \<le> 1 \<or> parentDone
      then Some (m\<lparr>mg_closed := True, mg_cancelled := mg_cancel m, mg_loops := 0,
                   mg_eventsClosed := True\<rparr>)
      else None)"

section \<open>Facts on routing and backoff\<close>

text \<open>
  A session sends what its reads in the loop's script yield, and it is the loop that retries: a
  manager without symbols never dials, and every session of it sends nothing.
\<close>

lemma runOnce_sends: "fst (runOnce U cfg dial reads) = readFrames (sessionReads U cfg dial reads)"
  by (auto simp: sessionReads_def runOnce_def split: sum.split option.split)

lemma no_symbols_no_session:
  "sc_Symbols cfg = [] \<Longrightarrow> runOnce U cfg dial reads = ([], BuildURL ''at least one symbol required'')"
  by (simp add: runOnce_def buildURL_def streamNames_def)

lemma silent_sessions:
  "\<forall>s \<in> set ss. ss_reads s = [] \<Longrightarrow> runLoop cfg delay ss = Some (sent, waits) \<Longrightarrow> sent = []"
proof (induction ss arbitrary: delay sent waits)
  case (Cons s ss)
  then show ?case by (auto simp: Let_def split: if_splits option.splits)
qed simp

text \<open>The diffs of a received list that go to one symbol, each with its outside inputs.\<close>

definition routed ::
  "'d decimal_pkg \<Rightarrow> string \<Rightarrow> ('e \<times> raw_diff) list \<Rightarrow> ('e \<times> 'd diff_event) list" where
  "routed D s evs = List.map_filter (\<lambda>(env, ev).
     case convertRaw D ev of Inl err \<Rightarrow> None
     | Inr diff \<Rightarrow> if de_Symbol diff = s then Some (env, diff) else None) evs"

lemma dispatchOne_at:
  "dispatchOne D handle x handlers s =
     map_option (\<lambda>h. fold (\<lambda>(env, diff). handle env diff) (routed D s [x]) h) (handlers s)"
  by (auto simp: dispatchOne_def routed_def List.map_filter_def option.map_ident
      split: prod.split sum.split option.split)

lemma routed_Cons: "routed D s (x # evs) = routed D s [x] @ routed D s evs"
  by (simp add: routed_def List.map_filter_def split: prod.split)

lemma dispatchRun_at:
  "dispatchRun D handle evs handlers s =
     map_option (\<lambda>h. fold (\<lambda>(env, diff). handle env diff) (routed D s evs) h) (handlers s)"
  unfolding dispatchRun_def
proof (induction evs arbitrary: handlers)
  case Nil
  then show ?case by (simp add: routed_def List.map_filter_def option.map_ident)
next
  case (Cons x evs)
  show ?case
    by (subst routed_Cons) (simp add: Cons dispatchOne_at option.map_comp comp_def)
qed

lemma parseLevelsFrom_print:
  assumes "decimal_strings D"
  shows "parseLevelsFrom D i (map (\<lambda>l. [DString D (pl_Price l), DString D (pl_Quantity l)]) ls) = Inr ls"
  using assms by (induction ls arbitrary: i) simp_all

lemma nextDelay_range:
  assumes "0 < d" "d \<le> sc_MaxDelay cfg" "sc_MaxDelay cfg < 2 ^ 62"
  shows "nextDelay cfg d = min (2 * d) (sc_MaxDelay cfg)"
proof -
  have "signed_take_bit 63 (d * 2) = d * 2"
    using assms by (intro signed_take_bit_int_eq_self) simp_all
  then show ?thesis by (simp add: nextDelay_def Let_def min_def)
qed

lemma runLoop_waits:
  assumes "0 < d" "d \<le> sc_MaxDelay cfg" "sc_MaxDelay cfg < 2 ^ 62"
  shows "\<exists>sent waits. runLoop cfg d ss = Some (sent, waits) \<and>
    (\<forall>i < length waits. min (d * 2 ^ i) (sc_MaxDelay cfg) \<le> waits ! i \<and>
       2 * (waits ! i) < 3 * min (d * 2 ^ i) (sc_MaxDelay cfg))"
  using assms(1,2)
proof (induction ss arbitrary: d)
  case Nil
  then show ?case by simp
next
  case (Cons s ss)
  let ?wait = "d + (ss_rand s mod d) div 2"
  have w: "d \<le> ?wait" "2 * ?wait < 3 * d"
  proof -
    define m where "m = ss_rand s mod d"
    have "0 \<le> m" "m < d" using Cons.prems by (simp_all add: m_def)
    then have "d \<le> d + m div 2 \<and> 2 * (d + m div 2) < 3 * d" by presburger
    then show "d \<le> ?wait" "2 * ?wait < 3 * d" by (simp_all add: m_def)
  qed
  have nd: "nextDelay cfg d = min (2 * d) (sc_MaxDelay cfg)"
    using Cons.prems assms(3) by (rule nextDelay_range)
  with Cons.prems have nd_range: "0 < nextDelay cfg d" "nextDelay cfg d \<le> sc_MaxDelay cfg" by auto
  from Cons.IH [OF this] obtain sent waits where
    run: "runLoop cfg (nextDelay cfg d) ss = Some (sent, waits)" and
    ws: "\<And>i. i < length waits \<Longrightarrow>
       min (nextDelay cfg d * 2 ^ i) (sc_MaxDelay cfg) \<le> waits ! i \<and>
       2 * (waits ! i) < 3 * min (nextDelay cfg d * 2 ^ i) (sc_MaxDelay cfg)" by blast
  have pow: "min (nextDelay cfg d * 2 ^ i) (sc_MaxDelay cfg) =
      min (d * 2 ^ Suc i) (sc_MaxDelay cfg)" for i
  proof -
    have grow: "x \<le> x * 2 ^ i" if "0 \<le> x" for x :: int
      using that by (simp add: mult_le_cancel_left1)
    show ?thesis
    proof (cases "2 * d \<le> sc_MaxDelay cfg")
      case False
      then have "sc_MaxDelay cfg < 2 * d * 2 ^ i" "sc_MaxDelay cfg \<le> sc_MaxDelay cfg * 2 ^ i"
        using grow [of "2 * d"] grow [of "sc_MaxDelay cfg"] Cons.prems by linarith+
      with False show ?thesis
        by (simp only: nd power_Suc mult.assoc mult.left_commute [of d 2])
    qed (simp add: nd mult.assoc mult.left_commute)
  qed
  have "\<forall>i < length (?wait # waits). min (d * 2 ^ i) (sc_MaxDelay cfg) \<le> (?wait # waits) ! i \<and>
       2 * ((?wait # waits) ! i) < 3 * min (d * 2 ^ i) (sc_MaxDelay cfg)"
  proof (intro allI impI)
    fix i assume "i < length (?wait # waits)"
    then show "min (d * 2 ^ i) (sc_MaxDelay cfg) \<le> (?wait # waits) ! i \<and>
       2 * ((?wait # waits) ! i) < 3 * min (d * 2 ^ i) (sc_MaxDelay cfg)"
      using w ws pow Cons.prems by (cases i) auto
  qed
  moreover have "\<forall>i < length [?wait]. min (d * 2 ^ i) (sc_MaxDelay cfg) \<le> [?wait] ! i \<and>
       2 * ([?wait] ! i) < 3 * min (d * 2 ^ i) (sc_MaxDelay cfg)"
    using w Cons.prems by simp
  ultimately show ?case using run Cons.prems by (simp add: Let_def)
qed

section \<open>Properties\<close>

text \<open>
  Handlers that satisfy the handler invariant still do after the dispatcher
  has run over any list of received events: none is stuck in Resyncing and no buffer is
  beyond its limit.
\<close>

lemma dispatch_keeps_handlers:
  assumes "\<And>s h. handlers s = Some h \<Longrightarrow> handler_wf 0 h"
    and "dispatchRun D (HandleDiff (book_ops D)) evs handlers s = Some h"
  shows "h_state h \<noteq> Resyncing \<and> int (length (h_buffer h)) \<le> hc_MaxBufferSize (h_cfg h) \<and>
     h_bootstrapG h \<le> 1"
proof -
  have "handler_wf 0 h"
    by (rule sh.dispatchRun_inv [where handlers = handlers and D = D and evs = evs])
      (use assms in \<open>auto simp: ran_def\<close>)
  then show ?thesis by (auto simp: handler_wf_def)
qed

definition wit_raw :: raw_diff where
  "wit_raw = \<lparr>rw_EventType = ''depthUpdate'', rw_EventTimeMS = 1, rw_Symbol = ''btcusdt'',
     rw_FirstUpdateID = 1, rw_FinalUpdateID = 2, rw_Bids = [], rw_Asks = []\<rparr>"

definition wit_frame :: string where
  "wit_frame = frameText \<lparr>re_Stream = ''btcusdt@depth'', re_Data = wit_raw\<rparr>"

lemma unmarshal_wit_frame:
  "unmarshalFrame wit_frame = Some \<lparr>re_Stream = ''btcusdt@depth'', re_Data = wit_raw\<rparr>"
  unfolding wit_frame_def
  by (rule unmarshal_frameText)
    (simp add: frame_ok_def wit_raw_def levels_ok_def asciiText_valid byteBetween_def)

definition wit_handlers :: "string \<rightharpoonup> (rat book, rat) handler" where
  "wit_handlers = [''BTCUSDT'' \<mapsto> NewHandler \<lparr>hc_Symbol = ''BTCUSDT'', hc_DepthLimit = 0,
     hc_CheckpointInterval = 0, hc_CheckpointDiffThreshold = 0, hc_MaxBufferSize = 0\<rparr>
     (New ''BTCUSDT'') False]"

lemma dispatch_keeps_handlers_witness:
  "\<exists>h. dispatchRun rat_pkg (HandleDiff (book_ops rat_pkg)) [(wit_env, wit_raw)] wit_handlers
      ''BTCUSDT'' = Some h \<and> int (length (h_buffer h)) \<le> hc_MaxBufferSize (h_cfg h)"
proof -
  obtain h where h: "dispatchRun rat_pkg (HandleDiff (book_ops rat_pkg)) [(wit_env, wit_raw)]
      wit_handlers ''BTCUSDT'' = Some h"
    by (simp add: dispatchRun_at wit_handlers_def)
  have "\<And>s g. wit_handlers s = Some g \<Longrightarrow> handler_wf 0 g"
    by (auto simp: wit_handlers_def handler_wf_New split: if_splits)
  with dispatch_keeps_handlers [of wit_handlers rat_pkg "[(wit_env, wit_raw)]" "''BTCUSDT''" h] h
  show ?thesis by blast
qed

text \<open>
  The URL of a session asks for one stream per symbol, \<open>SYMBOL@depth\<close> in lower case, in the
  configured order, as a single query parameter.
\<close>

lemma session_url:
  assumes "symbols \<noteq> []" and "\<forall>s \<in> set symbols. CHR ''/'' \<notin> set (ToLower s)"
    and "up_Parse U (TrimRight (CHR ''/'') base @ ''/stream'') = Inr u" and "up_Query U u = []"
  shows "\<exists>streams. buildURL U base symbols = Inr (up_StringWith U u (''streams='' @ QueryEscape streams)) \<and>
     Split (CHR ''/'') streams = map (\<lambda>s. ToLower s @ ''@depth'') symbols"
proof -
  let ?streams = "Join (map (\<lambda>s. ToLower s @ ''@depth'') symbols) ''/''"
  have "QueryEscape ''streams'' = ''streams''" by code_simp
  then have "buildURL U base symbols = Inr (up_StringWith U u (''streams='' @ QueryEscape ?streams))"
    using assms(1,3,4) by (simp add: buildURL_def streamNames_def encodeQuery_def Let_def)
  moreover have "Split (CHR ''/'') ?streams = map (\<lambda>s. ToLower s @ ''@depth'') symbols"
    by (rule Split_Join) (use assms(1,2) in auto)
  ultimately show ?thesis by blast
qed

text \<open>
  C37 (bounds): the reconnect loop never panics, whatever the sessions do, when the configured
  delays (after defaults) satisfy InitialDelay \<open>\<le>\<close> MaxDelay \<open><\<close> \<open>2^62\<close>: the \<open>i\<close>-th wait is at
  least InitialDelay doubled \<open>i\<close> times or MaxDelay, whichever is smaller, and less than one and
  a half times that.
\<close>

theorem backoff_bounds:
  assumes "c = normalizeStream cfg" and "sc_InitialDelay c \<le> sc_MaxDelay c"
    and "sc_MaxDelay c < 2 ^ 62"
  shows "\<exists>sent waits. runLoop c (sc_InitialDelay c) ss = Some (sent, waits) \<and>
    (\<forall>i < length waits. min (sc_InitialDelay c * 2 ^ i) (sc_MaxDelay c) \<le> waits ! i \<and>
       2 * (waits ! i) < 3 * min (sc_InitialDelay c * 2 ^ i) (sc_MaxDelay c))"
  using assms by (intro runLoop_waits) (simp_all add: normalizeStream_def)

definition wit_stream :: stream_config where
  "wit_stream = \<lparr>sc_BaseURL = ''wss://x'', sc_Symbols = [''A''], sc_BufferSize = 0,
     sc_InitialDelay = 0, sc_MaxDelay = 4000000000\<rparr>"

lemma backoff_bounds_witness:
  "\<exists>sent waits. runLoop (normalizeStream wit_stream) 1000000000
     (replicate 9 \<lparr>ss_ctxBefore = False, ss_reads = [ReadData wit_frame False, ReadError],
        ss_ctxAfter = False, ss_rand = 7, ss_waitCancelled = False\<rparr>) = Some (sent, waits)"
  using backoff_bounds [OF refl, of wit_stream "replicate 9 \<lparr>ss_ctxBefore = False,
        ss_reads = [ReadData wit_frame False, ReadError], ss_ctxAfter = False, ss_rand = 7,
        ss_waitCancelled = False\<rparr>"]
  by (auto simp: wit_stream_def normalizeStream_def)

text \<open>
  A session that delivered frames does not reset the delay: the eighth wait after eight
  healthy sessions is the maximal one.
\<close>

lemma backoff_not_reset_by_healthy_session:
  "\<exists>sent waits. runLoop (normalizeStream wit_stream) 1000000000
     (replicate 4 \<lparr>ss_ctxBefore = False, ss_reads = [ReadData wit_frame False, ReadError],
        ss_ctxAfter = False, ss_rand = 0, ss_waitCancelled = False\<rparr>) = Some (sent, waits) \<and>
     sent = replicate 4 wit_raw \<and> waits = [1000000000, 2000000000, 4000000000, 4000000000]"
  by (simp add: wit_stream_def normalizeStream_def numeral_eq_Suc nextDelay_def Let_def
      unmarshal_wit_frame) (simp add: wit_raw_def)

text \<open>Levels as the exchange prints them.\<close>

definition printLevels :: "'d decimal_pkg \<Rightarrow> 'd price_level list \<Rightarrow> string list list" where
  "printLevels D ls = map (\<lambda>l. [DString D (pl_Price l), DString D (pl_Quantity l)]) ls"

lemma levels_ok_print: "decimal_text D \<Longrightarrow> levels_ok (printLevels D ls)"
  by (auto simp: levels_ok_def printLevels_def decimal_text_def intro: asciiText_valid)

lemma parse_printLevels: "decimal_strings D \<Longrightarrow> parseLevels D (printLevels D ls) = Inr ls"
  by (simp add: parseLevels_def printLevels_def parseLevelsFrom_print)

text \<open>
  What the exchange sends is what the handlers get. A depth update in the exchange's
  JSON is decoded and converted to the diff with its ids, its time and exactly its levels,
  under the upper-case symbol, and a depth response to the snapshot with exactly its id and levels.
\<close>

lemma exchange_messages_are_read:
  assumes D: "decimal_strings D" "decimal_text D" and utf8: "validUTF8 stream" "validUTF8 s"
  shows "map_option (convertRaw D \<circ> re_Data) (unmarshalFrame (frameText \<lparr>re_Stream = stream,
       re_Data = \<lparr>rw_EventType = ''depthUpdate'', rw_EventTimeMS = ms, rw_Symbol = s,
         rw_FirstUpdateID = u, rw_FinalUpdateID = v, rw_Bids = printLevels D bids,
         rw_Asks = printLevels D asks\<rparr>\<rparr>)) =
     Some (Inr \<lparr>de_Symbol = ToUpper s, de_EventTime = UnixMilli ms, de_FirstUpdateID = u,
       de_FinalUpdateID = v, de_Bids = bids, de_Asks = asks\<rparr>) \<and>
   FetchSnapshot D now s (HttpResponse 200 (depthText \<lparr>dr_LastUpdateID = v,
       dr_Bids = printLevels D bids, dr_Asks = printLevels D asks\<rparr>)) =
     Inr \<lparr>se_Symbol = ToUpper s, se_CapturedAt = now, se_LastUpdateID = v, se_Bids = bids, se_Asks = asks\<rparr>"
  using D utf8
  by (simp add: unmarshal_frameText unmarshal_depthText frame_ok_def levels_ok_print asciiText_valid
      byteBetween_def convertRaw_def FetchSnapshot_def parse_printLevels)

lemma exchange_messages_are_read_witness:
  "FetchSnapshot rat_pkg 7 ''btcusdt'' (HttpResponse 200 (depthText \<lparr>dr_LastUpdateID = 9,
     dr_Bids = [[DString rat_pkg 3, DString rat_pkg 4]], dr_Asks = []\<rparr>)) =
   Inr \<lparr>se_Symbol = ToUpper ''btcusdt'', se_CapturedAt = 7, se_LastUpdateID = 9,
     se_Bids = [\<lparr>pl_Price = 3, pl_Quantity = 4\<rparr>], se_Asks = []\<rparr>"
  using exchange_messages_are_read [OF rat_pkg_strings rat_pkg_text, of "[]" "''btcusdt''" _ _ 9
      "[\<lparr>pl_Price = 3, pl_Quantity = 4\<rparr>]" "[]" 7]
  by (simp add: asciiText_valid byteBetween_def printLevels_def)

end
