(* ===== verification/Bootstrap.thy ===== *)
theory Bootstrap
  imports Symbol_Handler_Correct
begin

text \<open>
  Progress of the bootstrap in engine/symbol/handler.go: over a stream without gaps, one snapshot
  that the stream reaches past is enough for a handler to become synced, whenever it arrives and
  however many fetches failed before it. The proof follows the handler through its two phases:
  \<open>collecting\<close>, while the fetch is in flight, and \<open>caught_up\<close>, since the snapshot has arrived.
\<close>

section \<open>Streams without gaps\<close>

text \<open>\<open>n\<close> is the id before the first diff; ids grow and none is left out.\<close>

fun contiguous :: "int \<Rightarrow> 'd diff_event list \<Rightarrow> bool" where
  "contiguous n [] \<longleftrightarrow> True"
| "contiguous n (d # ds) \<longleftrightarrow>
     sint (de_FirstUpdateID d) = n + 1 \<and> n < sint (de_FinalUpdateID d) \<and>
     contiguous (sint (de_FinalUpdateID d)) ds"

definition id_after :: "int \<Rightarrow> 'd diff_event list \<Rightarrow> int" where
  "id_after n ds = (if ds = [] then n else sint (de_FinalUpdateID (last ds)))"

lemma id_after_simps [simp]:
  "id_after n [] = n" "id_after n (ds @ [d]) = sint (de_FinalUpdateID d)"
  "id_after n (d # ds) = id_after (sint (de_FinalUpdateID d)) ds"
  by (simp_all add: id_after_def)

lemma contiguous_append:
  "contiguous n (ds @ ds') \<longleftrightarrow> contiguous n ds \<and> contiguous (id_after n ds) ds'"
  by (induction ds arbitrary: n) auto

lemma contiguous_grows: "contiguous n ds \<Longrightarrow> n \<le> id_after n ds"
proof (induction ds arbitrary: n)
  case (Cons d ds)
  from Cons.IH [of "sint (de_FinalUpdateID d)"] Cons.prems show ?case by simp
qed simp

lemma discard_append [simp]:
  "discardPreSnapshot (ds @ ds') l = discardPreSnapshot ds l @ discardPreSnapshot ds' l"
  "discardPreSnapshot [] l = []"
  "discardPreSnapshot (d # ds) l =
     (if l <s de_FinalUpdateID d then d # discardPreSnapshot ds l else discardPreSnapshot ds l)"
  by (simp_all add: discardPreSnapshot_def)

lemma discard_Nil_iff:
  assumes "contiguous n ds" and "n \<le> sint l"
  shows "discardPreSnapshot ds l = [] \<longleftrightarrow> id_after n ds \<le> sint l"
  using assms
proof (induction ds arbitrary: n)
  case (Cons d ds)
  show ?case
  proof (cases "sint (de_FinalUpdateID d) \<le> sint l")
    case True
    then show ?thesis using Cons.IH [of "sint (de_FinalUpdateID d)"] Cons.prems
      by (simp add: word_sless_alt)
  next
    case False
    then show ?thesis
      using contiguous_grows [of "sint (de_FinalUpdateID d)" ds] Cons.prems by (simp add: word_sless_alt)
  qed
qed simp

lemma aligned_sint:
  assumes "sint l < sint (de_FinalUpdateID d)"
  shows "aligned l d \<longleftrightarrow> sint (de_FirstUpdateID d) \<le> sint l + 1"
  using signed_less_plus_one [of l "de_FinalUpdateID d"] assms
  by (simp add: aligned_def word_sle_eq word_sless_alt)

text \<open>The first diff newer than the snapshot straddles its id.\<close>

lemma discard_aligned:
  assumes "contiguous n ds" and "n \<le> sint l" and "discardPreSnapshot ds l \<noteq> []"
  shows "aligned l (hd (discardPreSnapshot ds l))"
  using assms
  by (induction ds arbitrary: n) (auto simp: aligned_sint word_sless_alt)

lemma discard_last:
  assumes "contiguous n ds" and "n \<le> sint l" and "discardPreSnapshot ds l \<noteq> []"
  shows "last (discardPreSnapshot ds l) = last ds"
proof -
  obtain ds0 d where ds: "ds = ds0 @ [d]" using assms(3) by (cases ds rule: rev_cases) auto
  have "\<not> sint (de_FinalUpdateID d) \<le> sint l" using discard_Nil_iff [OF assms(1,2)] assms(3) by (simp add: ds)
  then show ?thesis by (simp add: ds word_sless_alt)
qed

lemma next_id:
  fixes a b :: int64
  assumes "sint b = sint a + 1"
  shows "b = a + 1"
proof -
  have "sint b < 2 ^ 63" using sint_lt [of b] by simp
  with assms have "sint (a + 1) = sint b" by (subst sint_plus_one) simp_all
  then show ?thesis using signed_word_eqI [of "a + 1" b, where ?'a = int] by simp
qed

section \<open>Events\<close>

fun diffsOf :: "'d handler_event list \<Rightarrow> 'd diff_event list" where
  "diffsOf [] = []"
| "diffsOf (EvDiff env d # es) = d # diffsOf es"
| "diffsOf (e # es) = diffsOf es"

text \<open>What may happen before the snapshot: diffs, and fetches that fail while the context lives.\<close>

fun no_snapshot :: "'d handler_event \<Rightarrow> bool" where
  "no_snapshot EvStart = False"
| "no_snapshot (EvDiff env d) = True"
| "no_snapshot (EvFetched env (Inl err)) = (\<not> he_ctxErr env)"
| "no_snapshot (EvFetched env (Inr snap)) = False"

lemma diffsOf_append [simp]: "diffsOf (es @ es') = diffsOf es @ diffsOf es'"
  by (induction es rule: diffsOf.induct) simp_all

lemma diffsOf_map_EvDiff [simp]: "diffsOf (map (\<lambda>(env, d). EvDiff env d) xs) = map snd xs"
  by (induction xs) auto

text \<open>A run is a function of its events.\<close>

lemma hstep_det: "hstep OB h e h1 \<Longrightarrow> hstep OB h e h2 \<Longrightarrow> h1 = h2"
  by (auto elim!: hstep.cases)

lemma hrun_append: "hrun OB h1 es h2 \<Longrightarrow> hrun OB h es' h1 \<Longrightarrow> hrun OB h (es' @ es) h2"
  by (induction rule: hrun.induct) (simp_all flip: append_assoc add: hrun_snoc)

lemma hrun_det: "hrun OB h es h1 \<Longrightarrow> hrun OB h es h2 \<Longrightarrow> h1 = h2"
proof (induction es arbitrary: h1 h2 rule: rev_induct)
  case Nil
  then show ?case by (auto elim: hrun.cases)
next
  case (snoc e es)
  obtain g1 where "hrun OB h es g1" "hstep OB g1 e h1" using snoc.prems(1) by (auto elim: hrun.cases)
  moreover obtain g2 where "hrun OB h es g2" "hstep OB g2 e h2" using snoc.prems(2) by (auto elim: hrun.cases)
  ultimately show ?case using snoc.IH [of g1 g2] hstep_det by blast
qed

section \<open>Collecting\<close>

definition collecting :: "int \<Rightarrow> 'd diff_event list \<Rightarrow> ('b, 'd) handler \<Rightarrow> bool" where
  "collecting room ds h \<longleftrightarrow> h_state h = Bootstrapping \<and> h_snapshot h = None \<and> h_snapshotPending h \<and>
     \<not> h_snapshotStale h \<and> h_bootstrapG h = 1 \<and> h_buffer h = ds \<and> diffs_written (h_calls h) = [] \<and>
     hc_MaxBufferSize (h_cfg h) = room"

lemma collecting_first:
  "collecting (hc_MaxBufferSize (normalizeConfig cfg)) [d]
     (HandleDiff OB env d (Start (NewHandler cfg b l2)))"
  by (simp add: collecting_def HandleDiff_def Start_def NewHandler_def bufferLocked_def
      kickoffSnapshotLocked_def call_def)

lemma collecting_step:
  assumes "collecting room ds h" and "no_snapshot e"
    and "int (length ds) + int (length (diffsOf [e])) \<le> room"
  shows "\<exists>h'. hstep OB h e h' \<and> collecting room (ds @ diffsOf [e]) h'"
proof (cases e)
  case (EvDiff env d)
  then have "collecting room (ds @ [d]) (HandleDiff OB env d h)"
    using assms by (simp add: collecting_def HandleDiff_def bufferLocked_def Let_def)
  then show ?thesis using EvDiff hstep_diff by fastforce
next
  case (EvFetched env res)
  then obtain err where res: "res = Inl err" and live: "\<not> he_ctxErr env"
    using assms(2) by (cases res) auto
  have "collecting room ds (runSnapshotFetch OB env res h)"
    using assms(1) live
    by (simp add: collecting_def runSnapshotFetch_def res handleSnapshotErrorLocked_def fetchDone_def
        Let_def)
  moreover have "hstep OB h e (runSnapshotFetch OB env res h)"
    using assms(1) by (simp add: EvFetched collecting_def hstep_fetched)
  ultimately show ?thesis by (auto simp: EvFetched intro!: exI [of _ "runSnapshotFetch OB env res h"] hstep_fetched)
qed (use assms(2) in simp)

lemma collecting_run:
  assumes "collecting room ds h" and "\<forall>e \<in> set es. no_snapshot e"
    and "int (length (ds @ diffsOf es)) \<le> room"
  shows "\<exists>h'. hrun OB h es h' \<and> collecting room (ds @ diffsOf es) h'"
  using assms
proof (induction es arbitrary: ds h)
  case Nil
  then show ?case by (auto intro: hrun_Nil)
next
  case (Cons e es)
  have split: "diffsOf (e # es) = diffsOf [e] @ diffsOf es"
    using diffsOf_append [of "[e]" es] by simp
  obtain h1 where h1: "hstep OB h e h1" "collecting room (ds @ diffsOf [e]) h1"
    using collecting_step [OF Cons.prems(1), of e OB] Cons.prems(2,3) by (auto simp: split)
  obtain h' where "hrun OB h1 es h'" "collecting room ((ds @ diffsOf [e]) @ diffsOf es) h'"
    using Cons.IH [OF h1(2)] Cons.prems(2,3) by (auto simp: split)
  then show ?case using hrun_Cons [OF _ h1(1)] by (auto simp: split)
qed

section \<open>The snapshot\<close>

text \<open>The repository's book takes every diff.\<close>

lemma replayLoop_books: "\<exists>h'. replayLoop (book_ops D) env ds h = (h', True)"
  by (induction ds arbitrary: h) (simp_all add: book_ops_def Apply_def Let_def)

text \<open>
  After the snapshot: either nothing received is newer, and it waits, or the handler is synced
  and what it applied and wrote is all that is newer.
\<close>

definition caught_up ::
  "'d::linordered_idom decimal_pkg \<Rightarrow> 'd snapshot_event \<Rightarrow> 'd diff_event list \<Rightarrow> ('d book, 'd) handler \<Rightarrow> bool" where
  "caught_up D snap ds h \<longleftrightarrow> 0 < hc_MaxBufferSize (h_cfg h) \<and>
     (let newer = discardPreSnapshot ds (se_LastUpdateID snap) in
      diffs_written (h_calls h) = newer \<and>
      (if newer = []
       then h_state h = Bootstrapping \<and> h_snapshot h = Some snap \<and> h_buffer h = []
       else h_state h = Synced \<and> h_lastFinalUpdateID h = de_FinalUpdateID (last ds) \<and>
         view_of (h_book h) = foldl (abs_apply D) (abs_load D snap) newer))"

lemma tryAlign_nothing_newer:
  assumes "h_snapshot h = Some snap" and "discardPreSnapshot (h_buffer h) (se_LastUpdateID snap) = []"
    and "0 < hc_MaxBufferSize (h_cfg h)"
  shows "tryAlignLocked OB env h = h\<lparr>h_buffer := []\<rparr>"
  using assms by (simp add: tryAlignLocked_def findAlignmentIndex_def Let_def)

lemma tryAlign_newer:
  assumes snap: "h_snapshot h = Some snap" and newer: "discardPreSnapshot (h_buffer h) (se_LastUpdateID snap) = bs"
    and al: "bs \<noteq> []" "aligned (se_LastUpdateID snap) (hd bs)"
  shows "h_state (tryAlignLocked (book_ops D) env h) = Synced \<and>
    h_lastFinalUpdateID (tryAlignLocked (book_ops D) env h) = de_FinalUpdateID (last bs) \<and>
    h_cfg (tryAlignLocked (book_ops D) env h) = h_cfg h \<and>
    view_of (h_book (tryAlignLocked (book_ops D) env h)) = foldl (abs_apply D) (abs_load D snap) bs \<and>
    diffs_written (h_calls (tryAlignLocked (book_ops D) env h)) = diffs_written (h_calls h) @ bs"
proof -
  let ?h1 = "h\<lparr>h_buffer := bs, h_book := loadSnapshotIfAny (book_ops D) (Reset (h_book h)) snap,
    h_lastFinalUpdateID := se_LastUpdateID snap\<rparr>"
  obtain h' where loop: "replayLoop (book_ops D) env bs ?h1 = (h', True)"
    using replayLoop_books by metis
  have "findAlignmentIndex bs (se_LastUpdateID snap) = 0"
    using al by (cases bs) (simp_all add: findAlignmentIndex_def)
  then have eq: "tryAlignLocked (book_ops D) env h = h'\<lparr>h_buffer := [], h_snapshot := None,
      h_lastCheckpointTime := he_now env, h_diffsSinceCheckpoint := 0, h_state := Synced\<rparr>"
    using snap newer loop
    by (simp add: tryAlignLocked_def replayAlignedBufferLocked_def Let_def book_ops_def)
  have "view_of (loadSnapshotIfAny (book_ops D) (Reset (h_book h)) snap) = abs_load D snap"
    using bk.view_loadSnapshotIfAny [of D "h_book h" snap] by (simp add: book_ops_def base_view_def)
  then show ?thesis
    using bk.replayLoop_view [OF loop] replayLoop_done [OF loop] al by (simp add: eq last_id_of_def)
qed

lemma caught_up_fetched:
  assumes col: "collecting room ds h" and room: "0 < room"
    and ids: "contiguous n ds" "n \<le> sint (se_LastUpdateID snap)"
  shows "caught_up D snap ds (runSnapshotFetch (book_ops D) env (Inr snap) h)"
proof -
  let ?h1 = "h\<lparr>h_snapshotPending := False, h_snapshot := Some snap\<rparr>"
  have eq: "runSnapshotFetch (book_ops D) env (Inr snap) h = fetchDone (tryAlignLocked (book_ops D) env ?h1)"
    using col by (simp add: runSnapshotFetch_def collecting_def Let_def)
  show ?thesis
  proof (cases "discardPreSnapshot ds (se_LastUpdateID snap) = []")
    case True
    then show ?thesis using col room tryAlign_nothing_newer [of ?h1 snap "book_ops D" env]
      by (simp add: eq collecting_def caught_up_def fetchDone_def)
  next
    case False
    from tryAlign_newer [OF _ _ False discard_aligned [OF ids False], of ?h1 D env]
      discard_last [OF ids False] False col room show ?thesis
      by (simp add: eq collecting_def caught_up_def fetchDone_def)
  qed
qed

lemma caught_up_diff:
  assumes up: "caught_up D snap ds h" and ids: "contiguous n (ds @ [d])" "n \<le> sint (se_LastUpdateID snap)"
  shows "caught_up D snap (ds @ [d]) (HandleDiff (book_ops D) env d h)"
proof (cases "discardPreSnapshot ds (se_LastUpdateID snap) = []")
  case True
  let ?h1 = "bufferLocked d h"
  have h1: "h_snapshot ?h1 = Some snap" "h_buffer ?h1 = [d]" "0 < hc_MaxBufferSize (h_cfg ?h1)"
    "diffs_written (h_calls ?h1) = []" "h_cfg ?h1 = h_cfg h"
    and st: "h_state h = Bootstrapping"
    using up True by (simp_all add: caught_up_def bufferLocked_def)
  have eq: "HandleDiff (book_ops D) env d h = tryAlignLocked (book_ops D) env ?h1"
    using h1(1) st by (simp add: HandleDiff_def)
  have "id_after n ds \<le> sint (se_LastUpdateID snap)"
    using True discard_Nil_iff [of n ds] ids by (simp add: contiguous_append)
  then have al: "se_LastUpdateID snap <s de_FinalUpdateID d \<Longrightarrow> aligned (se_LastUpdateID snap) d"
    using ids(1) by (simp add: contiguous_append aligned_sint word_sless_alt)
  show ?thesis
  proof (cases "se_LastUpdateID snap <s de_FinalUpdateID d")
    case newer: True
    from tryAlign_newer [of ?h1 snap "[d]" D env] h1 newer al True show ?thesis
      by (simp add: eq caught_up_def)
  next
    case False
    then show ?thesis using tryAlign_nothing_newer [of ?h1 snap "book_ops D" env] h1 st True
      by (simp add: eq caught_up_def bufferLocked_def)
  qed
next
  case False
  then have st: "h_state h = Synced" "h_lastFinalUpdateID h = de_FinalUpdateID (last ds)"
    "view_of (h_book h) = foldl (abs_apply D) (abs_load D snap) (discardPreSnapshot ds (se_LastUpdateID snap))"
    "diffs_written (h_calls h) = discardPreSnapshot ds (se_LastUpdateID snap)"
    "0 < hc_MaxBufferSize (h_cfg h)" and ds: "ds \<noteq> []"
    using up by (auto simp: caught_up_def Let_def)
  have "de_FirstUpdateID d = h_lastFinalUpdateID h + 1"
    using ids(1) ds st(2) by (intro next_id) (simp add: contiguous_append id_after_def)
  moreover have "\<not> id_after n ds \<le> sint (se_LastUpdateID snap)" "id_after n ds < sint (de_FinalUpdateID d)"
    using False discard_Nil_iff [of n ds] ids by (simp_all add: contiguous_append)
  then have "se_LastUpdateID snap <s de_FinalUpdateID d" by (simp add: word_sless_alt)
  moreover have "view_of (fst (Apply D (h_book h) d)) = abs_apply D (view_of (h_book h)) d"
    using bk.view_Apply [of D "h_book h" d] by (simp add: book_ops_def Apply_def)
  ultimately show ?thesis using st False
    by (simp add: caught_up_def HandleDiff_def handleSyncedLocked_def book_ops_def Apply_def Let_def
        checkpointLocked_def)
qed

lemma caught_up_run:
  assumes "caught_up D snap ds h" and "contiguous n (ds @ map snd xs)" and "n \<le> sint (se_LastUpdateID snap)"
  shows "\<exists>h'. hrun (book_ops D) h (map (\<lambda>(env, d). EvDiff env d) xs) h' \<and>
    caught_up D snap (ds @ map snd xs) h'"
  using assms
proof (induction xs arbitrary: ds h)
  case Nil
  then show ?case by (auto intro: hrun_Nil)
next
  case (Cons x xs)
  obtain env d where x: "x = (env, d)" by (cases x)
  have "caught_up D snap (ds @ [d]) (HandleDiff (book_ops D) env d h)"
    by (rule caught_up_diff [where n = n]) (use Cons.prems in \<open>simp_all add: x contiguous_append\<close>)
  from Cons.IH [OF this] Cons.prems obtain h' where
    "hrun (book_ops D) (HandleDiff (book_ops D) env d h) (map (\<lambda>(env, d). EvDiff env d) xs) h'"
    "caught_up D snap (ds @ map snd (x # xs)) h'"
    by (auto simp: x)
  then show ?case using hrun_Cons [OF _ hstep_diff] by (fastforce simp: x)
qed

section \<open>The whole bootstrap\<close>

text \<open>
  The bootstrap completes. A started handler receives a stream without gaps;
  its first fetches fail, while the context lives, and at some point one returns a snapshot whose
  id is not before the stream's start and which the stream gets past; until then the buffer had room.
  Then the handler is synced at the last id of the stream, however snapshot and diffs were
  interleaved, its book is the snapshot with all newer diffs applied and none else, and these are
  what it has written.
\<close>

lemma bootstrap_completes:
  fixes D :: "'d::linordered_idom decimal_pkg"
  assumes pre: "pre = EvDiff env0 d0 # pre'" "\<forall>e \<in> set pre. no_snapshot e"
    and room: "int (length (diffsOf pre)) \<le> hc_MaxBufferSize (normalizeConfig cfg)"
    and ds: "ds = diffsOf pre @ map snd post" "contiguous n ds"
    and snap: "n \<le> sint (se_LastUpdateID snap)" "se_LastUpdateID snap <s de_FinalUpdateID (last ds)"
  shows "\<exists>h. hrun (book_ops D) (Start (new_handler cfg symbol l2))
       (pre @ EvFetched env (Inr snap) # map (\<lambda>(env, d). EvDiff env d) post) h \<and>
     h_state h = Synced \<and> h_lastFinalUpdateID h = de_FinalUpdateID (last ds) \<and>
     view_of (h_book h) = foldl (abs_apply D) (abs_load D snap)
       (filter (\<lambda>d. se_LastUpdateID snap <s de_FinalUpdateID d) ds) \<and>
     diffs_written (h_calls h) = filter (\<lambda>d. se_LastUpdateID snap <s de_FinalUpdateID d) ds"
proof -
  let ?h0 = "Start (new_handler cfg symbol l2) :: ('d book, 'd) handler"
  let ?room = "hc_MaxBufferSize (normalizeConfig cfg)" and ?B = "book_ops D"
  have "collecting ?room [d0] (HandleDiff ?B env0 d0 ?h0)"
    unfolding new_handler_def by (rule collecting_first)
  from collecting_run [OF this, of pre' ?B] pre room obtain h1
    where run1: "hrun ?B (HandleDiff ?B env0 d0 ?h0) pre' h1" and col: "collecting ?room (diffsOf pre) h1"
    by auto
  let ?h2 = "runSnapshotFetch ?B env (Inr snap) h1"
  have "caught_up D snap (diffsOf pre) ?h2"
    using ds snap(1) by (intro caught_up_fetched [OF col, of n]) (simp_all add: contiguous_append)
  from caught_up_run [OF this, of n post] ds snap(1) obtain h3
    where run3: "hrun ?B ?h2 (map (\<lambda>(env, d). EvDiff env d) post) h3" and up: "caught_up D snap ds h3"
    by auto
  have "hrun ?B ?h0 (pre @ EvFetched env (Inr snap) # map (\<lambda>(env, d). EvDiff env d) post) h3"
  proof -
    have "hstep ?B h1 (EvFetched env (Inr snap)) ?h2"
      using col by (intro hstep_fetched) (simp add: collecting_def)
    from hrun_append [OF hrun_Cons [OF run3 this] run1] show ?thesis
      using hrun_Cons [OF _ hstep_diff] by (simp add: pre(1))
  qed
  moreover have "ds \<noteq> []" using ds(1) pre(1) by simp
  then have "discardPreSnapshot ds (se_LastUpdateID snap) \<noteq> []"
    using discard_Nil_iff [OF ds(2) snap(1)] snap(2) by (simp add: id_after_def word_sless_alt)
  ultimately show ?thesis using up by (auto simp: caught_up_def discardPreSnapshot_def Let_def)
qed

lemma bootstrap_completes_witness:
  "\<exists>h. hrun (book_ops rat_pkg) (Start (new_handler wit_cfg ''BTCUSDT'' True))
     [EvDiff wit_env (wit_diff 8 9), EvFetched wit_env (Inl ''timeout''), EvDiff wit_env (wit_diff 10 12),
      EvFetched wit_env (Inr wit_snap), EvDiff wit_env (wit_diff 13 15)] h \<and>
     h_state h = Synced \<and> h_lastFinalUpdateID h = 15 \<and>
     diffs_written (h_calls h) = [wit_diff 10 12, wit_diff 13 15]"
proof -
  let ?pre = "[EvDiff wit_env (wit_diff 8 9), EvFetched wit_env (Inl ''timeout''), EvDiff wit_env (wit_diff 10 12)]"
  have "contiguous 7 [wit_diff 8 9, wit_diff 10 12, wit_diff 13 15]" by (simp add: wit_diff_def)
  then show ?thesis
    using bootstrap_completes [of ?pre wit_env "wit_diff 8 9" "tl ?pre" wit_cfg
        "[wit_diff 8 9, wit_diff 10 12, wit_diff 13 15]" "[(wit_env, wit_diff 13 15)]" 7 wit_snap rat_pkg]
    by (fastforce simp: wit_env_def wit_cfg_def normalizeConfig_def wit_diff_def wit_snap_def word_sless_alt)
qed

end
