(* ===== verification/Ingest_Service.thy ===== *)
theory Ingest_Service
  imports Ingest Settings Bootstrap
begin

text \<open>
  The ingest service as a whole, engine/cmd/erebor-ingest/main.go: its configuration, the handlers it builds
  for the configured symbols, the way frames and fetched snapshots reach them, the health answer
  and the shutdown.

  A handler is shared by the dispatcher's map and the list \<open>concrete\<close>: here the list is the store
  and the map holds indexes into it, so that two configured symbols of the same upper-case name are
  two handlers of which the map knows one.
\<close>

section \<open>Building the handlers\<close>

type_synonym 'd handlers = "('d book, 'd) handler list"

definition handlerConfigOf :: "symbol_config \<Rightarrow> handler_config" where
  "handlerConfigOf sc = \<lparr>hc_Symbol = ToUpper (sy_Name sc), hc_DepthLimit = sy_DepthLimit sc,
     hc_CheckpointInterval = sy_CheckpointInterval sc,
     hc_CheckpointDiffThreshold = sy_CheckpointDiffThreshold sc,
     hc_MaxBufferSize = sy_MaxBufferSize sc\<rparr>"

fun addSymbolHandlers ::
  "bool \<Rightarrow> symbol_config list \<Rightarrow> (string \<times> nat) list \<Rightarrow> 'd handlers \<Rightarrow> string list \<Rightarrow>
   string + (string \<times> nat) list \<times> 'd handlers \<times> string list" where
  "addSymbolHandlers l2 [] handlers concrete symbolNames = Inr (handlers, concrete, symbolNames)"
| "addSymbolHandlers l2 (sc # scs) handlers concrete symbolNames =
     (let name = ToUpper (sy_Name sc) in
      if name = [] then Inl ''symbol entry missing name''
      else addSymbolHandlers l2 scs (AList.update name (length concrete) handlers)
             (concrete @ [NewHandler (handlerConfigOf sc) (New name) l2]) (symbolNames @ [name]))"

definition buildSymbolHandlers ::
  "bool \<Rightarrow> symbol_config list \<Rightarrow> string + (string \<times> nat) list \<times> 'd handlers \<times> string list" where
  "buildSymbolHandlers l2 cfgSymbols = addSymbolHandlers l2 cfgSymbols [] [] []"

section \<open>Before serving\<close>

record 'l ingest_world =
  iw_getenv :: environment
  iw_viper :: viper_pkg
  iw_levels :: "'l zap_levels"
  iw_openLog :: "string \<Rightarrow> string option"
  iw_pool :: "string \<Rightarrow> string option"

datatype ingest_failure =
    IngestEnv string
  | IngestConfig string
  | IngestLogger log_error
  | IngestNoSymbols
  | IngestPool string
  | IngestSymbols string
  | IngestConnect

definition ingestExit :: "ingest_failure \<Rightarrow> int" where
  "ingestExit f = (case f of IngestEnv e \<Rightarrow> 2 | IngestConfig e \<Rightarrow> 2 | IngestLogger e \<Rightarrow> 2 | _ \<Rightarrow> 1)"

text \<open>The publisher of book updates, when an address of Redis is known.\<close>

definition redisAddrOf :: "environment \<Rightarrow> app_config \<Rightarrow> string" where
  "redisAddrOf getenv cfg = (let a = ac_RedisAddr cfg in if a = [] then getenv ''REDIS_ADDR'' else a)"

definition ingestL2Publisher :: "environment \<Rightarrow> app_config \<Rightarrow> l2_publisher option" where
  "ingestL2Publisher getenv cfg =
     (if redisAddrOf getenv cfg \<noteq> [] then Some \<lparr>lp_namespace = ''erebor:live'', lp_maxLen = 50000\<rparr> else None)"

definition ingestHealthAddr :: "app_config \<Rightarrow> string" where
  "ingestHealthAddr cfg = (if ac_HealthAddr cfg = [] then '':8080'' else ac_HealthAddr cfg)"

definition ingestStream :: "app_config \<Rightarrow> string list \<Rightarrow> stream_config" where
  "ingestStream cfg symbolNames = normalizeStream \<lparr>sc_BaseURL = ac_WebSocketBaseURL cfg,
     sc_Symbols = symbolNames, sc_BufferSize = 0, sc_InitialDelay = 0, sc_MaxDelay = 0\<rparr>"

record 'd ingest_service =
  is_l2pub :: "l2_publisher option"
  is_routes :: "string \<rightharpoonup> nat"
  is_handlers :: "'d handlers"
  is_stream :: stream_config
  is_manager :: manager

definition bootIngest ::
  "'l ingest_world \<Rightarrow> string \<Rightarrow> ingest_failure + 'd ingest_service" where
  "bootIngest W path =
     (case requireEnvs (iw_getenv W) [''BINANCE_API_KEY'', ''BINANCE_API_SECRET'', ''DATABASE_DSN''] of
        Some err \<Rightarrow> Inl (IngestEnv err)
      | None \<Rightarrow>
     (case loadConfig (iw_viper W) path of
        Inl err \<Rightarrow> Inl (IngestConfig err)
      | Inr cfg \<Rightarrow>
     (case buildLogger (iw_levels W) (iw_openLog W) (ac_Log cfg) of
        Inl err \<Rightarrow> Inl (IngestLogger err)
      | Inr logger \<Rightarrow>
     (if ac_Symbols cfg = [] then Inl IngestNoSymbols
      else case iw_pool W (iw_getenv W ''DATABASE_DSN'') of
        Some err \<Rightarrow> Inl (IngestPool err)
      | None \<Rightarrow>
          let l2pub = ingestL2Publisher (iw_getenv W) cfg in
     (case buildSymbolHandlers (l2pub \<noteq> None) (ac_Symbols cfg) of
        Inl err \<Rightarrow> Inl (IngestSymbols err)
      | Inr (handlers, concrete, symbolNames) \<Rightarrow>
          (case Connect NewManager of
             (sm, ok) \<Rightarrow>
               if \<not> ok then Inl IngestConnect
               else Inr \<lparr>is_l2pub = l2pub, is_routes = NewDispatcher handlers,
                  is_handlers = map Start concrete,
                  is_stream = ingestStream cfg symbolNames, is_manager = sm\<rparr>))))))"

section \<open>Serving\<close>

text \<open>
  What reaches the handlers: a payload the dispatcher takes from the channel, and the end of a
  fetch of the \<open>i\<close>-th handler with what the HTTP exchange gave. An error of the fetch is only
  logged, so its text is left out.
\<close>

datatype ingest_event =
    IngestFrame handler_env raw_diff
  | IngestFetched nat handler_env time http_result

definition deliver ::
  "'d::linordered_idom decimal_pkg \<Rightarrow> (string \<rightharpoonup> nat) \<Rightarrow> handler_env \<Rightarrow> raw_diff \<Rightarrow> 'd handlers \<Rightarrow> 'd handlers" where
  "deliver D routes env ev hs =
     (case convertRaw D ev of
        Inl err \<Rightarrow> hs
      | Inr diff \<Rightarrow>
          (case routes (de_Symbol diff) of
             None \<Rightarrow> hs
           | Some i \<Rightarrow> hs[i := HandleDiff (book_ops D) env diff (hs ! i)]))"

definition fetchOutcome ::
  "'d decimal_pkg \<Rightarrow> time \<Rightarrow> ('d book, 'd) handler \<Rightarrow> http_result \<Rightarrow> string + 'd snapshot_event" where
  "fetchOutcome D now h res =
     (case FetchSnapshot D now (hc_Symbol (h_cfg h)) res of Inl err \<Rightarrow> Inl [] | Inr snap \<Rightarrow> Inr snap)"

inductive ingest_run ::
  "'d::linordered_idom decimal_pkg \<Rightarrow> (string \<rightharpoonup> nat) \<Rightarrow> 'd handlers \<Rightarrow> ingest_event list \<Rightarrow> 'd handlers \<Rightarrow> bool"
  for D routes hs where
  run_start: "ingest_run D routes hs [] hs"
| run_frame: "ingest_run D routes hs evs hs1 \<Longrightarrow>
    ingest_run D routes hs (evs @ [IngestFrame env ev]) (deliver D routes env ev hs1)"
| run_fetched: "ingest_run D routes hs evs hs1 \<Longrightarrow> i < length hs1 \<Longrightarrow> 0 < h_bootstrapG (hs1 ! i) \<Longrightarrow>
    ingest_run D routes hs (evs @ [IngestFetched i env now res])
      (hs1[i := runSnapshotFetch (book_ops D) env (fetchOutcome D now (hs1 ! i) res) (hs1 ! i)])"

text \<open>The health answer: healthy as soon as one handler is synced.\<close>

definition ingestHealth :: "'d handlers \<Rightarrow> http_response" where
  "ingestHealth hs =
     (let anySynced = (\<exists>h \<in> set hs. h_state h = Synced) in
      if anySynced then \<lparr>hr_status = 200, hr_json = True, hr_body = statusBody ''ok''\<rparr>
      else \<lparr>hr_status = 503, hr_json = True, hr_body = statusBody ''degraded''\<rparr>)"

section \<open>The order of the shutdown\<close>

text \<open>
  \<open>runShutdown\<close>: the health server, the stream manager, the dispatcher, the handlers. Errors and
  the deadline of the dispatcher are only logged. Stopping the manager closes the channel.
\<close>

datatype shutdown_call =
    StopHealth | CloseStream | AwaitDispatcher bool | StopHandler string

definition runShutdown :: "bool \<Rightarrow> string list \<Rightarrow> shutdown_call list" where
  "runShutdown drained symbolNames =
     [StopHealth, CloseStream, AwaitDispatcher drained] @ map StopHandler symbolNames"

section \<open>What the build gives\<close>

lemma NewDispatcher_snoc:
  "NewDispatcher (kvs @ [(k, v)]) = (NewDispatcher kvs)(ToUpper k \<mapsto> v)"
  by (simp add: NewDispatcher_def)

lemma NewDispatcher_upper:
  assumes "\<forall>k \<in> fst ` set kvs. ToUpper k = k" and "distinct (map fst kvs)"
  shows "NewDispatcher kvs = map_of kvs"
  using assms
proof (induction kvs rule: rev_induct)
  case Nil
  then show ?case by (simp add: NewDispatcher_def)
next
  case (snoc kv kvs)
  obtain k v where kv: "kv = (k, v)" by (cases kv)
  have "map_of (kvs @ [(k, v)]) = (map_of kvs)(k \<mapsto> v)"
  proof -
    have "map_of kvs k = None" using snoc.prems(2) by (simp add: kv map_of_eq_None_iff)
    then show ?thesis by (auto simp: fun_eq_iff map_add_def split: option.split)
  qed
  then show ?case using snoc by (simp add: kv NewDispatcher_snoc)
qed

definition last_index :: "'a list \<Rightarrow> 'a \<Rightarrow> nat \<Rightarrow> bool" where
  "last_index xs x i \<longleftrightarrow> i < length xs \<and> xs ! i = x \<and> (\<forall>j. i < j \<and> j < length xs \<longrightarrow> xs ! j \<noteq> x)"

lemma last_index_unique: "last_index xs x i \<Longrightarrow> last_index xs x j \<Longrightarrow> i = j"
  unfolding last_index_def by (metis linorder_neqE_nat)

lemma addSymbolHandlers_result:
  assumes "addSymbolHandlers l2 scs handlers concrete names = Inr (routes, hs, ns)"
    and "length names = length concrete"
    and "\<forall>s i. map_of handlers s = Some i \<longrightarrow> last_index names s i"
    and "set names = dom (map_of handlers)" and "distinct (map fst handlers)"
  shows "hs = concrete @ map (\<lambda>sc. NewHandler (handlerConfigOf sc) (New (ToUpper (sy_Name sc))) l2) scs \<and>
    ns = names @ map (ToUpper \<circ> sy_Name) scs \<and> [] \<notin> set (map (ToUpper \<circ> sy_Name) scs) \<and>
    (\<forall>s i. map_of routes s = Some i \<longrightarrow> last_index ns s i) \<and> set ns = dom (map_of routes) \<and>
    distinct (map fst routes)"
  using assms
proof (induction scs arbitrary: handlers concrete names)
  case Nil
  then show ?case by simp
next
  case (Cons sc scs)
  let ?n = "ToUpper (sy_Name sc)"
  have n: "?n \<noteq> []" and rest: "addSymbolHandlers l2 scs (AList.update ?n (length concrete) handlers)
      (concrete @ [NewHandler (handlerConfigOf sc) (New ?n) l2]) (names @ [?n]) = Inr (routes, hs, ns)"
    using Cons.prems(1) by (auto simp: Let_def split: if_splits)
  have len: "length (names @ [?n]) = length (concrete @ [NewHandler (handlerConfigOf sc) (New ?n) l2])"
    using Cons.prems(2) by simp
  have idx: "\<forall>s i. map_of (AList.update ?n (length concrete) handlers) s = Some i \<longrightarrow>
      last_index (names @ [?n]) s i"
    using Cons.prems(2,3) by (auto simp: update_conv' last_index_def nth_append less_Suc_eq split: if_splits)
  have dom: "set (names @ [?n]) = dom (map_of (AList.update ?n (length concrete) handlers))"
    using Cons.prems(4) by (auto simp: update_conv')
  have dist: "distinct (map fst (AList.update ?n (length concrete) handlers))"
    using Cons.prems(5) by (rule distinct_update)
  note IH = Cons.IH [OF rest len idx dom dist, THEN conjunct1]
    Cons.IH [OF rest len idx dom dist, THEN conjunct2, THEN conjunct1]
    Cons.IH [OF rest len idx dom dist, THEN conjunct2, THEN conjunct2, THEN conjunct1]
    Cons.IH [OF rest len idx dom dist, THEN conjunct2, THEN conjunct2, THEN conjunct2]
  have "[] \<notin> set (map (ToUpper \<circ> sy_Name) (sc # scs))" using IH(3) n by (metis comp_apply list.simps(9) set_ConsD)
  moreover have "hs = concrete @ map (\<lambda>sc. NewHandler (handlerConfigOf sc) (New (ToUpper (sy_Name sc))) l2) (sc # scs)"
    "ns = names @ map (ToUpper \<circ> sy_Name) (sc # scs)"
    by (simp_all add: IH(1,2))
  ultimately show ?case using IH(4) by blast
qed

lemma buildSymbolHandlers_result:
  assumes "buildSymbolHandlers l2 scs = Inr (routes, hs, ns)"
  shows "hs = map (\<lambda>sc. new_handler (handlerConfigOf sc) (ToUpper (sy_Name sc)) l2) scs"
    and "ns = map (ToUpper \<circ> sy_Name) scs" and "[] \<notin> set ns"
    and "NewDispatcher routes s = Some i \<longleftrightarrow> last_index ns s i"
proof -
  have all: "hs = [] @ map (\<lambda>sc. NewHandler (handlerConfigOf sc) (New (ToUpper (sy_Name sc))) l2) scs \<and>
    ns = [] @ map (ToUpper \<circ> sy_Name) scs \<and> [] \<notin> set (map (ToUpper \<circ> sy_Name) scs) \<and>
    (\<forall>s i. map_of routes s = Some i \<longrightarrow> last_index ns s i) \<and> set ns = dom (map_of routes) \<and>
    distinct (map fst routes)"
    by (rule addSymbolHandlers_result [OF assms [unfolded buildSymbolHandlers_def]]) simp_all
  then have all: "hs = map (\<lambda>sc. NewHandler (handlerConfigOf sc) (New (ToUpper (sy_Name sc))) l2) scs"
    "ns = map (ToUpper \<circ> sy_Name) scs" "[] \<notin> set (map (ToUpper \<circ> sy_Name) scs)"
    "\<And>s i. map_of routes s = Some i \<Longrightarrow> last_index ns s i" "set ns = dom (map_of routes)"
    "distinct (map fst routes)"
    by (metis append_Nil)+
  show "hs = map (\<lambda>sc. new_handler (handlerConfigOf sc) (ToUpper (sy_Name sc)) l2) scs"
    using all(1) by (simp only: new_handler_def)
  show "ns = map (ToUpper \<circ> sy_Name) scs" by (rule all(2))
  show "[] \<notin> set ns" using all(3) by (simp only: all(2) not_False_eq_True)
  have "\<forall>k \<in> fst ` set routes. ToUpper k = k"
  proof
    fix k assume "k \<in> fst ` set routes"
    then have "k \<in> set ns" using all(5) by (simp only: dom_map_of_conv_image_fst)
    then show "ToUpper k = k" unfolding all(2) by auto
  qed
  then have "NewDispatcher routes = map_of routes" using all(6) by (rule NewDispatcher_upper)
  moreover have "map_of routes s = Some i" if "last_index ns s i"
  proof -
    have "s \<in> set ns" using that by (auto simp: last_index_def)
    then obtain j where "map_of routes s = Some j" using all(5) by auto
    with all(4) last_index_unique that show ?thesis by metis
  qed
  ultimately show "NewDispatcher routes s = Some i \<longleftrightarrow> last_index ns s i" using all(4) by auto
qed

section \<open>The configuration of a handler never changes\<close>

lemma replayLoop_cfg: "h_cfg (fst (replayLoop OB env evs h)) = h_cfg h"
proof -
  obtain h' b where r: "replayLoop OB env evs h = (h', b)" by (rule prod.exhaust)
  show ?thesis
  proof (cases b)
    case True
    then show ?thesis using replayLoop_done [of OB env evs h h'] r by simp
  next
    case False
    then show ?thesis using replayLoop_fail [of OB env evs h h'] r by simp
  qed
qed

lemma replayAligned_cfg [simp]: "h_cfg (replayAlignedBufferLocked OB env i snap h) = h_cfg h"
proof -
  let ?h1 = "h\<lparr>h_book := loadSnapshotIfAny OB (ob_Reset OB (h_book h)) snap,
    h_lastFinalUpdateID := se_LastUpdateID snap\<rparr>"
  obtain h2 b where r: "replayLoop OB env (drop (nat i) (h_buffer h)) ?h1 = (h2, b)"
    by (rule prod.exhaust)
  have "h_cfg h2 = h_cfg ?h1"
    using replayLoop_cfg [of OB env "drop (nat i) (h_buffer h)" ?h1] unfolding r by (simp only: fst_conv)
  moreover have "replayAlignedBufferLocked OB env i snap h =
      (if b then h2\<lparr>h_state := Synced, h_buffer := [], h_snapshot := None,
         h_lastCheckpointTime := he_now env, h_diffsSinceCheckpoint := 0\<rparr> else h2)"
    unfolding replayAlignedBufferLocked_def Let_def r by (cases b) simp_all
  ultimately show ?thesis by simp
qed

lemma tryAlignLocked_cfg [simp]: "h_cfg (tryAlignLocked OB env h) = h_cfg h"
  by (simp add: tryAlignLocked_def Let_def split: option.split)

lemma HandleDiff_cfg [simp]: "h_cfg (HandleDiff OB env ev h) = h_cfg h"
  by (auto simp: HandleDiff_def handleSyncedLocked_def enterResyncLocked_def checkpointLocked_def
      bufferLocked_def Let_def split: symbol_state.split prod.split option.split)

lemma runSnapshotFetch_cfg [simp]: "h_cfg (runSnapshotFetch OB env res h) = h_cfg h"
  by (auto simp: runSnapshotFetch_def handleSnapshotErrorLocked_def fetchDone_def Let_def split: sum.split)

section \<open>What reaches one handler\<close>

definition handlerEvent ::
  "'d::linordered_idom decimal_pkg \<Rightarrow> (string \<rightharpoonup> nat) \<Rightarrow> ('d book, 'd) handler \<Rightarrow> nat \<Rightarrow> ingest_event \<Rightarrow>
   'd handler_event option" where
  "handlerEvent D routes h i e =
     (case e of
        IngestFrame env ev \<Rightarrow>
          (case convertRaw D ev of
             Inl err \<Rightarrow> None
           | Inr diff \<Rightarrow> if routes (de_Symbol diff) = Some i then Some (EvDiff env diff) else None)
      | IngestFetched j env now res \<Rightarrow>
          if j = i then Some (EvFetched env (fetchOutcome D now h res)) else None)"

definition handlerEvents ::
  "'d::linordered_idom decimal_pkg \<Rightarrow> (string \<rightharpoonup> nat) \<Rightarrow> ('d book, 'd) handler \<Rightarrow> nat \<Rightarrow> ingest_event list \<Rightarrow>
   'd handler_event list" where
  "handlerEvents D routes h i evs = List.map_filter (handlerEvent D routes h i) evs"

lemma handlerEvents_Nil [simp]: "handlerEvents D routes h i [] = []"
  by (simp add: handlerEvents_def List.map_filter_def)

lemma handlerEvents_snoc:
  "handlerEvents D routes h i (evs @ [e]) = handlerEvents D routes h i evs @
     (case handlerEvent D routes h i e of None \<Rightarrow> [] | Some x \<Rightarrow> [x])"
  by (simp add: handlerEvents_def List.map_filter_def split: option.split)

lemma fetchOutcome_cfg: "h_cfg h' = h_cfg h \<Longrightarrow> fetchOutcome D now h' res = fetchOutcome D now h res"
  by (simp add: fetchOutcome_def)

lemma deliver_at:
  "i < length hs \<Longrightarrow> deliver D routes env ev hs ! i =
     (case handlerEvent D routes h i (IngestFrame env ev) of
        Some (EvDiff env' diff) \<Rightarrow> HandleDiff (book_ops D) env' diff (hs ! i) | _ \<Rightarrow> hs ! i)"
  by (auto simp: deliver_def handlerEvent_def nth_list_update split: sum.split option.split)

lemma deliver_length [simp]: "length (deliver D routes env ev hs) = length hs"
  by (simp add: deliver_def split: sum.split option.split)

text \<open>
  Seen through the map, a delivery is a step of the dispatcher: sharing the handlers with the list
  changes nothing, since no two symbols share one.
\<close>

definition routed_view :: "(string \<rightharpoonup> nat) \<Rightarrow> 'd handlers \<Rightarrow> (string \<rightharpoonup> ('d book, 'd) handler)" where
  "routed_view routes hs s = map_option ((!) hs) (routes s)"

lemma deliver_dispatches:
  assumes "inj_on routes (dom routes)" and "\<forall>i \<in> ran routes. i < length hs"
  shows "routed_view routes (deliver D routes env ev hs) =
    dispatchOne D (HandleDiff (book_ops D)) (env, ev) (routed_view routes hs)"
proof (rule ext)
  fix s
  show "routed_view routes (deliver D routes env ev hs) s =
      dispatchOne D (HandleDiff (book_ops D)) (env, ev) (routed_view routes hs) s"
  proof (cases "convertRaw D ev")
    case (Inl err)
    then show ?thesis by (simp add: deliver_def dispatchOne_def)
  next
    case (Inr diff)
    let ?k = "de_Symbol diff"
    show ?thesis
    proof (cases "routes ?k")
      case None
      then show ?thesis by (simp add: Inr deliver_def dispatchOne_def routed_view_def)
    next
      case (Some i)
      then have i: "i < length hs" using assms(2) by (auto simp: ran_def)
      show ?thesis
      proof (cases "s = ?k")
        case True
        then show ?thesis using Some i by (simp add: Inr deliver_def dispatchOne_def routed_view_def)
      next
        case False
        then have "routes s \<noteq> Some i" using assms(1) Some by (auto simp: inj_on_def dom_def)
        then show ?thesis using Some False
          by (cases "routes s") (auto simp: Inr deliver_def dispatchOne_def routed_view_def)
      qed
    qed
  qed
qed

lemma built_routes_inj:
  assumes "buildSymbolHandlers l2 scs = Inr (handlers, concrete, names)"
  shows "inj_on (NewDispatcher handlers) (dom (NewDispatcher handlers))"
    and "\<forall>i \<in> ran (NewDispatcher handlers). i < length concrete"
proof -
  note built = buildSymbolHandlers_result [OF assms]
  have "length concrete = length names" by (simp add: built(1,2))
  then show "\<forall>i \<in> ran (NewDispatcher handlers). i < length concrete"
    by (simp add: ran_def built(4) last_index_def)
  show "inj_on (NewDispatcher handlers) (dom (NewDispatcher handlers))"
  proof (rule inj_onI)
    fix s t
    assume s: "s \<in> dom (NewDispatcher handlers)" and eq: "NewDispatcher handlers s = NewDispatcher handlers t"
    from s obtain i where i: "NewDispatcher handlers s = Some i" by auto
    then have "last_index names s i" by (simp only: built(4))
    moreover have "last_index names t i" using i unfolding eq by (simp only: built(4))
    ultimately show "s = t" by (simp add: last_index_def)
  qed
qed

text \<open>Every handler of the service is a run of its own machine over its own events.\<close>

lemma ingest_run_handler:
  assumes "ingest_run D routes hs evs hs'"
  shows "length hs' = length hs \<and> (\<forall>i < length hs. h_cfg (hs' ! i) = h_cfg (hs ! i) \<and>
     hrun (book_ops D) (hs ! i) (handlerEvents D routes (hs ! i) i evs) (hs' ! i))"
  using assms
proof (induction rule: ingest_run.induct)
  case run_start
  then show ?case by (simp add: hrun_Nil)
next
  case (run_frame evs hs1 env ev)
  have "h_cfg (deliver D routes env ev hs1 ! i) = h_cfg (hs ! i) \<and>
      hrun (book_ops D) (hs ! i) (handlerEvents D routes (hs ! i) i (evs @ [IngestFrame env ev]))
        (deliver D routes env ev hs1 ! i)" if i: "i < length hs" for i
  proof -
    have at: "deliver D routes env ev hs1 ! i =
     (case handlerEvent D routes (hs ! i) i (IngestFrame env ev) of
        Some (EvDiff env' diff) \<Rightarrow> HandleDiff (book_ops D) env' diff (hs1 ! i) | _ \<Rightarrow> hs1 ! i)"
      using i run_frame.IH by (simp add: deliver_at)
    have "handlerEvent D routes (hs ! i) i (IngestFrame env ev) = None \<or>
        (\<exists>diff. handlerEvent D routes (hs ! i) i (IngestFrame env ev) = Some (EvDiff env diff))"
      by (simp add: handlerEvent_def split: sum.split)
    then show ?thesis
      using run_frame.IH i hrun_snoc [OF _ hstep_diff, of "book_ops D" "hs ! i"]
      by (auto simp: at handlerEvents_snoc)
  qed
  then show ?case using run_frame.IH by simp
next
  case (run_fetched evs hs1 j env now res)
  have "h_cfg (hs1[j := runSnapshotFetch (book_ops D) env (fetchOutcome D now (hs1 ! j) res) (hs1 ! j)] ! i) =
        h_cfg (hs ! i) \<and>
      hrun (book_ops D) (hs ! i) (handlerEvents D routes (hs ! i) i (evs @ [IngestFetched j env now res]))
        (hs1[j := runSnapshotFetch (book_ops D) env (fetchOutcome D now (hs1 ! j) res) (hs1 ! j)] ! i)"
    if i: "i < length hs" for i
  proof (cases "i = j")
    case True
    have "fetchOutcome D now (hs1 ! j) res = fetchOutcome D now (hs ! j) res"
      using run_fetched.IH i True by (intro fetchOutcome_cfg) simp
    moreover have "hrun (book_ops D) (hs ! j) (handlerEvents D routes (hs ! j) j evs @
        [EvFetched env (fetchOutcome D now (hs ! j) res)])
        (runSnapshotFetch (book_ops D) env (fetchOutcome D now (hs ! j) res) (hs1 ! j))"
      using run_fetched i True by (intro hrun_snoc [OF _ hstep_fetched]) auto
    ultimately show ?thesis
      using run_fetched i True by (simp add: handlerEvents_snoc handlerEvent_def)
  next
    case False
    then show ?thesis using run_fetched i by (simp add: handlerEvents_snoc handlerEvent_def)
  qed
  then show ?case using run_fetched.IH by simp
qed

lemma hrun_Start:
  assumes "hrun OB (Start h) es h'"
  shows "hrun OB h (EvStart # es) h'"
proof -
  have "hrun OB h0 es h' \<Longrightarrow> h0 = Start h \<Longrightarrow> hrun OB h (EvStart # es) h'" for h0
  proof (induction rule: hrun.induct)
    case (hrun_Nil h0)
    then show ?case using hrun.hrun_snoc [OF hrun.hrun_Nil hstep_start, of OB h] by simp
  next
    case (hrun_snoc h0 evs h1 e h2)
    then show ?case using hrun.hrun_snoc [of OB h "EvStart # evs" h1 e h2] by simp
  qed
  with assms show ?thesis by simp
qed

section \<open>From the exchange to the handlers\<close>

text \<open>A depth update as the exchange sends it, and the diff it stands for.\<close>

record 'd exchange_update =
  eu_stream :: string
  eu_symbol :: string
  eu_ms :: int64
  eu_first :: int64
  eu_final :: int64
  eu_bids :: "'d price_level list"
  eu_asks :: "'d price_level list"

definition updatePayload :: "'d decimal_pkg \<Rightarrow> 'd exchange_update \<Rightarrow> raw_diff" where
  "updatePayload D u = \<lparr>rw_EventType = ''depthUpdate'', rw_EventTimeMS = eu_ms u,
     rw_Symbol = eu_symbol u, rw_FirstUpdateID = eu_first u, rw_FinalUpdateID = eu_final u,
     rw_Bids = printLevels D (eu_bids u), rw_Asks = printLevels D (eu_asks u)\<rparr>"

definition updateFrame :: "'d decimal_pkg \<Rightarrow> 'd exchange_update \<Rightarrow> string" where
  "updateFrame D u = frameText \<lparr>re_Stream = eu_stream u, re_Data = updatePayload D u\<rparr>"

definition updateDiff :: "'d exchange_update \<Rightarrow> 'd diff_event" where
  "updateDiff u = \<lparr>de_Symbol = ToUpper (eu_symbol u), de_EventTime = UnixMilli (eu_ms u),
     de_FirstUpdateID = eu_first u, de_FinalUpdateID = eu_final u, de_Bids = eu_bids u,
     de_Asks = eu_asks u\<rparr>"

definition update_text_ok :: "'d exchange_update \<Rightarrow> bool" where
  "update_text_ok u \<longleftrightarrow> validUTF8 (eu_stream u) \<and> validUTF8 (eu_symbol u)"

lemma unmarshal_updateFrame:
  assumes "decimal_text D" and "update_text_ok u"
  shows "unmarshalFrame (updateFrame D u) = Some \<lparr>re_Stream = eu_stream u, re_Data = updatePayload D u\<rparr>"
  unfolding updateFrame_def
  by (rule unmarshal_frameText)
    (use assms in \<open>simp add: frame_ok_def updatePayload_def update_text_ok_def levels_ok_print
       asciiText_valid byteBetween_def\<close>)

lemma convert_updatePayload:
  "decimal_strings D \<Longrightarrow> convertRaw D (updatePayload D u) = Inr (updateDiff u)"
  by (simp add: convertRaw_def updatePayload_def updateDiff_def parse_printLevels)

text \<open>A session that delivers the updates \<open>us\<close> and then fails, or just goes on.\<close>

definition delivers :: "'d decimal_pkg \<Rightarrow> session_script \<Rightarrow> 'd exchange_update list \<Rightarrow> bool" where
  "delivers D s us \<longleftrightarrow> (\<forall>u \<in> set us. update_text_ok u) \<and>
     (ss_reads s = map (\<lambda>u. ReadData (updateFrame D u) False) us @ [ReadError] \<or>
      ss_reads s = map (\<lambda>u. ReadData (updateFrame D u) False) us) \<and>
     \<not> ss_ctxBefore s \<and> \<not> ss_ctxAfter s \<and> \<not> ss_waitCancelled s"

lemma readFrames_updates:
  assumes "decimal_text D" and "\<forall>u \<in> set us. update_text_ok u" and "rest = [] \<or> rest = [ReadError]"
  shows "readFrames (map (\<lambda>u. ReadData (updateFrame D u) False) us @ rest) = map (updatePayload D) us"
  using assms(2,3)
  by (induction us) (auto simp: unmarshal_updateFrame [OF assms(1)], simp_all add: updatePayload_def)

lemma delivers_sent:
  assumes "decimal_text D" and "delivers D s us"
  shows "readFrames (ss_reads s) = map (updatePayload D) us"
  using assms readFrames_updates [OF assms(1), of us "[]"] readFrames_updates [OF assms(1), of us "[ReadError]"]
  by (auto simp: delivers_def)

lemma runLoop_sent:
  assumes D: "decimal_text D" and "list_all2 (delivers D) scripts uss"
    and "runLoop c delay scripts = Some (sent, waits)"
  shows "sent = map (updatePayload D) (concat uss)"
  using assms(2,3)
proof (induction arbitrary: delay sent waits rule: list_all2_induct)
  case Nil
  then show ?case by simp
next
  case (Cons s scripts us uss)
  from Cons.prems Cons.hyps(1) obtain sent' waits' where
    "runLoop c (nextDelay c delay) scripts = Some (sent', waits')" "sent = readFrames (ss_reads s) @ sent'"
    by (auto simp: delivers_def Let_def split: if_splits option.splits)
  with Cons.IH delivers_sent [OF D Cons.hyps(1)] show ?case by simp
qed

fun framesOf :: "ingest_event list \<Rightarrow> raw_diff list" where
  "framesOf [] = []"
| "framesOf (IngestFrame env ev # es) = ev # framesOf es"
| "framesOf (IngestFetched i env now res # es) = framesOf es"

lemma diffsOf_handlerEvents:
  assumes "decimal_strings D" and "framesOf evs = map (updatePayload D) us"
  shows "diffsOf (handlerEvents D routes h i evs) =
     filter (\<lambda>d. routes (de_Symbol d) = Some i) (map updateDiff us)"
  using assms(2)
proof (induction evs arbitrary: us rule: framesOf.induct)
  case 1
  then show ?case by simp
next
  case (2 env ev es)
  then obtain u us' where us: "us = u # us'" "ev = updatePayload D u" "framesOf es = map (updatePayload D) us'"
    by (cases us) auto
  have "handlerEvents D routes h i (IngestFrame env ev # es) =
      (case handlerEvent D routes h i (IngestFrame env ev) of None \<Rightarrow> [] | Some x \<Rightarrow> [x]) @
      handlerEvents D routes h i es"
    by (simp add: handlerEvents_def List.map_filter_def split: option.split)
  then show ?case
    using 2(1) [OF us(3)]
    by (simp add: us(1,2) handlerEvent_def convert_updatePayload [OF assms(1)])
next
  case (3 j env now res es)
  have "handlerEvents D routes h i (IngestFetched j env now res # es) =
      (case handlerEvent D routes h i (IngestFetched j env now res) of None \<Rightarrow> [] | Some x \<Rightarrow> [x]) @
      handlerEvents D routes h i es"
    by (simp add: handlerEvents_def List.map_filter_def split: option.split)
  then show ?case using 3 by (simp add: handlerEvent_def)
qed

text \<open>The fetches among a handler's events, and those the service made for handler \<open>i\<close>.\<close>

fun fetchesOf :: "'d handler_event list \<Rightarrow> (handler_env \<times> (string + 'd snapshot_event)) list" where
  "fetchesOf [] = []"
| "fetchesOf (EvFetched env res # es) = (env, res) # fetchesOf es"
| "fetchesOf (e # es) = fetchesOf es"

fun ownFetches :: "nat \<Rightarrow> ingest_event list \<Rightarrow> (handler_env \<times> time \<times> http_result) list" where
  "ownFetches i [] = []"
| "ownFetches i (IngestFetched j env now res # es) =
     (if j = i then (env, now, res) # ownFetches i es else ownFetches i es)"
| "ownFetches i (IngestFrame env ev # es) = ownFetches i es"

lemma handlerEvents_Cons:
  "handlerEvents D routes h i (e # evs) =
     (case handlerEvent D routes h i e of None \<Rightarrow> [] | Some x \<Rightarrow> [x]) @ handlerEvents D routes h i evs"
  by (simp add: handlerEvents_def List.map_filter_def split: option.split)

lemma handlerEvents_append:
  "handlerEvents D routes h i (xs @ ys) = handlerEvents D routes h i xs @ handlerEvents D routes h i ys"
  by (induction xs) (simp_all add: handlerEvents_Cons)

lemma fetches_handlerEvents:
  "fetchesOf (handlerEvents D routes h i evs) =
     map (\<lambda>(env, now, res). (env, fetchOutcome D now h res)) (ownFetches i evs)"
  by (induction i evs rule: ownFetches.induct)
    (auto simp: handlerEvents_Cons handlerEvent_def split: sum.split)

lemma length_handlerEvents:
  "length (handlerEvents D routes h i evs) =
     length (diffsOf (handlerEvents D routes h i evs)) + length (fetchesOf (handlerEvents D routes h i evs))"
  by (induction evs) (auto simp: handlerEvents_Cons handlerEvent_def split: ingest_event.split sum.split)

lemma framesOf_append: "framesOf (xs @ ys) = framesOf xs @ framesOf ys"
  by (induction xs rule: framesOf.induct) simp_all

text \<open>The \<open>i\<close>-th handler of a run of the service is a run of its own machine.\<close>

lemma service_handler:
  fixes D :: "'d::linordered_idom decimal_pkg"
  assumes build: "buildSymbolHandlers l2 scs = Inr (handlers, concrete, names)"
    and run: "ingest_run D (NewDispatcher handlers) (map Start concrete) evs hs" and i: "i < length scs"
  shows "hrun (book_ops D) (Start (new_handler (handlerConfigOf (scs ! i)) (names ! i) l2))
      (handlerEvents D (NewDispatcher handlers) (map Start concrete ! i) i evs) (hs ! i)"
    and "length names = length scs" and "length hs = length scs"
proof -
  note built = buildSymbolHandlers_result [OF build]
  show "length names = length scs" by (simp add: built(2))
  have "length concrete = length scs" by (simp add: built(1))
  with ingest_run_handler [OF run] i show "length hs = length scs"
    and "hrun (book_ops D) (Start (new_handler (handlerConfigOf (scs ! i)) (names ! i) l2))
      (handlerEvents D (NewDispatcher handlers) (map Start concrete ! i) i evs) (hs ! i)"
    by (auto simp: built(1,2))
qed

section \<open>Properties\<close>

text \<open>
  C5 (refinement): every handler the service builds is a run of the bootstrap machine of its symbol,
  from a new handler through \<open>Start\<close>, over exactly what concerns it, \<open>es\<close>: its own fetches, each with
  what became of the answer that the exchange's depth endpoint gave to it, and the diffs the exchange
  sent for its symbol, all of them, in the order they were sent, whatever sessions they came in and
  whatever else the service handled between them. Nothing else is in \<open>es\<close>, and fetches and diffs are
  interleaved there as they happened: at any moment of the service a prefix of \<open>es\<close> holds the fetches
  and the diffs up to that moment. Of several configured symbols with the same upper-case name the
  last one gets the diffs, and the others none.
\<close>

theorem ingest_pipeline:
  fixes D :: "'d::linordered_idom decimal_pkg"
  assumes D: "decimal_strings D" "decimal_text D"
    and build: "buildSymbolHandlers l2 scs = Inr (handlers, concrete, names)"
    and sessions: "list_all2 (delivers D) scripts uss"
    and loop: "runLoop c delay scripts = Some (sent, waits)"
    and run: "ingest_run D (NewDispatcher handlers) (map Start concrete) evs hs"
    and fifo: "framesOf evs = sent" and i: "i < length scs"
    and sentTo: "sentTo = (\<lambda>us. if \<forall>j. i < j \<and> j < length scs \<longrightarrow> names ! j \<noteq> names ! i
      then filter (\<lambda>d. de_Symbol d = names ! i) (map updateDiff us) else [])"
    and answered: "answered = map (\<lambda>(env, now, res). (env,
      case FetchSnapshot D now (names ! i) res of Inl err \<Rightarrow> Inl [] | Inr snap \<Rightarrow> Inr snap))"
  shows "\<exists>es. hrun (book_ops D) (new_handler (handlerConfigOf (scs ! i)) (names ! i) l2) (EvStart # es) (hs ! i) \<and>
    diffsOf es = sentTo (concat uss) \<and> fetchesOf es = answered (ownFetches i evs) \<and>
    (\<forall>k. \<exists>m. diffsOf (take m es) = sentTo (take (length (framesOf (take k evs))) (concat uss)) \<and>
       fetchesOf (take m es) = answered (ownFetches i (take k evs)) \<and>
       min m (length es) = length (diffsOf (take m es)) + length (fetchesOf (take m es)))"
proof -
  note own = service_handler [OF build run i]
  let ?h = "map Start concrete ! i"
  let ?of = "handlerEvents D (NewDispatcher handlers) ?h i"
  have sent: "sent = map (updatePayload D) (concat uss)" by (rule runLoop_sent [OF D(2) sessions loop])
  have cfg: "hc_Symbol (h_cfg ?h) = names ! i"
    using i by (simp add: buildSymbolHandlers_result(1,2) [OF build] new_handler_def NewHandler_def Start_def
        normalizeConfig_def handlerConfigOf_def)
  have rt: "NewDispatcher handlers s = Some i \<longleftrightarrow>
      s = names ! i \<and> (\<forall>j. i < j \<and> j < length scs \<longrightarrow> names ! j \<noteq> names ! i)" for s
    using i own(2) by (auto simp: buildSymbolHandlers_result(4) [OF build] last_index_def)
  have frames: "framesOf (take k evs) = map (updatePayload D) (take (length (framesOf (take k evs))) (concat uss))" for k
  proof -
    have "framesOf (take k evs) @ framesOf (drop k evs) = map (updatePayload D) (concat uss)"
      using fifo sent by (simp flip: framesOf_append)
    then show ?thesis by (metis append_eq_conv_conj take_map)
  qed
  have diffs: "diffsOf (?of (take k evs)) = sentTo (take (length (framesOf (take k evs))) (concat uss))" for k
    using diffsOf_handlerEvents [OF D(1) frames, of "NewDispatcher handlers" ?h i k] by (simp add: rt sentTo)
  have fetches: "fetchesOf (?of (take k evs)) = answered (ownFetches i (take k evs))" for k
    by (simp add: fetches_handlerEvents fetchOutcome_def cfg answered)
  have prefix: "\<exists>m. diffsOf (take m (?of evs)) = sentTo (take (length (framesOf (take k evs))) (concat uss)) \<and>
       fetchesOf (take m (?of evs)) = answered (ownFetches i (take k evs)) \<and>
       min m (length (?of evs)) = length (diffsOf (take m (?of evs))) + length (fetchesOf (take m (?of evs)))" for k
  proof -
    have "?of evs = ?of (take k evs) @ ?of (drop k evs)" by (simp flip: handlerEvents_append)
    then have "take (length (?of (take k evs))) (?of evs) = ?of (take k evs)"
      "min (length (?of (take k evs))) (length (?of evs)) = length (?of (take k evs))" by simp_all
    then show ?thesis
      using diffs [of k] fetches [of k] length_handlerEvents [of D "NewDispatcher handlers" ?h i "take k evs"]
      by (intro exI [of _ "length (?of (take k evs))"]) simp
  qed
  have "hrun (book_ops D) (new_handler (handlerConfigOf (scs ! i)) (names ! i) l2) (EvStart # ?of evs) (hs ! i)"
    by (rule hrun_Start [OF own(1)])
  moreover have "length (framesOf evs) = length (concat uss)" using fifo sent by simp
  then have "diffsOf (?of evs) = sentTo (concat uss)" "fetchesOf (?of evs) = answered (ownFetches i evs)"
    using diffs [of "length evs"] fetches [of "length evs"] by simp_all
  ultimately show ?thesis using prefix by (intro exI [of _ "?of evs"]) blast
qed

definition wit_update :: "rat exchange_update" where
  "wit_update = \<lparr>eu_stream = ''btcusdt@depth'', eu_symbol = ''BTCUSDT'', eu_ms = 1, eu_first = 1,
     eu_final = 2, eu_bids = [], eu_asks = []\<rparr>"

definition wit_symbols :: "symbol_config list" where
  "wit_symbols = [\<lparr>sy_Name = ''btcusdt'', sy_DepthLimit = 0, sy_CheckpointInterval = 0,
     sy_CheckpointDiffThreshold = 0, sy_MaxBufferSize = 0\<rparr>]"

definition wit_session_script :: session_script where
  "wit_session_script = \<lparr>ss_ctxBefore = False, ss_reads = [ReadData (updateFrame rat_pkg wit_update) False,
     ReadError], ss_ctxAfter = False, ss_rand = 0, ss_waitCancelled = False\<rparr>"

lemma wit_upper: "ToUpper ''btcusdt'' = ''BTCUSDT''" "ToUpper ''BTCUSDT'' = ''BTCUSDT''"
  by code_simp+

lemma wit_delivers: "delivers rat_pkg wit_session_script [wit_update]"
  by (simp add: delivers_def wit_session_script_def update_text_ok_def wit_update_def asciiText_valid
      byteBetween_def)

lemma wit_built: "buildSymbolHandlers True wit_symbols =
    Inr ([(''BTCUSDT'', 0)], [new_handler (handlerConfigOf (hd wit_symbols)) ''BTCUSDT'' True], [''BTCUSDT''])"
  by (simp add: buildSymbolHandlers_def wit_symbols_def new_handler_def wit_upper Let_def)

definition wit_depth :: depth_response where
  "wit_depth = \<lparr>dr_LastUpdateID = 1, dr_Bids = printLevels rat_pkg [], dr_Asks = printLevels rat_pkg []\<rparr>"

definition wit_events :: "ingest_event list" where
  "wit_events = [IngestFrame wit_env (updatePayload rat_pkg wit_update),
     IngestFetched 0 wit_env 3 (HttpResponse 200 (depthText wit_depth))]"

lemma wit_conv:
  "convertRaw rat_pkg (updatePayload rat_pkg wit_update) = Inr (updateDiff wit_update)"
  "de_Symbol (updateDiff wit_update) = ''BTCUSDT''" "NewDispatcher [(''BTCUSDT'', 0)] ''BTCUSDT'' = Some 0"
  by (rule convert_updatePayload [OF rat_pkg_strings])
    (simp_all add: updateDiff_def wit_update_def wit_upper NewDispatcher_def)

lemma wit_ingest_run:
  "\<exists>hs. ingest_run rat_pkg (NewDispatcher [(''BTCUSDT'', 0)])
     (map Start [new_handler (handlerConfigOf (hd wit_symbols)) ''BTCUSDT'' True]) wit_events hs"
proof -
  let ?r = "NewDispatcher [(''BTCUSDT'', 0)]"
  let ?hs = "map Start [new_handler (handlerConfigOf (hd wit_symbols)) ''BTCUSDT'' True :: (rat book, rat) handler]"
  let ?hs1 = "deliver rat_pkg ?r wit_env (updatePayload rat_pkg wit_update) ?hs"
  have run1: "ingest_run rat_pkg ?r ?hs [IngestFrame wit_env (updatePayload rat_pkg wit_update)] ?hs1"
    using run_frame [OF run_start] by (metis append_Nil)
  have "0 < h_bootstrapG (?hs1 ! 0)"
    by (simp add: deliver_def wit_conv HandleDiff_def new_handler_def NewHandler_def Start_def bufferLocked_def
        kickoffSnapshotLocked_def call_def)
  from run_fetched [OF run1 _ this, of wit_env 3 "HttpResponse 200 (depthText wit_depth)"]
  show ?thesis by (auto simp: wit_events_def)
qed

lemma wit_fetch:
  "FetchSnapshot rat_pkg 3 ''BTCUSDT'' (HttpResponse 200 (depthText wit_depth)) =
     Inr \<lparr>se_Symbol = ''BTCUSDT'', se_CapturedAt = 3, se_LastUpdateID = 1, se_Bids = [], se_Asks = []\<rparr>"
  by (simp add: FetchSnapshot_def wit_depth_def unmarshal_depthText levels_ok_print
      rat_pkg_text parse_printLevels rat_pkg_strings wit_upper)

lemma ingest_pipeline_witness:
  "\<exists>hs es. hrun (book_ops rat_pkg) (new_handler (handlerConfigOf (hd wit_symbols)) ''BTCUSDT'' True)
     (EvStart # es) (hs ! 0) \<and> diffsOf es = [updateDiff wit_update] \<and>
     fetchesOf es = [(wit_env, Inr \<lparr>se_Symbol = ''BTCUSDT'', se_CapturedAt = 3, se_LastUpdateID = 1,
       se_Bids = [], se_Asks = []\<rparr>)]"
proof -
  obtain hs where run: "ingest_run rat_pkg (NewDispatcher [(''BTCUSDT'', 0)])
     (map Start [new_handler (handlerConfigOf (hd wit_symbols)) ''BTCUSDT'' True]) wit_events hs"
    using wit_ingest_run by blast
  have frames: "framesOf wit_events = [updatePayload rat_pkg wit_update]" by (simp add: wit_events_def)
  have sent: "runLoop (normalizeStream wit_stream) 1 [wit_session_script] =
      Some ([updatePayload rat_pkg wit_update], [1])"
    using delivers_sent [OF rat_pkg_text wit_delivers]
    by (simp add: wit_session_script_def Let_def)
  have one: "list_all2 (delivers rat_pkg) [wit_session_script] [[wit_update]]"
    using wit_delivers by simp
  have i: "0 < length wit_symbols"
    and last: "\<forall>j. 0 < j \<and> j < length wit_symbols \<longrightarrow> [''BTCUSDT''] ! j \<noteq> [''BTCUSDT''] ! 0"
    by (auto simp: wit_symbols_def)
  from ingest_pipeline [OF rat_pkg_strings rat_pkg_text wit_built one sent run frames i refl refl] last
  obtain es where es: "hrun (book_ops rat_pkg) (new_handler (handlerConfigOf (wit_symbols ! 0)) ''BTCUSDT'' True)
      (EvStart # es) (hs ! 0)"
    "diffsOf es = filter (\<lambda>d. de_Symbol d = ''BTCUSDT'') (map updateDiff (concat [[wit_update]]))"
    "fetchesOf es = map (\<lambda>(env, now, res). (env, case FetchSnapshot rat_pkg now ''BTCUSDT'' res of
        Inl err \<Rightarrow> Inl [] | Inr snap \<Rightarrow> Inr snap)) (ownFetches 0 wit_events)"
    by auto
  from es(1) have "hrun (book_ops rat_pkg) (new_handler (handlerConfigOf (hd wit_symbols)) ''BTCUSDT'' True)
      (EvStart # es) (hs ! 0)" by (simp add: wit_symbols_def)
  moreover have "diffsOf es = [updateDiff wit_update]" using es(2) by (simp add: wit_conv)
  moreover have "fetchesOf es = [(wit_env, Inr \<lparr>se_Symbol = ''BTCUSDT'', se_CapturedAt = 3, se_LastUpdateID = 1,
       se_Bids = [], se_Asks = []\<rparr>)]" using es(3) by (simp add: wit_events_def wit_fetch)
  ultimately show ?thesis by blast
qed

text \<open>
  C9 (liveness): a configured symbol becomes synced and the service healthy. If what reaches the
  handler of the symbol is a stream without gaps, some failed fetches while the context lives, and one
  fetch whose snapshot lies within the stream, in any order, and the buffer had room until
  then: the handler ends Synced at the last id of the stream, its book is the snapshot with exactly
  the newer diffs applied, these are the diffs it has written, and the health answer is 200,
  whatever happened to the other symbols.
\<close>

theorem symbol_becomes_synced:
  fixes D :: "'d::linordered_idom decimal_pkg"
  assumes build: "buildSymbolHandlers l2 scs = Inr (handlers, concrete, names)"
    and run: "ingest_run D (NewDispatcher handlers) (map Start concrete) evs hs" and i: "i < length scs"
    and own: "handlerEvents D (NewDispatcher handlers) (map Start concrete ! i) i evs =
       pre @ EvFetched env (Inr snap) # map (\<lambda>(env, d). EvDiff env d) post"
    and pre: "pre = EvDiff env0 d0 # pre'" "\<forall>e \<in> set pre. no_snapshot e"
    and room: "int (length (diffsOf pre)) \<le> hc_MaxBufferSize (normalizeConfig (handlerConfigOf (scs ! i)))"
    and ds: "ds = diffsOf pre @ map snd post" "contiguous n ds"
    and snap: "n \<le> sint (se_LastUpdateID snap)" "se_LastUpdateID snap <s de_FinalUpdateID (last ds)"
  shows "h_state (hs ! i) = Synced \<and> h_lastFinalUpdateID (hs ! i) = de_FinalUpdateID (last ds) \<and>
     view_of (h_book (hs ! i)) = foldl (abs_apply D) (abs_load D snap)
       (filter (\<lambda>d. se_LastUpdateID snap <s de_FinalUpdateID d) ds) \<and>
     diffs_written (h_calls (hs ! i)) = filter (\<lambda>d. se_LastUpdateID snap <s de_FinalUpdateID d) ds \<and>
     hr_status (ingestHealth hs) = 200"
proof -
  note mine = service_handler [OF build run i]
  obtain h where "hrun (book_ops D) (Start (new_handler (handlerConfigOf (scs ! i)) (names ! i) l2))
       (pre @ EvFetched env (Inr snap) # map (\<lambda>(env, d). EvDiff env d) post) h"
    and h: "h_state h = Synced" "h_lastFinalUpdateID h = de_FinalUpdateID (last ds)"
     "view_of (h_book h) = foldl (abs_apply D) (abs_load D snap)
       (filter (\<lambda>d. se_LastUpdateID snap <s de_FinalUpdateID d) ds)"
     "diffs_written (h_calls h) = filter (\<lambda>d. se_LastUpdateID snap <s de_FinalUpdateID d) ds"
    using bootstrap_completes [OF pre room ds snap] by blast
  then have "hs ! i = h" using mine(1) by (intro hrun_det) (simp_all add: own)
  moreover have "hs ! i \<in> set hs" using i mine(3) by simp
  ultimately show ?thesis using h by (auto simp: ingestHealth_def)
qed

lemma symbol_becomes_synced_witness:
  "\<exists>hs. ingest_run rat_pkg (NewDispatcher [(''BTCUSDT'', 0)])
       (map Start [new_handler (handlerConfigOf (hd wit_symbols)) ''BTCUSDT'' True])
       [IngestFrame wit_env (updatePayload rat_pkg wit_update), IngestFetched 0 wit_env 3 (HttpResponse 200 (depthText wit_depth))] hs \<and>
     h_lastFinalUpdateID (hs ! 0) = 2 \<and> hr_status (ingestHealth hs) = 200"
proof -
  let ?r = "NewDispatcher [(''BTCUSDT'', 0)]" and ?res = "HttpResponse 200 (depthText wit_depth)"
  let ?h0 = "new_handler (handlerConfigOf (hd wit_symbols)) ''BTCUSDT'' True :: (rat book, rat) handler"
  let ?evs = "[IngestFrame wit_env (updatePayload rat_pkg wit_update), IngestFetched 0 wit_env 3 ?res]"
  let ?snap = "\<lparr>se_Symbol = ''BTCUSDT'', se_CapturedAt = 3, se_LastUpdateID = 1, se_Bids = [], se_Asks = []\<rparr>"
  have route: "?r ''BTCUSDT'' = Some 0" by (simp add: NewDispatcher_def wit_upper)
  have conv: "convertRaw rat_pkg (updatePayload rat_pkg wit_update) = Inr (updateDiff wit_update)"
    by (rule convert_updatePayload [OF rat_pkg_strings])
  have sym: "de_Symbol (updateDiff wit_update) = ''BTCUSDT''"
    by (simp add: updateDiff_def wit_update_def wit_upper)
  have fetched: "fetchOutcome rat_pkg 3 (Start ?h0) ?res = Inr ?snap"
    by (simp add: fetchOutcome_def FetchSnapshot_def wit_depth_def unmarshal_depthText levels_ok_print
        rat_pkg_text parse_printLevels rat_pkg_strings new_handler_def NewHandler_def Start_def
        normalizeConfig_def handlerConfigOf_def wit_symbols_def wit_upper)
  have own: "handlerEvents rat_pkg ?r (map Start [?h0] ! 0) 0 ?evs =
      [EvDiff wit_env (updateDiff wit_update)] @ EvFetched wit_env (Inr ?snap) #
        map (\<lambda>(env, d). EvDiff env d) []"
    using fetched by (simp add: handlerEvents_def List.map_filter_def handlerEvent_def conv sym route)
  let ?hs1 = "deliver rat_pkg ?r wit_env (updatePayload rat_pkg wit_update) (map Start [?h0])"
  have run1: "ingest_run rat_pkg ?r (map Start [?h0]) [IngestFrame wit_env (updatePayload rat_pkg wit_update)] ?hs1"
    using run_frame [OF run_start] by (metis append_Nil)
  have "0 < h_bootstrapG (?hs1 ! 0)"
    by (simp add: deliver_def conv sym route HandleDiff_def new_handler_def NewHandler_def Start_def bufferLocked_def
        kickoffSnapshotLocked_def call_def)
  from run_fetched [OF run1 _ this, of wit_env 3 ?res] obtain hs
    where run: "ingest_run rat_pkg ?r (map Start [?h0]) ?evs hs" by auto
  have ids: "contiguous 0 [updateDiff wit_update]" and final: "de_FinalUpdateID (updateDiff wit_update) = 2"
    by (simp_all add: updateDiff_def wit_update_def)
  from symbol_becomes_synced [OF wit_built run _ own refl _ _ refl, of 0] ids final
  have "h_lastFinalUpdateID (hs ! 0) = 2 \<and> hr_status (ingestHealth hs) = 200"
    by (simp add: wit_symbols_def handlerConfigOf_def normalizeConfig_def word_sless_alt)
  with run show ?thesis by blast
qed

section \<open>Settings of the service\<close>

text \<open>The second look at REDIS_ADDR finds nothing the configuration did not have.\<close>

lemma redisAddr_fallback_dead:
  assumes "viper_precedence V getenv file" and "loadConfig V path = Inr cfg"
  shows "redisAddrOf getenv cfg = ac_RedisAddr cfg"
proof -
  obtain s where "readAndUnmarshal V (ingestCalls path) = Inr s" "ac_RedisAddr cfg = st_string s ''redis.addr''"
    using loader_settings(3) [OF assms(2)] by blast
  then have "ac_RedisAddr cfg = effective getenv (file path) (ingestCalls path) ''redis.addr''"
    using readAndUnmarshal_string [OF assms(1), of path "tl (ingestCalls path)" s] by (simp add: ingestCalls_def)
  then show ?thesis
    by (auto simp: redisAddrOf_def effective_def ingestCalls_def Let_def split: if_splits option.splits)
qed

lemma Start_ctx: "h_ctxSet (Start h)"
  by (simp add: Start_def)

text \<open>A service that starts has its three variables, a symbol, and a name for each of its handlers.\<close>

lemma ingest_boots:
  assumes "bootIngest W path = Inr s"
  shows "(\<forall>k \<in> {''BINANCE_API_KEY'', ''BINANCE_API_SECRET'', ''DATABASE_DSN''}. iw_getenv W k \<noteq> []) \<and>
     is_handlers s \<noteq> [] \<and> (\<forall>h \<in> set (is_handlers s). handler_wf 0 h \<and> h_ctxSet h) \<and>
     (\<forall>i \<in> ran (is_routes s). i < length (is_handlers s)) \<and>
     sc_Symbols (is_stream s) \<noteq> [] \<and> mg_loops (is_manager s) = 1"
proof -
  obtain cfg logger handlers concrete names where
    env: "requireEnvs (iw_getenv W) [''BINANCE_API_KEY'', ''BINANCE_API_SECRET'', ''DATABASE_DSN''] = None"
    and cfg: "ac_Symbols cfg \<noteq> []"
    and build: "buildSymbolHandlers (ingestL2Publisher (iw_getenv W) cfg \<noteq> None) (ac_Symbols cfg) =
      Inr (handlers, concrete, names)"
    and s: "s = \<lparr>is_l2pub = ingestL2Publisher (iw_getenv W) cfg, is_routes = NewDispatcher handlers,
      is_handlers = map Start concrete, is_stream = ingestStream cfg names,
      is_manager = fst (Connect NewManager)\<rparr>"
    using assms by (auto simp: bootIngest_def Let_def split: option.splits sum.splits if_splits prod.splits)
  note built = buildSymbolHandlers_result [OF build]
  have "\<forall>h \<in> set concrete. handler_wf 0 h"
    by (auto simp: built(1) new_handler_def handler_wf_New)
  moreover have "\<forall>i \<in> ran (NewDispatcher handlers). i < length concrete"
    using built(4) by (auto simp: ran_def last_index_def built(1,2))
  ultimately show ?thesis
    using env cfg built(1,2)
    by (auto simp: s requireEnvs_None handler_wf_Start Start_ctx ingestStream_def normalizeStream_def
        Connect_def NewManager_def)
qed

end
