(* ===== verification/Market_Data.thy ===== *)
theory Market_Data
  imports Recorded_Replay Signals_Service
begin

text \<open>
  The market data path from end to end: a synced handler of the ingest service (symbol/handler.go),
  its publisher (publisher/l2.go), the signal service (signals/consumer, signals/compute,
  signals/publisher) and the decoder of the trading service (execution/consumer).
\<close>

section \<open>The entries of a handler's stream\<close>

text \<open>What the handler published, as entries with the ids Redis gave them.\<close>

definition publishedUpdate ::
  "string \<Rightarrow> time \<times> int64 \<times> 'd price_level list \<times> 'd price_level list \<Rightarrow> 'd published_update" where
  "publishedUpdate i p = (case p of (t, u, bids, asks) \<Rightarrow>
     \<lparr>pu_id = i, pu_time = t, pu_lastUpdateID = u, pu_bids = bids, pu_asks = asks\<rparr>)"

definition entriesOf ::
  "'d decimal_pkg \<Rightarrow> l2_publisher \<Rightarrow> string \<Rightarrow> string \<Rightarrow> string list \<Rightarrow>
   (time \<times> int64 \<times> 'd price_level list \<times> 'd price_level list) list \<Rightarrow> (string \<times> string \<times> fields) list" where
  "entriesOf D pub runID symbol ids ps =
     map (\<lambda>(i, p). updateEntry D pub runID symbol (publishedUpdate i p)) (zip ids ps)"

lemma entriesOf_updates:
  "entriesOf D pub runID symbol ids ps =
     map (updateEntry D pub runID symbol) (map (\<lambda>(i, p). publishedUpdate i p) (zip ids ps))"
  by (simp add: entriesOf_def comp_def split_def)

text \<open>All of them are entries of the symbol's stream, so one read may deliver them all.\<close>

lemma delivered_entries:
  "delivered [GroupEntries [(inputKey (lp_namespace pub) symbol,
      map snd (entriesOf D pub runID symbol ids ps))]] = entriesOf D pub runID symbol ids ps"
  by (simp add: entriesOf_def updateEntry_fields comp_def split_def)

section \<open>Properties\<close>

text \<open>
  C6 (functional): from the exchange's diffs to the signals trading decides on. A synced handler
  with a publisher gets a run of contiguous diffs; the signal service reads what it published, in
  any batches and with any timeouts and errors between them. Then every entry is acknowledged
  once, in order, and what the trading service decodes of the signals published is, diff by diff and in
  order, the three signals of the book after the diff, cut to the handler's depth, with the
  diff's time.
\<close>

theorem diffs_become_signals:
  fixes D :: "'d::linordered_idom decimal_pkg"
  assumes D: "decimal_strings D" "decimal_text D"
    and sync: "h_state h = Synced" "h_hasL2pub h" and sy: "symbol \<noteq> []"
    and xs: "chained (h_lastFinalUpdateID h) (map snd xs)" "\<forall>x \<in> set xs. time_ok (de_EventTime (snd x))"
    and calls: "calls = drop (length (h_calls h)) (h_calls (liveRun D xs h))"
    and ids: "length ids = length xs"
    and read: "delivered rs = entriesOf D pub runID symbol ids (live_published calls)" "GroupError True \<notin> set rs"
  shows "acks (signalReadLoop D depth rs) = map (\<lambda>i. (inputKey (lp_namespace pub) symbol, i)) ids \<and>
    map (\<lambda>sg. decodeSignalEvent D (xa_Values (PublishSignalEvent D (lp_namespace pub) sg)))
      (published (signalReadLoop D depth rs)) =
    map Some (concat (map (\<lambda>(t, u, bids, asks). AllSignals D \<lparr>l2_RunID = runID, l2_Symbol = ToUpper symbol,
         l2_EventTime = t, l2_LastUpdateID = u, l2_Bids = bids, l2_Asks = asks\<rparr> depth)
      (tops D (hc_DepthLimit (h_cfg h)) (h_book h) (map snd xs))))"
proof -
  let ?tops = "tops D (hc_DepthLimit (h_cfg h)) (h_book h) (map snd xs)"
  let ?us = "map (\<lambda>(i, p). publishedUpdate i p) (zip ids ?tops)"
  have tops: "live_published calls = ?tops"
    using liveRun_calls [OF sync xs(1), of D "\<lambda>d. 0"] by (auto simp: calls)
  have len: "length ids = length ?tops" using ids by simp
  have entries: "delivered rs = map (updateEntry D pub runID symbol) ?us"
    by (simp only: read(1) tops entriesOf_updates)
  have "time_ok (pu_time u)" if "u \<in> set ?us" for u
  proof -
    from that obtain i p where "p \<in> set ?tops" and u: "u = publishedUpdate i p"
      by (auto dest: set_zip_rightD)
    with top_time obtain d where "d \<in> set (map snd xs)" "fst p = de_EventTime d" by blast
    with xs(2) show ?thesis by (auto simp: u publishedUpdate_def split: prod.split)
  qed
  then have times: "\<forall>u \<in> set ?us. time_ok (pu_time u)" by blast
  have "map pu_id ?us = map fst (zip ids ?tops)"
    by (simp add: publishedUpdate_def split_def)
  then have pids: "map pu_id ?us = ids" using len by simp
  have events: "map (\<lambda>u. AllSignals D (eventOf runID symbol u) depth) ?us =
      map (\<lambda>(t, u, bids, asks). AllSignals D \<lparr>l2_RunID = runID, l2_Symbol = ToUpper symbol,
         l2_EventTime = t, l2_LastUpdateID = u, l2_Bids = bids, l2_Asks = asks\<rparr> depth) (map snd (zip ids ?tops))"
    by (simp add: eventOf_def publishedUpdate_def split_def)
  have "acks (signalReadLoop D depth rs) = map (\<lambda>i. (inputKey (lp_namespace pub) symbol, i)) (map pu_id ?us)"
    using updates_become_signals [OF D sy times entries read(2)] by (simp add: comp_def)
  then show ?thesis
    using updates_become_signals [OF D sy times entries read(2), of depth] len
    unfolding pids events by simp
qed

lemma diffs_become_signals_witness:
  "acks (signalReadLoop rat_pkg 10 [GroupTimeout, GroupEntries [(inputKey ''erebor:live'' ''BTCUSDT'',
     map snd (entriesOf rat_pkg wit_pub [] ''BTCUSDT'' [''1-0''] (live_published
       (drop (length (h_calls wit_synced)) (h_calls (liveRun rat_pkg wit_xs wit_synced))))))]]) =
   [(inputKey ''erebor:live'' ''BTCUSDT'', ''1-0'')]"
proof -
  let ?calls = "drop (length (h_calls wit_synced)) (h_calls (liveRun rat_pkg wit_xs wit_synced))"
  let ?entries = "entriesOf rat_pkg wit_pub [] ''BTCUSDT'' [''1-0''] (live_published ?calls)"
  let ?rs = "[GroupTimeout, GroupEntries [(inputKey ''erebor:live'' ''BTCUSDT'', map snd ?entries)]]"
  have "delivered ?rs = ?entries"
    using delivered_entries [of wit_pub "''BTCUSDT''"] by (simp add: wit_pub_def)
  moreover have "chained (h_lastFinalUpdateID wit_synced) (map snd wit_xs)"
    "\<forall>x \<in> set wit_xs. time_ok (de_EventTime (snd x))"
    by (simp_all add: wit_xs_def wit_next_def wit_diff_def wit_run_hexec(3) time_ok_def)
  ultimately show ?thesis
    using diffs_become_signals [OF rat_pkg_strings rat_pkg_text wit_run_hexec(2) wit_synced_small(3),
        of "''BTCUSDT''" wit_xs ?calls "[''1-0'']" ?rs wit_pub "[]" 10]
    by (simp add: wit_xs_def wit_pub_def)
qed

end
