(* ===== verification/Spec2Isabelle.thy ===== *)
theory Spec2Isabelle
  imports Backtest_Flow Wiring
    Ingest_Service Market_Data Execution_Service Backtest_Service
begin

text \<open>
  erebor is a trading platform for order book data. Four services are built from src/engine:
  \<^item> erebor-ingest follows an exchange's depth stream, keeps an order book per symbol in step with
    it, stores diffs and checkpoints and publishes book updates to Redis;
  \<^item> erebor-signals reads book updates and publishes signals computed from them;
  \<^item> erebor-backtest replays stored diffs as book updates, simulates a strategy on them, and stores
    trades, an equity curve and performance metrics;
  \<^item> erebor-execution trades on live signals on paper, with durable positions and a session that
    survives restarts.

  \<^bold>\<open>Theories.\<close> Each models one component, in the order of its code: records for the structs,
  datatypes for the enumerations, one definition per function or handler, then its lemmas.
  \<^item> \<open>Prelude\<close>: 64-bit words for Go's int64, time as nanoseconds, the decimal package as a
    parameter, list and map lemmas. \<open>GoStrings\<close>: the functions of strings and strconv in
    use. \<open>Domain\<close>: the event and record types of the domain packages. \<open>Decimal_Instance\<close>:
    the rationals as one instance of the decimal parameter, used by the witnesses.
  \<^item> \<open>GoTime\<close>: RFC3339Nano and the literal layout of the publishers, printing and parsing.
    \<open>GoJSON\<close>: encoding/json as a value type with its printer and its parser, nesting limit included.
    \<open>Wire\<close>: the fields of every stream entry, what each publisher (publisher/l2.go,
    backtest/publisher, signals/publisher, the executor, execution/order) adds and each consumer decodes.
    \<open>Feed\<close>: the exchange's frames and depth response. \<open>Tables\<close>: what the repositories share of Postgres.
  \<^item> \<open>Book\<close> (book/book.go): a side as the association list behind the Go map; its meaning is
    the finite map from prices to quantities, and every operation refines one on it.
  \<^item> \<open>Symbol_Handler\<close>, \<open>Symbol_Handler_Correct\<close> (symbol/handler.go, state.go): the
    bootstrap state machine, its reachable states, and the refinement of the synced book to
    snapshot plus diffs. \<open>Bootstrap\<close>: over a stream without gaps the bootstrap completes.
  \<^item> \<open>Ingest\<close> (dispatch, fetcher, stream): the dispatcher over the handlers, the depth
    snapshot, the reconnect loop. \<open>Ingest_Repository\<close> (repository/repository.go): the tables of diffs
    and checkpoints as a store of recorded books.
  \<^item> \<open>Signals\<close> (signals/compute, consumer): the three signals and the group read loop.
  \<^item> \<open>Fillmath\<close>, \<open>Risk\<close> (fillmath/fill.go, risk/*.go): fill price, fee, and the risk checker
    with its halt stores.
  \<^item> \<open>Streams\<close>: the XREAD loop and the XRANGE drain that the executor and the collector share.
  \<^item> \<open>Executor\<close> (backtest/execution, execution/decider), \<open>Collector\<close> (backtest/collector),
    \<open>Metrics\<close> (backtest/metrics), \<open>Replay\<close> (backtest/replay), \<open>Runner\<close> (backtest/runner and its
    command line), \<open>Backtest_Repository\<close> (backtest/repository): the backtest.
  \<^item> \<open>Paper_Repository\<close>, \<open>Session\<close>, \<open>Blotter\<close>, \<open>L2Cache\<close>, \<open>Consumer\<close>, \<open>Live\<close>
    (execution/...): the paper trading service; \<open>Live\<close> is the signal handler over the other parts
    and the recovery of a session.
  \<^item> The mains. \<open>Settings\<close>: the configuration packages with viper as a parameter, the
    environment, loggers and health answers. \<open>Ingest_Service\<close>, \<open>Signals_Service\<close>,
    \<open>Execution_Service\<close>, \<open>Backtest_Service\<close> (the four cmd/*/main.go): each start as the code's
    sequence of steps, any of which may end the process with its exit code; serving, over the
    components above; the shutdown.
  \<^item> The compositions: \<open>Recorded_Replay\<close> (handler, repository, replay engine),
    \<open>Backtest_Results\<close> (collector and runner over the result tables, metrics from them),
    \<open>Message_Flow\<close> (publishers and readers of the streams; executor and collector; the paper
    trading service beside the backtest executor), \<open>Market_Data\<close> (handler, publisher, signal
    service and the decoder of the trading service), \<open>Backtest_Flow\<close> (replay engine, publisher,
    executor, collector, result tables and metrics, against the strategy on the recorded book),
    \<open>Wiring\<close> (the constructors of collector, executor, runner, publisher and consumers with their
    functional options, and the Redis streams their goroutines use).

  \<^bold>\<open>How the code is read.\<close>
  \<^item> A method under a mutex is atomic, so it is a function on the state. Where a component
    releases the lock between two calls, the calls are separate steps: the executor of a symbol
    checks (\<open>checkL2\<close>), moves its position (\<open>moveL2\<close>), adds the order to the stream (\<open>publishL2\<close>) and
    books it with the risk checker (\<open>bookL2\<close>), interleaved with the other symbols' steps; a snapshot
    fetch ends in a step of its own.
  \<^item> What comes from outside (the clock, UUIDs, replies of Redis, of the database and of the
    exchange, cancelled contexts) is an argument; a loop over replies is a recursion over their
    list, and a list that ends means the loop is still running. No definition uses fuel. A statement
    of a repository takes the database's next answer from a script; the rows of a query may stop with
    an error of Scan or of the iteration (\<open>scanRows\<close>).
  \<^item> What goes outside (published events, written rows, sleeps) is appended to a list of calls,
    so that theorems speak of effects and their order. Logging is left out.
  \<^item> Errors are values of a sum or an option. A failed write that the code only logs is not a branch.
    The panic of \<open>decimal.NewFromFloat\<close> on a NaN or an infinity is one: \<open>computeMetrics\<close> has no value
    then, and the process ends with the run still RUNNING.
  \<^item> \<open>decimal.Decimal\<close> is an ordered integral domain with exact addition and multiplication;
    division rounds at 16 digits (\<open>decimal_div\<close>), and printing is injective and parsed back
    (\<open>decimal_strings\<close>, \<open>decimal_text\<close>). Postgres is the parameter \<open>pg\<close> of \<open>Tables\<close>: a timestamp
    is kept to the microsecond, a jsonb text keeps its meaning. float64 appears only in
    \<open>Metrics\<close> and the NX mode, as uninterpreted operations.

  \<^bold>\<open>Interfaces.\<close> Where a component relies on another through a Go interface, the contract is a
  locale and the provider's operations interpret it: \<open>order_book_contract\<close> (the handler's book),
  \<open>symbol_handler\<close> (the dispatcher's handlers), \<open>signal\<close> (the signals of \<open>AllSignals\<close>),
  \<open>pacer\<close> (the replay's speed control), \<open>recorded_book\<close> (the ingest repository under the handler
  and the replay engine), \<open>session_store_contract\<close> and
  \<open>fill_store_contract\<close> (the paper repository under the session manager and the blotter).
  Redis and viper have no code here: what they document is a hypothesis (\<open>redis_hash\<close>,
  \<open>redis_group\<close>, the replies of a stream in \<open>Streams\<close>, \<open>viper_precedence\<close>).

  \<^bold>\<open>What is shown.\<close>
  \<^item> Book and handler: a synced book is the fetched snapshot with the buffered diffs replayed and a contiguous
    run of later ones, a gap then forces a resync, the invariant of all reachable states; the bootstrap completes.
  \<^item> Risk: which orders pass, halts are permanent and survive a restart, positions stay within
    limits.
  \<^item> Backtest: the replay of a recording without gaps publishes the book of every diff; under any
    interleaving the executor is in step with the risk checker up to the orders in flight; the collector's equity is the marked portfolio, the
    metrics are what they are named, and a run's status only moves forward.
  \<^item> Storage: what is recorded and the results of a run are read back as written, each trade once; what
    comes back when a statement, Scan or iteration fails; and the metrics and the row of a run are those of what
    happened.
  \<^item> Streams: every entry is read as it was published, unreadable ones change nothing for the loops, the drains
    end with every entry handled once.
  \<^item> Paper trading: in a new session blotter and risk checker agree, a halted service makes no fill, at most one
    session runs, no signal is lost.
  \<^item> Services: the handlers of the ingest service get exactly what the exchange sent for their
    symbols, however the connection breaks; a symbol becomes synced; a killed trading service
    resumes with the positions of its blotter and the equity of its latest point; what the exit codes say.
  \<^item> Compositions: what trading decodes are the signals of the book after each diff; a replay
    of a complete recording publishes what the live handler published; the collector ends with the executor's cash and
    positions; a backtest's trades, curve and metrics are those of the strategy on the recorded
    book (one symbol, no gaps); the parts of a run meet on streams that no other run uses; paper trading without lag makes the
    backtest's orders.
  \<^item> Lemmas after the properties of a theory show behaviours that contradict a comment or a
    specification, on concrete or general runs.

  \<^bold>\<open>Not modelled.\<close> What the code only calls: viper, the flag package (what it made of the command line
    of erebor-backtest is an argument, its own exits included; the signal service's only flag is the path of
    its configuration), zap and its encoders, the
  HTTP servers and clients, and the protocols of Redis, Postgres and websockets; \<open>json.Unmarshal\<close>
  into the strategy configuration and \<open>url.Parse\<close>, which are parameters. What is logged. Timeouts of
  blocking reads: only their outcome is a reply. The
  error a second insert of one trade id would give in \<open>PersistFill\<close>, because the ids are new UUIDs. The test
  utilities (internal/testutil), which only tests use; and the dashboard, which is another program.
\<close>

end
